(* ===== verification/Geminio_Prelude.thy ===== *)
theory Geminio_Prelude
  imports Main "HOL-Library.Word"
begin

unbundle bit_operations_syntax

text \<open>
  Shared ground of the development: the machine types of the Go sources, the outcome of a Go
  call (a value, a returned error or a panic), Go slices with their capacity, byte readers as
  \<open>io.ReadFull\<close> sees them, and the big-endian integer codecs of \<open>encoding/binary\<close>.
  The lemmas collected in \<open>go_simps\<close> evaluate straight-line code over these operations, the
  ones in \<open>be_simps\<close> evaluate the integer codecs.
\<close>

named_theorems go_simps \<open>evaluation rules for outcomes, slices and readers\<close>
named_theorems be_simps \<open>evaluation rules for the big-endian codecs\<close>

section \<open>Machine types\<close>

type_synonym byte = "8 word"
type_synonym bytes = "byte list"
type_synonym u16 = "16 word"
type_synonym u32 = "32 word"
type_synonym u64 = "64 word"

text \<open>A Go string is a byte sequence; \<open>lit\<close> turns a literal into one.\<close>

definition lit :: "string \<Rightarrow> bytes" where
  "lit s = map of_char s"

section \<open>Outcomes of Go calls\<close>

datatype go_error =
    EOF
  | ErrUnexpectedEOF
  | ErrUnsupportedPacket
  | ErrIncompletePacket
  | ErrExpectingData
  | ErrInvalidArguments
  | ErrIllegalPacket
  | ErrPacketTooLarge
  | ErrJson
  | ErrNew bytes

datatype go_panic =
    IndexOutOfRange
  | SliceOutOfRange
  | NilDereference
  | NilMapWrite
  | TypeAssertion
  | UnlockOfUnlocked
  | CloseOfClosed

datatype 'a outcome = Ret 'a | Fail go_error | Panic go_panic

fun obind :: "'a outcome \<Rightarrow> ('a \<Rightarrow> 'b outcome) \<Rightarrow> 'b outcome" where
  "obind (Ret x) f = f x"
| "obind (Fail e) f = Fail e"
| "obind (Panic p) f = Panic p"

fun panics :: "'a outcome \<Rightarrow> bool" where
  "panics (Panic p) = True"
| "panics (Ret x) = False"
| "panics (Fail e) = False"

definition of_option :: "go_error \<Rightarrow> 'a option \<Rightarrow> 'a outcome" where
  "of_option e m = (case m of None \<Rightarrow> Fail e | Some x \<Rightarrow> Ret x)"

lemma of_option_simps [go_simps, simp]:
  "of_option e None = Fail e"
  "of_option e (Some x) = Ret x"
  by (simp_all add: of_option_def)

lemma panics_of_option [simp]: "\<not> panics (of_option e m)"
  by (cases m) simp_all

lemma obind_Ret_iff: "obind m f = Ret y \<longleftrightarrow> (\<exists>x. m = Ret x \<and> f x = Ret y)"
  by (cases m) auto

lemma panics_obind: "panics (obind m f) \<longleftrightarrow> panics m \<or> (\<exists>x. m = Ret x \<and> panics (f x))"
  by (cases m) auto

lemma obind_assoc [go_simps]: "obind (obind m f) g = obind m (\<lambda>x. obind (f x) g)"
  by (cases m) auto

section \<open>Slices\<close>

text \<open>
  A Go slice is a window of \<open>slen\<close> bytes on a backing array: indexing is checked against the
  length, re-slicing \<open>s[i:j]\<close> against the capacity, which is the length of \<open>backing\<close> here.
\<close>

record slice =
  backing :: bytes
  slen :: nat

definition sl_wf :: "slice \<Rightarrow> bool" where
  "sl_wf s \<longleftrightarrow> slen s \<le> length (backing s)"

definition sl_bytes :: "slice \<Rightarrow> bytes" where
  "sl_bytes s = take (slen s) (backing s)"

text \<open>The slice that \<open>make\<close> followed by a complete read gives: no spare capacity.\<close>

definition sl_full :: "bytes \<Rightarrow> slice" where
  "sl_full bs = \<lparr>backing = bs, slen = length bs\<rparr>"

definition sl_index :: "slice \<Rightarrow> nat \<Rightarrow> byte outcome" where
  "sl_index s i = (if i < slen s then Ret (backing s ! i) else Panic IndexOutOfRange)"

definition sl_sub :: "slice \<Rightarrow> nat \<Rightarrow> nat \<Rightarrow> slice outcome" where
  "sl_sub s i j =
     (if i \<le> j \<and> j \<le> length (backing s) then Ret \<lparr>backing = drop i (backing s), slen = j - i\<rparr>
      else Panic SliceOutOfRange)"

definition sl_from :: "slice \<Rightarrow> nat \<Rightarrow> slice outcome" where
  "sl_from s i = sl_sub s i (slen s)"

lemma sl_full_sel [simp, go_simps]:
  "backing (sl_full bs) = bs" "slen (sl_full bs) = length bs" "sl_bytes (sl_full bs) = bs"
  by (simp_all add: sl_full_def sl_bytes_def)

lemma sl_wf_full [simp]: "sl_wf (sl_full bs)"
  by (simp add: sl_wf_def)

lemma sl_index_full [go_simps]: "i < length bs \<Longrightarrow> sl_index (sl_full bs) i = Ret (bs ! i)"
  by (simp add: sl_index_def)

lemma sl_index_panics: "panics (sl_index s i) \<longleftrightarrow> slen s \<le> i"
  by (simp add: sl_index_def)

lemma sl_sub_panics: "panics (sl_sub s i j) \<longleftrightarrow> \<not> (i \<le> j \<and> j \<le> length (backing s))"
  by (simp add: sl_sub_def)

lemma sl_sub_Ret:
  "i \<le> j \<Longrightarrow> j \<le> length (backing s) \<Longrightarrow>
   sl_sub s i j = Ret \<lparr>backing = drop i (backing s), slen = j - i\<rparr>"
  by (simp add: sl_sub_def)

section \<open>Big-endian integers\<close>

fun put_be :: "nat \<Rightarrow> 'a::len word \<Rightarrow> bytes" where
  "put_be 0 w = []"
| "put_be (Suc n) w = ucast (drop_bit (8 * n) w) # put_be n w"

definition get_be :: "bytes \<Rightarrow> 'a::len word" where
  "get_be bs = foldl (\<lambda>a b. push_bit 8 a OR ucast b) 0 bs"

definition PutUint64 :: "u64 \<Rightarrow> bytes" where "PutUint64 v = put_be 8 v"
definition PutUint32 :: "u32 \<Rightarrow> bytes" where "PutUint32 v = put_be 4 v"
definition PutUint16 :: "u16 \<Rightarrow> bytes" where "PutUint16 v = put_be 2 v"

text \<open>\<open>binary.BigEndian.Uint64\<close> and its kin panic on a shorter slice.\<close>

definition Uint64 :: "slice \<Rightarrow> u64 outcome" where
  "Uint64 s = (if 8 \<le> slen s then Ret (get_be (take 8 (backing s))) else Panic IndexOutOfRange)"

definition Uint32 :: "slice \<Rightarrow> u32 outcome" where
  "Uint32 s = (if 4 \<le> slen s then Ret (get_be (take 4 (backing s))) else Panic IndexOutOfRange)"

definition Uint16 :: "slice \<Rightarrow> u16 outcome" where
  "Uint16 s = (if 2 \<le> slen s then Ret (get_be (take 2 (backing s))) else Panic IndexOutOfRange)"

lemma length_put_be [simp]: "length (put_be n w) = n"
  by (induction n) simp_all

lemma foldl_put_be:
  fixes w a :: "'a::len word"
  shows "foldl (\<lambda>a b. push_bit 8 a OR ucast b) a (put_be n w)
    = push_bit (8 * n) a OR take_bit (8 * n) w"
proof (induction n arbitrary: a)
  case 0
  show ?case by simp
next
  case (Suc n)
  have "push_bit (8 * n) (push_bit 8 a OR ucast (ucast (drop_bit (8 * n) w) :: byte))
          OR take_bit (8 * n) w
      = push_bit (8 * Suc n) a OR take_bit (8 * Suc n) w"
    by (rule bit_word_eqI) (auto simp: bit_simps add.commute)
  then show ?case using Suc by simp
qed

lemma get_put_be:
  fixes w :: "'a::len word"
  shows "LENGTH('a) \<le> 8 * n \<Longrightarrow> get_be (put_be n w) = w"
  by (simp add: get_be_def foldl_put_be take_bit_word_eq_self)

lemma length_Put [simp, be_simps]:
  "length (PutUint64 v) = 8" "length (PutUint32 u) = 4" "length (PutUint16 t) = 2"
  by (simp_all add: PutUint64_def PutUint32_def PutUint16_def)

lemma get_PutUint [simp, be_simps]:
  "get_be (PutUint64 v) = v" "get_be (PutUint32 u) = u" "get_be (PutUint16 t) = t"
  by (simp_all add: PutUint64_def PutUint32_def PutUint16_def get_put_be)

lemma Uint_panics [go_simps]:
  "panics (Uint64 s) \<longleftrightarrow> slen s < 8" "panics (Uint32 s) \<longleftrightarrow> slen s < 4"
  "panics (Uint16 s) \<longleftrightarrow> slen s < 2"
  by (auto simp: Uint64_def Uint32_def Uint16_def)

section \<open>Readers\<close>

text \<open>
  A reader is the bytes the peer delivers before the connection stops, the error the
  connection stops with, and a log of the buffers allocated for its data.
\<close>

record reader =
  pending :: bytes
  ending :: go_error
  allocs :: "nat list"

type_synonym 'a rd = "reader \<Rightarrow> 'a outcome \<times> reader"

definition rd_of :: "bytes \<Rightarrow> reader" where
  "rd_of bs = \<lparr>pending = bs, ending = EOF, allocs = []\<rparr>"

definition ReadFull :: "nat \<Rightarrow> bytes rd" where
  "ReadFull n r =
     (if n \<le> length (pending r) then (Ret (take n (pending r)), r\<lparr>pending := drop n (pending r)\<rparr>)
      else (Fail (if pending r \<noteq> [] \<and> ending r = EOF then ErrUnexpectedEOF else ending r),
            r\<lparr>pending := []\<rparr>))"

text \<open>\<open>make([]byte, n)\<close> followed by \<open>io.ReadFull\<close> into it.\<close>

definition make_read :: "nat \<Rightarrow> bytes rd" where
  "make_read n r = ReadFull n (r\<lparr>allocs := allocs r @ [n]\<rparr>)"

definition rbind :: "'a rd \<Rightarrow> ('a \<Rightarrow> 'b rd) \<Rightarrow> 'b rd" where
  "rbind m f r =
     (case m r of (Ret x, r') \<Rightarrow> f x r' | (Fail e, r') \<Rightarrow> (Fail e, r') | (Panic p, r') \<Rightarrow> (Panic p, r'))"

definition rlift :: "'a outcome \<Rightarrow> 'a rd" where
  "rlift x r = (x, r)"

lemma rlift_simp [simp, go_simps]: "rlift x r = (x, r)"
  by (simp add: rlift_def)

lemma rbind_simps [go_simps]:
  "m r = (Ret x, r') \<Longrightarrow> rbind m f r = f x r'"
  "m r = (Fail e, r') \<Longrightarrow> rbind m f r = (Fail e, r')"
  "m r = (Panic p, r') \<Longrightarrow> rbind m f r = (Panic p, r')"
  by (simp_all add: rbind_def)

lemma make_read_append [go_simps]:
  "pending r = bs @ rest \<Longrightarrow> n = length bs \<Longrightarrow>
   make_read n r = (Ret bs, r\<lparr>pending := rest, allocs := allocs r @ [n]\<rparr>)"
  by (simp add: make_read_def ReadFull_def)

lemma make_read_Ret_iff:
  "make_read n r = (Ret bs, r') \<longleftrightarrow>
     n \<le> length (pending r) \<and> bs = take n (pending r)
     \<and> r' = r\<lparr>pending := drop n (pending r), allocs := allocs r @ [n]\<rparr>"
  by (auto simp: make_read_def ReadFull_def)

lemma make_read_no_panic [simp]: "\<not> panics (fst (make_read n r))"
  by (simp add: make_read_def ReadFull_def)

lemma make_read_allocs [simp]: "allocs (snd (make_read n r)) = allocs r @ [n]"
  by (simp add: make_read_def ReadFull_def)

lemma make_read_length: "make_read n r = (Ret bs, r') \<Longrightarrow> length bs = n"
  by (auto simp: make_read_Ret_iff)

section \<open>Lists\<close>

lemma take_drop_append3:
  "length a = n \<Longrightarrow> length b = m \<Longrightarrow> take m (drop n (a @ b @ c)) = b"
  by simp

lemma drop_append_eq: "length a = n \<Longrightarrow> drop n (a @ b) = b"
  by simp

end
