(* ===== verification/Go_Text.thy ===== *)
theory Go_Text
  imports Geminio_Prelude
begin

unbundle bit_operations_syntax

text \<open>
  The text codecs of Go's standard library that the packet payloads go through: UTF-8 as
  \<open>unicode/utf8\<close> accepts it, the string quoting of \<open>encoding/json\<close>, the standard base64
  alphabet of \<open>encoding/base64\<close>, decimal integers of \<open>strconv\<close>, and RFC 3339 timestamps
  of \<open>time\<close>. Each codec comes with its round trip.
\<close>

section \<open>UTF-8\<close>

definition cont_in :: "byte \<Rightarrow> byte \<Rightarrow> byte \<Rightarrow> bool" where
  "cont_in lo hi b \<longleftrightarrow> lo \<le> b \<and> b \<le> hi"

text \<open>How many continuation bytes a leading byte announces, and the range of the first of them.\<close>

definition utf8_need :: "byte \<Rightarrow> nat" where
  "utf8_need c =
     (if cont_in 0xC2 0xDF c then 1 else if cont_in 0xE0 0xEF c then 2
      else if cont_in 0xF0 0xF4 c then 3 else 0)"

definition utf8_first :: "byte \<Rightarrow> byte \<Rightarrow> bool" where
  "utf8_first c b =
     cont_in (if c = 0xE0 then 0xA0 else if c = 0xF0 then 0x90 else 0x80)
             (if c = 0xED then 0x9F else if c = 0xF4 then 0x8F else 0xBF) b"

text \<open>
  \<open>utf8_cont c s\<close> is the number of continuation bytes of the valid multi-byte sequence that
  starts with \<open>c\<close> and goes on in \<open>s\<close>, and 0 when there is none.
\<close>

definition utf8_cont :: "byte \<Rightarrow> bytes \<Rightarrow> nat" where
  "utf8_cont c s =
     (if utf8_need c \<le> length s \<and> list_all (cont_in 0x80 0xBF) (take (utf8_need c) s)
         \<and> list_all (utf8_first c) (take (min 1 (utf8_need c)) s)
      then utf8_need c else 0)"

function valid_utf8 :: "bytes \<Rightarrow> bool" where
  "valid_utf8 [] = True"
| "valid_utf8 (c # s) =
     (if c < 0x80 then valid_utf8 s
      else utf8_cont c s \<noteq> 0 \<and> valid_utf8 (drop (utf8_cont c s) s))"
  by pat_completeness auto
termination
  by (relation "measure length") auto

section \<open>JSON strings\<close>

definition hex_digit :: "nat \<Rightarrow> byte" where
  "hex_digit n = (if n < 10 then of_nat (0x30 + n) else of_nat (0x57 + n))"

definition is_hex :: "byte \<Rightarrow> bool" where
  "is_hex c \<longleftrightarrow> (0x30 \<le> c \<and> c \<le> 0x39) \<or> (0x61 \<le> c \<and> c \<le> 0x66) \<or> (0x41 \<le> c \<and> c \<le> 0x46)"

definition hex_val :: "byte \<Rightarrow> nat" where
  "hex_val c = (if c \<le> 0x39 then unat c - 0x30 else if c \<le> 0x46 then unat c - 0x37 else unat c - 0x57)"

definition hex4 :: "byte \<Rightarrow> byte \<Rightarrow> byte \<Rightarrow> byte \<Rightarrow> nat" where
  "hex4 a b c d = ((hex_val a * 16 + hex_val b) * 16 + hex_val c) * 16 + hex_val d"

text \<open>The escape of one ASCII byte (\<open>appendString\<close> with HTML escaping, as \<open>json.Marshal\<close> has it).\<close>

definition escape_ascii :: "byte \<Rightarrow> bytes" where
  "escape_ascii c =
     (if c = 0x22 \<or> c = 0x5C then [0x5C, c]
      else if c = 0x08 then [0x5C, 0x62]
      else if c = 0x0C then [0x5C, 0x66]
      else if c = 0x0A then [0x5C, 0x6E]
      else if c = 0x0D then [0x5C, 0x72]
      else if c = 0x09 then [0x5C, 0x74]
      else if c < 0x20 \<or> c = 0x3C \<or> c = 0x3E \<or> c = 0x26 then
        [0x5C, 0x75, 0x30, 0x30, hex_digit (unat c div 16), hex_digit (unat c mod 16)]
      else [c])"

function escape :: "bytes \<Rightarrow> bytes" where
  "escape [] = []"
| "escape (c # s) =
     (if c < 0x80 then escape_ascii c @ escape s
      else if utf8_cont c s = 0 then [0x5C, 0x75, 0x66, 0x66, 0x66, 0x64] @ escape s
      else if c = 0xE2 \<and> take 2 s = [0x80, 0xA8] then [0x5C, 0x75, 0x32, 0x30, 0x32, 0x38] @ escape (drop 2 s)
      else if c = 0xE2 \<and> take 2 s = [0x80, 0xA9] then [0x5C, 0x75, 0x32, 0x30, 0x32, 0x39] @ escape (drop 2 s)
      else c # take (utf8_cont c s) s @ escape (drop (utf8_cont c s) s))"
  by pat_completeness auto
termination
  by (relation "measure length") auto

text \<open>\<open>utf8.EncodeRune\<close>.\<close>

definition encode_rune :: "nat \<Rightarrow> bytes" where
  "encode_rune r =
     (if r < 0x80 then [of_nat r]
      else if r < 0x800 then [of_nat (0xC0 + r div 64), of_nat (0x80 + r mod 64)]
      else if r < 0x10000 then
        [of_nat (0xE0 + r div 4096), of_nat (0x80 + r div 64 mod 64), of_nat (0x80 + r mod 64)]
      else [of_nat (0xF0 + r div 262144), of_nat (0x80 + r div 4096 mod 64),
            of_nat (0x80 + r div 64 mod 64), of_nat (0x80 + r mod 64)])"

definition replacement :: bytes where
  "replacement = [0xEF, 0xBF, 0xBD]"

definition unescape_char :: "byte \<Rightarrow> byte" where
  "unescape_char e =
     (if e = 0x62 then 0x08 else if e = 0x66 then 0x0C else if e = 0x6E then 0x0A
      else if e = 0x72 then 0x0D else if e = 0x74 then 0x09 else e)"

text \<open>The content of a scanned string literal (\<open>unquoteBytes\<close>).\<close>

function unquote :: "bytes \<Rightarrow> bytes" where
  "unquote [] = []"
| "unquote (c # s) =
     (if c = 0x5C then
        (case s of
           [] \<Rightarrow> []
         | e # s1 \<Rightarrow>
             if e \<noteq> 0x75 then unescape_char e # unquote s1
             else (case s1 of
                 h1 # h2 # h3 # h4 # s2 \<Rightarrow>
                   (let r = hex4 h1 h2 h3 h4 in
                    if 0xD800 \<le> r \<and> r < 0xE000 then
                      (case s2 of
                         b # u # k1 # k2 # k3 # k4 # s3 \<Rightarrow>
                           (let r1 = hex4 k1 k2 k3 k4 in
                            if b = 0x5C \<and> u = 0x75 \<and> is_hex k1 \<and> is_hex k2 \<and> is_hex k3 \<and> is_hex k4
                               \<and> r < 0xDC00 \<and> 0xDC00 \<le> r1 \<and> r1 < 0xE000
                            then encode_rune ((r - 0xD800) * 1024 + (r1 - 0xDC00) + 0x10000) @ unquote s3
                            else replacement @ unquote s2)
                       | _ \<Rightarrow> replacement @ unquote s2)
                    else encode_rune r @ unquote s2)
               | _ \<Rightarrow> []))
      else if c < 0x80 then c # unquote s
      else if utf8_cont c s = 0 then replacement @ unquote s
      else c # take (utf8_cont c s) s @ unquote (drop (utf8_cont c s) s))"
  by pat_completeness auto
termination
  by (relation "measure length") auto

text \<open>Scanning a literal from just after its opening quote: the raw content and what follows.\<close>

definition is_escape :: "byte \<Rightarrow> bool" where
  "is_escape e \<longleftrightarrow> e = 0x62 \<or> e = 0x66 \<or> e = 0x6E \<or> e = 0x72 \<or> e = 0x74 \<or> e = 0x5C \<or> e = 0x2F \<or> e = 0x22"

fun scan_string :: "bytes \<Rightarrow> (bytes \<times> bytes) option" where
  "scan_string [] = None"
| "scan_string (c # s) =
     (if c = 0x22 then Some ([], s)
      else if c = 0x5C then
        (case s of
           [] \<Rightarrow> None
         | e # s1 \<Rightarrow>
             if is_escape e then map_option (map_prod (append [c, e]) id) (scan_string s1)
             else if e = 0x75 then
               (case s1 of
                  h1 # h2 # h3 # h4 # s2 \<Rightarrow>
                    if is_hex h1 \<and> is_hex h2 \<and> is_hex h3 \<and> is_hex h4
                    then map_option (map_prod (append [c, e, h1, h2, h3, h4]) id) (scan_string s2)
                    else None
                | _ \<Rightarrow> None)
             else None)
      else if c < 0x20 then None
      else map_option (map_prod (append [c]) id) (scan_string s))"

declare escape.simps [simp del] unquote.simps [simp del] scan_string.simps [simp del]

lemma utf8_cont_le: "utf8_cont c s \<le> length s"
  by (simp add: utf8_cont_def)

lemma utf8_cont_take:
  "utf8_cont c (take (utf8_cont c s) s @ t) = utf8_cont c s"
  if "utf8_cont c s \<noteq> 0"
  using that by (auto simp: utf8_cont_def split: if_splits)

lemma utf8_cont_high: "b \<in> set (take (utf8_cont c s) s) \<Longrightarrow> 0x80 \<le> b"
  by (auto simp: utf8_cont_def list_all_iff cont_in_def split: if_splits)

lemma high_byte: "0x80 \<le> (b :: byte) \<Longrightarrow> \<not> b < 0x20 \<and> b \<noteq> 0x22 \<and> b \<noteq> 0x5C \<and> \<not> b < 0x80"
  by (auto simp: word_le_nat_alt word_less_nat_alt)

lemma scan_string_high:
  "(\<And>b. b \<in> set xs \<Longrightarrow> 0x80 \<le> b) \<Longrightarrow>
   scan_string (xs @ t) = map_option (map_prod (append xs) id) (scan_string t)"
proof (induction xs)
  case Nil
  show ?case by (cases "scan_string t") (auto simp: map_prod_def)
next
  case (Cons b xs)
  have "\<not> b < 0x20 \<and> b \<noteq> 0x22 \<and> b \<noteq> 0x5C" using Cons.prems high_byte by simp
  then show ?case
    using Cons by (cases "scan_string t") (auto simp: map_prod_def scan_string.simps)
qed

lemma hex_digit_ok: "n < 16 \<Longrightarrow> is_hex (hex_digit n) \<and> hex_val (hex_digit n) = n"
proof -
  have "list_all (\<lambda>n. is_hex (hex_digit n) \<and> hex_val (hex_digit n) = n) [0..<16]"
    by code_simp
  then show "n < 16 \<Longrightarrow> ?thesis" by (simp add: list_all_iff)
qed

lemma hex_nibbles:
  "is_hex (hex_digit (unat (c :: byte) div 16))" "is_hex (hex_digit (unat c mod 16))"
  "hex4 0x30 0x30 (hex_digit (unat c div 16)) (hex_digit (unat c mod 16)) = unat c"
proof -
  have u: "unat c < 256" using unsigned_less [of c] by simp
  then have d: "unat c div 16 < 16" "unat c mod 16 < 16" by simp_all
  show "is_hex (hex_digit (unat c div 16))" "is_hex (hex_digit (unat c mod 16))"
    using d by (simp_all add: hex_digit_ok)
  show "hex4 0x30 0x30 (hex_digit (unat c div 16)) (hex_digit (unat c mod 16)) = unat c"
    using d by (simp add: hex4_def hex_digit_ok) (simp add: hex_val_def)
qed

lemma scan_cons:
  "is_escape e \<Longrightarrow> scan_string (0x5C # e # s) = map_option (map_prod (append [0x5C, e]) id) (scan_string s)"
  "is_hex h1 \<Longrightarrow> is_hex h2 \<Longrightarrow> is_hex h3 \<Longrightarrow> is_hex h4 \<Longrightarrow>
   scan_string (0x5C # 0x75 # h1 # h2 # h3 # h4 # s)
     = map_option (map_prod (append [0x5C, 0x75, h1, h2, h3, h4]) id) (scan_string s)"
  "c \<noteq> 0x22 \<Longrightarrow> c \<noteq> 0x5C \<Longrightarrow> \<not> c < 0x20 \<Longrightarrow>
   scan_string (c # s) = map_option (map_prod (append [c]) id) (scan_string s)"
  by (simp_all add: scan_string.simps(2) is_escape_def)

lemma is_escape_simps:
  "is_escape 0x62" "is_escape 0x66" "is_escape 0x6E" "is_escape 0x72" "is_escape 0x74"
  "is_escape 0x5C" "is_escape 0x22" "is_hex 0x30" "is_hex 0x32" "is_hex 0x66" "is_hex 0x64"
  "is_hex 0x38" "is_hex 0x39"
  by (simp_all add: is_escape_def is_hex_def)

lemma scan_escape_ascii:
  "scan_string (escape_ascii c @ t) = map_option (map_prod (append (escape_ascii c)) id) (scan_string t)"
  by (auto simp: escape_ascii_def scan_cons is_escape_simps hex_nibbles)

lemma scan_escape: "scan_string (escape s @ 0x22 # rest) = Some (escape s, rest)"
proof (induction s rule: escape.induct)
  case 1
  show ?case by (simp add: escape.simps scan_string.simps)
next
  case (2 c s)
  consider (ascii) "c < 0x80" | (bad) "\<not> c < 0x80" "utf8_cont c s = 0"
    | (ls) "\<not> c < 0x80" "utf8_cont c s \<noteq> 0" "c = 0xE2 \<and> take 2 s = [0x80, 0xA8]"
    | (ps) "\<not> c < 0x80" "utf8_cont c s \<noteq> 0" "c = 0xE2 \<and> take 2 s = [0x80, 0xA9]"
    | (seq) "\<not> c < 0x80" "utf8_cont c s \<noteq> 0" "\<not> (c = 0xE2 \<and> take 2 s = [0x80, 0xA8])"
            "\<not> (c = 0xE2 \<and> take 2 s = [0x80, 0xA9])"
    by blast
  then show ?case
  proof cases
    case ascii
    then show ?thesis using 2(1) by (simp add: escape.simps scan_escape_ascii)
  next
    case bad
    then show ?thesis using 2(2) by (simp add: escape.simps scan_cons is_escape_simps)
  next
    case ls
    then show ?thesis using 2(3) by (simp add: escape.simps scan_cons is_escape_simps)
  next
    case ps
    then show ?thesis using 2(4) by (simp add: escape.simps scan_cons is_escape_simps)
  next
    case seq
    let ?xs = "c # take (utf8_cont c s) s"
    have h: "\<And>b. b \<in> set ?xs \<Longrightarrow> 0x80 \<le> b"
      using seq(1) utf8_cont_high by (auto simp: not_less)
    have e: "escape (c # s) = ?xs @ escape (drop (utf8_cont c s) s)"
      using seq by (simp add: escape.simps)
    show ?thesis unfolding e append_assoc
      by (subst scan_string_high [OF h]) (use 2(5) [OF seq] in auto)
  qed
qed

lemma encode_rune_ascii: "n < 0x80 \<Longrightarrow> encode_rune n = [of_nat n]"
  by (simp add: encode_rune_def)

lemma unquote_escape_ascii:
  assumes "c < 0x80"
  shows "unquote (escape_ascii c @ t) = c # unquote t"
proof -
  have "unat c < 0x80" using assms by (simp add: word_less_nat_alt)
  then show ?thesis using assms
    by (auto simp: escape_ascii_def unescape_char_def unquote.simps hex_nibbles encode_rune_ascii)
qed

lemma unquote_escape: "valid_utf8 s \<Longrightarrow> unquote (escape s) = s"
proof (induction s rule: escape.induct)
  case 1
  show ?case by (simp add: escape.simps unquote.simps)
next
  case (2 c s)
  from 2(6) have "c < 0x80 \<or> utf8_cont c s \<noteq> 0" by (auto split: if_splits)
  then consider (ascii) "c < 0x80"
    | (ls) "\<not> c < 0x80" "utf8_cont c s \<noteq> 0" "c = 0xE2 \<and> take 2 s = [0x80, 0xA8]"
    | (ps) "\<not> c < 0x80" "utf8_cont c s \<noteq> 0" "\<not> (c = 0xE2 \<and> take 2 s = [0x80, 0xA8])"
           "c = 0xE2 \<and> take 2 s = [0x80, 0xA9]"
    | (seq) "\<not> c < 0x80" "utf8_cont c s \<noteq> 0" "\<not> (c = 0xE2 \<and> take 2 s = [0x80, 0xA8])"
            "\<not> (c = 0xE2 \<and> take 2 s = [0x80, 0xA9])"
    by blast
  then show ?case
  proof cases
    case ascii
    then show ?thesis using 2(1,6) by (simp add: escape.simps unquote_escape_ascii)
  next
    case ls
    then obtain t where s: "s = 0x80 # 0xA8 # t" by (cases s; cases "tl s") auto
    have "utf8_cont c s = 2"
      using ls s by (simp add: utf8_cont_def utf8_need_def utf8_first_def cont_in_def)
    with ls s 2(3) 2(6) show ?thesis
      by (simp add: escape.simps unquote.simps hex4_def hex_val_def encode_rune_def)
  next
    case ps
    then obtain t where s: "s = 0x80 # 0xA9 # t" by (cases s; cases "tl s") auto
    have "utf8_cont c s = 2"
      using ps s by (simp add: utf8_cont_def utf8_need_def utf8_first_def cont_in_def)
    with ps s 2(4) 2(6) show ?thesis
      by (simp add: escape.simps unquote.simps hex4_def hex_val_def encode_rune_def)
  next
    case seq
    let ?k = "utf8_cont c s"
    have "c \<noteq> 0x5C" using seq(1) high_byte by (simp add: not_less)
    then have "unquote (c # take ?k s @ escape (drop ?k s))
        = c # take ?k s @ unquote (escape (drop ?k s))"
      using seq(1,2) utf8_cont_le [of c s] by (simp add: unquote.simps utf8_cont_take)
    with seq 2(5) 2(6) show ?thesis by (auto simp: escape.simps)
  qed
qed

section \<open>Base64\<close>

definition b64_char :: "nat \<Rightarrow> byte" where
  "b64_char n =
     (if n < 26 then of_nat (0x41 + n) else if n < 52 then of_nat (0x47 + n)
      else if n < 62 then of_nat (n - 4) else if n = 62 then 0x2B else 0x2F)"

definition b64_val :: "byte \<Rightarrow> nat option" where
  "b64_val c =
     (if cont_in 0x41 0x5A c then Some (unat c - 0x41)
      else if cont_in 0x61 0x7A c then Some (unat c - 0x47)
      else if cont_in 0x30 0x39 c then Some (unat c + 4)
      else if c = 0x2B then Some 62 else if c = 0x2F then Some 63 else None)"

fun b64_encode :: "bytes \<Rightarrow> bytes" where
  "b64_encode [] = []"
| "b64_encode [a] = [b64_char (unat a div 4), b64_char (unat a mod 4 * 16), 0x3D, 0x3D]"
| "b64_encode [a, b] =
     [b64_char (unat a div 4), b64_char (unat a mod 4 * 16 + unat b div 16),
      b64_char (unat b mod 16 * 4), 0x3D]"
| "b64_encode (a # b # c # r) =
     b64_char (unat a div 4) # b64_char (unat a mod 4 * 16 + unat b div 16)
     # b64_char (unat b mod 16 * 4 + unat c div 64) # b64_char (unat c mod 64) # b64_encode r"

text \<open>Decoding of one group of four characters, and of the text with line breaks removed.\<close>

fun b64_groups :: "bytes \<Rightarrow> bytes option" where
  "b64_groups [] = Some []"
| "b64_groups (p # q # r # s # t) =
     (case (b64_val p, b64_val q) of
        (Some v0, Some v1) \<Rightarrow>
          (if r = 0x3D \<and> s = 0x3D \<and> t = [] then Some [of_nat (v0 * 4 + v1 div 16)]
           else (case b64_val r of
               None \<Rightarrow> None
             | Some v2 \<Rightarrow>
                 (if s = 0x3D \<and> t = []
                  then Some [of_nat (v0 * 4 + v1 div 16), of_nat (v1 mod 16 * 16 + v2 div 4)]
                  else (case b64_val s of
                      None \<Rightarrow> None
                    | Some v3 \<Rightarrow>
                        map_option (append [of_nat (v0 * 4 + v1 div 16), of_nat (v1 mod 16 * 16 + v2 div 4),
                                            of_nat (v2 mod 4 * 64 + v3)])
                          (b64_groups t)))))
      | _ \<Rightarrow> None)"
| "b64_groups [p] = None"
| "b64_groups [p, q] = None"
| "b64_groups [p, q, r] = None"

definition b64_decode :: "bytes \<Rightarrow> bytes option" where
  "b64_decode s = b64_groups (filter (\<lambda>c. c \<noteq> 0x0A \<and> c \<noteq> 0x0D) s)"

lemma unat_byte: "unat (b :: byte) < 256"
  using unsigned_less [of b] by simp

lemma unat_of_nat_byte: "n < 256 \<Longrightarrow> unat (of_nat n :: byte) = n"
  by (simp add: unat_of_nat)

lemma unat_b64_char:
  "n < 64 \<Longrightarrow> unat (b64_char n) =
     (if n < 26 then 0x41 + n else if n < 52 then 0x47 + n else if n < 62 then n - 4
      else if n = 62 then 0x2B else 0x2F)"
  by (simp add: b64_char_def unat_of_nat_byte del: of_nat_add of_nat_diff)

lemma b64_val_char: "n < 64 \<Longrightarrow> b64_val (b64_char n) = Some n"
  unfolding b64_val_def cont_in_def word_le_nat_alt word_unat_eq_iff
  by (auto simp: unat_b64_char)

lemma b64_char_safe:
  "n < 64 \<Longrightarrow> b64_char n \<noteq> 0x3D \<and> 0x2B \<le> b64_char n \<and> b64_char n \<le> 0x7A
     \<and> b64_char n \<noteq> 0x3C \<and> b64_char n \<noteq> 0x3E \<and> b64_char n \<noteq> 0x5C"
  unfolding word_le_nat_alt word_unat_eq_iff
  by (auto simp: unat_b64_char)

lemmas b64_char_ok = b64_val_char b64_char_safe

lemma b64_lt:
  fixes a b c :: byte
  shows "unat a div 4 < 64" "unat a mod 4 * 16 < 64" "unat a mod 4 * 16 + unat b div 16 < 64"
    "unat b mod 16 * 4 < 64" "unat b mod 16 * 4 + unat c div 64 < 64" "unat c mod 64 < 64"
  using unat_byte [of a] unat_byte [of b] unat_byte [of c] by arith+

lemma byte_div: "unat (a :: byte) div 16 < 16" "unat (a :: byte) div 64 < 4"
  using unat_byte [of a] by arith+

lemmas byte_div_simps = byte_div [THEN div_less] byte_div [THEN mod_less]

lemma b64_groups_encode: "b64_groups (b64_encode bs) = Some bs"
  by (induction bs rule: b64_encode.induct) (simp_all add: b64_char_ok b64_lt byte_div_simps del: of_nat_add of_nat_mult)

lemma b64_encode_safe:
  "x \<in> set (b64_encode bs) \<Longrightarrow> 0x2B \<le> x \<and> x \<le> 0x7A \<and> x \<noteq> 0x3C \<and> x \<noteq> 0x3E \<and> x \<noteq> 0x5C"
  by (induction bs rule: b64_encode.induct) (auto simp: b64_char_ok b64_lt)

lemma b64_decode_encode: "b64_decode (b64_encode bs) = Some bs"
proof -
  have "filter (\<lambda>c. c \<noteq> 0x0A \<and> c \<noteq> 0x0D) (b64_encode bs) = b64_encode bs"
    by (rule filter_True) (auto dest!: b64_encode_safe simp: word_le_nat_alt)
  then show ?thesis by (simp add: b64_decode_def b64_groups_encode)
qed

section \<open>Decimal integers\<close>

definition is_digit :: "byte \<Rightarrow> bool" where
  "is_digit c \<longleftrightarrow> cont_in 0x30 0x39 c"

definition digit :: "nat \<Rightarrow> byte" where
  "digit n = of_nat (0x30 + n mod 10)"

definition digit_val :: "byte \<Rightarrow> nat" where
  "digit_val c = unat c - 0x30"

definition digits_val :: "bytes \<Rightarrow> nat" where
  "digits_val ds = foldl (\<lambda>a c. a * 10 + digit_val c) 0 ds"

text \<open>The shortest and the fixed-width decimal of a natural number.\<close>

fun decimal :: "nat \<Rightarrow> bytes" where
  "decimal n = (if n < 10 then [digit n] else decimal (n div 10) @ [digit n])"

fun digits_w :: "nat \<Rightarrow> nat \<Rightarrow> bytes" where
  "digits_w 0 n = []"
| "digits_w (Suc w) n = digits_w w (n div 10) @ [digit n]"

declare decimal.simps [simp del]

definition FormatInt :: "int \<Rightarrow> bytes" where
  "FormatInt i = (if i < 0 then 0x2D # decimal (nat (- i)) else decimal (nat i))"

text \<open>\<open>strconv.ParseInt(s, 10, 64)\<close> and \<open>ParseUint\<close> on a scanned JSON number.\<close>

definition parse_nat :: "bytes \<Rightarrow> nat option" where
  "parse_nat s = (if s \<noteq> [] \<and> list_all is_digit s then Some (digits_val s) else None)"

definition ParseInt64 :: "bytes \<Rightarrow> int option" where
  "ParseInt64 s =
     (case s of
        [] \<Rightarrow> None
      | c # t \<Rightarrow>
          (case parse_nat (if c = 0x2D then t else s) of
             None \<Rightarrow> None
           | Some n \<Rightarrow>
               (let i = (if c = 0x2D then - int n else int n) in
                if - (2 ^ 63) \<le> i \<and> i < 2 ^ 63 then Some i else None)))"

definition ParseUint8 :: "bytes \<Rightarrow> byte option" where
  "ParseUint8 s = (case parse_nat s of Some n \<Rightarrow> (if n < 256 then Some (of_nat n) else None) | None \<Rightarrow> None)"

lemma unat_digit: "unat (digit n) = 0x30 + n mod 10"
proof -
  have "0x30 + n mod 10 < 256" using mod_less_divisor [of 10 n] by linarith
  then show ?thesis by (simp add: digit_def unat_of_nat del: of_nat_add)
qed

lemma digit_ok [simp]: "is_digit (digit n)" "digit_val (digit n) = n mod 10"
proof -
  have "n mod 10 \<le> 9" using mod_less_divisor [of 10 n] by linarith
  then show "is_digit (digit n)" by (simp add: is_digit_def cont_in_def word_le_nat_alt unat_digit)
  show "digit_val (digit n) = n mod 10" by (simp add: digit_val_def unat_digit)
qed

lemma digits_val_snoc [simp]:
  "digits_val [] = 0" "digits_val (ds @ [c]) = digits_val ds * 10 + digit_val c"
  by (simp_all add: digits_val_def)

lemma digits_val_decimal: "digits_val (decimal n) = n"
proof (induction n rule: decimal.induct)
  case (1 n)
  show ?case
  proof (cases "n < 10")
    case True
    then show ?thesis using digits_val_snoc(2) [of "[]" "digit n"]
      by (simp add: decimal.simps [of n])
  next
    case False
    then show ?thesis using 1 by (simp add: decimal.simps [of n])
  qed
qed

lemma decimal_digits: "list_all is_digit (decimal n)" "decimal n \<noteq> []"
  by (induction n rule: decimal.induct) (simp_all add: decimal.simps split: if_splits)

lemma digits_w_ok [simp]:
  "length (digits_w w n) = w" "list_all is_digit (digits_w w n)"
  by (induction w arbitrary: n) simp_all

lemma digits_val_w: "digits_val (digits_w w n) = n mod 10 ^ w"
  by (induction w arbitrary: n) (simp_all add: mod_mult2_eq mult.commute)

lemma digit_not_minus: "is_digit c \<Longrightarrow> c \<noteq> 0x2D"
  by (auto simp: is_digit_def cont_in_def)

lemma ParseInt64_FormatInt:
  assumes "- (2 ^ 63) \<le> i" "i < 2 ^ 63"
  shows "ParseInt64 (FormatInt i) = Some i"
proof -
  have p: "parse_nat (decimal n) = Some n" for n
    by (simp add: parse_nat_def decimal_digits digits_val_decimal)
  obtain c t where d: "decimal (nat i) = c # t" using decimal_digits(2) by (cases "decimal (nat i)") auto
  then have "c \<noteq> 0x2D" using decimal_digits(1) [of "nat i"] digit_not_minus by simp
  have "parse_nat (c # t) = Some (nat i)" using p [of "nat i"] d by simp
  with \<open>c \<noteq> 0x2D\<close> show ?thesis using assms p d
    by (cases "i < 0") (auto simp: ParseInt64_def FormatInt_def Let_def)
qed

section \<open>Timestamps\<close>

text \<open>
  A \<open>time.Time\<close> as RFC 3339 shows it: the civil date and clock in its location, and the
  location's offset from UTC in seconds.
\<close>

record go_time =
  t_year :: int
  t_month :: nat
  t_day :: nat
  t_hour :: nat
  t_min :: nat
  t_sec :: nat
  t_nsec :: nat
  t_off :: int

text \<open>\<open>time.Time{}\<close>, the value \<open>IsZero\<close> tests for.\<close>

definition zero_time :: go_time where
  "zero_time = \<lparr>t_year = 1, t_month = 1, t_day = 1, t_hour = 0, t_min = 0, t_sec = 0, t_nsec = 0, t_off = 0\<rparr>"

definition leap :: "int \<Rightarrow> bool" where
  "leap y \<longleftrightarrow> y mod 4 = 0 \<and> (y mod 100 \<noteq> 0 \<or> y mod 400 = 0)"

definition days_in :: "nat \<Rightarrow> int \<Rightarrow> nat" where
  "days_in m y =
     (if m = 2 then (if leap y then 29 else 28) else if m \<in> {4, 6, 9, 11} then 30 else 31)"

definition civil :: "go_time \<Rightarrow> bool" where
  "civil t \<longleftrightarrow> 1 \<le> t_month t \<and> t_month t \<le> 12 \<and> 1 \<le> t_day t \<and> t_day t \<le> days_in (t_month t) (t_year t)
     \<and> t_hour t < 24 \<and> t_min t < 60 \<and> t_sec t < 60 \<and> t_nsec t < 10 ^ 9"

text \<open>\<open>appendStrictRFC3339\<close>: the nanosecond format with trailing zeros cut, and its two errors.\<close>

definition zone_minutes :: "int \<Rightarrow> int" where
  "zone_minutes off = (if off < 0 then - (- off div 60) else off div 60)"

definition format_zone :: "int \<Rightarrow> bytes" where
  "format_zone off =
     (if off = 0 then [0x5A]
      else (let z = zone_minutes off in
            (if z < 0 then 0x2D else 0x2B) # digits_w 2 (nat (\<bar>z\<bar> div 60)) @ 0x3A # digits_w 2 (nat (\<bar>z\<bar> mod 60))))"

definition format_frac :: "nat \<Rightarrow> bytes" where
  "format_frac n = (if n = 0 then [] else 0x2E # rev (dropWhile (\<lambda>c. c = 0x30) (rev (digits_w 9 n))))"

definition format_time :: "go_time \<Rightarrow> bytes option" where
  "format_time t =
     (if t_year t < 0 \<or> 9999 < t_year t \<or> 24 \<le> \<bar>zone_minutes (t_off t)\<bar> div 60 then None
      else Some (digits_w 4 (nat (t_year t)) @ 0x2D # digits_w 2 (t_month t) @ 0x2D # digits_w 2 (t_day t)
        @ 0x54 # digits_w 2 (t_hour t) @ 0x3A # digits_w 2 (t_min t) @ 0x3A # digits_w 2 (t_sec t)
        @ format_frac (t_nsec t) @ format_zone (t_off t)))"

text \<open>\<open>Parse(RFC3339, s)\<close>, which \<open>parseStrictRFC3339\<close> falls back to.\<close>

definition expect :: "byte \<Rightarrow> bytes \<Rightarrow> bytes option" where
  "expect c s = (case s of [] \<Rightarrow> None | x # t \<Rightarrow> (if x = c then Some t else None))"

definition num_w :: "nat \<Rightarrow> bytes \<Rightarrow> (nat \<times> bytes) option" where
  "num_w w s =
     (if w \<le> length s \<and> list_all is_digit (take w s) then Some (digits_val (take w s), drop w s) else None)"

definition num_hour :: "bytes \<Rightarrow> (nat \<times> bytes) option" where
  "num_hour s = (case num_w 2 s of None \<Rightarrow> num_w 1 s | Some r \<Rightarrow> Some r)"

definition parse_frac :: "bytes \<Rightarrow> nat \<times> bytes" where
  "parse_frac s =
     (case s of
        p # d # t \<Rightarrow>
          (if (p = 0x2E \<or> p = 0x2C) \<and> is_digit d
           then (let ds = takeWhile is_digit (d # t); u = take 9 ds
                 in (digits_val u * 10 ^ (9 - length u), dropWhile is_digit (d # t)))
           else (0, s))
      | _ \<Rightarrow> (0, s))"

definition parse_zone :: "bytes \<Rightarrow> int option" where
  "parse_zone s =
     (if s = [0x5A] then Some 0
      else (case s of
          [] \<Rightarrow> None
        | g # s1 \<Rightarrow>
            Option.bind (num_w 2 s1) (\<lambda>(hr, s2). Option.bind (expect 0x3A s2) (\<lambda>s3.
            Option.bind (num_w 2 s3) (\<lambda>(mm, s4).
            if s4 = [] \<and> hr \<le> 24 \<and> mm \<le> 60 \<and> (g = 0x2B \<or> g = 0x2D)
            then Some ((if g = 0x2D then -1 else 1) * int ((hr * 60 + mm) * 60)) else None)))))"

definition parse_time :: "bytes \<Rightarrow> go_time option" where
  "parse_time s =
     Option.bind (num_w 4 s) (\<lambda>(y, s). Option.bind (expect 0x2D s) (\<lambda>s.
     Option.bind (num_w 2 s) (\<lambda>(mo, s). Option.bind (expect 0x2D s) (\<lambda>s.
     Option.bind (num_w 2 s) (\<lambda>(d, s). Option.bind (expect 0x54 s) (\<lambda>s.
     Option.bind (num_hour s) (\<lambda>(h, s). Option.bind (expect 0x3A s) (\<lambda>s.
     Option.bind (num_w 2 s) (\<lambda>(mi, s). Option.bind (expect 0x3A s) (\<lambda>s.
     Option.bind (num_w 2 s) (\<lambda>(se, s).
     (case parse_frac s of (ns, s) \<Rightarrow>
      Option.bind (parse_zone s) (\<lambda>off.
        (let t = \<lparr>t_year = int y, t_month = mo, t_day = d, t_hour = h, t_min = mi, t_sec = se,
                   t_nsec = ns, t_off = off\<rparr>
         in if civil t then Some t else None))))))))))))))"

text \<open>The times that survive the text form: years of four digits, zones of whole minutes below 24 hours.\<close>

definition rfc3339_time :: "go_time \<Rightarrow> bool" where
  "rfc3339_time t \<longleftrightarrow> civil t \<and> 0 \<le> t_year t \<and> t_year t \<le> 9999
     \<and> t_off t mod 60 = 0 \<and> \<bar>t_off t\<bar> < 86400"

lemma expect_hit [simp]: "expect c (c # s) = Some s"
  by (simp add: expect_def)

lemma num_w_digits [simp]: "num_w w (digits_w w n @ s) = Some (n mod 10 ^ w, s)"
  by (simp add: num_w_def digits_val_w)

lemma num_hour_digits [simp]: "num_hour (digits_w 2 n @ s) = Some (n mod 100, s)"
  by (simp add: num_hour_def)

lemma digits_val_zeros: "digits_val (ds @ replicate k 0x30) = digits_val ds * 10 ^ k"
proof (induction k)
  case (Suc k)
  have "ds @ replicate (Suc k) 0x30 = (ds @ replicate k 0x30) @ [0x30]"
    by (simp add: replicate_append_same)
  then show ?case using Suc by (simp only: digits_val_snoc) (simp add: digit_val_def)
qed simp

lemma trim_zeros:
  obtains k where "ds = rev (dropWhile (\<lambda>c. c = (0x30 :: byte)) (rev ds)) @ replicate k 0x30"
proof -
  let ?z = "takeWhile (\<lambda>c. c = (0x30 :: byte)) (rev ds)"
  have "ds = rev (?z @ dropWhile (\<lambda>c. c = 0x30) (rev ds))" by simp
  also have "\<dots> = rev (dropWhile (\<lambda>c. c = 0x30) (rev ds)) @ rev ?z" by (simp only: rev_append)
  also have "rev ?z = replicate (length ?z) 0x30"
    by (metis (mono_tags, lifting) length_rev replicate_length_same set_rev set_takeWhileD)
  finally show ?thesis using that by blast
qed

lemma zone_head: "\<exists>c r. format_zone off = c # r \<and> \<not> is_digit c \<and> c \<noteq> 0x2E \<and> c \<noteq> 0x2C"
  by (simp add: format_zone_def Let_def is_digit_def cont_in_def)

lemma parse_format_frac:
  assumes "n < 10 ^ 9"
  shows "parse_frac (format_frac n @ format_zone off) = (n, format_zone off)"
proof (cases "n = 0")
  case True
  obtain c r where "format_zone off = c # r" "c \<noteq> 0x2E" "c \<noteq> 0x2C" using zone_head by blast
  then show ?thesis using True by (auto simp: format_frac_def parse_frac_def split: list.split)
next
  case False
  let ?u = "rev (dropWhile (\<lambda>c. c = 0x30) (rev (digits_w 9 n)))"
  obtain k where k: "digits_w 9 n = ?u @ replicate k 0x30" using trim_zeros by blast
  have v: "digits_val ?u * 10 ^ k = n"
    using digits_val_w [of 9 n] assms digits_val_zeros [of ?u k] k by simp
  have l: "length ?u + k = 9" using arg_cong [OF k, of length] by simp
  have dg: "list_all is_digit ?u" using digits_w_ok(2) [of 9 n] k by (metis list_all_append)
  obtain d t where u: "?u = d # t" using v False by (cases ?u) auto
  obtain c r where z: "format_zone off = c # r" "\<not> is_digit c" using zone_head by blast
  have "takeWhile is_digit (?u @ c # r) = ?u" "dropWhile is_digit (?u @ c # r) = c # r"
    using dg z(2) by (simp_all add: list_all_iff takeWhile_append dropWhile_append)
  then have tw: "takeWhile is_digit (d # t @ c # r) = ?u" "dropWhile is_digit (d # t @ c # r) = c # r"
    by (simp_all only: u append_Cons)
  have "is_digit d" using dg u by simp
  moreover have "take 9 ?u = ?u" "9 - length ?u = k" using l by simp_all
  ultimately show ?thesis using v False tw
    by (simp only: format_frac_def parse_frac_def u z append_Cons list.case Let_def if_False if_True
        simp_thms)
qed

lemma parse_format_zone:
  assumes "off mod 60 = 0" "\<bar>off\<bar> < 86400"
  shows "parse_zone (format_zone off) = Some off"
proof (cases "off = 0")
  case True
  then show ?thesis by (simp add: format_zone_def parse_zone_def)
next
  case False
  let ?z = "zone_minutes off"
  have z: "off = 60 * ?z" using assms(1) by (auto simp: zone_minutes_def)
  let ?h = "nat (\<bar>?z\<bar> div 60)" and ?m = "nat (\<bar>?z\<bar> mod 60)"
  have "\<bar>?z\<bar> < 1440" using assms(2) z by linarith
  then have h: "?h < 24" "?m < 60" by auto
  have j: "int ?h * 60 + int ?m = \<bar>?z\<bar>" by (simp add: pos_imp_zdiv_nonneg_iff)
  have "parse_zone (format_zone off)
      = Some ((if ?z < 0 then -1 else 1) * int ((?h * 60 + ?m) * 60))"
    using h(1,2) False num_w_digits [of 2 ?m "[]"]
    by (simp add: format_zone_def parse_zone_def Let_def)
  also have "\<dots> = Some off" using z j by (cases "?z < 0") simp_all
  finally show ?thesis .
qed

lemma format_time_Some: "rfc3339_time t \<Longrightarrow> \<exists>s. format_time t = Some s"
  by (auto simp: rfc3339_time_def format_time_def zone_minutes_def)

lemma parse_format_time:
  assumes "rfc3339_time t" "format_time t = Some s"
  shows "parse_time s = Some t"
proof -
  have d: "t_day t \<le> 31" using assms(1)
    by (auto simp: rfc3339_time_def civil_def days_in_def split: if_splits)
  have m: "nat (t_year t) mod 10 ^ 4 = nat (t_year t)" "t_month t mod 10 ^ 2 = t_month t" "t_day t mod 10 ^ 2 = t_day t"
    "t_hour t mod 100 = t_hour t" "t_min t mod 10 ^ 2 = t_min t" "t_sec t mod 10 ^ 2 = t_sec t"
    using assms(1) d by (auto simp: rfc3339_time_def civil_def)
  have f: "parse_frac (format_frac (t_nsec t) @ format_zone (t_off t)) = (t_nsec t, format_zone (t_off t))"
    "parse_zone (format_zone (t_off t)) = Some (t_off t)"
    using assms(1) by (simp_all add: rfc3339_time_def civil_def parse_format_frac parse_format_zone)
  have s: "s = digits_w 4 (nat (t_year t)) @ 0x2D # digits_w 2 (t_month t) @ 0x2D # digits_w 2 (t_day t)
        @ 0x54 # digits_w 2 (t_hour t) @ 0x3A # digits_w 2 (t_min t) @ 0x3A # digits_w 2 (t_sec t)
        @ format_frac (t_nsec t) @ format_zone (t_off t)"
    using assms(2) by (simp add: format_time_def split: if_splits)
  have y: "int (nat (t_year t)) = t_year t" using assms(1) by (simp add: rfc3339_time_def)
  have "parse_time s = (if civil t then Some t else None)"
    unfolding s parse_time_def
    by (simp only: num_w_digits num_hour_digits expect_hit bind.bind_lunit prod.case m f y Let_def) (cases t; simp)
  then show ?thesis using assms(1) by (simp add: rfc3339_time_def)
qed

text \<open>No byte of a formatted time needs quoting.\<close>

lemma format_time_plain:
  assumes "format_time t = Some s" "c \<in> set s"
  shows "0x20 \<le> c \<and> c \<noteq> 0x22 \<and> c \<noteq> 0x5C"
proof -
  have dg: "is_digit c \<Longrightarrow> 0x20 \<le> c \<and> c \<noteq> 0x22 \<and> c \<noteq> 0x5C" for c
    by (auto simp: is_digit_def cont_in_def word_le_nat_alt)
  have w: "c \<in> set (digits_w w n) \<Longrightarrow> is_digit c" for c w n
    using digits_w_ok(2) [of w n] by (simp add: list_all_iff)
  have fr: "c \<in> set (format_frac (t_nsec t)) \<Longrightarrow> is_digit c \<or> c = 0x2E"
    by (auto simp: format_frac_def split: if_splits dest!: set_dropWhileD intro: w)
  have zn: "c \<in> set (format_zone (t_off t)) \<Longrightarrow> is_digit c \<or> c \<in> {0x5A, 0x2D, 0x2B, 0x3A}"
    by (auto simp: format_zone_def Let_def split: if_splits intro: w)
  have "is_digit c \<or> c \<in> {0x5A, 0x2D, 0x2B, 0x3A, 0x2E, 0x54}"
    using assms fr zn w by (auto simp: format_time_def split: if_splits)
  then show ?thesis using dg by auto
qed

end
