(* ===== verification/Go_Json.thy ===== *)
theory Go_Json
  imports Go_Text
begin

text \<open>
  The part of \<open>encoding/json\<close> that the packets use: values, their compact rendering, the
  validating parser with its nesting limit, and the decoding of members into the fields of a
  struct. Strings are kept raw (between their quotes) until a field is set, because
  \<open>time.Time\<close> reads the raw text. The parser is total through a fuel bounded by the input;
  \<open>parse_value_fuel\<close> shows that the bound never cuts a parse, and \<open>parse_render\<close> that
  a rendered value is read back.
\<close>

section \<open>Values and rendering\<close>

datatype jval =
    JNull
  | JTrue
  | JFalse
  | JNum bytes
  | JStr bytes
  | JArr "jval list"
  | JObj "(bytes \<times> jval) list"

fun commas :: "bytes list \<Rightarrow> bytes" where
  "commas [] = []"
| "commas [x] = x"
| "commas (x # y # r) = x @ 0x2C # commas (y # r)"

definition quoted :: "bytes \<Rightarrow> bytes" where
  "quoted raw = 0x22 # raw @ [0x22]"

fun render :: "jval \<Rightarrow> bytes" where
  "render JNull = lit ''null''"
| "render JTrue = lit ''true''"
| "render JFalse = lit ''false''"
| "render (JNum t) = t"
| "render (JStr raw) = quoted raw"
| "render (JArr vs) = 0x5B # commas (map render vs) @ [0x5D]"
| "render (JObj ms) = 0x7B # commas (map (\<lambda>(k, v). quoted k @ 0x3A # render v) ms) @ [0x7D]"

section \<open>Parsing\<close>

definition is_ws :: "byte \<Rightarrow> bool" where
  "is_ws c \<longleftrightarrow> c = 0x20 \<or> c = 0x09 \<or> c = 0x0A \<or> c = 0x0D"

definition skip_ws :: "bytes \<Rightarrow> bytes" where
  "skip_ws s = dropWhile is_ws s"

definition scan_digits :: "bytes \<Rightarrow> (bytes \<times> bytes) option" where
  "scan_digits s =
     (case takeWhile is_digit s of [] \<Rightarrow> None | d # ds \<Rightarrow> Some (d # ds, dropWhile is_digit s))"

definition scan_int :: "bytes \<Rightarrow> (bytes \<times> bytes) option" where
  "scan_int s = (case s of [] \<Rightarrow> None | c # t \<Rightarrow> (if c = 0x30 then Some ([c], t) else scan_digits s))"

definition scan_frac :: "bytes \<Rightarrow> (bytes \<times> bytes) option" where
  "scan_frac s =
     (case s of
        c # t \<Rightarrow> (if c = 0x2E then map_option (map_prod (append [c]) id) (scan_digits t) else Some ([], s))
      | [] \<Rightarrow> Some ([], s))"

definition scan_exp :: "bytes \<Rightarrow> (bytes \<times> bytes) option" where
  "scan_exp s =
     (case s of
        c # t \<Rightarrow>
          (if c = 0x65 \<or> c = 0x45 then
             (case t of
                g # u \<Rightarrow>
                  (if g = 0x2B \<or> g = 0x2D then map_option (map_prod (append [c, g]) id) (scan_digits u)
                   else map_option (map_prod (append [c]) id) (scan_digits t))
              | [] \<Rightarrow> None)
           else Some ([], s))
      | [] \<Rightarrow> Some ([], s))"

definition scan_number :: "bytes \<Rightarrow> (bytes \<times> bytes) option" where
  "scan_number s =
     (let (g, s0) = (case s of c # t \<Rightarrow> (if c = 0x2D then ([c], t) else ([], s)) | [] \<Rightarrow> ([], s))
      in Option.bind (scan_int s0) (\<lambda>(i, s1). Option.bind (scan_frac s1) (\<lambda>(f, s2).
         map_option (\<lambda>(e, s3). (g @ i @ f @ e, s3)) (scan_exp s2))))"

definition scan_word :: "string \<Rightarrow> bytes \<Rightarrow> bytes option" where
  "scan_word w s = (if take (length w) s = lit w then Some (drop (length w) s) else None)"

fun parse_value :: "nat \<Rightarrow> nat \<Rightarrow> bytes \<Rightarrow> (jval \<times> bytes) option"
and parse_elems :: "nat \<Rightarrow> nat \<Rightarrow> bytes \<Rightarrow> (jval list \<times> bytes) option"
and parse_members :: "nat \<Rightarrow> nat \<Rightarrow> bytes \<Rightarrow> ((bytes \<times> jval) list \<times> bytes) option"
where
  "parse_value 0 d s = None"
| "parse_value (Suc f) d s =
     (case skip_ws s of
        [] \<Rightarrow> None
      | c # t \<Rightarrow>
          if c = 0x22 then map_option (map_prod JStr id) (scan_string t)
          else if c = 0x7B then
            (if d = 0 then None
             else (case skip_ws t of
                 [] \<Rightarrow> None
               | x # u \<Rightarrow> if x = 0x7D then Some (JObj [], u)
                          else map_option (map_prod JObj id) (parse_members f (d - 1) t)))
          else if c = 0x5B then
            (if d = 0 then None
             else (case skip_ws t of
                 [] \<Rightarrow> None
               | x # u \<Rightarrow> if x = 0x5D then Some (JArr [], u)
                          else map_option (map_prod JArr id) (parse_elems f (d - 1) t)))
          else if c = 0x6E then map_option (Pair JNull) (scan_word ''null'' (c # t))
          else if c = 0x74 then map_option (Pair JTrue) (scan_word ''true'' (c # t))
          else if c = 0x66 then map_option (Pair JFalse) (scan_word ''false'' (c # t))
          else map_option (map_prod JNum id) (scan_number (c # t)))"
| "parse_elems 0 d s = None"
| "parse_elems (Suc f) d s =
     Option.bind (parse_value f d s) (\<lambda>(v, r).
       (case skip_ws r of
          [] \<Rightarrow> None
        | c # u \<Rightarrow> if c = 0x5D then Some ([v], u)
                   else if c = 0x2C then map_option (map_prod (Cons v) id) (parse_elems f d u)
                   else None))"
| "parse_members 0 d s = None"
| "parse_members (Suc f) d s =
     Option.bind (expect 0x22 (skip_ws s)) (\<lambda>t.
     Option.bind (scan_string t) (\<lambda>(k, r1).
     Option.bind (expect 0x3A (skip_ws r1)) (\<lambda>r2.
     Option.bind (parse_value f d r2) (\<lambda>(v, r).
       (case skip_ws r of
          [] \<Rightarrow> None
        | c # u \<Rightarrow> if c = 0x7D then Some ([(k, v)], u)
                   else if c = 0x2C then map_option (map_prod (Cons (k, v)) id) (parse_members f d u)
                   else None)))))"

declare parse_value.simps [simp del] parse_elems.simps [simp del] parse_members.simps [simp del]

text \<open>\<open>maxNestingDepth\<close> of the scanner.\<close>

definition max_nesting :: nat where
  "max_nesting = 10000"

definition parse_json :: "bytes \<Rightarrow> jval option" where
  "parse_json s =
     (case parse_value (2 * length s + 2) max_nesting s of
        None \<Rightarrow> None
      | Some (v, r) \<Rightarrow> (if skip_ws r = [] then Some v else None))"

section \<open>Struct fields\<close>

text \<open>
  Keys match field names up to Unicode simple folding: ASCII case, and the two non-ASCII runes
  that fold to an ASCII letter (the long s U+017F and the Kelvin sign U+212A).
\<close>

fun fold_name :: "bytes \<Rightarrow> bytes" where
  "fold_name [] = []"
| "fold_name (c # s) =
     (if cont_in 0x61 0x7A c then (c - 0x20) # fold_name s
      else if c = 0xC5 \<and> take 1 s = [0xBF] then 0x53 # fold_name (drop 1 s)
      else if c = 0xE2 \<and> take 2 s = [0x84, 0xAA] then 0x4B # fold_name (drop 2 s)
      else c # fold_name s)"

definition key_is :: "string \<Rightarrow> bytes \<Rightarrow> bool" where
  "key_is name k \<longleftrightarrow> fold_name (unquote k) = fold_name (lit name)"

definition get_string :: "bytes \<Rightarrow> jval \<Rightarrow> bytes option" where
  "get_string old v = (case v of JNull \<Rightarrow> Some old | JStr raw \<Rightarrow> Some (unquote raw) | _ \<Rightarrow> None)"

text \<open>A byte slice is read from base64 text, or from an array of numbers, whose null elements keep
  what is in their place.\<close>

fun get_elems :: "bytes \<Rightarrow> jval list \<Rightarrow> bytes option" where
  "get_elems old [] = Some []"
| "get_elems old (v # vs) =
     (case (case v of JNull \<Rightarrow> Some (case old of [] \<Rightarrow> 0 | o0 # _ \<Rightarrow> o0) | JNum t \<Rightarrow> ParseUint8 t | _ \<Rightarrow> None) of
        None \<Rightarrow> None
      | Some b \<Rightarrow> map_option (Cons b) (get_elems (tl old) vs))"

definition get_bytes :: "bytes \<Rightarrow> jval \<Rightarrow> bytes option" where
  "get_bytes old v =
     (case v of
        JNull \<Rightarrow> Some []
      | JStr raw \<Rightarrow> b64_decode (unquote raw)
      | JArr vs \<Rightarrow> get_elems old vs
      | _ \<Rightarrow> None)"

definition get_int64 :: "int \<Rightarrow> jval \<Rightarrow> int option" where
  "get_int64 old v = (case v of JNull \<Rightarrow> Some old | JNum t \<Rightarrow> ParseInt64 t | _ \<Rightarrow> None)"

definition get_time :: "go_time \<Rightarrow> jval \<Rightarrow> go_time option" where
  "get_time old v = (case v of JNull \<Rightarrow> Some old | JStr raw \<Rightarrow> parse_time raw | _ \<Rightarrow> None)"

text \<open>
  Members are applied in order to the struct; a member whose key matches no field is skipped,
  one whose value does not fit makes \<open>Unmarshal\<close> return an error.
\<close>

fun set_members :: "('a \<Rightarrow> bytes \<Rightarrow> jval \<Rightarrow> 'a option) \<Rightarrow> 'a \<Rightarrow> (bytes \<times> jval) list \<Rightarrow> 'a option" where
  "set_members set_field x [] = Some x"
| "set_members set_field x ((k, v) # ms) =
     Option.bind (set_field x k v) (\<lambda>y. set_members set_field y ms)"

definition set_struct :: "('a \<Rightarrow> bytes \<Rightarrow> jval \<Rightarrow> 'a option) \<Rightarrow> 'a \<Rightarrow> jval \<Rightarrow> 'a option" where
  "set_struct set_field x v =
     (case v of JNull \<Rightarrow> Some x | JObj ms \<Rightarrow> set_members set_field x ms | _ \<Rightarrow> None)"

definition unmarshal :: "('a \<Rightarrow> bytes \<Rightarrow> jval \<Rightarrow> 'a option) \<Rightarrow> 'a \<Rightarrow> bytes \<Rightarrow> 'a outcome" where
  "unmarshal set_field x s = of_option ErrJson (Option.bind (parse_json s) (set_struct set_field x))"

text \<open>Members of a marshalled struct under \<open>omitempty\<close>.\<close>

definition str_member :: "string \<Rightarrow> bytes \<Rightarrow> (bytes \<times> jval) list" where
  "str_member name s = (if s = [] then [] else [(lit name, JStr (escape s))])"

definition bytes_member :: "string \<Rightarrow> bytes \<Rightarrow> (bytes \<times> jval) list" where
  "bytes_member name b = (if b = [] then [] else [(lit name, JStr (b64_encode b))])"

definition int_member :: "string \<Rightarrow> int \<Rightarrow> (bytes \<times> jval) list" where
  "int_member name i = (if i = 0 then [] else [(lit name, JNum (FormatInt i))])"

section \<open>The parser consumes input and its fuel suffices\<close>

lemma skip_ws_le: "length (skip_ws s) \<le> length s"
  by (simp add: skip_ws_def length_dropWhile_le)

lemma scan_string_short: "scan_string s = Some (raw, r) \<Longrightarrow> length r < length s"
  by (induction s arbitrary: raw r rule: scan_string.induct)
    (fastforce simp: scan_string.simps split: if_splits list.splits)+

lemma scan_digits_short: "scan_digits s = Some (ds, r) \<Longrightarrow> length r < length s"
proof -
  assume a: "scan_digits s = Some (ds, r)"
  then have "r = dropWhile is_digit s" "takeWhile is_digit s \<noteq> []"
    by (auto simp: scan_digits_def split: list.splits)
  moreover have "length s = length (takeWhile is_digit s) + length (dropWhile is_digit s)"
    by (metis length_append takeWhile_dropWhile_id)
  ultimately show ?thesis by simp
qed

lemma scan_number_short: "scan_number s = Some (t, r) \<Longrightarrow> length r < length s"
proof -
  have i: "scan_int u = Some (x, y) \<Longrightarrow> length y < length u" for u x y
    by (auto simp: scan_int_def split: list.splits if_splits dest!: scan_digits_short)
  have f: "scan_frac u = Some (x, y) \<Longrightarrow> length y \<le> length u" for u x y
    by (auto simp: scan_frac_def split: list.splits if_splits dest!: scan_digits_short)
  have e: "scan_exp u = Some (x, y) \<Longrightarrow> length y \<le> length u" for u x y
    by (auto simp: scan_exp_def split: list.splits if_splits dest!: scan_digits_short)
  show "scan_number s = Some (t, r) \<Longrightarrow> length r < length s"
    by (fastforce simp: scan_number_def Let_def bind_eq_Some_conv
        split: list.splits if_splits prod.splits dest!: i f e)
qed

lemma scan_word_short: "scan_word w s = Some r \<Longrightarrow> w \<noteq> [] \<Longrightarrow> length r < length s"
  by (cases s) (auto simp: scan_word_def lit_def split: if_splits)

lemma expect_short: "expect c s = Some r \<Longrightarrow> length r < length s"
  by (auto simp: expect_def split: list.splits if_splits)

lemma skip_ws_Cons: "skip_ws s = c # t \<Longrightarrow> length t < length s"
  using skip_ws_le [of s] by simp

lemma expect_skip_short: "expect c (skip_ws s) = Some r \<Longrightarrow> length r < length s"
  using skip_ws_le [of s] by (auto dest: expect_short)

lemma bind_SomeE:
  assumes "Option.bind m f = Some y"
  obtains x where "m = Some x" "f x = Some y"
  using assms by (cases m) auto

lemma parse_value_short_step:
  assumes "parse_value (Suc f) d s = Some (v, r)"
    and e: "\<And>d s vs r. parse_elems f d s = Some (vs, r) \<Longrightarrow> length r < length s"
    and m: "\<And>d s ms r. parse_members f d s = Some (ms, r) \<Longrightarrow> length r < length s"
  shows "length r < length s"
proof -
  obtain c t where s: "skip_ws s = c # t"
    using assms(1) by (cases "skip_ws s") (auto simp: parse_value.simps)
  have "length r < length (skip_ws s)"
    using assms(1) s
    by (auto simp: parse_value.simps less_Suc_eq split: if_splits list.splits
        dest: scan_string_short scan_number_short scan_word_short skip_ws_Cons e m)
  then show ?thesis using skip_ws_le [of s] by simp
qed

lemma parse_short_all:
  "(\<forall>d s v r. parse_value f d s = Some (v, r) \<longrightarrow> length r < length s)
   \<and> (\<forall>d s vs r. parse_elems f d s = Some (vs, r) \<longrightarrow> length r < length s)
   \<and> (\<forall>d s ms r. parse_members f d s = Some (ms, r) \<longrightarrow> length r < length s)"
proof (induction f)
  case 0
  show ?case by (simp add: parse_value.simps parse_elems.simps parse_members.simps)
next
  case (Suc f)
  then have v: "\<And>d s v r. parse_value f d s = Some (v, r) \<Longrightarrow> length r < length s"
    and e: "\<And>d s vs r. parse_elems f d s = Some (vs, r) \<Longrightarrow> length r < length s"
    and m: "\<And>d s ms r. parse_members f d s = Some (ms, r) \<Longrightarrow> length r < length s"
    by blast+
  have "length r < length s" if a: "parse_elems (Suc f) d s = Some (vs, r)" for d s vs r
  proof -
    obtain x r1 where x: "parse_value f d s = Some (x, r1)"
      using a by (auto simp: parse_elems.simps elim!: bind_SomeE)
    with a show ?thesis
      by (cases "skip_ws r1") (auto simp: parse_elems.simps split: if_splits dest!: skip_ws_Cons v e)
  qed
  moreover have "length r < length s" if a: "parse_members (Suc f) d s = Some (ms, r)" for d s ms r
  proof -
    obtain t k r1 r2 x r3 where x: "expect 0x22 (skip_ws s) = Some t" "scan_string t = Some (k, r1)"
      "expect 0x3A (skip_ws r1) = Some r2" "parse_value f d r2 = Some (x, r3)"
      using a by (auto simp: parse_members.simps elim!: bind_SomeE)
    with a show ?thesis
      by (cases "skip_ws r3") (auto simp: parse_members.simps split: if_splits
          dest!: skip_ws_Cons expect_skip_short scan_string_short v m)
  qed
  moreover have "length r < length s" if "parse_value (Suc f) d s = Some (v, r)" for d s v r
    using that e m by (rule parse_value_short_step)
  ultimately show ?case by blast
qed

lemma parse_value_short: "parse_value f d s = Some (v, r) \<Longrightarrow> length r < length s"
  using parse_short_all by blast

lemma parse_fuel_Suc:
  "(\<forall>d s. 2 * length s + 1 \<le> f \<longrightarrow> parse_value (Suc f) d s = parse_value f d s)
   \<and> (\<forall>d s. 2 * length s + 2 \<le> f \<longrightarrow> parse_elems (Suc f) d s = parse_elems f d s)
   \<and> (\<forall>d s. 2 * length s + 1 \<le> f \<longrightarrow> parse_members (Suc f) d s = parse_members f d s)"
proof (induction f)
  case 0
  show ?case by simp
next
  case (Suc f)
  then have v: "\<And>d s. 2 * length s + 1 \<le> f \<Longrightarrow> parse_value (Suc f) d s = parse_value f d s"
    and e: "\<And>d s. 2 * length s + 2 \<le> f \<Longrightarrow> parse_elems (Suc f) d s = parse_elems f d s"
    and m: "\<And>d s. 2 * length s + 1 \<le> f \<Longrightarrow> parse_members (Suc f) d s = parse_members f d s"
    by blast+
  have "parse_value (Suc (Suc f)) d s = parse_value (Suc f) d s" if "2 * length s \<le> f" for d s
  proof (cases "skip_ws s")
    case (Cons c t)
    then have "length t < length s" by (rule skip_ws_Cons)
    then have "parse_members (Suc f) (d - 1) t = parse_members f (d - 1) t"
      "parse_elems (Suc f) (d - 1) t = parse_elems f (d - 1) t"
      using that m e by simp_all
    then show ?thesis using Cons by (simp only: parse_value.simps list.case)
  qed (simp add: parse_value.simps)
  moreover have "parse_elems (Suc (Suc f)) d s = parse_elems (Suc f) d s" if "2 * length s + 1 \<le> f" for d s
  proof -
    have "skip_ws r = c # u \<Longrightarrow> parse_elems (Suc f) d u = parse_elems f d u"
      if "parse_value f d s = Some (w, r)" for w r c u
      using that parse_value_short [OF that] \<open>2 * length s + 1 \<le> f\<close>
      by (intro e) (auto dest!: skip_ws_Cons)
    then show ?thesis unfolding parse_elems.simps v [OF that]
      by (auto intro!: Option.bind_cong split: list.splits)
  qed
  moreover have "parse_members (Suc (Suc f)) d s = parse_members (Suc f) d s" if "2 * length s \<le> f" for d s
  proof -
    have *: "parse_value (Suc f) d r2 = parse_value f d r2"
      if "expect 0x22 (skip_ws s) = Some t" "scan_string t = Some (k, r1)"
        "expect 0x3A (skip_ws r1) = Some r2" for t k r1 r2
      using that \<open>2 * length s \<le> f\<close>
      by (intro v) (auto dest!: expect_skip_short scan_string_short)
    moreover have "parse_members (Suc f) d u = parse_members f d u"
      if "expect 0x22 (skip_ws s) = Some t" "scan_string t = Some (k, r1)"
        "expect 0x3A (skip_ws r1) = Some r2" "parse_value f d r2 = Some (w, r)" "skip_ws r = c # u"
      for t k r1 r2 w r c u
      using that \<open>2 * length s \<le> f\<close>
      by (intro m) (auto dest!: expect_skip_short scan_string_short skip_ws_Cons parse_value_short)
    ultimately show ?thesis unfolding parse_members.simps
      by (auto intro!: Option.bind_cong split: list.splits)
  qed
  ultimately show ?case by simp
qed

lemma parse_value_fuel:
  "2 * length s + 1 \<le> f \<Longrightarrow> parse_value (f + k) d s = parse_value f d s"
  using parse_fuel_Suc by (induction k) simp_all

section \<open>Rendered values are read back\<close>

text \<open>What a value may be followed by, and the raw strings and numbers the scanner takes whole.\<close>

definition stops :: "bytes \<Rightarrow> bool" where
  "stops r \<longleftrightarrow> r = [] \<or> hd r = 0x2C \<or> hd r = 0x5D \<or> hd r = 0x7D"

definition raw_ok :: "bytes \<Rightarrow> bool" where
  "raw_ok raw \<longleftrightarrow> (\<forall>r. scan_string (raw @ 0x22 # r) = Some (raw, r))"

definition num_ok :: "bytes \<Rightarrow> bool" where
  "num_ok t \<longleftrightarrow> (\<exists>c u. t = c # u \<and> (is_digit c \<or> c = 0x2D))
     \<and> (\<forall>r. stops r \<longrightarrow> scan_number (t @ r) = Some (t, r))"

fun json_ok :: "jval \<Rightarrow> bool" where
  "json_ok (JNum t) = num_ok t"
| "json_ok (JStr raw) = raw_ok raw"
| "json_ok (JArr vs) = list_all json_ok vs"
| "json_ok (JObj ms) = list_all (\<lambda>(k, v). raw_ok k \<and> json_ok v) ms"
| "json_ok v = True"

fun nesting :: "jval \<Rightarrow> nat" where
  "nesting (JArr vs) = Suc (Max (set (0 # map nesting vs)))"
| "nesting (JObj ms) = Suc (Max (set (0 # map (\<lambda>(k, v). nesting v) ms)))"
| "nesting v = 0"

lemma num_start: "num_ok t \<Longrightarrow> \<exists>c u. t = c # u \<and> \<not> is_ws c \<and> c \<notin> {0x22, 0x7B, 0x5B, 0x6E, 0x74, 0x66, 0x5D, 0x7D, 0x3A, 0x2C}"
  by (auto simp: num_ok_def is_digit_def is_ws_def cont_in_def word_le_nat_alt)

text \<open>The first byte of a rendered value is no white space and closes no bracket.\<close>

lemma render_start:
  assumes "json_ok v"
  obtains c u where "render v = c # u" "\<not> is_ws c" "c \<noteq> 0x5D" "c \<noteq> 0x7D"
proof (cases v)
  case (JNum t)
  then show ?thesis using that num_start [of t] assms by auto
qed (use that in \<open>auto simp: lit_def is_ws_def quoted_def\<close>)

lemma skip_ws_start [simp]: "\<not> is_ws c \<Longrightarrow> skip_ws (c # s) = c # s"
  by (simp add: skip_ws_def)

lemma is_ws_simps [simp]:
  "\<not> is_ws 0x22" "\<not> is_ws 0x2C" "\<not> is_ws 0x3A" "\<not> is_ws 0x5B" "\<not> is_ws 0x5D" "\<not> is_ws 0x7B" "\<not> is_ws 0x7D"
  "\<not> is_ws 0x6E" "\<not> is_ws 0x74" "\<not> is_ws 0x66"
  by (simp_all add: is_ws_def)

text \<open>\<open>v\<close> is read back at depth \<open>d\<close> in front of whatever may follow it.\<close>

definition reads :: "nat \<Rightarrow> jval \<Rightarrow> bool" where
  "reads d v \<longleftrightarrow> (\<forall>f rest. 2 * length (render v) + 1 \<le> f \<longrightarrow> stops rest \<longrightarrow>
     parse_value f d (render v @ rest) = Some (v, rest))"

lemma readsD:
  "reads d v \<Longrightarrow> 2 * length (render v) + 1 \<le> f \<Longrightarrow> stops rest \<Longrightarrow>
   parse_value f d (render v @ rest) = Some (v, rest)"
  by (simp add: reads_def)

lemma stops_simps [simp]: "stops []" "stops (0x2C # r)" "stops (0x5D # r)" "stops (0x7D # r)"
  by (simp_all add: stops_def)

lemma parse_elems_render:
  assumes "vs \<noteq> []" "2 * length (commas (map render vs)) + 2 \<le> f" "list_all (reads d) vs"
  shows "parse_elems f d (commas (map render vs) @ 0x5D # rest) = Some (vs, rest)"
  using assms
proof (induction vs arbitrary: f rule: induct_list012)
  case (2 x)
  then obtain g where "f = Suc g" by (cases f) auto
  then show ?case using 2 by (simp add: parse_elems.simps readsD)
next
  case (3 x y zs)
  then obtain g where f: "f = Suc g" by (cases f) auto
  have "parse_elems g d (commas (map render (y # zs)) @ 0x5D # rest) = Some (y # zs, rest)"
    using 3 f by simp
  then show ?case using "3.prems" f by (simp add: parse_elems.simps readsD)
qed simp

lemma parse_members_render:
  fixes mt :: "bytes \<times> jval \<Rightarrow> bytes"
  assumes mt: "\<And>k v. mt (k, v) = quoted k @ 0x3A # render v"
    and "ms \<noteq> []" "2 * length (commas (map mt ms)) + 1 \<le> f"
    and "list_all (\<lambda>(k, v). raw_ok k \<and> reads d v) ms"
  shows "parse_members f d (commas (map mt ms) @ 0x7D # rest) = Some (ms, rest)"
  using assms(2-)
proof (induction ms arbitrary: f rule: induct_list012)
  case (2 x)
  then obtain g k v where f: "f = Suc g" "x = (k, v)" by (cases f; cases x) auto
  then show ?case using 2 by (simp add: parse_members.simps quoted_def mt raw_ok_def readsD)
next
  case (3 x y zs)
  then obtain g k v where f: "f = Suc g" "x = (k, v)" by (cases f; cases x) auto
  have "parse_members g d (commas (map mt (y # zs)) @ 0x7D # rest) = Some (y # zs, rest)"
    using 3 f by simp
  then show ?case using "3.prems" f by (simp add: parse_members.simps quoted_def mt raw_ok_def readsD)
qed simp

lemma nesting_elem: "nesting (JArr vs) \<le> d \<Longrightarrow> u \<in> set vs \<Longrightarrow> nesting u \<le> d - 1"
proof -
  assume a: "nesting (JArr vs) \<le> d" "u \<in> set vs"
  have "nesting u \<le> Max (insert 0 (nesting ` set vs))" using a(2) by (intro Max_ge) auto
  then show ?thesis using a(1) by simp
qed

lemma nesting_member: "nesting (JObj ms) \<le> d \<Longrightarrow> (k, v) \<in> set ms \<Longrightarrow> nesting v \<le> d - 1"
proof -
  assume a: "nesting (JObj ms) \<le> d" "(k, v) \<in> set ms"
  have "nesting v \<le> Max (insert 0 ((\<lambda>(k, v). nesting v) ` set ms))"
    using a(2) by (intro Max_ge) force+
  then show ?thesis using a(1) by simp
qed

lemma parse_lit:
  "0 < f \<Longrightarrow> parse_value f d (render JNull @ rest) = Some (JNull, rest)"
  "0 < f \<Longrightarrow> parse_value f d (render JTrue @ rest) = Some (JTrue, rest)"
  "0 < f \<Longrightarrow> parse_value f d (render JFalse @ rest) = Some (JFalse, rest)"
  by (cases f; simp add: parse_value.simps scan_word_def lit_def)+

lemma reads_render: "json_ok v \<Longrightarrow> nesting v \<le> d \<Longrightarrow> reads d v"
proof (induction v arbitrary: d)
  case (JNum t)
  obtain c u where t: "t = c # u" "\<not> is_ws c" "c \<notin> {0x22, 0x7B, 0x5B, 0x6E, 0x74, 0x66, 0x5D, 0x7D, 0x3A, 0x2C}"
    using num_start [of t] JNum(1) by auto
  have "stops rest \<Longrightarrow> scan_number (t @ rest) = Some (t, rest)" for rest
    using JNum by (simp add: num_ok_def)
  then show ?case using t by (auto simp: parse_value.simps reads_def dest!: Suc_le_D)
next
  case (JStr raw)
  then show ?case
    by (auto simp: reads_def parse_value.simps quoted_def raw_ok_def dest!: Suc_le_D)
next
  case (JArr vs)
  have r: "list_all (reads (d - 1)) vs"
    using JArr nesting_elem by (auto simp: list_all_iff)
  have "parse_value f d (render (JArr vs) @ rest) = Some (JArr vs, rest)"
    if len: "2 * length (render (JArr vs)) + 1 \<le> f" for f rest
  proof -
    obtain g where f: "f = Suc g" using len by (cases f) auto
    have "0 < d" using JArr.prems(2) by simp
    show ?thesis
    proof (cases vs)
      case Nil
      then show ?thesis using f \<open>0 < d\<close> by (simp add: parse_value.simps)
    next
      case (Cons w ws)
      have "parse_elems g (d - 1) (commas (map render vs) @ 0x5D # rest) = Some (vs, rest)"
        using r len f Cons by (intro parse_elems_render) auto
      moreover have "json_ok w" using JArr.prems(1) Cons by simp
      then obtain c u where "render w = c # u" "\<not> is_ws c" "c \<noteq> 0x5D"
        by (rule render_start)
      then have "\<exists>u. commas (map render vs) = c # u" using Cons by (cases ws) auto
      ultimately show ?thesis using f \<open>0 < d\<close> \<open>\<not> is_ws c\<close> \<open>c \<noteq> 0x5D\<close>
        by (auto simp: parse_value.simps)
    qed
  qed
  then show ?case by (simp add: reads_def)
next
  case (JObj ms)
  let ?mt = "\<lambda>(k, v). quoted k @ 0x3A # render v"
  have "reads (d - 1) v" if "(k, v) \<in> set ms" for k v
    using JObj.prems that nesting_member [OF JObj.prems(2) that]
    by (intro JObj.IH [OF that]) (auto simp: list_all_iff snds.simps)
  then have r: "list_all (\<lambda>(k, v). raw_ok k \<and> reads (d - 1) v) ms"
    using JObj.prems(1) by (auto simp: list_all_iff)
  have "parse_value f d (render (JObj ms) @ rest) = Some (JObj ms, rest)"
    if len: "2 * length (render (JObj ms)) + 1 \<le> f" for f rest
  proof -
    obtain g where f: "f = Suc g" using len by (cases f) auto
    have "0 < d" using JObj.prems(2) by simp
    show ?thesis
    proof (cases ms)
      case Nil
      then show ?thesis using f \<open>0 < d\<close> by (simp add: parse_value.simps)
    next
      case (Cons w ws)
      have "parse_members g (d - 1) (commas (map ?mt ms) @ 0x7D # rest) = Some (ms, rest)"
        using r len f Cons by (intro parse_members_render) auto
      moreover obtain u where "commas (map ?mt ms) = 0x22 # u"
        using Cons by (cases w; cases ws) (auto simp: quoted_def)
      ultimately show ?thesis using f \<open>0 < d\<close> by (simp add: parse_value.simps)
    qed
  qed
  then show ?case by (simp add: reads_def)
qed (auto simp: reads_def parse_lit simp del: render.simps)

lemma parse_json_render:
  assumes "json_ok v" "nesting v \<le> max_nesting"
  shows "parse_json (render v) = Some v"
  using readsD [OF reads_render [OF assms], of "2 * length (render v) + 2" "[]"]
  by (simp add: parse_json_def stops_def skip_ws_def)

section \<open>Members of a marshalled struct\<close>

lemma scan_plain:
  assumes "\<And>c. c \<in> set raw \<Longrightarrow> 0x20 \<le> c \<and> c \<noteq> 0x22 \<and> c \<noteq> 0x5C"
  shows "scan_string (raw @ 0x22 # r) = Some (raw, r)"
  using assms
proof (induction raw)
  case Nil
  show ?case by (simp add: scan_string.simps)
next
  case (Cons c raw)
  then have "\<not> c < 0x20 \<and> c \<noteq> 0x22 \<and> c \<noteq> 0x5C" by (simp add: not_less)
  then show ?case using Cons by (simp add: scan_cons)
qed

lemma raw_ok_escape [simp]: "raw_ok (escape s)"
  by (simp add: raw_ok_def scan_escape)

lemma raw_ok_b64 [simp]: "raw_ok (b64_encode b)"
proof -
  have "0x20 \<le> c \<and> c \<noteq> 0x22 \<and> c \<noteq> 0x5C" if "c \<in> set (b64_encode b)" for c
    using b64_encode_safe [OF that] by (auto simp: word_le_nat_alt)
  then show ?thesis unfolding raw_ok_def by (blast intro: scan_plain)
qed

lemma raw_ok_time: "format_time t = Some s \<Longrightarrow> raw_ok s"
  unfolding raw_ok_def by (intro allI scan_plain) (rule format_time_plain)

lemma unquote_plain:
  assumes "\<And>c. c \<in> set raw \<Longrightarrow> c < 0x80 \<and> c \<noteq> 0x5C"
  shows "unquote raw = raw"
  using assms by (induction raw) (simp_all add: unquote.simps)

lemma unquote_b64 [simp]: "unquote (b64_encode b) = b64_encode b"
proof -
  have "c < 0x80 \<and> c \<noteq> 0x5C" if "c \<in> set (b64_encode b)" for c
    using b64_encode_safe [OF that] by (auto simp: word_le_nat_alt word_less_nat_alt)
  then show ?thesis by (rule unquote_plain)
qed

lemma decimal_head: "\<exists>c u. decimal n = c # u \<and> is_digit c \<and> (n \<noteq> 0 \<longrightarrow> c \<noteq> 0x30)"
proof (induction n rule: decimal.induct)
  case (1 n)
  show ?case
  proof (cases "n < 10")
    case True
    then have "n \<noteq> 0 \<Longrightarrow> digit n \<noteq> 0x30" using unat_digit [of n] by auto
    then show ?thesis using True by (subst decimal.simps) simp
  next
    case False
    then show ?thesis using 1 by (subst decimal.simps) fastforce
  qed
qed

lemma scan_digits_stop:
  assumes "list_all is_digit ds" "ds \<noteq> []" "stops r"
  shows "scan_digits (ds @ r) = Some (ds, r)"
proof -
  have "r = [] \<or> \<not> is_digit (hd r)" using assms(3) by (auto simp: stops_def is_digit_def cont_in_def)
  then have "takeWhile is_digit r = []" "dropWhile is_digit r = r" by (cases r; simp)+
  then show ?thesis using assms(1,2)
    by (cases ds) (simp_all add: scan_digits_def list_all_iff)
qed

lemma scan_decimal:
  assumes "n \<noteq> 0" "stops r"
  shows "scan_int (decimal n @ r) = Some (decimal n, r)"
proof -
  obtain c u where "decimal n = c # u" "c \<noteq> 0x30" using decimal_head [of n] assms(1) by auto
  then show ?thesis using scan_digits_stop [OF decimal_digits assms(2), of n] by (simp add: scan_int_def)
qed

lemma scan_tail_stop: "stops r \<Longrightarrow> scan_frac r = Some ([], r)" "stops r \<Longrightarrow> scan_exp r = Some ([], r)"
  by (auto simp: scan_frac_def scan_exp_def stops_def split: list.split)

lemma num_ok_FormatInt:
  assumes "i \<noteq> 0"
  shows "num_ok (FormatInt i)"
proof -
  have "scan_number (FormatInt i @ r) = Some (FormatInt i, r)" if r: "stops r" for r
  proof (cases "i < 0")
    case True
    then show ?thesis using scan_decimal [of "nat (- i)" r] r
      by (simp add: scan_number_def FormatInt_def scan_tail_stop)
  next
    case False
    obtain c u where d: "decimal (nat i) = c # u" "is_digit c" using decimal_head [of "nat i"] by auto
    have s: "scan_int (decimal (nat i) @ r) = Some (decimal (nat i), r)"
      using assms False r by (intro scan_decimal) auto
    show ?thesis using False r d s digit_not_minus [OF d(2)]
      by (simp add: scan_number_def FormatInt_def scan_tail_stop)
  qed
  moreover have "\<exists>c u. FormatInt i = c # u \<and> (is_digit c \<or> c = 0x2D)"
    using decimal_head [of "nat i"] by (auto simp: FormatInt_def)
  ultimately show ?thesis by (simp add: num_ok_def)
qed

text \<open>What a marshalled member does to the struct it is read into.\<close>

lemma get_members [simp]:
  "valid_utf8 s \<Longrightarrow> get_string old (JStr (escape s)) = Some s"
  "get_bytes old' (JStr (b64_encode b)) = Some b"
  "- (2 ^ 63) \<le> i \<Longrightarrow> i < 2 ^ 63 \<Longrightarrow> get_int64 n (JNum (FormatInt i)) = Some i"
  by (simp_all add: get_string_def get_bytes_def get_int64_def unquote_escape b64_decode_encode
      ParseInt64_FormatInt)

lemma set_members_append:
  "set_members f x (ms @ ns) = Option.bind (set_members f x ms) (\<lambda>y. set_members f y ns)"
  by (induction f x ms rule: set_members.induct) (auto intro: Option.bind_cong)

lemma set_members_one:
  "set_members f x (str_member name s) = (if s = [] then Some x else f x (lit name) (JStr (escape s)))"
  "set_members f x (bytes_member name b) = (if b = [] then Some x else f x (lit name) (JStr (b64_encode b)))"
  "set_members f x (int_member name i) = (if i = 0 then Some x else f x (lit name) (JNum (FormatInt i)))"
  by (auto simp: str_member_def bytes_member_def int_member_def split: option.split)

definition key_names :: "string list" where
  "key_names = [''meta'', ''error'', ''peer'', ''key'', ''value'', ''topic'', ''custom'', ''timeout'',
     ''deadline'', ''context'']"

lemma raw_ok_names: "list_all (\<lambda>a. raw_ok (lit a)) key_names"
  by (simp add: key_names_def lit_def raw_ok_def scan_string.simps)

lemma key_is_names: "list_all (\<lambda>a. list_all (\<lambda>b. key_is a (lit b) = (a = b)) key_names) key_names"
  by code_simp

lemma key_raw_ok [simp]: "a \<in> set key_names \<Longrightarrow> raw_ok (lit a)"
  using raw_ok_names by (simp add: list_all_iff)

lemma key_is_iff: "a \<in> set key_names \<Longrightarrow> b \<in> set key_names \<Longrightarrow> key_is a (lit b) \<longleftrightarrow> a = b"
  using key_is_names by (simp add: list_all_iff)

lemma json_ok_member [simp]:
  "name \<in> set key_names \<Longrightarrow> list_all (\<lambda>(k, v). raw_ok k \<and> json_ok v) (str_member name s)"
  "name \<in> set key_names \<Longrightarrow> list_all (\<lambda>(k, v). raw_ok k \<and> json_ok v) (bytes_member name b)"
  "name \<in> set key_names \<Longrightarrow> list_all (\<lambda>(k, v). raw_ok k \<and> json_ok v) (int_member name i)"
  by (simp_all add: str_member_def bytes_member_def int_member_def num_ok_FormatInt)

lemma nesting_flat: "\<forall>(k, v) \<in> set ms. nesting v \<le> n \<Longrightarrow> nesting (JObj ms) \<le> Suc n"
  by (auto intro!: Max.boundedI)

lemma unmarshal_render:
  "json_ok v \<Longrightarrow> nesting v \<le> max_nesting \<Longrightarrow>
   unmarshal f x (render v) = of_option ErrJson (set_struct f x v)"
  by (simp add: unmarshal_def parse_json_render)

end
