(* ===== verification/Packet_Payload.thy ===== *)
theory Packet_Payload
  imports Go_Json
begin

text \<open>
  The JSON payloads of the packets: \<open>ConnData\<close>, \<open>SessionData\<close>, \<open>MessageData\<close> and
  \<open>RegisterData\<close> with their struct tags, what \<open>json.Marshal\<close> writes for a pointer to each
  (a nil pointer is \<open>None\<close>) and what \<open>json.Unmarshal\<close> reads into a fresh one. A nil byte
  slice and an empty one are the same value here; the tags' \<open>omitempty\<close> makes no difference
  between them.
\<close>

section \<open>The structs\<close>

record ConnData =
  cd_Meta :: bytes
  cd_Error :: bytes

record SessionData =
  sd_Meta :: bytes
  sd_Error :: bytes
  sd_Peer :: bytes

record RegisterData =
  rd_Error :: bytes

text \<open>\<open>Timeout\<close> is a \<open>time.Duration\<close> in nanoseconds; the anonymous \<open>Context\<close> struct holds one deadline.\<close>

record MessageData =
  md_Key :: bytes
  md_Value :: bytes
  md_Topic :: bytes
  md_Custom :: bytes
  md_Error :: bytes
  md_Timeout :: int
  md_Deadline :: go_time
  md_ContextDeadline :: go_time

definition empty_ConnData :: ConnData where
  "empty_ConnData = \<lparr>cd_Meta = [], cd_Error = []\<rparr>"

definition empty_SessionData :: SessionData where
  "empty_SessionData = \<lparr>sd_Meta = [], sd_Error = [], sd_Peer = []\<rparr>"

definition empty_RegisterData :: RegisterData where
  "empty_RegisterData = \<lparr>rd_Error = []\<rparr>"

definition empty_MessageData :: MessageData where
  "empty_MessageData =
     \<lparr>md_Key = [], md_Value = [], md_Topic = [], md_Custom = [], md_Error = [], md_Timeout = 0,
      md_Deadline = zero_time, md_ContextDeadline = zero_time\<rparr>"

section \<open>Marshalling\<close>

definition json_ConnData :: "ConnData \<Rightarrow> jval" where
  "json_ConnData x = JObj (bytes_member ''meta'' (cd_Meta x) @ str_member ''error'' (cd_Error x))"

definition json_SessionData :: "SessionData \<Rightarrow> jval" where
  "json_SessionData x =
     JObj (bytes_member ''meta'' (sd_Meta x) @ str_member ''error'' (sd_Error x)
           @ str_member ''peer'' (sd_Peer x))"

definition json_RegisterData :: "RegisterData \<Rightarrow> jval" where
  "json_RegisterData x = JObj (str_member ''error'' (rd_Error x))"

definition json_MessageData :: "MessageData \<Rightarrow> jval option" where
  "json_MessageData x =
     (case (format_time (md_Deadline x), format_time (md_ContextDeadline x)) of
        (Some d, Some c) \<Rightarrow>
          Some (JObj (bytes_member ''key'' (md_Key x) @ bytes_member ''value'' (md_Value x)
            @ str_member ''topic'' (md_Topic x) @ bytes_member ''custom'' (md_Custom x)
            @ str_member ''error'' (md_Error x) @ int_member ''timeout'' (md_Timeout x)
            @ [(lit ''deadline'', JStr d), (lit ''context'', JObj [(lit ''deadline'', JStr c)])]))
      | _ \<Rightarrow> None)"

definition marshal_ConnData :: "ConnData option \<Rightarrow> bytes outcome" where
  "marshal_ConnData p = Ret (render (case p of None \<Rightarrow> JNull | Some x \<Rightarrow> json_ConnData x))"

definition marshal_SessionData :: "SessionData option \<Rightarrow> bytes outcome" where
  "marshal_SessionData p = Ret (render (case p of None \<Rightarrow> JNull | Some x \<Rightarrow> json_SessionData x))"

definition marshal_RegisterData :: "RegisterData option \<Rightarrow> bytes outcome" where
  "marshal_RegisterData p = Ret (render (case p of None \<Rightarrow> JNull | Some x \<Rightarrow> json_RegisterData x))"

definition marshal_MessageData :: "MessageData option \<Rightarrow> bytes outcome" where
  "marshal_MessageData p =
     (case p of
        None \<Rightarrow> Ret (render JNull)
      | Some x \<Rightarrow> of_option ErrJson (map_option render (json_MessageData x)))"

section \<open>Unmarshalling\<close>

definition set_ConnData :: "ConnData \<Rightarrow> bytes \<Rightarrow> jval \<Rightarrow> ConnData option" where
  "set_ConnData x k v =
     (if key_is ''meta'' k then map_option (\<lambda>b. x\<lparr>cd_Meta := b\<rparr>) (get_bytes (cd_Meta x) v)
      else if key_is ''error'' k then map_option (\<lambda>s. x\<lparr>cd_Error := s\<rparr>) (get_string (cd_Error x) v)
      else Some x)"

definition set_SessionData :: "SessionData \<Rightarrow> bytes \<Rightarrow> jval \<Rightarrow> SessionData option" where
  "set_SessionData x k v =
     (if key_is ''meta'' k then map_option (\<lambda>b. x\<lparr>sd_Meta := b\<rparr>) (get_bytes (sd_Meta x) v)
      else if key_is ''error'' k then map_option (\<lambda>s. x\<lparr>sd_Error := s\<rparr>) (get_string (sd_Error x) v)
      else if key_is ''peer'' k then map_option (\<lambda>s. x\<lparr>sd_Peer := s\<rparr>) (get_string (sd_Peer x) v)
      else Some x)"

definition set_RegisterData :: "RegisterData \<Rightarrow> bytes \<Rightarrow> jval \<Rightarrow> RegisterData option" where
  "set_RegisterData x k v =
     (if key_is ''error'' k then map_option (\<lambda>s. x\<lparr>rd_Error := s\<rparr>) (get_string (rd_Error x) v)
      else Some x)"

definition set_Context :: "go_time \<Rightarrow> bytes \<Rightarrow> jval \<Rightarrow> go_time option" where
  "set_Context t k v = (if key_is ''deadline'' k then get_time t v else Some t)"

definition set_MessageData :: "MessageData \<Rightarrow> bytes \<Rightarrow> jval \<Rightarrow> MessageData option" where
  "set_MessageData x k v =
     (if key_is ''key'' k then map_option (\<lambda>b. x\<lparr>md_Key := b\<rparr>) (get_bytes (md_Key x) v)
      else if key_is ''value'' k then map_option (\<lambda>b. x\<lparr>md_Value := b\<rparr>) (get_bytes (md_Value x) v)
      else if key_is ''topic'' k then map_option (\<lambda>s. x\<lparr>md_Topic := s\<rparr>) (get_string (md_Topic x) v)
      else if key_is ''custom'' k then map_option (\<lambda>b. x\<lparr>md_Custom := b\<rparr>) (get_bytes (md_Custom x) v)
      else if key_is ''error'' k then map_option (\<lambda>s. x\<lparr>md_Error := s\<rparr>) (get_string (md_Error x) v)
      else if key_is ''timeout'' k then map_option (\<lambda>i. x\<lparr>md_Timeout := i\<rparr>) (get_int64 (md_Timeout x) v)
      else if key_is ''deadline'' k then map_option (\<lambda>t. x\<lparr>md_Deadline := t\<rparr>) (get_time (md_Deadline x) v)
      else if key_is ''context'' k then
        map_option (\<lambda>t. x\<lparr>md_ContextDeadline := t\<rparr>) (set_struct set_Context (md_ContextDeadline x) v)
      else Some x)"

definition unmarshal_ConnData :: "bytes \<Rightarrow> ConnData outcome" where
  "unmarshal_ConnData s = unmarshal set_ConnData empty_ConnData s"

definition unmarshal_SessionData :: "bytes \<Rightarrow> SessionData outcome" where
  "unmarshal_SessionData s = unmarshal set_SessionData empty_SessionData s"

definition unmarshal_RegisterData :: "bytes \<Rightarrow> RegisterData outcome" where
  "unmarshal_RegisterData s = unmarshal set_RegisterData empty_RegisterData s"

definition unmarshal_MessageData :: "bytes \<Rightarrow> MessageData outcome" where
  "unmarshal_MessageData s = unmarshal set_MessageData empty_MessageData s"

section \<open>Round trips\<close>

text \<open>The payloads that cross the wire unchanged: their strings are UTF-8, durations fit in
  64 bits and times have an RFC 3339 form.\<close>

definition ok_ConnData :: "ConnData \<Rightarrow> bool" where
  "ok_ConnData x \<longleftrightarrow> valid_utf8 (cd_Error x)"

definition ok_SessionData :: "SessionData \<Rightarrow> bool" where
  "ok_SessionData x \<longleftrightarrow> valid_utf8 (sd_Error x) \<and> valid_utf8 (sd_Peer x)"

definition ok_RegisterData :: "RegisterData \<Rightarrow> bool" where
  "ok_RegisterData x \<longleftrightarrow> valid_utf8 (rd_Error x)"

definition ok_MessageData :: "MessageData \<Rightarrow> bool" where
  "ok_MessageData x \<longleftrightarrow> valid_utf8 (md_Topic x) \<and> valid_utf8 (md_Error x)
     \<and> - (2 ^ 63) \<le> md_Timeout x \<and> md_Timeout x < 2 ^ 63
     \<and> rfc3339_time (md_Deadline x) \<and> rfc3339_time (md_ContextDeadline x)"

lemmas member_defs = str_member_def bytes_member_def int_member_def

lemma in_key_names [simp]:
  "''meta'' \<in> set key_names" "''error'' \<in> set key_names" "''peer'' \<in> set key_names"
  "''key'' \<in> set key_names" "''value'' \<in> set key_names" "''topic'' \<in> set key_names"
  "''custom'' \<in> set key_names" "''timeout'' \<in> set key_names" "''deadline'' \<in> set key_names"
  "''context'' \<in> set key_names"
  by (simp_all add: key_names_def)

lemma nesting_member_0 [simp]:
  "(k, v) \<in> set (str_member name s) \<Longrightarrow> nesting v = 0"
  "(k, v) \<in> set (bytes_member name b) \<Longrightarrow> nesting v = 0"
  "(k, v) \<in> set (int_member name i) \<Longrightarrow> nesting v = 0"
  by (auto simp: member_defs split: if_splits)

lemma json_ok_payloads:
  "json_ok (json_ConnData x)" "json_ok (json_SessionData y)" "json_ok (json_RegisterData z)"
  "json_MessageData w = Some v \<Longrightarrow> json_ok v"
  by (auto simp: json_ConnData_def json_SessionData_def json_RegisterData_def json_MessageData_def
      raw_ok_time split: option.splits)

lemma nesting_payloads:
  "nesting (json_ConnData x) \<le> max_nesting" "nesting (json_SessionData y) \<le> max_nesting"
  "nesting (json_RegisterData z) \<le> max_nesting"
  "json_MessageData w = Some v \<Longrightarrow> nesting v \<le> max_nesting"
proof -
  have m: "2 \<le> max_nesting" by (simp add: max_nesting_def)
  have flat: "\<forall>(k, v) \<in> set ms. nesting v \<le> 1 \<Longrightarrow> nesting (JObj ms) \<le> max_nesting" for ms
    using nesting_flat [of ms 1] m by (simp del: nesting.simps)
  show "nesting (json_ConnData x) \<le> max_nesting" "nesting (json_SessionData y) \<le> max_nesting"
    "nesting (json_RegisterData z) \<le> max_nesting"
    unfolding json_ConnData_def json_SessionData_def json_RegisterData_def
    by (rule flat; auto)+
  show "json_MessageData w = Some v \<Longrightarrow> nesting v \<le> max_nesting"
    unfolding json_MessageData_def by (auto split: option.splits intro!: flat simp del: nesting.simps(2)) auto
qed

lemma unmarshal_null: "unmarshal f x (render JNull) = Ret x"
  by (simp add: unmarshal_render set_struct_def del: render.simps)

lemma ConnData_roundtrip:
  assumes "ok_ConnData x"
  shows "unmarshal_ConnData (render (json_ConnData x)) = Ret x"
proof -
  have "set_struct set_ConnData empty_ConnData (json_ConnData x) = Some x"
    using assms
    by (simp add: set_struct_def json_ConnData_def set_members_append set_members_one set_ConnData_def
        key_is_iff empty_ConnData_def ok_ConnData_def)
  then show ?thesis
    by (simp add: unmarshal_ConnData_def unmarshal_render json_ok_payloads nesting_payloads del: render.simps)
qed

lemma SessionData_roundtrip:
  assumes "ok_SessionData x"
  shows "unmarshal_SessionData (render (json_SessionData x)) = Ret x"
proof -
  have "set_struct set_SessionData empty_SessionData (json_SessionData x) = Some x"
    using assms
    by (simp add: set_struct_def json_SessionData_def set_members_append set_members_one set_SessionData_def
        key_is_iff empty_SessionData_def ok_SessionData_def)
  then show ?thesis
    by (simp add: unmarshal_SessionData_def unmarshal_render json_ok_payloads nesting_payloads del: render.simps)
qed

lemma RegisterData_roundtrip:
  assumes "ok_RegisterData x"
  shows "unmarshal_RegisterData (render (json_RegisterData x)) = Ret x"
proof -
  have "set_struct set_RegisterData empty_RegisterData (json_RegisterData x) = Some x"
    using assms
    by (simp add: set_struct_def json_RegisterData_def set_members_one set_RegisterData_def
        key_is_iff empty_RegisterData_def ok_RegisterData_def)
  then show ?thesis
    by (simp add: unmarshal_RegisterData_def unmarshal_render json_ok_payloads nesting_payloads del: render.simps)
qed

lemma json_MessageData_Some: "ok_MessageData x \<Longrightarrow> \<exists>v. json_MessageData x = Some v"
  using format_time_Some [of "md_Deadline x"] format_time_Some [of "md_ContextDeadline x"]
  by (auto simp: json_MessageData_def ok_MessageData_def)

lemma MessageData_roundtrip:
  assumes "ok_MessageData x" "json_MessageData x = Some v"
  shows "unmarshal_MessageData (render v) = Ret x"
proof -
  obtain d c where t: "format_time (md_Deadline x) = Some d" "format_time (md_ContextDeadline x) = Some c"
    using assms(2) by (auto simp: json_MessageData_def split: option.splits)
  have p: "parse_time d = Some (md_Deadline x)" "parse_time c = Some (md_ContextDeadline x)"
    using t assms(1) parse_format_time by (auto simp: ok_MessageData_def)
  have "set_struct set_MessageData empty_MessageData v = Some x"
    using assms t p
    by (auto simp: set_struct_def json_MessageData_def set_members_append set_members_one set_MessageData_def
        set_Context_def get_time_def key_is_iff empty_MessageData_def ok_MessageData_def)
  then show ?thesis
    by (simp add: unmarshal_MessageData_def unmarshal_render json_ok_payloads(4) [OF assms(2)]
        nesting_payloads(4) [OF assms(2)] del: render.simps)
qed

text \<open>What the reader of a packet finds in the payload pointer: never nil.\<close>

lemma unmarshal_marshal:
  "pred_option ok_ConnData c \<Longrightarrow>
     \<exists>b. marshal_ConnData c = Ret b \<and> unmarshal_ConnData b = Ret (case c of None \<Rightarrow> empty_ConnData | Some x \<Rightarrow> x)"
  "pred_option ok_SessionData s \<Longrightarrow>
     \<exists>b. marshal_SessionData s = Ret b \<and> unmarshal_SessionData b = Ret (case s of None \<Rightarrow> empty_SessionData | Some x \<Rightarrow> x)"
  "pred_option ok_RegisterData r \<Longrightarrow>
     \<exists>b. marshal_RegisterData r = Ret b \<and> unmarshal_RegisterData b = Ret (case r of None \<Rightarrow> empty_RegisterData | Some x \<Rightarrow> x)"
  "pred_option ok_MessageData m \<Longrightarrow>
     \<exists>b. marshal_MessageData m = Ret b \<and> unmarshal_MessageData b = Ret (case m of None \<Rightarrow> empty_MessageData | Some x \<Rightarrow> x)"
     apply (cases c; simp add: marshal_ConnData_def unmarshal_ConnData_def unmarshal_null
       ConnData_roundtrip [unfolded unmarshal_ConnData_def] del: render.simps)
    apply (cases s; simp add: marshal_SessionData_def unmarshal_SessionData_def unmarshal_null
      SessionData_roundtrip [unfolded unmarshal_SessionData_def] del: render.simps)
   apply (cases r; simp add: marshal_RegisterData_def unmarshal_RegisterData_def unmarshal_null
     RegisterData_roundtrip [unfolded unmarshal_RegisterData_def] del: render.simps)
  apply (cases m)
   apply (simp add: marshal_MessageData_def unmarshal_MessageData_def unmarshal_null del: render.simps)
  using json_MessageData_Some MessageData_roundtrip
  by (fastforce simp: marshal_MessageData_def)

end
