(* ===== verification/Packet_Types.thy ===== *)
theory Packet_Types
  imports Packet_Payload
begin

unbundle bit_operations_syntax

text \<open>
  The packet header (\<open>packet/packet.go\<close>) with its codec, the structs of the eighteen packet
  types, and the framing that the \<open>Encode\<close> methods share. The locale \<open>packet_codec\<close> states
  what one packet type promises, that its reader undoes its encoder, and gives the round trip
  through a header; every packet type is an instance of it.
\<close>

section \<open>Packet types and header\<close>

definition V01 :: byte where "V01 = 0x01"

definition TypeConnPacket :: byte where "TypeConnPacket = 0x01"
definition TypeConnAckPacket :: byte where "TypeConnAckPacket = 0x02"
definition TypeDisConnPacket :: byte where "TypeDisConnPacket = 0x11"
definition TypeDisConnAckPacket :: byte where "TypeDisConnAckPacket = 0x12"
definition TypeHeartbeatPacket :: byte where "TypeHeartbeatPacket = 0x21"
definition TypeHeartbeatAckPacket :: byte where "TypeHeartbeatAckPacket = 0x22"
definition TypeSessionPacket :: byte where "TypeSessionPacket = 0x31"
definition TypeSessionAckPacket :: byte where "TypeSessionAckPacket = 0x32"
definition TypeDismissPacket :: byte where "TypeDismissPacket = 0x41"
definition TypeDismissAckPacket :: byte where "TypeDismissAckPacket = 0x42"
definition TypeMessagePacket :: byte where "TypeMessagePacket = 0x51"
definition TypeMessageAckPacket :: byte where "TypeMessageAckPacket = 0x52"
definition TypeStreamPacket :: byte where "TypeStreamPacket = 0x61"
definition TypeRequestPacket :: byte where "TypeRequestPacket = 0x71"
definition TypeResponsePacket :: byte where "TypeResponsePacket = 0x72"
definition TypeRequestCancelPacket :: byte where "TypeRequestCancelPacket = 0x73"
definition TypeRegisterPacket :: byte where "TypeRegisterPacket = 0x81"
definition TypeRegisterAckPacket :: byte where "TypeRegisterAckPacket = 0x82"

lemmas type_defs =
  TypeConnPacket_def TypeConnAckPacket_def TypeDisConnPacket_def TypeDisConnAckPacket_def
  TypeHeartbeatPacket_def TypeHeartbeatAckPacket_def TypeSessionPacket_def TypeSessionAckPacket_def
  TypeDismissPacket_def TypeDismissAckPacket_def TypeMessagePacket_def TypeMessageAckPacket_def
  TypeStreamPacket_def TypeRequestPacket_def TypeResponsePacket_def TypeRequestCancelPacket_def
  TypeRegisterPacket_def TypeRegisterAckPacket_def

definition CnssAtMostOnce :: byte where "CnssAtMostOnce = 0x01"
definition CnssAtLeastOnce :: byte where "CnssAtLeastOnce = 0x02"

definition RetCodeOK :: byte where "RetCodeOK = 0x00"
definition RetCodeERR :: byte where "RetCodeERR = 0x01"

definition SessionIDNull :: u64 where "SessionIDNull = 0"
definition SessionID1 :: u64 where "SessionID1 = 1"

text \<open>\<open>Type.String\<close>, the spelling of \<open>cacnel\<close> included.\<close>

definition Type_String :: "byte \<Rightarrow> string" where
  "Type_String typ =
     (if typ = TypeConnPacket then ''conn packet''
      else if typ = TypeConnAckPacket then ''conn ack packet''
      else if typ = TypeDisConnPacket then ''dis conn packet''
      else if typ = TypeDisConnAckPacket then ''dis conn ack packet''
      else if typ = TypeHeartbeatPacket then ''heartbeat packet''
      else if typ = TypeHeartbeatAckPacket then ''heartbeat ack packet''
      else if typ = TypeSessionPacket then ''session packet''
      else if typ = TypeSessionAckPacket then ''session ack packet''
      else if typ = TypeDismissPacket then ''dismiss packet''
      else if typ = TypeDismissAckPacket then ''dismiss ack packet''
      else if typ = TypeMessagePacket then ''message packet''
      else if typ = TypeMessageAckPacket then ''message ack packet''
      else if typ = TypeStreamPacket then ''stream packet''
      else if typ = TypeRequestPacket then ''request packet''
      else if typ = TypeResponsePacket then ''response packet''
      else if typ = TypeRequestCancelPacket then ''request cacnel packet''
      else if typ = TypeRegisterPacket then ''register packet''
      else if typ = TypeRegisterAckPacket then ''register ack packet''
      else ''unknown packet'')"

record PacketHeader =
  Version :: byte
  Typ :: byte
  PacketID :: u64
  PacketLen :: u32
  Cnss :: byte

definition PacketHeader_Length :: "PacketHeader \<Rightarrow> nat" where
  "PacketHeader_Length h = unat (PacketLen h)"

definition PacketHeader_Encode :: "PacketHeader \<Rightarrow> bytes" where
  "PacketHeader_Encode h = [Version h, Typ h] @ PutUint64 (PacketID h) @ PutUint32 (PacketLen h)"

text \<open>The fields both header decoders take from 14 bytes; the consistency is not on the wire.\<close>

definition PacketHeader_fields :: "PacketHeader \<Rightarrow> slice \<Rightarrow> PacketHeader outcome" where
  "PacketHeader_fields h data =
     obind (sl_index data 0) (\<lambda>v. obind (sl_index data 1) (\<lambda>t.
     obind (obind (sl_sub data 2 10) Uint64) (\<lambda>i.
     obind (obind (sl_sub data 10 14) Uint32) (\<lambda>n.
     Ret (h\<lparr>Version := v, Typ := t, PacketID := i, PacketLen := n\<rparr>)))))"

definition PacketHeader_Decode :: "PacketHeader \<Rightarrow> slice \<Rightarrow> (PacketHeader \<times> u32) outcome" where
  "PacketHeader_Decode h data =
     (if slen data < 14 then Fail ErrIncompletePacket
      else obind (PacketHeader_fields h data) (\<lambda>h'. Ret (h', 14)))"

definition PacketHeader_DecodeFromReader :: "PacketHeader \<Rightarrow> PacketHeader rd" where
  "PacketHeader_DecodeFromReader h =
     rbind (make_read 14) (\<lambda>data. rlift (PacketHeader_fields h (sl_full data)))"

text \<open>\<open>\&PacketHeader{}\<close>.\<close>

definition new_PacketHeader :: PacketHeader where
  "new_PacketHeader = \<lparr>Version = 0, Typ = 0, PacketID = 0, PacketLen = 0, Cnss = 0\<rparr>"

section \<open>Packet structs\<close>

record ConnFlags =
  Heartbeat :: int
  clientIDAcquire :: bool
  packetIDAcquire :: bool
  Retain :: bool
  Clear :: bool

record ConnPacket =
  cp_hdr :: PacketHeader
  cp_flags :: ConnFlags
  cp_ClientID :: u64
  cp_ConnData :: "ConnData option"

record ConnAckPacket =
  ca_hdr :: PacketHeader
  ca_RetCode :: byte
  ca_ClientID :: u64
  ca_ConnData :: "ConnData option"

record DisConnPacket =
  dc_hdr :: PacketHeader

record DisConnAckPacket =
  da_hdr :: PacketHeader
  da_RetCode :: byte
  da_ConnData :: "ConnData option"

record HeartbeatPacket =
  hb_hdr :: PacketHeader

record HeartbeatAckPacket =
  ha_hdr :: PacketHeader

record SessionFlags =
  Priority :: byte
  Qos :: byte
  sessionIDAcquire :: bool

record SessionPacket =
  sp_hdr :: PacketHeader
  sp_flags :: SessionFlags
  sp_negotiateID :: u64
  sp_SessionData :: "SessionData option"
  sp_clientID :: u64

record SessionAckPacket =
  sa_hdr :: PacketHeader
  sa_flags :: SessionFlags
  sa_negotiateID :: u64
  sa_sessionID :: u64
  sa_SessionData :: "SessionData option"
  sa_clientID :: u64

record DismissPacket =
  dm_hdr :: PacketHeader
  dm_sessionID :: u64
  dm_SessionData :: "SessionData option"
  dm_clientID :: u64

record DismissAckPacket =
  dk_hdr :: PacketHeader
  dk_sessionID :: u64
  dk_SessionData :: "SessionData option"
  dk_clientID :: u64

record MessagePacket =
  mp_hdr :: PacketHeader
  mp_sessionID :: u64
  mp_Data :: "MessageData option"
  mp_clientID :: u64

record MessageAckPacket =
  ma_hdr :: PacketHeader
  ma_sessionID :: u64
  ma_Data :: "MessageData option"
  ma_clientID :: u64

record StreamPacket =
  st_hdr :: PacketHeader
  st_sessionID :: u64
  st_Data :: bytes
  st_clientID :: u64

record RequestCancelPacket =
  rc_hdr :: PacketHeader
  rc_sessionID :: u64
  rc_cancelType :: u16

record RegisterPacket =
  rp_hdr :: PacketHeader
  rp_sessionID :: u64
  rp_method :: bytes
  rp_clientID :: u64

record RegisterAckPacket =
  ra_hdr :: PacketHeader
  ra_sessionID :: u64
  ra_RegisterData :: "RegisterData option"
  ra_clientID :: u64

text \<open>
  A value of the \<open>Packet\<close> interface. \<open>RequestPacket\<close> and \<open>ResponsePacket\<close> embed a pointer
  that may be nil.
\<close>

datatype Packet =
    PConn ConnPacket
  | PConnAck ConnAckPacket
  | PDisConn DisConnPacket
  | PDisConnAck DisConnAckPacket
  | PHeartbeat HeartbeatPacket
  | PHeartbeatAck HeartbeatAckPacket
  | PSession SessionPacket
  | PSessionAck SessionAckPacket
  | PDismiss DismissPacket
  | PDismissAck DismissAckPacket
  | PMessage MessagePacket
  | PMessageAck MessageAckPacket
  | PStream StreamPacket
  | PRequest "MessagePacket option"
  | PResponse "MessageAckPacket option"
  | PRequestCancel RequestCancelPacket
  | PRegister RegisterPacket
  | PRegisterAck RegisterAckPacket

section \<open>Framing\<close>

text \<open>
  Every \<open>Encode\<close> patches the payload's length into bytes 10 to 13 of the encoded header and
  appends the payload.
\<close>

definition put_length :: "bytes \<Rightarrow> bytes \<Rightarrow> bytes" where
  "put_length hdr pkt = take 10 hdr @ PutUint32 (of_nat (length pkt)) @ pkt"

text \<open>The header as the peer reads it.\<close>

definition wire_header :: "PacketHeader \<Rightarrow> bytes \<Rightarrow> PacketHeader" where
  "wire_header h pkt = h\<lparr>PacketLen := of_nat (length pkt), Cnss := 0\<rparr>"

text \<open>The fields shared by the payloads that start with a session id.\<close>

definition id_and_rest :: "slice \<Rightarrow> nat \<Rightarrow> (u64 \<times> bytes) outcome" where
  "id_and_rest data len =
     obind (obind (sl_sub data 0 8) Uint64) (\<lambda>i.
     obind (sl_sub data 8 len) (\<lambda>d. Ret (i, sl_bytes d)))"

lemma length_PacketHeader_Encode [simp]: "length (PacketHeader_Encode h) = 14"
  by (simp add: PacketHeader_Encode_def)

lemma put_length_Encode:
  "put_length (PacketHeader_Encode h) pkt = PacketHeader_Encode (wire_header h pkt) @ pkt"
  by (simp add: put_length_def PacketHeader_Encode_def wire_header_def numeral_eq_Suc)

lemma length_put_length [simp]:
  "length (put_length (PacketHeader_Encode h) pkt) = 14 + length pkt"
  by (simp add: put_length_Encode)

lemma PacketHeader_fields_Encode:
  "PacketHeader_fields h0 \<lparr>backing = PacketHeader_Encode h @ rest, slen = n\<rparr>
    = Ret (h0\<lparr>Version := Version h, Typ := Typ h, PacketID := PacketID h, PacketLen := PacketLen h\<rparr>)"
  if "14 \<le> n"
proof -
  let ?b = "PacketHeader_Encode h @ rest"
  have "?b = Version h # Typ h # PutUint64 (PacketID h) @ PutUint32 (PacketLen h) @ rest"
    by (simp add: PacketHeader_Encode_def)
  then have "take 8 (drop 2 ?b) = PutUint64 (PacketID h)" "take 4 (drop 10 ?b) = PutUint32 (PacketLen h)"
    "?b ! 0 = Version h" "?b ! 1 = Typ h"
    by (simp_all add: numeral_eq_Suc)
  then show ?thesis using that
    by (simp add: PacketHeader_fields_def sl_index_def sl_sub_Ret Uint64_def Uint32_def)
qed

text \<open>Decoding a header undoes encoding it, from a slice and from a stream.\<close>

lemma PacketHeader_Decode_Encode:
  "PacketHeader_Decode h0 \<lparr>backing = PacketHeader_Encode h @ rest, slen = n\<rparr>
     = Ret (h0\<lparr>Version := Version h, Typ := Typ h, PacketID := PacketID h, PacketLen := PacketLen h\<rparr>, 14)"
  if "14 \<le> n"
  using that by (simp add: PacketHeader_Decode_def PacketHeader_fields_Encode)

lemma PacketHeader_DecodeFromReader_Encode:
  assumes "pending r = PacketHeader_Encode h @ rest" "Cnss h = 0"
  shows "PacketHeader_DecodeFromReader new_PacketHeader r
    = (Ret h, r\<lparr>pending := rest, allocs := allocs r @ [14]\<rparr>)"
proof -
  have "make_read 14 r = (Ret (PacketHeader_Encode h), r\<lparr>pending := rest, allocs := allocs r @ [14]\<rparr>)"
    using assms(1) by (simp add: make_read_append)
  moreover have "PacketHeader_fields new_PacketHeader (sl_full (PacketHeader_Encode h)) = Ret h"
    using PacketHeader_fields_Encode [of 14 new_PacketHeader h "[]"] assms(2)
    by (cases h) (simp add: sl_full_def new_PacketHeader_def)
  ultimately show ?thesis
    by (simp add: PacketHeader_DecodeFromReader_def rbind_simps)
qed

lemma id_and_rest_append:
  assumes "backing s = PutUint64 i @ pkt @ rest" "8 + length pkt = n"
  shows "id_and_rest s n = Ret (i, pkt)"
  using assms by (auto simp: id_and_rest_def sl_sub_Ret Uint64_def sl_bytes_def)

lemma id_and_rest_full: "id_and_rest (sl_full (PutUint64 i @ pkt)) (8 + length pkt) = Ret (i, pkt)"
  by (rule id_and_rest_append [where rest = "[]"]) simp_all

lemma id_and_rest_panics:
  "panics (id_and_rest s n) \<longleftrightarrow> length (backing s) < 8 \<or> n < 8 \<or> length (backing s) < n"
  by (auto simp: id_and_rest_def sl_sub_def Uint64_def)

lemma put_length_empty:
  "PacketLen h = 0 \<Longrightarrow> put_length (PacketHeader_Encode h) [] = PacketHeader_Encode h"
  by (simp add: put_length_def PacketHeader_Encode_def numeral_eq_Suc)

section \<open>What a packet type promises\<close>

text \<open>
  Reading with \<open>m\<close> a stream that starts with \<open>pkt\<close> yields \<open>q\<close>, consumes just \<open>pkt\<close> and
  allocates no buffer larger than it.
\<close>

definition reads_as :: "'p rd \<Rightarrow> bytes \<Rightarrow> 'p \<Rightarrow> bool" where
  "reads_as m pkt q \<longleftrightarrow>
     (\<forall>r rest. pending r = pkt @ rest \<longrightarrow>
        (\<exists>as. m r = (Ret q, r\<lparr>pending := rest, allocs := allocs r @ as\<rparr>) \<and> (\<forall>n \<in> set as. n \<le> length pkt)))"

lemma reads_asI:
  assumes "\<And>r rest. pending r = pkt @ rest \<Longrightarrow> m r = (Ret q, r\<lparr>pending := rest, allocs := allocs r @ as\<rparr>)"
    and "list_all (\<lambda>n. n \<le> length pkt) as"
  shows "reads_as m pkt q"
  using assms by (auto simp: reads_as_def list_all_iff)

lemma reads_as_none: "reads_as (rlift (Ret q)) [] q"
  by (rule reads_asI [of _ _ _ "[]"]) simp_all

lemma reads_as_block:
  assumes "n = length pkt" "f pkt = Ret q"
  shows "reads_as (rbind (make_read n) (\<lambda>data. rlift (f data))) pkt q"
  by (rule reads_asI [of _ _ _ "[n]"]) (simp_all add: rbind_simps(1) make_read_append assms)

locale packet_codec =
  fixes Encode :: "'p \<Rightarrow> bytes outcome"
    and hdr :: "'p \<Rightarrow> PacketHeader"
    and Read :: "PacketHeader \<Rightarrow> 'p rd"
    and wire :: "PacketHeader \<Rightarrow> 'p \<Rightarrow> 'p"
    and ok :: "'p \<Rightarrow> bool"
  assumes encodes: "ok p \<Longrightarrow>
    \<exists>pkt. Encode p = Ret (put_length (PacketHeader_Encode (hdr p)) pkt)
      \<and> (\<forall>h. unat (PacketLen h) = length pkt \<longrightarrow> reads_as (Read h) pkt (wire h p))"
begin

definition as_read :: "'p \<Rightarrow> bytes \<Rightarrow> 'p" where
  "as_read p bs = wire (wire_header (hdr p) (drop 14 bs)) p"

lemma encode_frame:
  assumes "ok p"
  obtains pkt where "Encode p = Ret (put_length (PacketHeader_Encode (hdr p)) pkt)"
    "\<And>h. unat (PacketLen h) = length pkt \<Longrightarrow> reads_as (Read h) pkt (wire h p)"
  using encodes [OF assms] by blast

lemma encode_Ret: "ok p \<Longrightarrow> \<exists>bs. Encode p = Ret bs \<and> 14 \<le> length bs"
  using encode_frame [of p] by (metis le_add1 length_put_length)

text \<open>Reading a header and then the payload undoes \<open>Encode\<close>.\<close>

lemma round_trip:
  assumes "ok p" "Encode p = Ret bs" "length bs < 14 + 2 ^ 32"
  obtains h where "bs = PacketHeader_Encode h @ drop 14 bs" "h = wire_header (hdr p) (drop 14 bs)"
    "unat (PacketLen h) = length bs - 14" "14 \<le> length bs"
    "reads_as (Read h) (drop 14 bs) (as_read p bs)"
proof -
  obtain pkt where e: "Encode p = Ret (put_length (PacketHeader_Encode (hdr p)) pkt)"
    and r: "\<And>h. unat (PacketLen h) = length pkt \<Longrightarrow> reads_as (Read h) pkt (wire h p)"
    using encode_frame [OF assms(1)] by blast
  let ?h = "wire_header (hdr p) pkt"
  have bs: "bs = PacketHeader_Encode ?h @ pkt" using e assms(2) by (simp add: put_length_Encode)
  then have u: "unat (PacketLen ?h) = length pkt"
    using assms(3) by (simp add: wire_header_def unat_of_nat)
  have d: "drop 14 bs = pkt" "length bs = 14 + length pkt" using bs by simp_all
  show ?thesis
  proof (rule that [of ?h])
    show "bs = PacketHeader_Encode ?h @ drop 14 bs" unfolding d by (rule bs)
    show "reads_as (Read ?h) (drop 14 bs) (as_read p bs)" unfolding as_read_def d by (rule r [OF u])
  qed (use u in \<open>simp_all add: d\<close>)
qed

end

end
