(* ===== verification/Packet_Conn.thy ===== *)
theory Packet_Conn
  imports Packet_Types
begin

unbundle bit_operations_syntax

text \<open>
  The connection-layer packets (\<open>packet/packet_conn.go\<close>): for each type its \<open>Encode\<close>,
  \<open>Decode\<close> and \<open>DecodeFromReader\<close>, what the peer receives (\<open>wire\<close>), and its instance of
  \<open>packet_codec\<close>. The heartbeat's fourth root is taken exactly; on negative periods, which
  Go leaves to the implementation, it is 0.
\<close>

section \<open>ConnPacket\<close>

text \<open>\<open>byte(math.Pow(float64(h)/5, 0.25))\<close>: the largest \<open>k\<close> with \<open>5 * k ^ 4 \<le> h\<close>.\<close>

function root4 :: "nat \<Rightarrow> int \<Rightarrow> nat" where
  "root4 k h = (if 5 * int (Suc k) ^ 4 \<le> h then root4 (Suc k) h else k)"
  by pat_completeness auto

lemma root4_step: "5 * int (Suc k) ^ 4 \<le> h \<Longrightarrow> int k < h"
proof -
  assume a: "5 * int (Suc k) ^ 4 \<le> h"
  have "int (Suc k) \<le> int (Suc k) ^ 4" by (rule self_le_power) simp_all
  with a show ?thesis by linarith
qed

termination root4
proof (relation "measure (\<lambda>(k, h). nat (h - int k))")
  fix k :: nat and h :: int
  assume "5 * int (Suc k) ^ 4 \<le> h"
  then show "((Suc k, h), (k, h)) \<in> measure (\<lambda>(k, h). nat (h - int k))"
    using root4_step [of k h] by simp
qed simp

declare root4.simps [simp del]

definition heartbeat_code :: "int \<Rightarrow> byte" where
  "heartbeat_code h = of_nat (root4 0 h)"

definition flag :: "bool \<Rightarrow> byte \<Rightarrow> byte" where
  "flag b m = (if b then m else 0)"

definition ConnFlags_byte :: "ConnFlags \<Rightarrow> byte" where
  "ConnFlags_byte f =
     flag (Retain f) 0x01 OR flag (Clear f) 0x02 OR flag (packetIDAcquire f) 0x04
     OR flag (clientIDAcquire f) 0x08
     OR (if Heartbeat f \<noteq> 5 then push_bit 4 (heartbeat_code (Heartbeat f)) else 0)"

definition ConnFlags_of :: "byte \<Rightarrow> ConnFlags" where
  "ConnFlags_of b =
     \<lparr>Heartbeat = 5 * 4 ^ unat (drop_bit 4 (b AND 0x30)),
      clientIDAcquire = (b AND 0x08 \<noteq> 0), packetIDAcquire = (b AND 0x04 \<noteq> 0),
      Retain = (b AND 0x01 \<noteq> 0), Clear = (b AND 0x02 \<noteq> 0)\<rparr>"

definition ConnPacket_Encode :: "ConnPacket \<Rightarrow> bytes outcome" where
  "ConnPacket_Encode p =
     obind (marshal_ConnData (cp_ConnData p)) (\<lambda>data.
     Ret (put_length (PacketHeader_Encode (cp_hdr p))
           ([ConnFlags_byte (cp_flags p), 0] @ PutUint64 (cp_ClientID p) @ data)))"

definition ConnPacket_Decode :: "ConnPacket \<Rightarrow> slice \<Rightarrow> (ConnPacket \<times> u32) outcome" where
  "ConnPacket_Decode p data =
     (let len = unat (PacketLen (cp_hdr p)) in
      if slen data < len then Fail ErrIncompletePacket
      else obind (sl_sub data 0 1) (\<lambda>flags. obind (sl_index flags 0) (\<lambda>f.
           obind (obind (sl_sub data 2 10) Uint64) (\<lambda>i.
           obind (sl_sub data 10 len) (\<lambda>d.
           obind (unmarshal_ConnData (sl_bytes d)) (\<lambda>x.
           Ret (p\<lparr>cp_flags := ConnFlags_of f, cp_ClientID := i, cp_ConnData := Some x\<rparr>, of_nat len)))))))"

definition ConnPacket_DecodeFromReader :: "ConnPacket \<Rightarrow> ConnPacket rd" where
  "ConnPacket_DecodeFromReader p =
     rbind (make_read 2) (\<lambda>flags.
     rbind (rlift (sl_index (sl_full flags) 0)) (\<lambda>f.
     rbind (make_read 8) (\<lambda>clientID.
     rbind (rlift (Uint64 (sl_full clientID))) (\<lambda>i.
     rbind (make_read (unat (PacketLen (cp_hdr p) - 10))) (\<lambda>data.
     rbind (rlift (unmarshal_ConnData data)) (\<lambda>x.
     rlift (Ret (p\<lparr>cp_flags := ConnFlags_of f, cp_ClientID := i, cp_ConnData := Some x\<rparr>))))))))"

text \<open>\<open>\&ConnPacket{}\<close> with the decoded header.\<close>

definition new_ConnPacket :: "PacketHeader \<Rightarrow> ConnPacket" where
  "new_ConnPacket h =
     \<lparr>cp_hdr = h,
      cp_flags = \<lparr>Heartbeat = 0, clientIDAcquire = False, packetIDAcquire = False, Retain = False, Clear = False\<rparr>,
      cp_ClientID = 0, cp_ConnData = None\<rparr>"

definition got_ConnData :: "ConnData option \<Rightarrow> ConnData option" where
  "got_ConnData c = Some (case c of None \<Rightarrow> empty_ConnData | Some x \<Rightarrow> x)"

definition wire_ConnPacket :: "PacketHeader \<Rightarrow> ConnPacket \<Rightarrow> ConnPacket" where
  "wire_ConnPacket h p =
     \<lparr>cp_hdr = h, cp_flags = ConnFlags_of (ConnFlags_byte (cp_flags p)), cp_ClientID = cp_ClientID p,
      cp_ConnData = got_ConnData (cp_ConnData p)\<rparr>"

section \<open>ConnAckPacket\<close>

definition ConnAckPacket_Encode :: "ConnAckPacket \<Rightarrow> bytes outcome" where
  "ConnAckPacket_Encode p =
     obind (marshal_ConnData (ca_ConnData p)) (\<lambda>data.
     Ret (put_length (PacketHeader_Encode (ca_hdr p)) ([ca_RetCode p] @ PutUint64 (ca_ClientID p) @ data)))"

definition ConnAckPacket_fields :: "ConnAckPacket \<Rightarrow> slice \<Rightarrow> nat \<Rightarrow> ConnAckPacket outcome" where
  "ConnAckPacket_fields p data len =
     obind (sl_index data 0) (\<lambda>c.
     obind (obind (sl_sub data 1 9) Uint64) (\<lambda>i.
     obind (sl_sub data 9 len) (\<lambda>d.
     obind (unmarshal_ConnData (sl_bytes d)) (\<lambda>x.
     Ret (p\<lparr>ca_RetCode := c, ca_ClientID := i, ca_ConnData := Some x\<rparr>)))))"

definition ConnAckPacket_Decode :: "ConnAckPacket \<Rightarrow> slice \<Rightarrow> (ConnAckPacket \<times> u32) outcome" where
  "ConnAckPacket_Decode p data =
     (let len = unat (PacketLen (ca_hdr p)) in
      if slen data < len then Fail ErrIncompletePacket
      else obind (ConnAckPacket_fields p data len) (\<lambda>q. Ret (q, of_nat len)))"

definition ConnAckPacket_DecodeFromReader :: "ConnAckPacket \<Rightarrow> ConnAckPacket rd" where
  "ConnAckPacket_DecodeFromReader p =
     (let len = unat (PacketLen (ca_hdr p)) in
      rbind (make_read len) (\<lambda>data. rlift (ConnAckPacket_fields p (sl_full data) len)))"

definition new_ConnAckPacket :: "PacketHeader \<Rightarrow> ConnAckPacket" where
  "new_ConnAckPacket h = \<lparr>ca_hdr = h, ca_RetCode = 0, ca_ClientID = 0, ca_ConnData = None\<rparr>"

definition wire_ConnAckPacket :: "PacketHeader \<Rightarrow> ConnAckPacket \<Rightarrow> ConnAckPacket" where
  "wire_ConnAckPacket h p = p\<lparr>ca_hdr := h, ca_ConnData := got_ConnData (ca_ConnData p)\<rparr>"

section \<open>DisConnPacket and DisConnAckPacket\<close>

definition DisConnPacket_Encode :: "DisConnPacket \<Rightarrow> bytes outcome" where
  "DisConnPacket_Encode p = Ret (PacketHeader_Encode (dc_hdr p))"

definition DisConnPacket_Decode :: "DisConnPacket \<Rightarrow> slice \<Rightarrow> (DisConnPacket \<times> u32) outcome" where
  "DisConnPacket_Decode p data = Ret (p, 0)"

definition DisConnPacket_DecodeFromReader :: "DisConnPacket \<Rightarrow> DisConnPacket rd" where
  "DisConnPacket_DecodeFromReader p = rlift (Ret p)"

definition new_DisConnPacket :: "PacketHeader \<Rightarrow> DisConnPacket" where
  "new_DisConnPacket h = \<lparr>dc_hdr = h\<rparr>"

definition DisConnAckPacket_Encode :: "DisConnAckPacket \<Rightarrow> bytes outcome" where
  "DisConnAckPacket_Encode p =
     obind (marshal_ConnData (da_ConnData p)) (\<lambda>data.
     Ret (put_length (PacketHeader_Encode (da_hdr p)) ([da_RetCode p] @ data)))"

definition DisConnAckPacket_fields :: "DisConnAckPacket \<Rightarrow> slice \<Rightarrow> nat \<Rightarrow> DisConnAckPacket outcome" where
  "DisConnAckPacket_fields p data len =
     obind (sl_index data 0) (\<lambda>c.
     obind (sl_sub data 1 len) (\<lambda>d.
     obind (unmarshal_ConnData (sl_bytes d)) (\<lambda>x.
     Ret (p\<lparr>da_RetCode := c, da_ConnData := Some x\<rparr>))))"

definition DisConnAckPacket_Decode :: "DisConnAckPacket \<Rightarrow> slice \<Rightarrow> (DisConnAckPacket \<times> u32) outcome" where
  "DisConnAckPacket_Decode p data =
     (let len = unat (PacketLen (da_hdr p)) in
      if slen data < len then Fail ErrIncompletePacket
      else obind (DisConnAckPacket_fields p data len) (\<lambda>q. Ret (q, of_nat len)))"

definition DisConnAckPacket_DecodeFromReader :: "DisConnAckPacket \<Rightarrow> DisConnAckPacket rd" where
  "DisConnAckPacket_DecodeFromReader p =
     (let len = unat (PacketLen (da_hdr p)) in
      rbind (make_read len) (\<lambda>data. rlift (DisConnAckPacket_fields p (sl_full data) len)))"

definition new_DisConnAckPacket :: "PacketHeader \<Rightarrow> DisConnAckPacket" where
  "new_DisConnAckPacket h = \<lparr>da_hdr = h, da_RetCode = 0, da_ConnData = None\<rparr>"

definition wire_DisConnAckPacket :: "PacketHeader \<Rightarrow> DisConnAckPacket \<Rightarrow> DisConnAckPacket" where
  "wire_DisConnAckPacket h p = p\<lparr>da_hdr := h, da_ConnData := got_ConnData (da_ConnData p)\<rparr>"

section \<open>HeartbeatPacket and HeartbeatAckPacket\<close>

definition HeartbeatPacket_Encode :: "HeartbeatPacket \<Rightarrow> bytes outcome" where
  "HeartbeatPacket_Encode p = Ret (PacketHeader_Encode (hb_hdr p))"

definition HeartbeatPacket_Decode :: "HeartbeatPacket \<Rightarrow> slice \<Rightarrow> (HeartbeatPacket \<times> u32) outcome" where
  "HeartbeatPacket_Decode p data = Ret (p, 0)"

definition HeartbeatPacket_DecodeFromReader :: "HeartbeatPacket \<Rightarrow> HeartbeatPacket rd" where
  "HeartbeatPacket_DecodeFromReader p = rlift (Ret p)"

definition new_HeartbeatPacket :: "PacketHeader \<Rightarrow> HeartbeatPacket" where
  "new_HeartbeatPacket h = \<lparr>hb_hdr = h\<rparr>"

definition HeartbeatAckPacket_Encode :: "HeartbeatAckPacket \<Rightarrow> bytes outcome" where
  "HeartbeatAckPacket_Encode p = Ret (PacketHeader_Encode (ha_hdr p))"

definition HeartbeatAckPacket_Decode :: "HeartbeatAckPacket \<Rightarrow> slice \<Rightarrow> (HeartbeatAckPacket \<times> u32) outcome" where
  "HeartbeatAckPacket_Decode p data = Ret (p, 0)"

definition HeartbeatAckPacket_DecodeFromReader :: "HeartbeatAckPacket \<Rightarrow> HeartbeatAckPacket rd" where
  "HeartbeatAckPacket_DecodeFromReader p = rlift (Ret p)"

definition new_HeartbeatAckPacket :: "PacketHeader \<Rightarrow> HeartbeatAckPacket" where
  "new_HeartbeatAckPacket h = \<lparr>ha_hdr = h\<rparr>"

section \<open>Round trips\<close>

lemma marshal_ConnData_got:
  assumes "pred_option ok_ConnData c"
  shows "\<exists>b. marshal_ConnData c = Ret b \<and> (\<exists>x. unmarshal_ConnData b = Ret x \<and> got_ConnData c = Some x)"
  using unmarshal_marshal(1) [OF assms] by (simp add: got_ConnData_def)

interpretation conn: packet_codec ConnPacket_Encode cp_hdr
  "\<lambda>h. ConnPacket_DecodeFromReader (new_ConnPacket h)" wire_ConnPacket
  "\<lambda>p. pred_option ok_ConnData (cp_ConnData p)"
proof
  fix p :: ConnPacket
  assume ok: "pred_option ok_ConnData (cp_ConnData p)"
  obtain b x where m: "marshal_ConnData (cp_ConnData p) = Ret b" "unmarshal_ConnData b = Ret x"
    "got_ConnData (cp_ConnData p) = Some x"
    using marshal_ConnData_got [OF ok] by blast
  let ?pkt = "[ConnFlags_byte (cp_flags p), 0] @ PutUint64 (cp_ClientID p) @ b"
  have "reads_as (ConnPacket_DecodeFromReader (new_ConnPacket h)) ?pkt (wire_ConnPacket h p)"
    if u: "unat (PacketLen h) = length ?pkt" for h
  proof (rule reads_asI [of _ _ _ "[2, 8, length b]"])
    have l: "unat (PacketLen h - 10) = length b" using u by (subst unat_sub) (auto simp: word_le_nat_alt)
    fix r :: reader and rest
    assume p: "pending r = ?pkt @ rest"
    then have f: "make_read 2 r = (Ret [ConnFlags_byte (cp_flags p), 0],
        r\<lparr>pending := PutUint64 (cp_ClientID p) @ b @ rest, allocs := allocs r @ [2]\<rparr>)"
      by (intro make_read_append) simp_all
    show "ConnPacket_DecodeFromReader (new_ConnPacket h) r
        = (Ret (wire_ConnPacket h p), r\<lparr>pending := rest, allocs := allocs r @ [2, 8, length b]\<rparr>)"
      using m by (simp add: ConnPacket_DecodeFromReader_def new_ConnPacket_def rbind_def f l
          make_read_append sl_index_def Uint64_def wire_ConnPacket_def)
  qed simp
  then show "\<exists>pkt. ConnPacket_Encode p = Ret (put_length (PacketHeader_Encode (cp_hdr p)) pkt)
      \<and> (\<forall>h. unat (PacketLen h) = length pkt \<longrightarrow>
            reads_as (ConnPacket_DecodeFromReader (new_ConnPacket h)) pkt (wire_ConnPacket h p))"
    using m by (intro exI [of _ ?pkt]) (simp add: ConnPacket_Encode_def)
qed

interpretation conn_ack: packet_codec ConnAckPacket_Encode ca_hdr
  "\<lambda>h. ConnAckPacket_DecodeFromReader (new_ConnAckPacket h)" wire_ConnAckPacket
  "\<lambda>p. pred_option ok_ConnData (ca_ConnData p)"
proof
  fix p :: ConnAckPacket
  assume ok: "pred_option ok_ConnData (ca_ConnData p)"
  obtain b x where m: "marshal_ConnData (ca_ConnData p) = Ret b" "unmarshal_ConnData b = Ret x"
    "got_ConnData (ca_ConnData p) = Some x"
    using marshal_ConnData_got [OF ok] by blast
  let ?pkt = "[ca_RetCode p] @ PutUint64 (ca_ClientID p) @ b"
  have "ConnAckPacket_fields (new_ConnAckPacket h) (sl_full ?pkt) (length ?pkt) = Ret (wire_ConnAckPacket h p)" for h
    using m by (simp add: ConnAckPacket_fields_def new_ConnAckPacket_def sl_index_def sl_sub_Ret sl_bytes_def
        Uint64_def wire_ConnAckPacket_def)
  then show "\<exists>pkt. ConnAckPacket_Encode p = Ret (put_length (PacketHeader_Encode (ca_hdr p)) pkt)
      \<and> (\<forall>h. unat (PacketLen h) = length pkt \<longrightarrow>
            reads_as (ConnAckPacket_DecodeFromReader (new_ConnAckPacket h)) pkt (wire_ConnAckPacket h p))"
    using m unfolding ConnAckPacket_DecodeFromReader_def Let_def
    by (intro exI [of _ ?pkt])
      (auto simp: ConnAckPacket_Encode_def new_ConnAckPacket_def intro!: reads_as_block)
qed

interpretation dis_conn: packet_codec DisConnPacket_Encode dc_hdr
  "\<lambda>h. DisConnPacket_DecodeFromReader (new_DisConnPacket h)" "\<lambda>h p. new_DisConnPacket h"
  "\<lambda>p. PacketLen (dc_hdr p) = 0"
proof
  fix p :: DisConnPacket
  assume "PacketLen (dc_hdr p) = 0"
  then show "\<exists>pkt. DisConnPacket_Encode p = Ret (put_length (PacketHeader_Encode (dc_hdr p)) pkt)
      \<and> (\<forall>h. unat (PacketLen h) = length pkt \<longrightarrow>
            reads_as (DisConnPacket_DecodeFromReader (new_DisConnPacket h)) pkt (new_DisConnPacket h))"
    by (intro exI [of _ "[]"])
      (simp add: DisConnPacket_Encode_def DisConnPacket_DecodeFromReader_def put_length_empty reads_as_none)
qed

interpretation dis_conn_ack: packet_codec DisConnAckPacket_Encode da_hdr
  "\<lambda>h. DisConnAckPacket_DecodeFromReader (new_DisConnAckPacket h)" wire_DisConnAckPacket
  "\<lambda>p. pred_option ok_ConnData (da_ConnData p)"
proof
  fix p :: DisConnAckPacket
  assume ok: "pred_option ok_ConnData (da_ConnData p)"
  obtain b x where m: "marshal_ConnData (da_ConnData p) = Ret b" "unmarshal_ConnData b = Ret x"
    "got_ConnData (da_ConnData p) = Some x"
    using marshal_ConnData_got [OF ok] by blast
  let ?pkt = "[da_RetCode p] @ b"
  have "DisConnAckPacket_fields (new_DisConnAckPacket h) (sl_full ?pkt) (length ?pkt) = Ret (wire_DisConnAckPacket h p)" for h
    using m by (simp add: DisConnAckPacket_fields_def new_DisConnAckPacket_def sl_index_def sl_sub_Ret sl_bytes_def
        wire_DisConnAckPacket_def)
  then show "\<exists>pkt. DisConnAckPacket_Encode p = Ret (put_length (PacketHeader_Encode (da_hdr p)) pkt)
      \<and> (\<forall>h. unat (PacketLen h) = length pkt \<longrightarrow>
            reads_as (DisConnAckPacket_DecodeFromReader (new_DisConnAckPacket h)) pkt (wire_DisConnAckPacket h p))"
    using m unfolding DisConnAckPacket_DecodeFromReader_def Let_def
    by (intro exI [of _ ?pkt])
      (auto simp: DisConnAckPacket_Encode_def new_DisConnAckPacket_def intro!: reads_as_block)
qed

interpretation heartbeat: packet_codec HeartbeatPacket_Encode hb_hdr
  "\<lambda>h. HeartbeatPacket_DecodeFromReader (new_HeartbeatPacket h)" "\<lambda>h p. new_HeartbeatPacket h"
  "\<lambda>p. PacketLen (hb_hdr p) = 0"
proof
  fix p :: HeartbeatPacket
  assume "PacketLen (hb_hdr p) = 0"
  then show "\<exists>pkt. HeartbeatPacket_Encode p = Ret (put_length (PacketHeader_Encode (hb_hdr p)) pkt)
      \<and> (\<forall>h. unat (PacketLen h) = length pkt \<longrightarrow>
            reads_as (HeartbeatPacket_DecodeFromReader (new_HeartbeatPacket h)) pkt (new_HeartbeatPacket h))"
    by (intro exI [of _ "[]"])
      (simp add: HeartbeatPacket_Encode_def HeartbeatPacket_DecodeFromReader_def put_length_empty reads_as_none)
qed

interpretation heartbeat_ack: packet_codec HeartbeatAckPacket_Encode ha_hdr
  "\<lambda>h. HeartbeatAckPacket_DecodeFromReader (new_HeartbeatAckPacket h)" "\<lambda>h p. new_HeartbeatAckPacket h"
  "\<lambda>p. PacketLen (ha_hdr p) = 0"
proof
  fix p :: HeartbeatAckPacket
  assume "PacketLen (ha_hdr p) = 0"
  then show "\<exists>pkt. HeartbeatAckPacket_Encode p = Ret (put_length (PacketHeader_Encode (ha_hdr p)) pkt)
      \<and> (\<forall>h. unat (PacketLen h) = length pkt \<longrightarrow>
            reads_as (HeartbeatAckPacket_DecodeFromReader (new_HeartbeatAckPacket h)) pkt (new_HeartbeatAckPacket h))"
    by (intro exI [of _ "[]"])
      (simp add: HeartbeatAckPacket_Encode_def HeartbeatAckPacket_DecodeFromReader_def put_length_empty reads_as_none)
qed

section \<open>Connection flags\<close>

text \<open>\<open>root4 0\<close> is the integer part of the fourth root of a fifth.\<close>

lemma root4_spec:
  assumes "5 * int k ^ 4 \<le> h"
  shows "5 * int (root4 k h) ^ 4 \<le> h \<and> h < 5 * int (Suc (root4 k h)) ^ 4"
  using assms
proof (induction k h rule: root4.induct)
  case (1 k h)
  show ?case
  proof (cases "5 * int (Suc k) ^ 4 \<le> h")
    case True
    then show ?thesis using 1 by (subst (1 2) root4.simps) simp
  next
    case False
    then show ?thesis using "1.prems" by (subst (1 2) root4.simps) simp
  qed
qed

lemma heartbeat_codes:
  "heartbeat_code 20 = 1" "heartbeat_code 80 = 2" "heartbeat_code 320 = 2"
  by (simp_all add: heartbeat_code_def root4.simps)

lemma flag_bits:
  fixes r c k i :: bool and b :: byte
  assumes "b \<in> {0, 0x10, 0x20, 0x30}"
  shows "ConnFlags_of (flag r 0x01 OR flag c 0x02 OR flag k 0x04 OR flag i 0x08 OR b)
    = \<lparr>Heartbeat = 5 * 4 ^ unat (drop_bit 4 b), clientIDAcquire = i, packetIDAcquire = k, Retain = r, Clear = c\<rparr>"
  using assms by (cases r; cases c; cases k; cases i) (auto simp: ConnFlags_of_def flag_def)

lemma ConnFlags_round:
  assumes "Heartbeat f \<in> {5, 20, 80}"
  shows "ConnFlags_of (ConnFlags_byte f) = f"
  using assms
  by (cases f) (auto simp: ConnFlags_byte_def heartbeat_codes flag_bits flag_bits [of 0, simplified])

lemma ConnFlags_320:
  "ConnFlags_of (ConnFlags_byte (f\<lparr>Heartbeat := 320\<rparr>)) = f\<lparr>Heartbeat := 80\<rparr>"
  by (cases f) (simp add: ConnFlags_byte_def heartbeat_codes flag_bits)

section \<open>Properties\<close>

text \<open>
  The connection flags cross the wire unchanged for heartbeats of 5, 20 and 80 seconds.
\<close>

theorem conn_flags_round_trip:
  assumes "Heartbeat f \<in> {5, 20, 80}"
  shows "ConnFlags_of (ConnFlags_byte f) = f"
  using assms by (rule ConnFlags_round)

theorem conn_flags_round_trip_witness:
  "ConnFlags_of (ConnFlags_byte
     \<lparr>Heartbeat = 80, clientIDAcquire = True, packetIDAcquire = False, Retain = True, Clear = False\<rparr>)
   = \<lparr>Heartbeat = 80, clientIDAcquire = True, packetIDAcquire = False, Retain = True, Clear = False\<rparr>"
  by (rule conn_flags_round_trip) simp

text \<open>
  The fourth constant does not survive: a conn packet announcing a heartbeat of 320 seconds
  is decoded as 80 seconds, because \<open>Encode\<close> takes the fourth root of the period where
  \<open>Decode\<close> raises 4 to the two bits.
\<close>

theorem heartbeat_320_becomes_80:
  "ConnFlags_of (ConnFlags_byte (f\<lparr>Heartbeat := 320\<rparr>)) = f\<lparr>Heartbeat := 80\<rparr>"
  by (rule ConnFlags_320)

end
