(* ===== verification/Packet_Sess.thy ===== *)
theory Packet_Sess
  imports Packet_Types
begin

unbundle bit_operations_syntax

text \<open>
  The session-layer packets (\<open>packet/packet_sess.go\<close>): \<open>Encode\<close>, \<open>Decode\<close> and
  \<open>DecodeFromReader\<close> of the session, session acknowledgement, dismiss and dismiss
  acknowledgement packets, with their instances of \<open>packet_codec\<close>. \<open>Qos\<close> is an \<open>int8\<close> of
  which four bits travel; it is kept as its bit pattern.
\<close>

definition new_SessionFlags :: SessionFlags where
  "new_SessionFlags = \<lparr>Priority = 0, Qos = 0, sessionIDAcquire = False\<rparr>"

definition got_SessionData :: "SessionData option \<Rightarrow> SessionData option" where
  "got_SessionData c = Some (case c of None \<Rightarrow> empty_SessionData | Some x \<Rightarrow> x)"

section \<open>SessionPacket\<close>

definition SessionPacket_Encode :: "SessionPacket \<Rightarrow> bytes outcome" where
  "SessionPacket_Encode p =
     obind (marshal_SessionData (sp_SessionData p)) (\<lambda>data.
     Ret (put_length (PacketHeader_Encode (sp_hdr p))
       ([Priority (sp_flags p),
         drop_bit 4 (push_bit 4 (Qos (sp_flags p))) OR (if sessionIDAcquire (sp_flags p) then 0x10 else 0)]
        @ PutUint64 (sp_negotiateID p) @ data)))"

definition SessionPacket_fields :: "SessionPacket \<Rightarrow> slice \<Rightarrow> nat \<Rightarrow> SessionPacket outcome" where
  "SessionPacket_fields p data len =
     obind (sl_index data 0) (\<lambda>b0.
     obind (sl_index data 1) (\<lambda>b1.
     obind (obind (sl_sub data 2 10) Uint64) (\<lambda>i.
     obind (sl_sub data 10 len) (\<lambda>d.
     obind (unmarshal_SessionData (sl_bytes d)) (\<lambda>x.
     Ret (p\<lparr>sp_flags := \<lparr>Priority = b0, Qos = b1 AND 0x0F, sessionIDAcquire = (b1 AND 0x10 \<noteq> 0)\<rparr>,
            sp_negotiateID := i, sp_SessionData := Some x\<rparr>))))))"

definition SessionPacket_Decode :: "SessionPacket \<Rightarrow> slice \<Rightarrow> (SessionPacket \<times> u32) outcome" where
  "SessionPacket_Decode p data =
     (let len = unat (PacketLen (sp_hdr p)) in
      if slen data < len then Fail ErrIncompletePacket
      else obind (SessionPacket_fields p data len) (\<lambda>q. Ret (q, of_nat len)))"

definition SessionPacket_DecodeFromReader :: "SessionPacket \<Rightarrow> SessionPacket rd" where
  "SessionPacket_DecodeFromReader p =
     (let len = unat (PacketLen (sp_hdr p)) in
      rbind (make_read len) (\<lambda>data. rlift (SessionPacket_fields p (sl_full data) len)))"

definition new_SessionPacket :: "PacketHeader \<Rightarrow> SessionPacket" where
  "new_SessionPacket h =
     \<lparr>sp_hdr = h, sp_flags = new_SessionFlags, sp_negotiateID = 0, sp_SessionData = None, sp_clientID = 0\<rparr>"

definition wire_SessionPacket :: "PacketHeader \<Rightarrow> SessionPacket \<Rightarrow> SessionPacket" where
  "wire_SessionPacket h p =
     p\<lparr>sp_hdr := h, sp_flags := (sp_flags p)\<lparr>Qos := Qos (sp_flags p) AND 0x0F\<rparr>,
       sp_SessionData := got_SessionData (sp_SessionData p), sp_clientID := 0\<rparr>"

section \<open>SessionAckPacket\<close>

definition SessionAckPacket_Encode :: "SessionAckPacket \<Rightarrow> bytes outcome" where
  "SessionAckPacket_Encode p =
     obind (marshal_SessionData (sa_SessionData p)) (\<lambda>data.
     Ret (put_length (PacketHeader_Encode (sa_hdr p))
       ([0, 0] @ PutUint64 (sa_negotiateID p) @ PutUint64 (sa_sessionID p) @ data)))"

definition SessionAckPacket_fields :: "SessionAckPacket \<Rightarrow> slice \<Rightarrow> nat \<Rightarrow> SessionAckPacket outcome" where
  "SessionAckPacket_fields p data len =
     obind (obind (sl_sub data 2 10) Uint64) (\<lambda>n.
     obind (obind (sl_sub data 10 18) Uint64) (\<lambda>i.
     obind (sl_sub data 18 len) (\<lambda>d.
     obind (unmarshal_SessionData (sl_bytes d)) (\<lambda>x.
     Ret (p\<lparr>sa_negotiateID := n, sa_sessionID := i, sa_SessionData := Some x\<rparr>)))))"

definition SessionAckPacket_Decode :: "SessionAckPacket \<Rightarrow> slice \<Rightarrow> (SessionAckPacket \<times> u32) outcome" where
  "SessionAckPacket_Decode p data =
     (let len = unat (PacketLen (sa_hdr p)) in
      if slen data < len then Fail ErrIncompletePacket
      else obind (SessionAckPacket_fields p data len) (\<lambda>q. Ret (q, of_nat len)))"

definition SessionAckPacket_DecodeFromReader :: "SessionAckPacket \<Rightarrow> SessionAckPacket rd" where
  "SessionAckPacket_DecodeFromReader p =
     (let len = unat (PacketLen (sa_hdr p)) in
      rbind (make_read len) (\<lambda>data. rlift (SessionAckPacket_fields p (sl_full data) len)))"

text \<open>\<open>SetError\<close> writes through the payload pointer.\<close>

definition SessionAckPacket_SetError :: "bytes \<Rightarrow> SessionAckPacket \<Rightarrow> SessionAckPacket outcome" where
  "SessionAckPacket_SetError e p =
     (case sa_SessionData p of
        None \<Rightarrow> Panic NilDereference
      | Some x \<Rightarrow> Ret (p\<lparr>sa_SessionData := Some (x\<lparr>sd_Error := e\<rparr>)\<rparr>))"

definition new_SessionAckPacket :: "PacketHeader \<Rightarrow> SessionAckPacket" where
  "new_SessionAckPacket h =
     \<lparr>sa_hdr = h, sa_flags = new_SessionFlags, sa_negotiateID = 0, sa_sessionID = 0, sa_SessionData = None,
      sa_clientID = 0\<rparr>"

definition wire_SessionAckPacket :: "PacketHeader \<Rightarrow> SessionAckPacket \<Rightarrow> SessionAckPacket" where
  "wire_SessionAckPacket h p =
     p\<lparr>sa_hdr := h, sa_flags := new_SessionFlags, sa_SessionData := got_SessionData (sa_SessionData p),
       sa_clientID := 0\<rparr>"

section \<open>DismissPacket\<close>

definition DismissPacket_Encode :: "DismissPacket \<Rightarrow> bytes outcome" where
  "DismissPacket_Encode p =
     obind (marshal_SessionData (dm_SessionData p)) (\<lambda>data.
     Ret (put_length (PacketHeader_Encode (dm_hdr p)) (PutUint64 (dm_sessionID p) @ data)))"

definition DismissPacket_fields :: "DismissPacket \<Rightarrow> slice \<Rightarrow> nat \<Rightarrow> DismissPacket outcome" where
  "DismissPacket_fields p data len =
     obind (id_and_rest data len) (\<lambda>(i, d).
     obind (unmarshal_SessionData d) (\<lambda>x.
     Ret (p\<lparr>dm_sessionID := i, dm_SessionData := Some x\<rparr>)))"

definition DismissPacket_Decode :: "DismissPacket \<Rightarrow> slice \<Rightarrow> (DismissPacket \<times> u32) outcome" where
  "DismissPacket_Decode p data =
     (let len = unat (PacketLen (dm_hdr p)) in
      if slen data < len then Fail ErrIncompletePacket
      else obind (DismissPacket_fields p data len) (\<lambda>q. Ret (q, of_nat len)))"

definition DismissPacket_DecodeFromReader :: "DismissPacket \<Rightarrow> DismissPacket rd" where
  "DismissPacket_DecodeFromReader p =
     (let len = unat (PacketLen (dm_hdr p)) in
      rbind (make_read len) (\<lambda>data. rlift (DismissPacket_fields p (sl_full data) len)))"

definition new_DismissPacket :: "PacketHeader \<Rightarrow> DismissPacket" where
  "new_DismissPacket h = \<lparr>dm_hdr = h, dm_sessionID = 0, dm_SessionData = None, dm_clientID = 0\<rparr>"

definition wire_DismissPacket :: "PacketHeader \<Rightarrow> DismissPacket \<Rightarrow> DismissPacket" where
  "wire_DismissPacket h p =
     p\<lparr>dm_hdr := h, dm_SessionData := got_SessionData (dm_SessionData p), dm_clientID := 0\<rparr>"

section \<open>DismissAckPacket\<close>

definition DismissAckPacket_Encode :: "DismissAckPacket \<Rightarrow> bytes outcome" where
  "DismissAckPacket_Encode p =
     obind (marshal_SessionData (dk_SessionData p)) (\<lambda>data.
     Ret (put_length (PacketHeader_Encode (dk_hdr p)) (PutUint64 (dk_sessionID p) @ data)))"

definition DismissAckPacket_fields :: "DismissAckPacket \<Rightarrow> slice \<Rightarrow> nat \<Rightarrow> DismissAckPacket outcome" where
  "DismissAckPacket_fields p data len =
     obind (id_and_rest data len) (\<lambda>(i, d).
     obind (unmarshal_SessionData d) (\<lambda>x.
     Ret (p\<lparr>dk_sessionID := i, dk_SessionData := Some x\<rparr>)))"

definition DismissAckPacket_Decode :: "DismissAckPacket \<Rightarrow> slice \<Rightarrow> (DismissAckPacket \<times> u32) outcome" where
  "DismissAckPacket_Decode p data =
     (let len = unat (PacketLen (dk_hdr p)) in
      if slen data < len then Fail ErrIncompletePacket
      else obind (DismissAckPacket_fields p data len) (\<lambda>q. Ret (q, of_nat len)))"

definition DismissAckPacket_DecodeFromReader :: "DismissAckPacket \<Rightarrow> DismissAckPacket rd" where
  "DismissAckPacket_DecodeFromReader p =
     (let len = unat (PacketLen (dk_hdr p)) in
      rbind (make_read len) (\<lambda>data. rlift (DismissAckPacket_fields p (sl_full data) len)))"

definition new_DismissAckPacket :: "PacketHeader \<Rightarrow> DismissAckPacket" where
  "new_DismissAckPacket h = \<lparr>dk_hdr = h, dk_sessionID = 0, dk_SessionData = None, dk_clientID = 0\<rparr>"

definition wire_DismissAckPacket :: "PacketHeader \<Rightarrow> DismissAckPacket \<Rightarrow> DismissAckPacket" where
  "wire_DismissAckPacket h p =
     p\<lparr>dk_hdr := h, dk_SessionData := got_SessionData (dk_SessionData p), dk_clientID := 0\<rparr>"

section \<open>Round trips\<close>

lemma marshal_SessionData_got:
  assumes "pred_option ok_SessionData c"
  obtains b x where "marshal_SessionData c = Ret b" "unmarshal_SessionData b = Ret x" "got_SessionData c = Some x"
  using unmarshal_marshal(2) [OF assms] that by (auto simp: got_SessionData_def)

lemma qos_byte:
  fixes q :: byte
  shows "(drop_bit 4 (push_bit 4 q) OR (if a then 0x10 else 0)) AND 0x0F = q AND 0x0F"
    "(drop_bit 4 (push_bit 4 q) OR (if a then 0x10 else 0)) AND 0x10 \<noteq> 0 \<longleftrightarrow> a"
proof -
  have m: "(0x0F :: byte) = mask 4" by (simp add: mask_eq_exp_minus_1)
  have k: "drop_bit 4 (push_bit 4 q) = q AND 0x0F"
    unfolding m by (rule bit_word_eqI) (auto simp: bit_simps)
  show "(drop_bit 4 (push_bit 4 q) OR (if a then 0x10 else 0)) AND 0x0F = q AND 0x0F"
    "(drop_bit 4 (push_bit 4 q) OR (if a then 0x10 else 0)) AND 0x10 \<noteq> 0 \<longleftrightarrow> a"
    unfolding k by (simp_all add: bit.conj_disj_distrib2 and.assoc)
qed

interpretation session: packet_codec SessionPacket_Encode sp_hdr
  "\<lambda>h. SessionPacket_DecodeFromReader (new_SessionPacket h)" wire_SessionPacket
  "\<lambda>p. pred_option ok_SessionData (sp_SessionData p)"
proof
  fix p :: SessionPacket
  assume ok: "pred_option ok_SessionData (sp_SessionData p)"
  obtain b x where m: "marshal_SessionData (sp_SessionData p) = Ret b" "unmarshal_SessionData b = Ret x"
    "got_SessionData (sp_SessionData p) = Some x"
    using marshal_SessionData_got [OF ok] .
  define q where "q = drop_bit 4 (push_bit 4 (Qos (sp_flags p))) OR (if sessionIDAcquire (sp_flags p) then 0x10 else 0)"
  let ?pkt = "[Priority (sp_flags p), q] @ PutUint64 (sp_negotiateID p) @ b"
  have "SessionPacket_fields (new_SessionPacket h) (sl_full ?pkt) (length ?pkt) = Ret (wire_SessionPacket h p)" for h
    using m qos_byte [of "Qos (sp_flags p)" "sessionIDAcquire (sp_flags p)"] unfolding q_def [symmetric]
    by (simp add: SessionPacket_fields_def new_SessionPacket_def sl_index_def sl_sub_Ret sl_bytes_def
        Uint64_def wire_SessionPacket_def)
  then show "\<exists>pkt. SessionPacket_Encode p = Ret (put_length (PacketHeader_Encode (sp_hdr p)) pkt)
      \<and> (\<forall>h. unat (PacketLen h) = length pkt \<longrightarrow>
            reads_as (SessionPacket_DecodeFromReader (new_SessionPacket h)) pkt (wire_SessionPacket h p))"
    using m unfolding SessionPacket_DecodeFromReader_def Let_def
    by (intro exI [of _ ?pkt])
      (auto simp: SessionPacket_Encode_def new_SessionPacket_def q_def intro!: reads_as_block)
qed

interpretation session_ack: packet_codec SessionAckPacket_Encode sa_hdr
  "\<lambda>h. SessionAckPacket_DecodeFromReader (new_SessionAckPacket h)" wire_SessionAckPacket
  "\<lambda>p. pred_option ok_SessionData (sa_SessionData p)"
proof
  fix p :: SessionAckPacket
  assume ok: "pred_option ok_SessionData (sa_SessionData p)"
  obtain b x where m: "marshal_SessionData (sa_SessionData p) = Ret b" "unmarshal_SessionData b = Ret x"
    "got_SessionData (sa_SessionData p) = Some x"
    using marshal_SessionData_got [OF ok] .
  let ?pkt = "[0, 0] @ PutUint64 (sa_negotiateID p) @ PutUint64 (sa_sessionID p) @ b"
  have "SessionAckPacket_fields (new_SessionAckPacket h) (sl_full ?pkt) (length ?pkt) = Ret (wire_SessionAckPacket h p)" for h
    using m by (simp add: SessionAckPacket_fields_def new_SessionAckPacket_def sl_sub_Ret sl_bytes_def
        Uint64_def wire_SessionAckPacket_def)
  then show "\<exists>pkt. SessionAckPacket_Encode p = Ret (put_length (PacketHeader_Encode (sa_hdr p)) pkt)
      \<and> (\<forall>h. unat (PacketLen h) = length pkt \<longrightarrow>
            reads_as (SessionAckPacket_DecodeFromReader (new_SessionAckPacket h)) pkt (wire_SessionAckPacket h p))"
    using m unfolding SessionAckPacket_DecodeFromReader_def Let_def
    by (intro exI [of _ ?pkt])
      (auto simp: SessionAckPacket_Encode_def new_SessionAckPacket_def intro!: reads_as_block)
qed

interpretation dismiss: packet_codec DismissPacket_Encode dm_hdr
  "\<lambda>h. DismissPacket_DecodeFromReader (new_DismissPacket h)" wire_DismissPacket
  "\<lambda>p. pred_option ok_SessionData (dm_SessionData p)"
proof
  fix p :: DismissPacket
  assume ok: "pred_option ok_SessionData (dm_SessionData p)"
  obtain b x where m: "marshal_SessionData (dm_SessionData p) = Ret b" "unmarshal_SessionData b = Ret x"
    "got_SessionData (dm_SessionData p) = Some x"
    using marshal_SessionData_got [OF ok] .
  let ?pkt = "PutUint64 (dm_sessionID p) @ b"
  have "DismissPacket_fields (new_DismissPacket h) (sl_full ?pkt) (length ?pkt) = Ret (wire_DismissPacket h p)" for h
    using m by (simp add: DismissPacket_fields_def new_DismissPacket_def id_and_rest_full wire_DismissPacket_def)
  then show "\<exists>pkt. DismissPacket_Encode p = Ret (put_length (PacketHeader_Encode (dm_hdr p)) pkt)
      \<and> (\<forall>h. unat (PacketLen h) = length pkt \<longrightarrow>
            reads_as (DismissPacket_DecodeFromReader (new_DismissPacket h)) pkt (wire_DismissPacket h p))"
    using m unfolding DismissPacket_DecodeFromReader_def Let_def
    by (intro exI [of _ ?pkt])
      (auto simp: DismissPacket_Encode_def new_DismissPacket_def intro!: reads_as_block)
qed

interpretation dismiss_ack: packet_codec DismissAckPacket_Encode dk_hdr
  "\<lambda>h. DismissAckPacket_DecodeFromReader (new_DismissAckPacket h)" wire_DismissAckPacket
  "\<lambda>p. pred_option ok_SessionData (dk_SessionData p)"
proof
  fix p :: DismissAckPacket
  assume ok: "pred_option ok_SessionData (dk_SessionData p)"
  obtain b x where m: "marshal_SessionData (dk_SessionData p) = Ret b" "unmarshal_SessionData b = Ret x"
    "got_SessionData (dk_SessionData p) = Some x"
    using marshal_SessionData_got [OF ok] .
  let ?pkt = "PutUint64 (dk_sessionID p) @ b"
  have "DismissAckPacket_fields (new_DismissAckPacket h) (sl_full ?pkt) (length ?pkt) = Ret (wire_DismissAckPacket h p)" for h
    using m by (simp add: DismissAckPacket_fields_def new_DismissAckPacket_def id_and_rest_full wire_DismissAckPacket_def)
  then show "\<exists>pkt. DismissAckPacket_Encode p = Ret (put_length (PacketHeader_Encode (dk_hdr p)) pkt)
      \<and> (\<forall>h. unat (PacketLen h) = length pkt \<longrightarrow>
            reads_as (DismissAckPacket_DecodeFromReader (new_DismissAckPacket h)) pkt (wire_DismissAckPacket h p))"
    using m unfolding DismissAckPacket_DecodeFromReader_def Let_def
    by (intro exI [of _ ?pkt])
      (auto simp: DismissAckPacket_Encode_def new_DismissAckPacket_def intro!: reads_as_block)
qed

end
