(* ===== verification/Packet_Data.thy ===== *)
theory Packet_Data
  imports Packet_Types
begin

text \<open>
  The application-layer packets (\<open>packet/packet_data.go\<close>): request cancellation, message,
  message acknowledgement, stream, register and register acknowledgement, with their instances
  of \<open>packet_codec\<close>. Requests and responses are the message packets they embed; their
  dispatch is in \<open>Packet_Decode\<close>.
\<close>

text \<open>\<open>errors.New("illegal packet")\<close>.\<close>

definition illegal_packet :: go_error where
  "illegal_packet = ErrNew (lit ''illegal packet'')"

section \<open>RequestCancelPacket\<close>

definition RequestCancelPacket_Encode :: "RequestCancelPacket \<Rightarrow> bytes outcome" where
  "RequestCancelPacket_Encode p =
     Ret (put_length (PacketHeader_Encode (rc_hdr p)) (PutUint64 (rc_sessionID p) @ PutUint16 (rc_cancelType p)))"

definition RequestCancelPacket_fields :: "RequestCancelPacket \<Rightarrow> slice \<Rightarrow> nat \<Rightarrow> RequestCancelPacket outcome" where
  "RequestCancelPacket_fields p data hi =
     obind (obind (sl_sub data 0 8) Uint64) (\<lambda>i.
     obind (obind (sl_sub data 8 hi) Uint16) (\<lambda>c.
     Ret (p\<lparr>rc_sessionID := i, rc_cancelType := c\<rparr>)))"

definition RequestCancelPacket_Decode :: "RequestCancelPacket \<Rightarrow> slice \<Rightarrow> (RequestCancelPacket \<times> u32) outcome" where
  "RequestCancelPacket_Decode p data =
     (if slen data < unat (PacketLen (rc_hdr p)) then Fail ErrIncompletePacket
      else obind (RequestCancelPacket_fields p data 10) (\<lambda>q. Ret (q, PacketLen (rc_hdr p))))"

definition RequestCancelPacket_DecodeFromReader :: "RequestCancelPacket \<Rightarrow> RequestCancelPacket rd" where
  "RequestCancelPacket_DecodeFromReader p =
     (let len = unat (PacketLen (rc_hdr p)) in
      if len < 8 then rlift (Fail ErrIllegalPacket)
      else rbind (make_read len) (\<lambda>data. rlift (RequestCancelPacket_fields p (sl_full data) len)))"

definition new_RequestCancelPacket :: "PacketHeader \<Rightarrow> RequestCancelPacket" where
  "new_RequestCancelPacket h = \<lparr>rc_hdr = h, rc_sessionID = 0, rc_cancelType = 0\<rparr>"

definition wire_RequestCancelPacket :: "PacketHeader \<Rightarrow> RequestCancelPacket \<Rightarrow> RequestCancelPacket" where
  "wire_RequestCancelPacket h p = p\<lparr>rc_hdr := h\<rparr>"

definition got_MessageData :: "MessageData option \<Rightarrow> MessageData option" where
  "got_MessageData c = Some (case c of None \<Rightarrow> empty_MessageData | Some x \<Rightarrow> x)"

definition got_RegisterData :: "RegisterData option \<Rightarrow> RegisterData option" where
  "got_RegisterData c = Some (case c of None \<Rightarrow> empty_RegisterData | Some x \<Rightarrow> x)"

section \<open>MessagePacket\<close>

definition MessagePacket_Encode :: "MessagePacket \<Rightarrow> bytes outcome" where
  "MessagePacket_Encode p =
     obind (marshal_MessageData (mp_Data p)) (\<lambda>data.
     Ret (put_length (PacketHeader_Encode (mp_hdr p)) (PutUint64 (mp_sessionID p) @ data)))"

definition MessagePacket_fields :: "MessagePacket \<Rightarrow> slice \<Rightarrow> nat \<Rightarrow> MessagePacket outcome" where
  "MessagePacket_fields p data len =
     obind (id_and_rest data len) (\<lambda>(i, d).
     obind (unmarshal_MessageData d) (\<lambda>x.
     Ret (p\<lparr>mp_sessionID := i, mp_Data := Some x\<rparr>)))"

definition MessagePacket_Decode :: "MessagePacket \<Rightarrow> slice \<Rightarrow> (MessagePacket \<times> u32) outcome" where
  "MessagePacket_Decode p data =
     (let len = unat (PacketLen (mp_hdr p)) in
      if slen data < len then Fail ErrIncompletePacket
      else obind (MessagePacket_fields p data len) (\<lambda>q. Ret (q, PacketLen (mp_hdr p))))"

definition MessagePacket_DecodeFromReader :: "MessagePacket \<Rightarrow> MessagePacket rd" where
  "MessagePacket_DecodeFromReader p =
     (let len = unat (PacketLen (mp_hdr p)) in
      if len < 8 then rlift (Fail illegal_packet)
      else rbind (make_read len) (\<lambda>data. rlift (MessagePacket_fields p (sl_full data) len)))"

definition new_MessagePacket :: "PacketHeader \<Rightarrow> MessagePacket" where
  "new_MessagePacket h = \<lparr>mp_hdr = h, mp_sessionID = 0, mp_Data = None, mp_clientID = 0\<rparr>"

definition wire_MessagePacket :: "PacketHeader \<Rightarrow> MessagePacket \<Rightarrow> MessagePacket" where
  "wire_MessagePacket h p = p\<lparr>mp_hdr := h, mp_Data := got_MessageData (mp_Data p), mp_clientID := 0\<rparr>"

section \<open>MessageAckPacket\<close>

definition MessageAckPacket_Encode :: "MessageAckPacket \<Rightarrow> bytes outcome" where
  "MessageAckPacket_Encode p =
     obind (marshal_MessageData (ma_Data p)) (\<lambda>data.
     Ret (put_length (PacketHeader_Encode (ma_hdr p)) (PutUint64 (ma_sessionID p) @ data)))"

definition MessageAckPacket_fields :: "MessageAckPacket \<Rightarrow> slice \<Rightarrow> nat \<Rightarrow> MessageAckPacket outcome" where
  "MessageAckPacket_fields p data len =
     obind (id_and_rest data len) (\<lambda>(i, d).
     obind (unmarshal_MessageData d) (\<lambda>x.
     Ret (p\<lparr>ma_sessionID := i, ma_Data := Some x\<rparr>)))"

definition MessageAckPacket_Decode :: "MessageAckPacket \<Rightarrow> slice \<Rightarrow> (MessageAckPacket \<times> u32) outcome" where
  "MessageAckPacket_Decode p data =
     (let len = unat (PacketLen (ma_hdr p)) in
      if slen data < len then Fail ErrIncompletePacket
      else obind (MessageAckPacket_fields p data len) (\<lambda>q. Ret (q, PacketLen (ma_hdr p))))"

definition MessageAckPacket_DecodeFromReader :: "MessageAckPacket \<Rightarrow> MessageAckPacket rd" where
  "MessageAckPacket_DecodeFromReader p =
     (let len = unat (PacketLen (ma_hdr p)) in
      if len < 8 then rlift (Fail illegal_packet)
      else rbind (make_read len) (\<lambda>data. rlift (MessageAckPacket_fields p (sl_full data) len)))"

definition new_MessageAckPacket :: "PacketHeader \<Rightarrow> MessageAckPacket" where
  "new_MessageAckPacket h = \<lparr>ma_hdr = h, ma_sessionID = 0, ma_Data = None, ma_clientID = 0\<rparr>"

definition wire_MessageAckPacket :: "PacketHeader \<Rightarrow> MessageAckPacket \<Rightarrow> MessageAckPacket" where
  "wire_MessageAckPacket h p = p\<lparr>ma_hdr := h, ma_Data := got_MessageData (ma_Data p), ma_clientID := 0\<rparr>"

section \<open>StreamPacket\<close>

definition StreamPacket_Encode :: "StreamPacket \<Rightarrow> bytes outcome" where
  "StreamPacket_Encode p =
     Ret (put_length (PacketHeader_Encode (st_hdr p)) (PutUint64 (st_sessionID p) @ st_Data p))"

definition StreamPacket_fields :: "StreamPacket \<Rightarrow> slice \<Rightarrow> nat \<Rightarrow> StreamPacket outcome" where
  "StreamPacket_fields p data len =
     obind (id_and_rest data len) (\<lambda>(i, d). Ret (p\<lparr>st_sessionID := i, st_Data := d\<rparr>))"

definition StreamPacket_Decode :: "StreamPacket \<Rightarrow> slice \<Rightarrow> (StreamPacket \<times> u32) outcome" where
  "StreamPacket_Decode p data =
     (let len = unat (PacketLen (st_hdr p)) in
      if slen data < len then Fail ErrIncompletePacket
      else obind (StreamPacket_fields p data len) (\<lambda>q. Ret (q, of_nat len)))"

definition StreamPacket_DecodeFromReader :: "StreamPacket \<Rightarrow> StreamPacket rd" where
  "StreamPacket_DecodeFromReader p =
     (let len = unat (PacketLen (st_hdr p)) in
      if len < 8 then rlift (Fail illegal_packet)
      else rbind (make_read len) (\<lambda>data. rlift (StreamPacket_fields p (sl_full data) len)))"

definition new_StreamPacket :: "PacketHeader \<Rightarrow> StreamPacket" where
  "new_StreamPacket h = \<lparr>st_hdr = h, st_sessionID = 0, st_Data = [], st_clientID = 0\<rparr>"

definition wire_StreamPacket :: "PacketHeader \<Rightarrow> StreamPacket \<Rightarrow> StreamPacket" where
  "wire_StreamPacket h p = p\<lparr>st_hdr := h, st_clientID := 0\<rparr>"

section \<open>RegisterPacket\<close>

definition RegisterPacket_Encode :: "RegisterPacket \<Rightarrow> bytes outcome" where
  "RegisterPacket_Encode p =
     Ret (put_length (PacketHeader_Encode (rp_hdr p)) (PutUint64 (rp_sessionID p) @ rp_method p))"

definition RegisterPacket_fields :: "RegisterPacket \<Rightarrow> slice \<Rightarrow> nat \<Rightarrow> RegisterPacket outcome" where
  "RegisterPacket_fields p data len =
     obind (id_and_rest data len) (\<lambda>(i, d). Ret (p\<lparr>rp_sessionID := i, rp_method := d\<rparr>))"

definition RegisterPacket_Decode :: "RegisterPacket \<Rightarrow> slice \<Rightarrow> (RegisterPacket \<times> u32) outcome" where
  "RegisterPacket_Decode p data =
     (let len = unat (PacketLen (rp_hdr p)) in
      if slen data < len then Fail ErrIncompletePacket
      else obind (RegisterPacket_fields p data len) (\<lambda>q. Ret (q, of_nat len)))"

definition RegisterPacket_DecodeFromReader :: "RegisterPacket \<Rightarrow> RegisterPacket rd" where
  "RegisterPacket_DecodeFromReader p =
     (let len = unat (PacketLen (rp_hdr p)) in
      if len < 8 then rlift (Fail illegal_packet)
      else rbind (make_read len) (\<lambda>data. rlift (RegisterPacket_fields p (sl_full data) len)))"

definition new_RegisterPacket :: "PacketHeader \<Rightarrow> RegisterPacket" where
  "new_RegisterPacket h = \<lparr>rp_hdr = h, rp_sessionID = 0, rp_method = [], rp_clientID = 0\<rparr>"

definition wire_RegisterPacket :: "PacketHeader \<Rightarrow> RegisterPacket \<Rightarrow> RegisterPacket" where
  "wire_RegisterPacket h p = p\<lparr>rp_hdr := h, rp_clientID := 0\<rparr>"

section \<open>RegisterAckPacket\<close>

definition RegisterAckPacket_Encode :: "RegisterAckPacket \<Rightarrow> bytes outcome" where
  "RegisterAckPacket_Encode p =
     obind (marshal_RegisterData (ra_RegisterData p)) (\<lambda>data.
     Ret (put_length (PacketHeader_Encode (ra_hdr p)) (PutUint64 (ra_sessionID p) @ data)))"

definition RegisterAckPacket_fields :: "RegisterAckPacket \<Rightarrow> slice \<Rightarrow> nat \<Rightarrow> RegisterAckPacket outcome" where
  "RegisterAckPacket_fields p data len =
     obind (id_and_rest data len) (\<lambda>(i, d).
     obind (unmarshal_RegisterData d) (\<lambda>x.
     Ret (p\<lparr>ra_sessionID := i, ra_RegisterData := Some x\<rparr>)))"

definition RegisterAckPacket_Decode :: "RegisterAckPacket \<Rightarrow> slice \<Rightarrow> (RegisterAckPacket \<times> u32) outcome" where
  "RegisterAckPacket_Decode p data =
     (let len = unat (PacketLen (ra_hdr p)) in
      if slen data < len then Fail ErrIncompletePacket
      else obind (RegisterAckPacket_fields p data len) (\<lambda>q. Ret (q, of_nat len)))"

definition RegisterAckPacket_DecodeFromReader :: "RegisterAckPacket \<Rightarrow> RegisterAckPacket rd" where
  "RegisterAckPacket_DecodeFromReader p =
     (let len = unat (PacketLen (ra_hdr p)) in
      if len < 8 then rlift (Fail illegal_packet)
      else rbind (make_read len) (\<lambda>data. rlift (RegisterAckPacket_fields p (sl_full data) len)))"

definition new_RegisterAckPacket :: "PacketHeader \<Rightarrow> RegisterAckPacket" where
  "new_RegisterAckPacket h = \<lparr>ra_hdr = h, ra_sessionID = 0, ra_RegisterData = None, ra_clientID = 0\<rparr>"

definition wire_RegisterAckPacket :: "PacketHeader \<Rightarrow> RegisterAckPacket \<Rightarrow> RegisterAckPacket" where
  "wire_RegisterAckPacket h p = p\<lparr>ra_hdr := h, ra_RegisterData := got_RegisterData (ra_RegisterData p), ra_clientID := 0\<rparr>"

section \<open>Round trips\<close>

lemma marshal_MessageData_got:
  assumes "pred_option ok_MessageData c"
  obtains b x where "marshal_MessageData c = Ret b" "unmarshal_MessageData b = Ret x" "got_MessageData c = Some x"
  using unmarshal_marshal(4) [OF assms] that by (auto simp: got_MessageData_def)

lemma marshal_RegisterData_got:
  assumes "pred_option ok_RegisterData c"
  obtains b x where "marshal_RegisterData c = Ret b" "unmarshal_RegisterData b = Ret x" "got_RegisterData c = Some x"
  using unmarshal_marshal(3) [OF assms] that by (auto simp: got_RegisterData_def)

interpretation cancel: packet_codec RequestCancelPacket_Encode rc_hdr
  "\<lambda>h. RequestCancelPacket_DecodeFromReader (new_RequestCancelPacket h)" wire_RequestCancelPacket "\<lambda>p. True"
proof
  fix p :: RequestCancelPacket
  let ?pkt = "PutUint64 (rc_sessionID p) @ PutUint16 (rc_cancelType p)"
  have "RequestCancelPacket_fields (new_RequestCancelPacket h) (sl_full ?pkt) 10 = Ret (wire_RequestCancelPacket h p)" for h
    by (simp add: RequestCancelPacket_fields_def new_RequestCancelPacket_def sl_sub_Ret Uint64_def Uint16_def
        wire_RequestCancelPacket_def)
  then show "\<exists>pkt. RequestCancelPacket_Encode p = Ret (put_length (PacketHeader_Encode (rc_hdr p)) pkt)
      \<and> (\<forall>h. unat (PacketLen h) = length pkt \<longrightarrow>
            reads_as (RequestCancelPacket_DecodeFromReader (new_RequestCancelPacket h)) pkt (wire_RequestCancelPacket h p))"
    unfolding RequestCancelPacket_DecodeFromReader_def Let_def
    by (intro exI [of _ ?pkt])
      (auto simp: RequestCancelPacket_Encode_def new_RequestCancelPacket_def intro!: reads_as_block)
qed

interpretation message: packet_codec MessagePacket_Encode mp_hdr
  "\<lambda>h. MessagePacket_DecodeFromReader (new_MessagePacket h)" wire_MessagePacket
  "\<lambda>p. pred_option ok_MessageData (mp_Data p)"
proof
  fix p :: MessagePacket
  assume ok: "pred_option ok_MessageData (mp_Data p)"
  obtain b x where m: "marshal_MessageData (mp_Data p) = Ret b" "unmarshal_MessageData b = Ret x"
    "got_MessageData (mp_Data p) = Some x"
    using marshal_MessageData_got [OF ok] .
  let ?pkt = "PutUint64 (mp_sessionID p) @ b"
  have "MessagePacket_fields (new_MessagePacket h) (sl_full ?pkt) (length ?pkt) = Ret (wire_MessagePacket h p)" for h
    using m by (simp add: MessagePacket_fields_def new_MessagePacket_def id_and_rest_full wire_MessagePacket_def)
  then show "\<exists>pkt. MessagePacket_Encode p = Ret (put_length (PacketHeader_Encode (mp_hdr p)) pkt)
      \<and> (\<forall>h. unat (PacketLen h) = length pkt \<longrightarrow>
            reads_as (MessagePacket_DecodeFromReader (new_MessagePacket h)) pkt (wire_MessagePacket h p))"
    using m unfolding MessagePacket_DecodeFromReader_def Let_def
    by (intro exI [of _ ?pkt])
      (auto simp: MessagePacket_Encode_def new_MessagePacket_def intro!: reads_as_block)
qed

interpretation message_ack: packet_codec MessageAckPacket_Encode ma_hdr
  "\<lambda>h. MessageAckPacket_DecodeFromReader (new_MessageAckPacket h)" wire_MessageAckPacket
  "\<lambda>p. pred_option ok_MessageData (ma_Data p)"
proof
  fix p :: MessageAckPacket
  assume ok: "pred_option ok_MessageData (ma_Data p)"
  obtain b x where m: "marshal_MessageData (ma_Data p) = Ret b" "unmarshal_MessageData b = Ret x"
    "got_MessageData (ma_Data p) = Some x"
    using marshal_MessageData_got [OF ok] .
  let ?pkt = "PutUint64 (ma_sessionID p) @ b"
  have "MessageAckPacket_fields (new_MessageAckPacket h) (sl_full ?pkt) (length ?pkt) = Ret (wire_MessageAckPacket h p)" for h
    using m by (simp add: MessageAckPacket_fields_def new_MessageAckPacket_def id_and_rest_full wire_MessageAckPacket_def)
  then show "\<exists>pkt. MessageAckPacket_Encode p = Ret (put_length (PacketHeader_Encode (ma_hdr p)) pkt)
      \<and> (\<forall>h. unat (PacketLen h) = length pkt \<longrightarrow>
            reads_as (MessageAckPacket_DecodeFromReader (new_MessageAckPacket h)) pkt (wire_MessageAckPacket h p))"
    using m unfolding MessageAckPacket_DecodeFromReader_def Let_def
    by (intro exI [of _ ?pkt])
      (auto simp: MessageAckPacket_Encode_def new_MessageAckPacket_def intro!: reads_as_block)
qed

interpretation stream: packet_codec StreamPacket_Encode st_hdr
  "\<lambda>h. StreamPacket_DecodeFromReader (new_StreamPacket h)" wire_StreamPacket
  "\<lambda>p. True"
proof
  fix p :: StreamPacket
  let ?pkt = "PutUint64 (st_sessionID p) @ st_Data p"
  have "StreamPacket_fields (new_StreamPacket h) (sl_full ?pkt) (length ?pkt) = Ret (wire_StreamPacket h p)" for h
    by (simp add: StreamPacket_fields_def new_StreamPacket_def id_and_rest_full wire_StreamPacket_def)
  then show "\<exists>pkt. StreamPacket_Encode p = Ret (put_length (PacketHeader_Encode (st_hdr p)) pkt)
      \<and> (\<forall>h. unat (PacketLen h) = length pkt \<longrightarrow>
            reads_as (StreamPacket_DecodeFromReader (new_StreamPacket h)) pkt (wire_StreamPacket h p))"
    unfolding StreamPacket_DecodeFromReader_def Let_def
    by (intro exI [of _ ?pkt])
      (auto simp: StreamPacket_Encode_def new_StreamPacket_def intro!: reads_as_block)
qed

interpretation register: packet_codec RegisterPacket_Encode rp_hdr
  "\<lambda>h. RegisterPacket_DecodeFromReader (new_RegisterPacket h)" wire_RegisterPacket
  "\<lambda>p. True"
proof
  fix p :: RegisterPacket
  let ?pkt = "PutUint64 (rp_sessionID p) @ rp_method p"
  have "RegisterPacket_fields (new_RegisterPacket h) (sl_full ?pkt) (length ?pkt) = Ret (wire_RegisterPacket h p)" for h
    by (simp add: RegisterPacket_fields_def new_RegisterPacket_def id_and_rest_full wire_RegisterPacket_def)
  then show "\<exists>pkt. RegisterPacket_Encode p = Ret (put_length (PacketHeader_Encode (rp_hdr p)) pkt)
      \<and> (\<forall>h. unat (PacketLen h) = length pkt \<longrightarrow>
            reads_as (RegisterPacket_DecodeFromReader (new_RegisterPacket h)) pkt (wire_RegisterPacket h p))"
    unfolding RegisterPacket_DecodeFromReader_def Let_def
    by (intro exI [of _ ?pkt])
      (auto simp: RegisterPacket_Encode_def new_RegisterPacket_def intro!: reads_as_block)
qed

interpretation register_ack: packet_codec RegisterAckPacket_Encode ra_hdr
  "\<lambda>h. RegisterAckPacket_DecodeFromReader (new_RegisterAckPacket h)" wire_RegisterAckPacket
  "\<lambda>p. pred_option ok_RegisterData (ra_RegisterData p)"
proof
  fix p :: RegisterAckPacket
  assume ok: "pred_option ok_RegisterData (ra_RegisterData p)"
  obtain b x where m: "marshal_RegisterData (ra_RegisterData p) = Ret b" "unmarshal_RegisterData b = Ret x"
    "got_RegisterData (ra_RegisterData p) = Some x"
    using marshal_RegisterData_got [OF ok] .
  let ?pkt = "PutUint64 (ra_sessionID p) @ b"
  have "RegisterAckPacket_fields (new_RegisterAckPacket h) (sl_full ?pkt) (length ?pkt) = Ret (wire_RegisterAckPacket h p)" for h
    using m by (simp add: RegisterAckPacket_fields_def new_RegisterAckPacket_def id_and_rest_full wire_RegisterAckPacket_def)
  then show "\<exists>pkt. RegisterAckPacket_Encode p = Ret (put_length (PacketHeader_Encode (ra_hdr p)) pkt)
      \<and> (\<forall>h. unat (PacketLen h) = length pkt \<longrightarrow>
            reads_as (RegisterAckPacket_DecodeFromReader (new_RegisterAckPacket h)) pkt (wire_RegisterAckPacket h p))"
    using m unfolding RegisterAckPacket_DecodeFromReader_def Let_def
    by (intro exI [of _ ?pkt])
      (auto simp: RegisterAckPacket_Encode_def new_RegisterAckPacket_def intro!: reads_as_block)
qed

end
