(* ===== verification/Packet_Decode.thy ===== *)
theory Packet_Decode
  imports Packet_Conn Packet_Sess Packet_Data
begin

text \<open>
  Dispatch over the packet types (\<open>packet/decode.go\<close>): the \<open>Packet\<close> interface's methods,
  \<open>Decode\<close> on a slice, \<open>DecodeFromReader\<close> on a stream with its size limit, and
  \<open>EncodeToWriter\<close>. The lemmas show that a stream of encoded packets is read back packet
  by packet, how much a reader allocates, and exactly which inputs make it panic.
\<close>

section \<open>The Packet interface\<close>

fun Packet_hdr :: "Packet \<Rightarrow> PacketHeader outcome" where
  "Packet_hdr (PConn p) = Ret (cp_hdr p)"
| "Packet_hdr (PConnAck p) = Ret (ca_hdr p)"
| "Packet_hdr (PDisConn p) = Ret (dc_hdr p)"
| "Packet_hdr (PDisConnAck p) = Ret (da_hdr p)"
| "Packet_hdr (PHeartbeat p) = Ret (hb_hdr p)"
| "Packet_hdr (PHeartbeatAck p) = Ret (ha_hdr p)"
| "Packet_hdr (PSession p) = Ret (sp_hdr p)"
| "Packet_hdr (PSessionAck p) = Ret (sa_hdr p)"
| "Packet_hdr (PDismiss p) = Ret (dm_hdr p)"
| "Packet_hdr (PDismissAck p) = Ret (dk_hdr p)"
| "Packet_hdr (PMessage p) = Ret (mp_hdr p)"
| "Packet_hdr (PMessageAck p) = Ret (ma_hdr p)"
| "Packet_hdr (PStream p) = Ret (st_hdr p)"
| "Packet_hdr (PRegister p) = Ret (rp_hdr p)"
| "Packet_hdr (PRegisterAck p) = Ret (ra_hdr p)"
| "Packet_hdr (PRequest None) = Panic NilDereference"
| "Packet_hdr (PRequest (Some m)) = Ret (mp_hdr m)"
| "Packet_hdr (PResponse None) = Panic NilDereference"
| "Packet_hdr (PResponse (Some m)) = Ret (ma_hdr m)"
| "Packet_hdr (PRequestCancel p) = Ret (rc_hdr p)"

definition Packet_Type :: "Packet \<Rightarrow> byte outcome" where
  "Packet_Type p = obind (Packet_hdr p) (\<lambda>h. Ret (Typ h))"

definition Packet_ID :: "Packet \<Rightarrow> u64 outcome" where
  "Packet_ID p = obind (Packet_hdr p) (\<lambda>h. Ret (PacketID h))"

definition Packet_Consistency :: "Packet \<Rightarrow> byte outcome" where
  "Packet_Consistency p = obind (Packet_hdr p) (\<lambda>h. Ret (Cnss h))"

text \<open>\<open>Length\<close>: overridden by the stream and register packets.\<close>

fun Packet_Length :: "Packet \<Rightarrow> nat outcome" where
  "Packet_Length (PStream p) = Ret (length (st_Data p))"
| "Packet_Length (PRegister p) = Ret (length (rp_method p))"
| "Packet_Length p = obind (Packet_hdr p) (\<lambda>h. Ret (PacketHeader_Length h))"

definition ConnLayer :: "Packet \<Rightarrow> bool outcome" where
  "ConnLayer p =
     obind (Packet_Type p) (\<lambda>t.
     Ret (t = TypeConnPacket \<or> t = TypeConnAckPacket \<or> t = TypeDisConnPacket \<or> t = TypeDisConnAckPacket
          \<or> t = TypeHeartbeatPacket \<or> t = TypeHeartbeatAckPacket))"

definition SessionLayer :: "Packet \<Rightarrow> bool outcome" where
  "SessionLayer p =
     obind (Packet_Type p) (\<lambda>t.
     Ret (t = TypeSessionPacket \<or> t = TypeSessionAckPacket \<or> t = TypeDismissPacket \<or> t = TypeDismissAckPacket))"

text \<open>\<open>SessionAbove.SessionID\<close>; connection-layer packets do not implement the interface.\<close>

fun Packet_SessionID :: "Packet \<Rightarrow> u64 option" where
  "Packet_SessionID (PSession p) = Some (sp_negotiateID p)"
| "Packet_SessionID (PSessionAck p) = Some (sa_sessionID p)"
| "Packet_SessionID (PDismiss p) = Some (dm_sessionID p)"
| "Packet_SessionID (PDismissAck p) = Some (dk_sessionID p)"
| "Packet_SessionID (PMessage p) = Some (mp_sessionID p)"
| "Packet_SessionID (PMessageAck p) = Some (ma_sessionID p)"
| "Packet_SessionID (PStream p) = Some (st_sessionID p)"
| "Packet_SessionID (PRequest (Some p)) = Some (mp_sessionID p)"
| "Packet_SessionID (PResponse (Some p)) = Some (ma_sessionID p)"
| "Packet_SessionID (PRequestCancel p) = Some (rc_sessionID p)"
| "Packet_SessionID (PRegister p) = Some (rp_sessionID p)"
| "Packet_SessionID (PRegisterAck p) = Some (ra_sessionID p)"
| "Packet_SessionID p = None"

fun Packet_SetSessionID :: "u64 \<Rightarrow> Packet \<Rightarrow> Packet" where
  "Packet_SetSessionID i (PSession p) = PSession (p\<lparr>sp_negotiateID := i\<rparr>)"
| "Packet_SetSessionID i (PSessionAck p) = PSessionAck (p\<lparr>sa_sessionID := i\<rparr>)"
| "Packet_SetSessionID i (PDismiss p) = PDismiss (p\<lparr>dm_sessionID := i\<rparr>)"
| "Packet_SetSessionID i (PDismissAck p) = PDismissAck (p\<lparr>dk_sessionID := i\<rparr>)"
| "Packet_SetSessionID i (PMessage p) = PMessage (p\<lparr>mp_sessionID := i\<rparr>)"
| "Packet_SetSessionID i (PMessageAck p) = PMessageAck (p\<lparr>ma_sessionID := i\<rparr>)"
| "Packet_SetSessionID i (PStream p) = PStream (p\<lparr>st_sessionID := i\<rparr>)"
| "Packet_SetSessionID i (PRequest (Some p)) = PRequest (Some (p\<lparr>mp_sessionID := i\<rparr>))"
| "Packet_SetSessionID i (PResponse (Some p)) = PResponse (Some (p\<lparr>ma_sessionID := i\<rparr>))"
| "Packet_SetSessionID i (PRequestCancel p) = PRequestCancel (p\<lparr>rc_sessionID := i\<rparr>)"
| "Packet_SetSessionID i (PRegister p) = PRegister (p\<lparr>rp_sessionID := i\<rparr>)"
| "Packet_SetSessionID i (PRegisterAck p) = PRegisterAck (p\<lparr>ra_sessionID := i\<rparr>)"
| "Packet_SetSessionID i p = p"

fun Encode :: "Packet \<Rightarrow> bytes outcome" where
  "Encode (PConn p) = ConnPacket_Encode p"
| "Encode (PConnAck p) = ConnAckPacket_Encode p"
| "Encode (PDisConn p) = DisConnPacket_Encode p"
| "Encode (PDisConnAck p) = DisConnAckPacket_Encode p"
| "Encode (PHeartbeat p) = HeartbeatPacket_Encode p"
| "Encode (PHeartbeatAck p) = HeartbeatAckPacket_Encode p"
| "Encode (PSession p) = SessionPacket_Encode p"
| "Encode (PSessionAck p) = SessionAckPacket_Encode p"
| "Encode (PDismiss p) = DismissPacket_Encode p"
| "Encode (PDismissAck p) = DismissAckPacket_Encode p"
| "Encode (PMessage p) = MessagePacket_Encode p"
| "Encode (PMessageAck p) = MessageAckPacket_Encode p"
| "Encode (PStream p) = StreamPacket_Encode p"
| "Encode (PRegister p) = RegisterPacket_Encode p"
| "Encode (PRegisterAck p) = RegisterAckPacket_Encode p"
| "Encode (PRequest None) = Panic NilDereference"
| "Encode (PRequest (Some m)) = MessagePacket_Encode m"
| "Encode (PResponse None) = Panic NilDereference"
| "Encode (PResponse (Some m)) = MessageAckPacket_Encode m"
| "Encode (PRequestCancel p) = RequestCancelPacket_Encode p"

section \<open>Decoding from a slice\<close>

definition MaxDecodablePacketLen :: nat where
  "MaxDecodablePacketLen = 10 * 1024 * 1024"

definition omap :: "('a \<Rightarrow> 'b) \<Rightarrow> ('a \<times> u32) outcome \<Rightarrow> ('b \<times> u32) outcome" where
  "omap f m = obind m (\<lambda>(x, n). Ret (f x, n))"

text \<open>
  The request and response cases assign through the embedded pointer of an empty struct, which
  is nil.
\<close>

definition Decode :: "slice \<Rightarrow> (Packet \<times> u32) outcome" where
  "Decode data =
     obind (PacketHeader_Decode new_PacketHeader data) (\<lambda>(h, _).
     if (of_nat (slen data - 14) :: u32) < PacketLen h then Fail ErrExpectingData
     else obind (sl_from data 14) (\<lambda>d.
       if Typ h = TypeConnPacket then omap PConn (ConnPacket_Decode (new_ConnPacket h) d)
       else if Typ h = TypeConnAckPacket then omap PConnAck (ConnAckPacket_Decode (new_ConnAckPacket h) d)
       else if Typ h = TypeDisConnPacket then omap PDisConn (DisConnPacket_Decode (new_DisConnPacket h) d)
       else if Typ h = TypeDisConnAckPacket then omap PDisConnAck (DisConnAckPacket_Decode (new_DisConnAckPacket h) d)
       else if Typ h = TypeHeartbeatPacket then omap PHeartbeat (HeartbeatPacket_Decode (new_HeartbeatPacket h) d)
       else if Typ h = TypeHeartbeatAckPacket then omap PHeartbeatAck (HeartbeatAckPacket_Decode (new_HeartbeatAckPacket h) d)
       else if Typ h = TypeSessionPacket then omap PSession (SessionPacket_Decode (new_SessionPacket h) d)
       else if Typ h = TypeSessionAckPacket then omap PSessionAck (SessionAckPacket_Decode (new_SessionAckPacket h) d)
       else if Typ h = TypeDismissPacket then omap PDismiss (DismissPacket_Decode (new_DismissPacket h) d)
       else if Typ h = TypeDismissAckPacket then omap PDismissAck (DismissAckPacket_Decode (new_DismissAckPacket h) d)
       else if Typ h = TypeMessagePacket then omap PMessage (MessagePacket_Decode (new_MessagePacket h) d)
       else if Typ h = TypeMessageAckPacket then omap PMessageAck (MessageAckPacket_Decode (new_MessageAckPacket h) d)
       else if Typ h = TypeStreamPacket then omap PStream (StreamPacket_Decode (new_StreamPacket h) d)
       else if Typ h = TypeRegisterPacket then omap PRegister (RegisterPacket_Decode (new_RegisterPacket h) d)
       else if Typ h = TypeRegisterAckPacket then omap PRegisterAck (RegisterAckPacket_Decode (new_RegisterAckPacket h) d)
       else if Typ h = TypeRequestPacket then Panic NilDereference
       else if Typ h = TypeResponsePacket then Panic NilDereference
       else if Typ h = TypeRequestCancelPacket then omap PRequestCancel (RequestCancelPacket_Decode (new_RequestCancelPacket h) d)
       else Fail ErrUnsupportedPacket))"

section \<open>Decoding from a stream\<close>

definition rmap :: "('a \<Rightarrow> 'b) \<Rightarrow> 'a rd \<Rightarrow> 'b rd" where
  "rmap f m = rbind m (\<lambda>x. rlift (Ret (f x)))"

definition decode_body :: "PacketHeader \<Rightarrow> Packet rd" where
  "decode_body h =
     (if Typ h = TypeConnPacket then rmap PConn (ConnPacket_DecodeFromReader (new_ConnPacket h))
      else if Typ h = TypeConnAckPacket then rmap PConnAck (ConnAckPacket_DecodeFromReader (new_ConnAckPacket h))
      else if Typ h = TypeDisConnPacket then rmap PDisConn (DisConnPacket_DecodeFromReader (new_DisConnPacket h))
      else if Typ h = TypeDisConnAckPacket then rmap PDisConnAck (DisConnAckPacket_DecodeFromReader (new_DisConnAckPacket h))
      else if Typ h = TypeHeartbeatPacket then rmap PHeartbeat (HeartbeatPacket_DecodeFromReader (new_HeartbeatPacket h))
      else if Typ h = TypeHeartbeatAckPacket then rmap PHeartbeatAck (HeartbeatAckPacket_DecodeFromReader (new_HeartbeatAckPacket h))
      else if Typ h = TypeSessionPacket then rmap PSession (SessionPacket_DecodeFromReader (new_SessionPacket h))
      else if Typ h = TypeSessionAckPacket then rmap PSessionAck (SessionAckPacket_DecodeFromReader (new_SessionAckPacket h))
      else if Typ h = TypeDismissPacket then rmap PDismiss (DismissPacket_DecodeFromReader (new_DismissPacket h))
      else if Typ h = TypeDismissAckPacket then rmap PDismissAck (DismissAckPacket_DecodeFromReader (new_DismissAckPacket h))
      else if Typ h = TypeMessagePacket then rmap PMessage (MessagePacket_DecodeFromReader (new_MessagePacket h))
      else if Typ h = TypeMessageAckPacket then rmap PMessageAck (MessageAckPacket_DecodeFromReader (new_MessageAckPacket h))
      else if Typ h = TypeStreamPacket then rmap PStream (StreamPacket_DecodeFromReader (new_StreamPacket h))
      else if Typ h = TypeRegisterPacket then rmap PRegister (RegisterPacket_DecodeFromReader (new_RegisterPacket h))
      else if Typ h = TypeRegisterAckPacket then rmap PRegisterAck (RegisterAckPacket_DecodeFromReader (new_RegisterAckPacket h))
      else if Typ h = TypeRequestPacket then rmap (\<lambda>m. PRequest (Some m)) (MessagePacket_DecodeFromReader (new_MessagePacket h))
      else if Typ h = TypeResponsePacket then rmap (\<lambda>m. PResponse (Some m)) (MessageAckPacket_DecodeFromReader (new_MessageAckPacket h))
      else if Typ h = TypeRequestCancelPacket then rmap PRequestCancel (RequestCancelPacket_DecodeFromReader (new_RequestCancelPacket h))
      else rlift (Fail ErrUnsupportedPacket))"

definition decode_stream :: "Packet rd" where
  "decode_stream =
     rbind (PacketHeader_DecodeFromReader new_PacketHeader) (\<lambda>h.
     if MaxDecodablePacketLen < unat (PacketLen h) then rlift (Fail ErrPacketTooLarge)
     else decode_body h)"

text \<open>The exported function rejects a nil reader.\<close>

definition DecodeFromReader :: "reader option \<Rightarrow> Packet outcome \<times> reader option" where
  "DecodeFromReader reader =
     (case reader of
        None \<Rightarrow> (Fail ErrInvalidArguments, None)
      | Some r \<Rightarrow> map_prod id Some (decode_stream r))"

text \<open>Successive reads of one connection.\<close>

fun decode_many :: "nat \<Rightarrow> Packet list rd" where
  "decode_many 0 = rlift (Ret [])"
| "decode_many (Suc n) = rbind decode_stream (\<lambda>p. rbind (decode_many n) (\<lambda>ps. rlift (Ret (p # ps))))"

section \<open>Writing\<close>

text \<open>
  \<open>Write\<close> stands for the \<open>Write\<close> method of the connection: it returns the number of bytes
  taken and an error, and changes the connection \<open>w\<close>. The loop may not end, so its result is
  an option.
\<close>

partial_function (option) write_loop ::
  "('w \<Rightarrow> bytes \<Rightarrow> nat \<times> go_error option \<times> 'w) \<Rightarrow> bytes \<Rightarrow> nat \<Rightarrow> 'w \<Rightarrow> (unit outcome \<times> 'w) option" where
  "write_loop Write data pos w =
     (if pos \<le> length data then
        (case Write w (drop pos data) of
           (m, Some e, w') \<Rightarrow> Some (Fail e, w')
         | (m, None, w') \<Rightarrow>
             if pos + m = length data then Some (Ret (), w') else write_loop Write data (pos + m) w')
      else Some (Panic SliceOutOfRange, w))"

declare write_loop.simps [code]

definition EncodeToWriter ::
  "('w \<Rightarrow> bytes \<Rightarrow> nat \<times> go_error option \<times> 'w) \<Rightarrow> Packet \<Rightarrow> 'w \<Rightarrow> (unit outcome \<times> 'w) option" where
  "EncodeToWriter Write pkt w =
     (case Encode pkt of
        Ret data \<Rightarrow> write_loop Write data 0 w
      | Fail e \<Rightarrow> Some (Fail e, w)
      | Panic p \<Rightarrow> Some (Panic p, w))"

section \<open>What travels\<close>

text \<open>The packets a peer reads back: header type as the struct, payload that survives JSON, and an
  empty declared payload on the packets that have none.\<close>

fun ok_Packet :: "Packet \<Rightarrow> bool" where
  "ok_Packet (PConn p) \<longleftrightarrow> Typ (cp_hdr p) = TypeConnPacket \<and> pred_option ok_ConnData (cp_ConnData p)"
| "ok_Packet (PConnAck p) \<longleftrightarrow> Typ (ca_hdr p) = TypeConnAckPacket \<and> pred_option ok_ConnData (ca_ConnData p)"
| "ok_Packet (PDisConn p) \<longleftrightarrow> Typ (dc_hdr p) = TypeDisConnPacket \<and> PacketLen (dc_hdr p) = 0"
| "ok_Packet (PDisConnAck p) \<longleftrightarrow> Typ (da_hdr p) = TypeDisConnAckPacket \<and> pred_option ok_ConnData (da_ConnData p)"
| "ok_Packet (PHeartbeat p) \<longleftrightarrow> Typ (hb_hdr p) = TypeHeartbeatPacket \<and> PacketLen (hb_hdr p) = 0"
| "ok_Packet (PHeartbeatAck p) \<longleftrightarrow> Typ (ha_hdr p) = TypeHeartbeatAckPacket \<and> PacketLen (ha_hdr p) = 0"
| "ok_Packet (PSession p) \<longleftrightarrow> Typ (sp_hdr p) = TypeSessionPacket \<and> pred_option ok_SessionData (sp_SessionData p)"
| "ok_Packet (PSessionAck p) \<longleftrightarrow> Typ (sa_hdr p) = TypeSessionAckPacket \<and> pred_option ok_SessionData (sa_SessionData p)"
| "ok_Packet (PDismiss p) \<longleftrightarrow> Typ (dm_hdr p) = TypeDismissPacket \<and> pred_option ok_SessionData (dm_SessionData p)"
| "ok_Packet (PDismissAck p) \<longleftrightarrow> Typ (dk_hdr p) = TypeDismissAckPacket \<and> pred_option ok_SessionData (dk_SessionData p)"
| "ok_Packet (PMessage p) \<longleftrightarrow> Typ (mp_hdr p) = TypeMessagePacket \<and> pred_option ok_MessageData (mp_Data p)"
| "ok_Packet (PMessageAck p) \<longleftrightarrow> Typ (ma_hdr p) = TypeMessageAckPacket \<and> pred_option ok_MessageData (ma_Data p)"
| "ok_Packet (PStream p) \<longleftrightarrow> Typ (st_hdr p) = TypeStreamPacket"
| "ok_Packet (PRegister p) \<longleftrightarrow> Typ (rp_hdr p) = TypeRegisterPacket"
| "ok_Packet (PRegisterAck p) \<longleftrightarrow> Typ (ra_hdr p) = TypeRegisterAckPacket \<and> pred_option ok_RegisterData (ra_RegisterData p)"
| "ok_Packet (PRequest (Some p)) \<longleftrightarrow> Typ (mp_hdr p) = TypeRequestPacket \<and> pred_option ok_MessageData (mp_Data p)"
| "ok_Packet (PResponse (Some p)) \<longleftrightarrow> Typ (ma_hdr p) = TypeResponsePacket \<and> pred_option ok_MessageData (ma_Data p)"
| "ok_Packet (PRequestCancel p) \<longleftrightarrow> Typ (rc_hdr p) = TypeRequestCancelPacket"
| "ok_Packet (PRequest None) \<longleftrightarrow> False"
| "ok_Packet (PResponse None) \<longleftrightarrow> False"

fun wire_Packet :: "PacketHeader \<Rightarrow> Packet \<Rightarrow> Packet" where
  "wire_Packet h (PConn p) = PConn (wire_ConnPacket h p)"
| "wire_Packet h (PConnAck p) = PConnAck (wire_ConnAckPacket h p)"
| "wire_Packet h (PDisConn p) = PDisConn (new_DisConnPacket h)"
| "wire_Packet h (PDisConnAck p) = PDisConnAck (wire_DisConnAckPacket h p)"
| "wire_Packet h (PHeartbeat p) = PHeartbeat (new_HeartbeatPacket h)"
| "wire_Packet h (PHeartbeatAck p) = PHeartbeatAck (new_HeartbeatAckPacket h)"
| "wire_Packet h (PSession p) = PSession (wire_SessionPacket h p)"
| "wire_Packet h (PSessionAck p) = PSessionAck (wire_SessionAckPacket h p)"
| "wire_Packet h (PDismiss p) = PDismiss (wire_DismissPacket h p)"
| "wire_Packet h (PDismissAck p) = PDismissAck (wire_DismissAckPacket h p)"
| "wire_Packet h (PMessage p) = PMessage (wire_MessagePacket h p)"
| "wire_Packet h (PMessageAck p) = PMessageAck (wire_MessageAckPacket h p)"
| "wire_Packet h (PStream p) = PStream (wire_StreamPacket h p)"
| "wire_Packet h (PRegister p) = PRegister (wire_RegisterPacket h p)"
| "wire_Packet h (PRegisterAck p) = PRegisterAck (wire_RegisterAckPacket h p)"
| "wire_Packet h (PRequest m) = PRequest (map_option (wire_MessagePacket h) m)"
| "wire_Packet h (PResponse m) = PResponse (map_option (wire_MessageAckPacket h) m)"
| "wire_Packet h (PRequestCancel p) = PRequestCancel (wire_RequestCancelPacket h p)"

text \<open>The packet the peer decodes from \<open>bs = Encode p\<close>.\<close>

definition sent :: "Packet \<Rightarrow> bytes \<Rightarrow> Packet" where
  "sent p bs =
     (case Packet_hdr p of Ret h \<Rightarrow> wire_Packet (wire_header h (drop 14 bs)) p | _ \<Rightarrow> p)"

section \<open>Round trip of the stream\<close>

lemma reads_as_rmap: "reads_as m pkt q \<Longrightarrow> reads_as (rmap C m) pkt (C q)"
  unfolding reads_as_def rmap_def by (fastforce simp: rbind_simps)

lemma decode_stream_frame:
  assumes "bs = PacketHeader_Encode h @ drop 14 bs" "Cnss h = 0" "unat (PacketLen h) = length bs - 14"
    "14 \<le> length bs" "length bs \<le> 14 + MaxDecodablePacketLen" "reads_as (decode_body h) (drop 14 bs) q"
  shows "reads_as decode_stream bs q"
  unfolding reads_as_def
proof (intro allI impI)
  fix r :: reader and rest
  assume "pending r = bs @ rest"
  then have p: "pending r = PacketHeader_Encode h @ (drop 14 bs @ rest)"
    using assms(1) by (metis append_assoc)
  let ?r = "r\<lparr>pending := drop 14 bs @ rest, allocs := allocs r @ [14]\<rparr>"
  have h: "PacketHeader_DecodeFromReader new_PacketHeader r = (Ret h, ?r)"
    using p assms(2) by (rule PacketHeader_DecodeFromReader_Encode)
  obtain as where as: "decode_body h ?r = (Ret q, ?r\<lparr>pending := rest, allocs := allocs ?r @ as\<rparr>)"
    "\<forall>n \<in> set as. n \<le> length (drop 14 bs)"
    using assms(6) [unfolded reads_as_def, rule_format, of ?r rest] by auto
  show "\<exists>as. decode_stream r = (Ret q, r\<lparr>pending := rest, allocs := allocs r @ as\<rparr>) \<and> (\<forall>n \<in> set as. n \<le> length bs)"
    using as assms(3,4,5) h
    by (intro exI [of _ "14 # as"]) (auto simp: decode_stream_def rbind_simps)
qed

lemma decode_body_dispatch:
  "Typ h = TypeConnPacket \<Longrightarrow> decode_body h = rmap PConn (ConnPacket_DecodeFromReader (new_ConnPacket h))"
  "Typ h = TypeConnAckPacket \<Longrightarrow> decode_body h = rmap PConnAck (ConnAckPacket_DecodeFromReader (new_ConnAckPacket h))"
  "Typ h = TypeDisConnPacket \<Longrightarrow> decode_body h = rmap PDisConn (DisConnPacket_DecodeFromReader (new_DisConnPacket h))"
  "Typ h = TypeDisConnAckPacket \<Longrightarrow> decode_body h = rmap PDisConnAck (DisConnAckPacket_DecodeFromReader (new_DisConnAckPacket h))"
  "Typ h = TypeHeartbeatPacket \<Longrightarrow> decode_body h = rmap PHeartbeat (HeartbeatPacket_DecodeFromReader (new_HeartbeatPacket h))"
  "Typ h = TypeHeartbeatAckPacket \<Longrightarrow> decode_body h = rmap PHeartbeatAck (HeartbeatAckPacket_DecodeFromReader (new_HeartbeatAckPacket h))"
  "Typ h = TypeSessionPacket \<Longrightarrow> decode_body h = rmap PSession (SessionPacket_DecodeFromReader (new_SessionPacket h))"
  "Typ h = TypeSessionAckPacket \<Longrightarrow> decode_body h = rmap PSessionAck (SessionAckPacket_DecodeFromReader (new_SessionAckPacket h))"
  "Typ h = TypeDismissPacket \<Longrightarrow> decode_body h = rmap PDismiss (DismissPacket_DecodeFromReader (new_DismissPacket h))"
  "Typ h = TypeDismissAckPacket \<Longrightarrow> decode_body h = rmap PDismissAck (DismissAckPacket_DecodeFromReader (new_DismissAckPacket h))"
  "Typ h = TypeMessagePacket \<Longrightarrow> decode_body h = rmap PMessage (MessagePacket_DecodeFromReader (new_MessagePacket h))"
  "Typ h = TypeMessageAckPacket \<Longrightarrow> decode_body h = rmap PMessageAck (MessageAckPacket_DecodeFromReader (new_MessageAckPacket h))"
  "Typ h = TypeStreamPacket \<Longrightarrow> decode_body h = rmap PStream (StreamPacket_DecodeFromReader (new_StreamPacket h))"
  "Typ h = TypeRegisterPacket \<Longrightarrow> decode_body h = rmap PRegister (RegisterPacket_DecodeFromReader (new_RegisterPacket h))"
  "Typ h = TypeRegisterAckPacket \<Longrightarrow> decode_body h = rmap PRegisterAck (RegisterAckPacket_DecodeFromReader (new_RegisterAckPacket h))"
  "Typ h = TypeRequestPacket \<Longrightarrow> decode_body h = rmap (\<lambda>m. PRequest (Some m)) (MessagePacket_DecodeFromReader (new_MessagePacket h))"
  "Typ h = TypeResponsePacket \<Longrightarrow> decode_body h = rmap (\<lambda>m. PResponse (Some m)) (MessageAckPacket_DecodeFromReader (new_MessageAckPacket h))"
  "Typ h = TypeRequestCancelPacket \<Longrightarrow> decode_body h = rmap PRequestCancel (RequestCancelPacket_DecodeFromReader (new_RequestCancelPacket h))"
  by (simp_all add: decode_body_def type_defs)

lemma wire_header_sel [simp]:
  "Typ (wire_header h pkt) = Typ h" "Cnss (wire_header h pkt) = 0"
  by (simp_all add: wire_header_def)

text \<open>What the dispatch asks of a packet type to pass its round trip on.\<close>

context packet_codec
begin

lemma stream_round_trip:
  assumes "ok p" "Encode p = Ret bs" "length bs \<le> 14 + MaxDecodablePacketLen"
    and "\<And>h. Typ h = Typ (hdr p) \<Longrightarrow> decode_body h = rmap C (Read h)"
  shows "reads_as decode_stream bs (C (wire (wire_header (hdr p) (drop 14 bs)) p))"
proof -
  have "length bs < 14 + 2 ^ 32" using assms(3) by (simp add: MaxDecodablePacketLen_def)
  then obtain h where h: "bs = PacketHeader_Encode h @ drop 14 bs" "h = wire_header (hdr p) (drop 14 bs)"
    "unat (PacketLen h) = length bs - 14" "14 \<le> length bs" "reads_as (Read h) (drop 14 bs) (as_read p bs)"
    using round_trip [OF assms(1,2)] by blast
  have "reads_as (decode_body h) (drop 14 bs) (C (as_read p bs))"
    using h(2,5) assms(4) [of h] by (simp add: reads_as_rmap)
  then have "reads_as decode_stream bs (C (as_read p bs))"
    using h assms(3) by (intro decode_stream_frame [of bs h]) auto
  then show ?thesis by (simp add: as_read_def)
qed

end

lemma stream_reads_back:
  assumes "ok_Packet p" "Encode p = Ret bs" "length bs \<le> 14 + MaxDecodablePacketLen"
  shows "reads_as decode_stream bs (sent p bs)"
proof (cases p)
  case (PConn q)
  then show ?thesis using assms conn.stream_round_trip [of q bs PConn]
    by (simp add: sent_def decode_body_dispatch)
next
  case (PConnAck q)
  then show ?thesis using assms conn_ack.stream_round_trip [of q bs PConnAck]
    by (simp add: sent_def decode_body_dispatch)
next
  case (PDisConn q)
  then show ?thesis using assms dis_conn.stream_round_trip [of q bs PDisConn]
    by (simp add: sent_def decode_body_dispatch)
next
  case (PDisConnAck q)
  then show ?thesis using assms dis_conn_ack.stream_round_trip [of q bs PDisConnAck]
    by (simp add: sent_def decode_body_dispatch)
next
  case (PHeartbeat q)
  then show ?thesis using assms heartbeat.stream_round_trip [of q bs PHeartbeat]
    by (simp add: sent_def decode_body_dispatch)
next
  case (PHeartbeatAck q)
  then show ?thesis using assms heartbeat_ack.stream_round_trip [of q bs PHeartbeatAck]
    by (simp add: sent_def decode_body_dispatch)
next
  case (PSession q)
  then show ?thesis using assms session.stream_round_trip [of q bs PSession]
    by (simp add: sent_def decode_body_dispatch)
next
  case (PSessionAck q)
  then show ?thesis using assms session_ack.stream_round_trip [of q bs PSessionAck]
    by (simp add: sent_def decode_body_dispatch)
next
  case (PDismiss q)
  then show ?thesis using assms dismiss.stream_round_trip [of q bs PDismiss]
    by (simp add: sent_def decode_body_dispatch)
next
  case (PDismissAck q)
  then show ?thesis using assms dismiss_ack.stream_round_trip [of q bs PDismissAck]
    by (simp add: sent_def decode_body_dispatch)
next
  case (PMessage q)
  then show ?thesis using assms message.stream_round_trip [of q bs PMessage]
    by (simp add: sent_def decode_body_dispatch)
next
  case (PMessageAck q)
  then show ?thesis using assms message_ack.stream_round_trip [of q bs PMessageAck]
    by (simp add: sent_def decode_body_dispatch)
next
  case (PStream q)
  then show ?thesis using assms stream.stream_round_trip [of q bs PStream]
    by (simp add: sent_def decode_body_dispatch)
next
  case (PRegister q)
  then show ?thesis using assms register.stream_round_trip [of q bs PRegister]
    by (simp add: sent_def decode_body_dispatch)
next
  case (PRegisterAck q)
  then show ?thesis using assms register_ack.stream_round_trip [of q bs PRegisterAck]
    by (simp add: sent_def decode_body_dispatch)
next
  case (PRequest q)
  then obtain m where m: "q = Some m" using assms(1) by (cases q) auto
  have "reads_as decode_stream bs (PRequest (Some (wire_MessagePacket (wire_header (mp_hdr m) (drop 14 bs)) m)))"
    using assms PRequest m by (intro message.stream_round_trip) (auto simp: decode_body_dispatch)
  then show ?thesis using PRequest m by (simp add: sent_def)
next
  case (PResponse q)
  then obtain m where m: "q = Some m" using assms(1) by (cases q) auto
  have "reads_as decode_stream bs (PResponse (Some (wire_MessageAckPacket (wire_header (ma_hdr m) (drop 14 bs)) m)))"
    using assms PResponse m by (intro message_ack.stream_round_trip) (auto simp: decode_body_dispatch)
  then show ?thesis using PResponse m by (simp add: sent_def)
next
  case (PRequestCancel q)
  then show ?thesis using assms cancel.stream_round_trip [of q bs PRequestCancel]
    by (simp add: sent_def decode_body_dispatch)
qed

lemmas reader_defs =
  ConnAckPacket_DecodeFromReader_def DisConnPacket_DecodeFromReader_def DisConnAckPacket_DecodeFromReader_def
  HeartbeatPacket_DecodeFromReader_def HeartbeatAckPacket_DecodeFromReader_def
  SessionPacket_DecodeFromReader_def SessionAckPacket_DecodeFromReader_def DismissPacket_DecodeFromReader_def
  DismissAckPacket_DecodeFromReader_def MessagePacket_DecodeFromReader_def MessageAckPacket_DecodeFromReader_def
  StreamPacket_DecodeFromReader_def RegisterPacket_DecodeFromReader_def RegisterAckPacket_DecodeFromReader_def
  RequestCancelPacket_DecodeFromReader_def

lemmas new_defs =
  new_ConnAckPacket_def new_DisConnAckPacket_def new_SessionPacket_def new_SessionAckPacket_def
  new_DismissPacket_def new_DismissAckPacket_def new_MessagePacket_def new_MessageAckPacket_def
  new_StreamPacket_def new_RegisterPacket_def new_RegisterAckPacket_def new_RequestCancelPacket_def

lemma decode_many_reads_back:
  assumes "list_all2 (\<lambda>p bs. ok_Packet p \<and> Encode p = Ret bs \<and> length bs \<le> 14 + MaxDecodablePacketLen) ps bss"
    and "pending r = concat bss @ rest"
  shows "\<exists>as. decode_many (length ps) r = (Ret (map2 sent ps bss), r\<lparr>pending := rest, allocs := allocs r @ as\<rparr>)
    \<and> (\<forall>n \<in> set as. n \<le> 14 + MaxDecodablePacketLen)"
  using assms
proof (induction arbitrary: r rule: list_all2_induct)
  case Nil
  then show ?case by (intro exI [of _ "[]"]) simp
next
  case (Cons p ps bs bss)
  have "reads_as decode_stream bs (sent p bs)" using Cons.hyps(1) by (intro stream_reads_back) simp_all
  then obtain as where as: "decode_stream r = (Ret (sent p bs), r\<lparr>pending := concat bss @ rest, allocs := allocs r @ as\<rparr>)"
    "\<forall>n \<in> set as. n \<le> length bs"
    using Cons.prems unfolding reads_as_def by fastforce
  let ?r = "r\<lparr>pending := concat bss @ rest, allocs := allocs r @ as\<rparr>"
  obtain as' where as': "decode_many (length ps) ?r = (Ret (map2 sent ps bss), ?r\<lparr>pending := rest, allocs := allocs ?r @ as'\<rparr>)"
    "\<forall>n \<in> set as'. n \<le> 14 + MaxDecodablePacketLen"
    using Cons.IH [of ?r] by auto
  show ?case using as as' Cons.hyps(1)
    by (intro exI [of _ "as @ as'"]) (auto simp: rbind_simps)
qed

lemma ok_encodes:
  assumes "ok_Packet p"
  shows "\<exists>bs. Encode p = Ret bs \<and> 14 \<le> length bs"
proof (cases p)
  case (PConn q)
  then show ?thesis using assms conn.encode_Ret [of q] by simp
next
  case (PConnAck q)
  then show ?thesis using assms conn_ack.encode_Ret [of q] by simp
next
  case (PDisConn q)
  then show ?thesis using assms dis_conn.encode_Ret [of q] by simp
next
  case (PDisConnAck q)
  then show ?thesis using assms dis_conn_ack.encode_Ret [of q] by simp
next
  case (PHeartbeat q)
  then show ?thesis using assms heartbeat.encode_Ret [of q] by simp
next
  case (PHeartbeatAck q)
  then show ?thesis using assms heartbeat_ack.encode_Ret [of q] by simp
next
  case (PSession q)
  then show ?thesis using assms session.encode_Ret [of q] by simp
next
  case (PSessionAck q)
  then show ?thesis using assms session_ack.encode_Ret [of q] by simp
next
  case (PDismiss q)
  then show ?thesis using assms dismiss.encode_Ret [of q] by simp
next
  case (PDismissAck q)
  then show ?thesis using assms dismiss_ack.encode_Ret [of q] by simp
next
  case (PMessage q)
  then show ?thesis using assms message.encode_Ret [of q] by simp
next
  case (PMessageAck q)
  then show ?thesis using assms message_ack.encode_Ret [of q] by simp
next
  case (PStream q)
  then show ?thesis using assms stream.encode_Ret [of q] by simp
next
  case (PRequest q)
  then obtain m where "q = Some m" using assms by (cases q) auto
  then show ?thesis using PRequest assms message.encode_Ret [of m] by simp
next
  case (PResponse q)
  then obtain m where "q = Some m" using assms by (cases q) auto
  then show ?thesis using PResponse assms message_ack.encode_Ret [of m] by simp
next
  case (PRequestCancel q)
  then show ?thesis using assms cancel.encode_Ret [of q] by simp
next
  case (PRegister q)
  then show ?thesis using assms register.encode_Ret [of q] by simp
next
  case (PRegisterAck q)
  then show ?thesis using assms register_ack.encode_Ret [of q] by simp
qed

section \<open>Panics\<close>

lemma panics_block:
  "panics (fst (rbind (make_read n) (\<lambda>data. rlift (f data)) r)) \<longleftrightarrow>
     n \<le> length (pending r) \<and> panics (f (take n (pending r)))"
  by (auto simp: rbind_def make_read_def ReadFull_def)

lemma panics_rmap: "panics (fst (rmap C m r)) \<longleftrightarrow> panics (fst (m r))"
  by (cases "m r"; cases "fst (m r)") (auto simp: rmap_def rbind_def)

lemma panics_unmarshal [simp]:
  "\<not> panics (unmarshal_ConnData b)" "\<not> panics (unmarshal_SessionData b)"
  "\<not> panics (unmarshal_MessageData b)" "\<not> panics (unmarshal_RegisterData b)"
  by (simp_all add: unmarshal_ConnData_def unmarshal_SessionData_def unmarshal_MessageData_def
      unmarshal_RegisterData_def unmarshal_def)

lemma panics_fields:
  "panics (ConnAckPacket_fields ca (sl_full d) (length d)) \<longleftrightarrow> length d < 9"
  "panics (DisConnAckPacket_fields da (sl_full d) (length d)) \<longleftrightarrow> length d < 1"
  "panics (SessionPacket_fields sp (sl_full d) (length d)) \<longleftrightarrow> length d < 10"
  "panics (SessionAckPacket_fields sa (sl_full d) (length d)) \<longleftrightarrow> length d < 18"
  "panics (DismissPacket_fields dm (sl_full d) (length d)) \<longleftrightarrow> length d < 8"
  "panics (DismissAckPacket_fields dk (sl_full d) (length d)) \<longleftrightarrow> length d < 8"
  "panics (MessagePacket_fields mp (sl_full d) (length d)) \<longleftrightarrow> length d < 8"
  "panics (MessageAckPacket_fields ma (sl_full d) (length d)) \<longleftrightarrow> length d < 8"
  "panics (StreamPacket_fields st (sl_full d) (length d)) \<longleftrightarrow> length d < 8"
  "panics (RegisterPacket_fields rp (sl_full d) (length d)) \<longleftrightarrow> length d < 8"
  "panics (RegisterAckPacket_fields ra (sl_full d) (length d)) \<longleftrightarrow> length d < 8"
  "panics (RequestCancelPacket_fields rc (sl_full d) (length d)) \<longleftrightarrow> length d < 10"
  by (auto simp: ConnAckPacket_fields_def DisConnAckPacket_fields_def SessionPacket_fields_def
      SessionAckPacket_fields_def DismissPacket_fields_def DismissAckPacket_fields_def
      MessagePacket_fields_def MessageAckPacket_fields_def StreamPacket_fields_def RegisterPacket_fields_def
      RegisterAckPacket_fields_def RequestCancelPacket_fields_def
      panics_obind sl_index_def sl_sub_def Uint64_def Uint16_def id_and_rest_def Suc_le_eq)


text \<open>The payload below which the reader of a type indexes out of range.\<close>

definition min_payload :: "byte \<Rightarrow> nat" where
  "min_payload t =
     (if t = TypeConnAckPacket then 9 else if t = TypeDisConnAckPacket then 1
      else if t = TypeSessionPacket then 10 else if t = TypeSessionAckPacket then 18
      else if t = TypeDismissPacket \<or> t = TypeDismissAckPacket then 8
      else if t = TypeRequestCancelPacket then 10 else 0)"

lemma unmarshal_not_Panic [simp]: "unmarshal_ConnData b \<noteq> Panic e"
  using panics_unmarshal(1) [of b] by (cases "unmarshal_ConnData b") (auto simp del: panics_unmarshal)

lemma ConnPacket_no_panic: "\<not> panics (fst (ConnPacket_DecodeFromReader p r))"
  by (auto simp: ConnPacket_DecodeFromReader_def rbind_def make_read_def ReadFull_def sl_index_def Uint64_def
      split: outcome.split prod.split)

lemma panics_DisConnAck_nil [simp]: "panics (DisConnAckPacket_fields p (sl_full []) 0)"
  using panics_fields(2) [of p "[]"] by simp

lemma decode_body_panics:
  "panics (fst (decode_body h r)) \<longleftrightarrow>
     unat (PacketLen h) \<le> length (pending r) \<and> unat (PacketLen h) < min_payload (Typ h)
     \<and> (Typ h = TypeRequestCancelPacket \<longrightarrow> 8 \<le> unat (PacketLen h))"
proof -
  have f: "n \<le> length (pending r) \<Longrightarrow> length (take n (pending r)) = n" for n by simp
  have pf: "n \<le> length (pending r) \<Longrightarrow>
    panics (ConnAckPacket_fields ca (sl_full (take n (pending r))) n) = (n < 9)
    \<and> panics (DisConnAckPacket_fields da (sl_full (take n (pending r))) n) = (n < 1)
    \<and> panics (SessionPacket_fields sp (sl_full (take n (pending r))) n) = (n < 10)
    \<and> panics (SessionAckPacket_fields sa (sl_full (take n (pending r))) n) = (n < 18)
    \<and> panics (DismissPacket_fields dm (sl_full (take n (pending r))) n) = (n < 8)
    \<and> panics (DismissAckPacket_fields dk (sl_full (take n (pending r))) n) = (n < 8)
    \<and> panics (MessagePacket_fields mp (sl_full (take n (pending r))) n) = (n < 8)
    \<and> panics (MessageAckPacket_fields ma (sl_full (take n (pending r))) n) = (n < 8)
    \<and> panics (StreamPacket_fields st (sl_full (take n (pending r))) n) = (n < 8)
    \<and> panics (RegisterPacket_fields rp (sl_full (take n (pending r))) n) = (n < 8)
    \<and> panics (RegisterAckPacket_fields ra (sl_full (take n (pending r))) n) = (n < 8)
    \<and> panics (RequestCancelPacket_fields rc (sl_full (take n (pending r))) n) = (n < 10)"
    for n ca da sp sa dm dk mp ma st rp ra rc
    using panics_fields [where d = "take n (pending r)"] by (metis f)
  show ?thesis
    unfolding decode_body_def
    by (auto simp: panics_rmap ConnPacket_no_panic min_payload_def type_defs Let_def panics_block pf reader_defs new_defs)
qed
section \<open>The stream reader in terms of its input\<close>

definition header_of :: "bytes \<Rightarrow> PacketHeader" where
  "header_of bs =
     \<lparr>Version = bs ! 0, Typ = bs ! 1, PacketID = get_be (take 8 (drop 2 bs)),
      PacketLen = get_be (take 4 (drop 10 bs)), Cnss = 0\<rparr>"

lemma decode_stream_short:
  "length (pending r) < 14 \<Longrightarrow>
   decode_stream r = (Fail (if pending r \<noteq> [] \<and> ending r = EOF then ErrUnexpectedEOF else ending r),
     r\<lparr>pending := [], allocs := allocs r @ [14]\<rparr>)"
  by (auto simp: decode_stream_def PacketHeader_DecodeFromReader_def rbind_def make_read_def ReadFull_def)

lemma decode_stream_header:
  assumes "14 \<le> length (pending r)"
  shows "decode_stream r =
     (let h = header_of (pending r); r' = r\<lparr>pending := drop 14 (pending r), allocs := allocs r @ [14]\<rparr>
      in if MaxDecodablePacketLen < unat (PacketLen h) then (Fail ErrPacketTooLarge, r') else decode_body h r')"
proof -
  have "make_read 14 r = (Ret (take 14 (pending r)), r\<lparr>pending := drop 14 (pending r), allocs := allocs r @ [14]\<rparr>)"
    using assms by (simp add: make_read_def ReadFull_def)
  moreover have "PacketHeader_fields new_PacketHeader (sl_full (take 14 (pending r))) = Ret (header_of (pending r))"
    using assms
    by (simp add: PacketHeader_fields_def sl_index_def sl_sub_Ret Uint64_def Uint32_def header_of_def
        new_PacketHeader_def min_def take_drop)
  ultimately show ?thesis
    by (simp add: decode_stream_def PacketHeader_DecodeFromReader_def rbind_def Let_def)
qed

section \<open>Allocations\<close>

lemma allocs_block [simp]:
  "allocs (snd (rbind (make_read n) (\<lambda>data. rlift (f data)) r)) = allocs r @ [n]"
  by (auto simp: rbind_def make_read_def ReadFull_def split: outcome.split)

lemma allocs_rmap [simp]: "allocs (snd (rmap C m r)) = allocs (snd (m r))"
  by (cases "m r"; cases "fst (m r)") (auto simp: rmap_def rbind_def)

lemma ConnPacket_allocs:
  "\<exists>as. allocs (snd (ConnPacket_DecodeFromReader p r)) = allocs r @ as
     \<and> set as \<subseteq> {2, 8, unat (PacketLen (cp_hdr p) - 10)}"
  by (auto simp: ConnPacket_DecodeFromReader_def rbind_def make_read_def ReadFull_def sl_index_def Uint64_def
      split: outcome.split prod.split)

lemma decode_body_allocs:
  assumes "\<not> (Typ h = TypeConnPacket \<and> unat (PacketLen h) < 10)"
  shows "\<exists>as. allocs (snd (decode_body h r)) = allocs r @ as \<and> (\<forall>n \<in> set as. n \<le> unat (PacketLen h))"
proof (cases "Typ h = TypeConnPacket")
  case True
  then have l: "10 \<le> unat (PacketLen h)" using assms by simp
  then have u: "unat (PacketLen h - 10) \<le> unat (PacketLen h)" by (subst unat_sub) (auto simp: word_le_nat_alt)
  show ?thesis
    using ConnPacket_allocs [of "new_ConnPacket h" r] True l u
    by (fastforce simp: decode_body_dispatch new_ConnPacket_def)
next
  case False
  then show ?thesis unfolding decode_body_def
    by (auto simp: Let_def reader_defs new_defs)
qed

section \<open>Writing a packet\<close>

text \<open>
  One step of a writer that takes at least one byte whenever it reports no error, and appends
  what it takes to its sink.
\<close>

lemma write_loop_ok:
  fixes Write :: "'w \<Rightarrow> bytes \<Rightarrow> nat \<times> go_error option \<times> 'w" and sink :: "'w \<Rightarrow> bytes"
  assumes w: "\<And>w d m w'. d \<noteq> [] \<Longrightarrow> Write w d = (m, None, w') \<Longrightarrow> 0 < m \<and> m \<le> length d \<and> sink w' = sink w @ take m d"
    and e: "\<And>w d. fst (snd (Write w d)) = None"
    and "pos < length data"
  shows "\<exists>w'. write_loop Write data pos w = Some (Ret (), w') \<and> sink w' = sink w @ drop pos data"
  using assms(3)
proof (induction "length data - pos" arbitrary: pos w rule: less_induct)
  case less
  obtain m w' where wr: "Write w (drop pos data) = (m, None, w')"
    using e [of w "drop pos data"] by (cases "Write w (drop pos data)") auto
  have m: "0 < m" "m \<le> length data - pos" "sink w' = sink w @ take m (drop pos data)"
    using w [OF _ wr] less.prems by auto
  show ?case
  proof (cases "pos + m = length data")
    case True
    then show ?thesis using wr m less.prems by (subst write_loop.simps) auto
  next
    case False
    then have "pos + m < length data" "length data - (pos + m) < length data - pos"
      using m less.prems by linarith+
    then obtain w2 where w2: "write_loop Write data (pos + m) w' = Some (Ret (), w2)"
      "sink w2 = sink w' @ drop (pos + m) data"
      using less.hyps [of "pos + m" w'] by blast
    have "take m (drop pos data) @ drop (pos + m) data = drop pos data"
      by (metis add.commute append_take_drop_id drop_drop)
    then show ?thesis using w2 wr m less.prems False by (subst write_loop.simps) auto
  qed
qed

lemma write_loop_contract:
  assumes  "Write w data = (m, err, w')" "err = None \<Longrightarrow> m = length data"
  shows "write_loop Write data 0 w = Some (case err of None \<Rightarrow> Ret () | Some e \<Rightarrow> Fail e, w')"
  using assms by (subst write_loop.simps) (auto split: option.split)

section \<open>Properties\<close>


definition example_header :: "byte \<Rightarrow> u64 \<Rightarrow> PacketHeader" where
  "example_header t i = \<lparr>Version = V01, Typ = t, PacketID = i, PacketLen = 0, Cnss = 0\<rparr>"

definition example_packets :: "Packet list" where
  "example_packets =
     [PHeartbeat \<lparr>hb_hdr = example_header TypeHeartbeatPacket 3\<rparr>,
      PStream \<lparr>st_hdr = example_header TypeStreamPacket 5, st_sessionID = 1, st_Data = [1, 2, 3], st_clientID = 0\<rparr>,
      PConnAck \<lparr>ca_hdr = example_header TypeConnAckPacket 7, ca_RetCode = 0, ca_ClientID = 9,
        ca_ConnData = Some \<lparr>cd_Meta = [10, 11], cd_Error = lit ''no''\<rparr>\<rparr>]"

definition example_frames :: "bytes list" where
  "example_frames = map (\<lambda>p. case Encode p of Ret bs \<Rightarrow> bs | _ \<Rightarrow> []) example_packets"

lemma example_packets_ok:
  "list_all2 (\<lambda>p bs. ok_Packet p \<and> Encode p = Ret bs \<and> length bs \<le> 14 + MaxDecodablePacketLen)
     example_packets example_frames"
proof -
  have e: "map Encode example_packets = map Ret example_frames" by code_simp
  have o: "list_all ok_Packet example_packets"
    by (simp add: example_packets_def example_header_def type_defs ok_ConnData_def lit_def)
  have "list_all (\<lambda>bs. length bs \<le> 100) example_frames" by code_simp
  then have l: "list_all (\<lambda>bs. length bs \<le> 14 + MaxDecodablePacketLen) example_frames"
    by (auto simp: list_all_iff MaxDecodablePacketLen_def)
  show ?thesis using e o l
    by (auto simp: list_all2_conv_all_nth list_all_length dest: map_eq_imp_length_eq)
      (metis length_map nth_map)
qed


text \<open>
  C31. The stream reader panics on exactly these inputs: a complete packet whose declared payload
  is within the limit but shorter than the fixed fields its type reads without checking (and, for
  a request cancellation, 8 or 9 bytes, shorter payloads being refused with an error). No other
  input panics.
\<close>

theorem decode_stream_panics_iff:
  "panics (fst (decode_stream r)) \<longleftrightarrow>
     14 \<le> length (pending r) \<and>
     (let h = header_of (pending r); len = unat (PacketLen h) in
      len \<le> MaxDecodablePacketLen \<and> 14 + len \<le> length (pending r) \<and> len < min_payload (Typ h)
      \<and> \<not> (Typ h = TypeRequestCancelPacket \<and> len < 8))"
proof (cases "14 \<le> length (pending r)")
  case True
  then show ?thesis
    by (auto simp: decode_stream_header Let_def decode_body_panics)
next
  case False
  then show ?thesis by (simp add: decode_stream_short)
qed

text \<open>
  C32. Reading one packet allocates 14 bytes for the header and, unless the packet is a conn
  packet that declares fewer than 10 payload bytes, no buffer larger than the declared payload
  length nor than \<open>MaxDecodablePacketLen\<close>.
\<close>

theorem decode_stream_alloc_bound:
  assumes "14 \<le> length (pending r)"
    and "\<not> (Typ (header_of (pending r)) = TypeConnPacket \<and> unat (PacketLen (header_of (pending r))) < 10)"
  shows "\<exists>as. allocs (snd (decode_stream r)) = allocs r @ 14 # as
    \<and> (\<forall>n \<in> set as. n \<le> unat (PacketLen (header_of (pending r))) \<and> n \<le> MaxDecodablePacketLen)"
proof (cases "MaxDecodablePacketLen < unat (PacketLen (header_of (pending r)))")
  case True
  then show ?thesis using assms(1) by (simp add: decode_stream_header Let_def)
next
  case False
  let ?r = "r\<lparr>pending := drop 14 (pending r), allocs := allocs r @ [14]\<rparr>"
  obtain as where "allocs (snd (decode_body (header_of (pending r)) ?r)) = allocs ?r @ as"
    "\<forall>n \<in> set as. n \<le> unat (PacketLen (header_of (pending r)))"
    using decode_body_allocs [OF assms(2)] by blast
  then show ?thesis using False assms(1)
    by (intro exI [of _ as]) (auto simp: decode_stream_header Let_def)
qed

theorem decode_stream_alloc_bound_witness:
  "\<exists>as. allocs (snd (decode_stream (rd_of (example_frames ! 1)))) = 14 # as
     \<and> (\<forall>n \<in> set as. n \<le> MaxDecodablePacketLen)"
proof -
  have l: "14 \<le> length (pending (rd_of (example_frames ! 1)))" by code_simp
  have t: "\<not> (Typ (header_of (pending (rd_of (example_frames ! 1)))) = TypeConnPacket
      \<and> unat (PacketLen (header_of (pending (rd_of (example_frames ! 1))))) < 10)"
    by code_simp
  show ?thesis using decode_stream_alloc_bound [OF l t] by (auto simp: rd_of_def)
qed

text \<open>
  A packet that declares more than \<open>MaxDecodablePacketLen\<close> bytes is refused with
  \<open>ErrPacketTooLarge\<close> after its header, before any payload is allocated or read.
\<close>

theorem oversized_refused:
  assumes "14 \<le> length (pending r)" "MaxDecodablePacketLen < unat (PacketLen (header_of (pending r)))"
  shows "decode_stream r
    = (Fail ErrPacketTooLarge, r\<lparr>pending := drop 14 (pending r), allocs := allocs r @ [14]\<rparr>)"
  using assms by (simp add: decode_stream_header)

theorem oversized_refused_witness:
  "fst (decode_stream (rd_of [1, 0x51, 0, 0, 0, 0, 0, 0, 0, 1, 0xFF, 0, 0, 0])) = Fail ErrPacketTooLarge"
proof -
  let ?r = "rd_of [1, 0x51, 0, 0, 0, 0, 0, 0, 0, 1, 0xFF, 0, 0, 0]"
  have "PacketLen (header_of (pending ?r)) = 0xFF000000" by code_simp
  then have "14 \<le> length (pending ?r)" "MaxDecodablePacketLen < unat (PacketLen (header_of (pending ?r)))"
    by (simp_all add: rd_of_def MaxDecodablePacketLen_def)
  then show ?thesis using oversized_refused [of ?r] by simp
qed

text \<open>
  The limit does not cover short conn packets: a header that declares no payload, followed by
  ten bytes, makes the reader allocate \<open>2 ^ 32 - 10\<close> bytes, because the remaining length is
  computed in 32 bits.
\<close>

theorem conn_packet_length_underflow:
  assumes "14 + 10 \<le> length (pending r)" "Typ (header_of (pending r)) = TypeConnPacket"
    "PacketLen (header_of (pending r)) = 0"
  shows "2 ^ 32 - 10 \<in> set (allocs (snd (decode_stream r)))"
proof -
  have u: "unat (- 10 :: u32) = 2 ^ 32 - 10" by simp
  have "length (drop 14 (pending r)) \<ge> 10" using assms(1) by simp
  then show ?thesis using assms
    by (auto simp: decode_stream_header Let_def decode_body_dispatch ConnPacket_DecodeFromReader_def
        new_ConnPacket_def rbind_def make_read_def ReadFull_def sl_index_def Uint64_def MaxDecodablePacketLen_def
        split: outcome.split prod.split)
qed

theorem conn_packet_length_underflow_witness:
  "2 ^ 32 - 10 \<in> set (allocs (snd (decode_stream
     (rd_of ([1, 1, 0, 0, 0, 0, 0, 0, 0, 1, 0, 0, 0, 0] @ replicate 10 0)))))"
proof -
  let ?r = "rd_of ([1, 1, 0, 0, 0, 0, 0, 0, 0, 1, 0, 0, 0, 0] @ replicate 10 0)"
  have "14 + 10 \<le> length (pending ?r)" "Typ (header_of (pending ?r)) = TypeConnPacket"
    "PacketLen (header_of (pending ?r)) = 0"
    by code_simp+
  then show ?thesis by (rule conn_packet_length_underflow)
qed

text \<open>
  C37. \<open>EncodeToWriter\<close> hands over exactly the packet's bytes and returns: over any connection
  whose \<open>Write\<close> takes at least one byte whenever it reports no error, as many as it likes, the
  loop ends and the sink has grown by the whole encoding.
\<close>

theorem EncodeToWriter_complete:
  fixes Write :: "'w \<Rightarrow> bytes \<Rightarrow> nat \<times> go_error option \<times> 'w" and sink :: "'w \<Rightarrow> bytes"
  assumes progress: "\<And>w d m w'. d \<noteq> [] \<Longrightarrow> Write w d = (m, None, w') \<Longrightarrow>
      0 < m \<and> m \<le> length d \<and> sink w' = sink w @ take m d"
    and no_error: "\<And>w d. fst (snd (Write w d)) = None"
    and "ok_Packet p"
  shows "\<exists>w' bs. EncodeToWriter Write p w = Some (Ret (), w') \<and> Encode p = Ret bs \<and> sink w' = sink w @ bs"
proof -
  obtain bs where bs: "Encode p = Ret bs" "14 \<le> length bs" using ok_encodes [OF assms(3)] by blast
  then have "0 < length bs" by linarith
  then show ?thesis
    using write_loop_ok [where sink = sink and pos = 0 and data = bs and w = w, OF progress no_error] bs
    by (auto simp: EncodeToWriter_def)
qed

theorem EncodeToWriter_complete_witness:
  "\<exists>w' bs. EncodeToWriter (\<lambda>w d. (min 2 (length d), None, w @ take 2 d)) (example_packets ! 0) [] = Some (Ret (), w')
     \<and> Encode (example_packets ! 0) = Ret bs \<and> w' = bs"
proof -
  let ?W = "\<lambda>w d. (min 2 (length d), None, w @ take 2 d)"
  have ok: "ok_Packet (example_packets ! 0)"
    using list_all2_nthD [OF example_packets_ok, of 0] by (simp add: example_packets_def)
  have "0 < m \<and> m \<le> length d \<and> w' = w @ take m d" if "d \<noteq> []" "?W w d = (m, None, w')" for w d m w'
    using that by (auto simp: min_def)
  then show ?thesis
    using EncodeToWriter_complete [where sink = "\<lambda>w. w" and Write = ?W and w = "[]", OF _ _ ok] by force
qed

text \<open>
  Over a connection that keeps the contract of \<open>io.Writer\<close> (an error whenever fewer bytes
  are taken than offered), one \<open>Write\<close> of the whole packet is made and its error, if any, is the
  result.
\<close>

theorem EncodeToWriter_contract:
  fixes Write :: "'w \<Rightarrow> bytes \<Rightarrow> nat \<times> go_error option \<times> 'w"
  assumes contract: "\<And>w d m w'. Write w d = (m, None, w') \<Longrightarrow> m = length d"
    and "Encode p = Ret bs"
  shows "EncodeToWriter Write p w
    = Some (case Write w bs of (m, err, w') \<Rightarrow> (case err of None \<Rightarrow> Ret () | Some e \<Rightarrow> Fail e, w'))"
  using write_loop_contract [of Write w bs] contract [of w bs] assms(2)
  by (auto simp: EncodeToWriter_def split: prod.split)

theorem EncodeToWriter_contract_witness:
  "EncodeToWriter (\<lambda>w d. (length d, None, w @ d)) (example_packets ! 0) [] = Some (Ret (), example_frames ! 0)"
proof -
  have "Encode (example_packets ! 0) = Ret (example_frames ! 0)" by code_simp
  then show ?thesis
    using EncodeToWriter_contract [of "\<lambda>w d. (length d, None, w @ d)" "example_packets ! 0" "example_frames ! 0" "[]"]
    by simp
qed

text \<open>
  \<open>Decode\<close> on a slice cannot decode requests or responses: on any complete one it assigns
  through the nil pointer the empty struct embeds and panics, where \<open>DecodeFromReader\<close> decodes.
\<close>

theorem Decode_request_panics:
  assumes "sl_wf data" "14 + unat (PacketLen (header_of (sl_bytes data))) \<le> slen data" "slen data < 2 ^ 32"
    and "Typ (header_of (sl_bytes data)) \<in> {TypeRequestPacket, TypeResponsePacket}"
  shows "Decode data = Panic NilDereference"
proof -
  obtain b n where d: "data = \<lparr>backing = b, slen = n\<rparr>" by (cases data)
  have n: "14 \<le> n" "n \<le> length b" using assms(1,2) d by (simp_all add: sl_wf_def)
  have h: "PacketHeader_fields new_PacketHeader data = Ret (header_of (sl_bytes data))"
    using n d by (simp add: PacketHeader_fields_def sl_index_def sl_sub_Ret Uint64_def Uint32_def header_of_def
        new_PacketHeader_def min_def take_drop sl_bytes_def)
  have "unat (of_nat (n - 14) :: u32) = n - 14" using assms(3) d by (simp add: unat_of_nat del: of_nat_diff)
  then have "\<not> (of_nat (n - 14) :: u32) < PacketLen (header_of (sl_bytes data))"
    using assms(2) d n by (simp add: word_less_nat_alt del: of_nat_diff)
  then show ?thesis using h n d assms(4)
    by (auto simp: Decode_def PacketHeader_Decode_def sl_from_def sl_sub_Ret type_defs)
qed

theorem Decode_request_panics_witness:
  "Decode (sl_full [1, 0x71, 0, 0, 0, 0, 0, 0, 0, 1, 0, 0, 0, 0]) = Panic NilDereference"
proof -
  let ?d = "sl_full [1, 0x71, 0, 0, 0, 0, 0, 0, 0, 1, 0, 0, 0, 0]"
  have "PacketLen (header_of (sl_bytes ?d)) = 0" "Typ (header_of (sl_bytes ?d)) = TypeRequestPacket"
    by code_simp+
  then show ?thesis by (intro Decode_request_panics) simp_all
qed

end
