(* ===== verification/Id_Counter.thy ===== *)
theory Id_Counter
  imports Geminio_Prelude
begin

unbundle bit_operations_syntax

text \<open>
  The ID counter (\<open>pkg/id/id.go\<close>) that hands out packet, client and session ids. The clock and
  the random source are arguments. \<open>id_pool\<close> is the contract of an allocator of live ids, with
  the lemma that ids in use never coincide; the counter's \<open>Unique\<close> mode is an instance.
\<close>

section \<open>State and operations\<close>

datatype Mode = Even | Odd | Unique | Inc | OtherMode string

text \<open>\<open>ids = None\<close> is the nil map that \<open>Close\<close> leaves.\<close>

record IDCounter =
  counter :: u32
  once_done :: bool
  ids :: "u64 set option"
  mode :: Mode

text \<open>\<open>randomUint32\<close> on the four bytes read from \<open>rand.Reader\<close>, or on a read error.\<close>

definition randomUint32 :: "(byte \<times> byte \<times> byte \<times> byte) option \<Rightarrow> u32" where
  "randomUint32 src =
     (case src of
        None \<Rightarrow> 0
      | Some (b0, b1, b2, b3) \<Rightarrow>
          (let b0' = b0 OR 0x00 in
           ucast b0' OR push_bit 8 (ucast b1) OR push_bit 16 (ucast b2) OR push_bit 24 (ucast b3)))"

definition NewIDCounter :: "Mode \<Rightarrow> (byte \<times> byte \<times> byte \<times> byte) option \<Rightarrow> IDCounter" where
  "NewIDCounter m src =
     (let c = \<lparr>counter = 0, once_done = False, ids = Some {}, mode = m\<rparr> in
      if m = Even \<or> m = Odd \<or> m = Inc then c\<lparr>counter := randomUint32 src\<rparr> else c)"

definition ReserveID :: "u64 \<Rightarrow> IDCounter \<Rightarrow> IDCounter outcome" where
  "ReserveID i c =
     (case ids c of None \<Rightarrow> Panic NilMapWrite | Some S \<Rightarrow> Ret (c\<lparr>ids := Some (insert i S)\<rparr>))"

text \<open>The scan of \<open>Unique\<close>: from 1 up to, but not including, \<open>math.MaxUint64\<close>.\<close>

function scan_free :: "u64 set \<Rightarrow> u64 \<Rightarrow> u64 option" where
  "scan_free S i =
     (if i < - 1 then (if i \<in> S then scan_free S (i + 1) else Some i) else None)"
  by pat_completeness auto

lemma unat_succ_below_max: "(i :: u64) < - 1 \<Longrightarrow> unat (i + 1) = Suc (unat i)"
proof -
  assume "i < - 1"
  then have "i + 1 \<noteq> 0" by (metis add.right_neutral add_diff_cancel_right' diff_0 order_less_irrefl)
  then show ?thesis by (simp add: unatSuc add.commute)
qed

lemma unat_u64: "unat (i :: u64) < 2 ^ 64"
  using unsigned_less [of i] by simp

termination scan_free
proof (relation "measure (\<lambda>(S, i). 2 ^ 64 - unat i)")
  fix S :: "u64 set" and i :: u64
  assume "i < - 1"
  then show "((S, i + 1), (S, i)) \<in> measure (\<lambda>(S, i). 2 ^ 64 - unat i)"
    using unat_succ_below_max [of i] unat_u64 [of i] by simp
qed simp

declare scan_free.simps [simp del]

text \<open>\<open>uint64(time.Now().Unix()<<32)\<close>.\<close>

definition time_part :: "int \<Rightarrow> u64" where
  "time_part now = push_bit 32 (word_of_int now)"

definition GetID :: "int \<Rightarrow> IDCounter \<Rightarrow> (u64 \<times> IDCounter) outcome" where
  "GetID now c =
     (case mode c of
        Even \<Rightarrow> (let n = counter c + 2 in Ret (time_part now + ucast n, c\<lparr>counter := n\<rparr>))
      | Odd \<Rightarrow>
          (let c1 = (if once_done c then c else c\<lparr>once_done := True, counter := counter c + 1\<rparr>);
               n = counter c1 + 2
           in Ret (time_part now + ucast n, c1\<lparr>counter := n\<rparr>))
      | Inc \<Rightarrow> (let n = counter c + 1 in Ret (time_part now + ucast n, c\<lparr>counter := n\<rparr>))
      | Unique \<Rightarrow>
          (case scan_free (case ids c of None \<Rightarrow> {} | Some S \<Rightarrow> S) 1 of
             None \<Rightarrow> Ret (0, c)
           | Some i \<Rightarrow>
               (case ids c of None \<Rightarrow> Panic NilMapWrite
                | Some S \<Rightarrow> Ret (i, c\<lparr>ids := Some (insert i S)\<rparr>)))
      | OtherMode _ \<Rightarrow> Ret (0, c))"

definition GetIDByMeta :: "int \<Rightarrow> bytes \<Rightarrow> IDCounter \<Rightarrow> (u64 \<times> IDCounter) outcome" where
  "GetIDByMeta now meta c = GetID now c"

definition DelID :: "u64 \<Rightarrow> IDCounter \<Rightarrow> IDCounter" where
  "DelID i c = (if mode c = Unique then c\<lparr>ids := map_option (\<lambda>S. S - {i}) (ids c)\<rparr> else c)"

definition Close_IDCounter :: "IDCounter \<Rightarrow> IDCounter" where
  "Close_IDCounter c = c\<lparr>ids := None\<rparr>"

text \<open>Successive calls, one at each clock reading.\<close>

fun GetIDs :: "int list \<Rightarrow> IDCounter \<Rightarrow> (u64 list \<times> IDCounter) outcome" where
  "GetIDs [] c = Ret ([], c)"
| "GetIDs (now # ts) c =
     obind (GetID now c) (\<lambda>(i, c'). obind (GetIDs ts c') (\<lambda>(js, c''). Ret (i # js, c'')))"

section \<open>Counting modes\<close>

text \<open>The step of a counting mode, and the counter its first call starts from.\<close>

definition step :: "Mode \<Rightarrow> u32" where
  "step m = (if m = Inc then 1 else 2)"

definition start :: "IDCounter \<Rightarrow> u32" where
  "start c = (if mode c = Odd \<and> \<not> once_done c then counter c + 1 else counter c)"

definition counting :: "Mode \<Rightarrow> bool" where
  "counting m \<longleftrightarrow> m = Even \<or> m = Odd \<or> m = Inc"

lemma GetID_counting:
  assumes "counting (mode c)"
  shows "\<exists>c'. GetID now c = Ret (time_part now + ucast (start c + step (mode c)), c')
    \<and> mode c' = mode c \<and> start c' = start c + step (mode c)"
proof -
  consider "mode c = Even" | "mode c = Odd" "once_done c" | "mode c = Odd" "\<not> once_done c" | "mode c = Inc"
    using assms by (auto simp: counting_def)
  then show ?thesis
    by cases (simp_all add: GetID_def start_def step_def Let_def)
qed

lemma low_word: "(ucast (time_part now + ucast (n :: u32)) :: u32) = n"
proof -
  have "time_part now + ucast n = time_part now OR (ucast n :: u64)"
    by (rule disjunctive_add) (auto simp: time_part_def bit_simps dest: bit_imp_le_length)
  then show ?thesis
    by (simp add: time_part_def) (rule bit_word_eqI, auto simp: bit_simps)
qed

text \<open>Whatever the clock does, the low halves of successive ids count from the start.\<close>

lemma GetIDs_counting:
  assumes "counting (mode c)"
  shows "\<exists>js c'. GetIDs ts c = Ret (js, c')
    \<and> map ucast js = map (\<lambda>k. start c + of_nat (Suc k) * step (mode c)) [0..<length ts]"
  using assms
proof (induction ts arbitrary: c)
  case (Cons now ts)
  obtain c1 where c1: "GetID now c = Ret (time_part now + ucast (start c + step (mode c)), c1)"
    "mode c1 = mode c" "start c1 = start c + step (mode c)"
    using GetID_counting [OF Cons.prems] by blast
  obtain js c2 where "GetIDs ts c1 = Ret (js, c2)"
    "map ucast js = map (\<lambda>k. start c1 + of_nat (Suc k) * step (mode c1)) [0..<length ts]"
    using Cons.IH [of c1] Cons.prems c1(2) by auto
  then show ?case using c1
    by (auto simp: low_word upt_conv_Cons map_Suc_upt [symmetric] algebra_simps simp del: upt_Suc)
qed simp

lemma of_nat_u32_eq: "a < 2 ^ 32 \<Longrightarrow> b < 2 ^ 32 \<Longrightarrow> (of_nat a :: u32) = of_nat b \<longleftrightarrow> a = b"
  by (simp add: word_of_nat_eq_iff take_bit_nat_eq_self)

text \<open>A counting mode runs through \<open>2 ^ 31\<close> ids, and \<open>Inc\<close> through \<open>2 ^ 32\<close>, before one comes back.\<close>

definition period :: "Mode \<Rightarrow> nat" where
  "period m = (if m = Inc then 2 ^ 32 else 2 ^ 31)"

lemma distinct_counting:
  assumes "n \<le> period m"
  shows "distinct (map (\<lambda>k. (x :: u32) + of_nat (Suc k) * step m) [0..<n])"
proof -
  have "k = l" if "k < n" "l < n" "x + of_nat (Suc k) * step m = x + of_nat (Suc l) * step m" for k l
  proof (cases "m = Inc")
    case True
    then have "(of_nat k :: u32) = of_nat l" using that(3) by (simp add: step_def)
    moreover have "k < 2 ^ 32" "l < 2 ^ 32" using that assms True by (simp_all add: period_def)
    ultimately show ?thesis using of_nat_u32_eq by blast
  next
    case False
    have "(of_nat (2 * k) :: u32) = of_nat (2 * l)"
      using that(3) False by (simp add: step_def algebra_simps)
    moreover have "2 * k < 2 ^ 32" "2 * l < 2 ^ 32" using that assms False by (simp_all add: period_def)
    ultimately show ?thesis using of_nat_u32_eq [of "2 * k" "2 * l"] by simp
  qed
  then show ?thesis by (auto simp: distinct_map inj_on_def)
qed

lemma GetIDs_distinct:
  assumes "counting (mode c)" "length ts \<le> period (mode c)" "GetIDs ts c = Ret (js, c')"
  shows "distinct js"
proof -
  have "map (ucast :: u64 \<Rightarrow> u32) js = map (\<lambda>k. start c + of_nat (Suc k) * step (mode c)) [0..<length ts]"
    using GetIDs_counting [OF assms(1), of ts] assms(3) by auto
  then have "distinct (map (ucast :: u64 \<Rightarrow> u32) js)" using distinct_counting [OF assms(2)] by simp
  then show ?thesis by (simp add: distinct_map)
qed

text \<open>Parity: ids of the counting modes \<open>Even\<close> and \<open>Odd\<close> share the parity of the start.\<close>

lemma odd_low_word: "odd (i :: u64) \<longleftrightarrow> odd (ucast i :: u32)"
proof -
  have "bit i 0 \<longleftrightarrow> bit (ucast i :: u32) 0" by (simp add: bit_simps)
  then show ?thesis by (simp only: bit_0)
qed

lemma GetIDs_parity:
  assumes "mode c = Even \<or> mode c = Odd" "GetIDs ts c = Ret (js, c')" "i \<in> set js"
  shows "even i \<longleftrightarrow> even (start c)"
proof -
  have "counting (mode c)" using assms(1) by (auto simp: counting_def)
  then have m: "map (ucast :: u64 \<Rightarrow> u32) js = map (\<lambda>k. start c + of_nat (Suc k) * step (mode c)) [0..<length ts]"
    using GetIDs_counting [of c ts] assms(2) by auto
  have "(ucast i :: u32) \<in> set (map ucast js)" using assms(3) by simp
  then obtain k where "(ucast i :: u32) = start c + of_nat (Suc k) * 2"
    unfolding m using assms(1) by (auto simp: step_def)
  then show ?thesis using odd_low_word [of i] by simp
qed

section \<open>Unique mode\<close>

lemma unat_eq_iff_u64: "unat (k :: u64) = unat i \<longleftrightarrow> k = i"
  by (simp add: word_unat_eq_iff)

lemma scan_free_spec:
  assumes "scan_free S i = Some j"
  shows "i \<le> j \<and> j \<notin> S \<and> j < - 1 \<and> (\<forall>k. i \<le> k \<and> k < j \<longrightarrow> k \<in> S)"
  using assms
proof (induction S i rule: scan_free.induct)
  case (1 S i)
  have l: "i < - 1" using 1(2) by (subst (asm) scan_free.simps) (auto split: if_splits)
  show ?case
  proof (cases "i \<in> S")
    case True
    then have r: "scan_free S (i + 1) = Some j" using 1(2) l by (subst (asm) scan_free.simps) simp
    have u: "unat (i + 1) = Suc (unat i)" using l by (rule unat_succ_below_max)
    have "i + 1 \<le> k" if "i \<le> k" "k \<noteq> i" for k
      using that u unat_eq_iff_u64 [of k i] by (simp add: word_le_nat_alt)
    then have "k \<in> S" if "i \<le> k" "k < j" for k
      using that True 1(1) [OF l True r] by (cases "k = i") auto
    then show ?thesis using 1(1) [OF l True r] u by (auto simp: word_le_nat_alt)
  next
    case False
    then have "j = i" using 1(2) l by (subst (asm) scan_free.simps) simp
    then show ?thesis using False l by auto
  qed
qed

lemma scan_free_None:
  assumes "scan_free S i = None" "i \<le> k" "k < - 1"
  shows "k \<in> S"
  using assms
proof (induction S i rule: scan_free.induct)
  case (1 S i)
  have l: "i < - 1" using 1(3,4) by simp
  have s: "i \<in> S" using 1(2) l by (subst (asm) scan_free.simps) (auto split: if_splits)
  then have r: "scan_free S (i + 1) = None" using 1(2) l by (subst (asm) scan_free.simps) simp
  have u: "unat (i + 1) = Suc (unat i)" using l by (rule unat_succ_below_max)
  show ?case
  proof (cases "k = i")
    case False
    then have "i + 1 \<le> k" using 1(3) u by (simp add: word_le_nat_alt word_unat_eq_iff)
    then show ?thesis using 1(1) [OF l s r] 1(4) by simp
  qed (use s in simp)
qed

text \<open>An open \<open>Unique\<close> counter that can still hand out an id.\<close>

definition has_room :: "IDCounter \<Rightarrow> bool" where
  "has_room c \<longleftrightarrow> mode c = Unique \<and> (case ids c of None \<Rightarrow> False | Some S \<Rightarrow> scan_free S 1 \<noteq> None)"

definition live :: "IDCounter \<Rightarrow> u64 set" where
  "live c = (case ids c of None \<Rightarrow> {} | Some S \<Rightarrow> S)"

definition open_unique :: "IDCounter \<Rightarrow> bool" where
  "open_unique c \<longleftrightarrow> mode c = Unique \<and> ids c \<noteq> None"

lemma GetID_Unique:
  assumes "has_room c"
  obtains i where "GetID now c = Ret (i, c\<lparr>ids := Some (insert i (live c))\<rparr>)"
    "i \<notin> live c" "1 \<le> i" "\<forall>k. 1 \<le> k \<and> k < i \<longrightarrow> k \<in> live c"
proof -
  obtain S i where "ids c = Some S" "scan_free S 1 = Some i" "mode c = Unique"
    using assms by (auto simp: has_room_def split: option.splits)
  then show ?thesis using that [of i] scan_free_spec [of S 1 i]
    by (simp add: GetID_def live_def)
qed

section \<open>Allocators of live ids\<close>

datatype id_op = Get int | Del u64

locale id_pool =
  fixes get :: "int \<Rightarrow> 's \<Rightarrow> (u64 \<times> 's) outcome"
    and del :: "u64 \<Rightarrow> 's \<Rightarrow> 's"
    and in_use :: "'s \<Rightarrow> u64 set"
    and inv :: "'s \<Rightarrow> bool"
  assumes get_cases: "inv s \<Longrightarrow> \<exists>i s'. get now s = Ret (i, s') \<and> inv s' \<and>
      (i = 0 \<and> s' = s \<or> i \<noteq> 0 \<and> i \<notin> in_use s \<and> in_use s' = insert i (in_use s))"
    and del_law: "inv s \<Longrightarrow> inv (del i s) \<and> in_use (del i s) = in_use s - {i}"
begin

text \<open>The ids held by the clients after a sequence of requests and releases; a failed request gives 0.\<close>

fun run :: "id_op list \<Rightarrow> u64 list \<times> 's \<Rightarrow> u64 list \<times> 's" where
  "run [] (held, s) = (held, s)"
| "run (Get now # ops) (held, s) =
     (case get now s of
        Ret (i, s') \<Rightarrow> run ops (if i = 0 then held else i # held, s')
      | _ \<Rightarrow> run ops (held, s))"
| "run (Del i # ops) (held, s) = run ops (filter (\<lambda>j. j \<noteq> i) held, del i s)"

lemma run_distinct:
  assumes "inv s" "distinct held" "set held \<subseteq> in_use s" "run ops (held, s) = (held', s')"
  shows "inv s' \<and> distinct held' \<and> set held' \<subseteq> in_use s'"
  using assms
proof (induction ops "(held, s)" arbitrary: held s rule: run.induct)
  case (2 now ops held s)
  obtain i s1 where g: "get now s = Ret (i, s1)" "inv s1"
    "i = 0 \<and> s1 = s \<or> i \<noteq> 0 \<and> i \<notin> in_use s \<and> in_use s1 = insert i (in_use s)"
    using get_cases [OF "2.prems"(1)] by blast
  show ?case
    by (rule "2.hyps"(1) [OF g(1) refl]) (use "2.prems" g in \<open>auto split: if_splits\<close>)
next
  case (3 i ops held s)
  show ?case
    by (rule "3.hyps") (use "3.prems" del_law [OF "3.prems"(1)] in auto)
qed simp

end

interpretation unique: id_pool GetID DelID live open_unique
proof
  fix c :: IDCounter and now i
  assume o: "open_unique c"
  then obtain S where S: "ids c = Some S" "mode c = Unique" by (auto simp: open_unique_def)
  show "open_unique (DelID i c) \<and> live (DelID i c) = live c - {i}"
    using S by (simp add: open_unique_def DelID_def live_def)
  show "\<exists>i s'. GetID now c = Ret (i, s') \<and> open_unique s' \<and>
      (i = 0 \<and> s' = c \<or> i \<noteq> 0 \<and> i \<notin> live c \<and> live s' = insert i (live c))"
  proof (cases "scan_free S 1")
    case None
    then show ?thesis using S o by (simp add: GetID_def)
  next
    case (Some j)
    then have "1 \<le> j" "j \<notin> S" using scan_free_spec by blast+
    moreover from this have "j \<noteq> 0" by auto
    ultimately show ?thesis using S Some by (simp add: GetID_def live_def open_unique_def)
  qed
qed

section \<open>Properties\<close>

text \<open>
  C35. Ids of one counter do not repeat: whatever the clock returns at each call, going backwards
  included, up to \<open>2 ^ 31\<close> successive ids of the modes \<open>Even\<close> and \<open>Odd\<close>, and \<open>2 ^ 32\<close>
  of \<open>Inc\<close>, are pairwise different.
\<close>

theorem counter_ids_distinct:
  assumes "counting (mode c)" "length ts \<le> period (mode c)"
  shows "\<exists>js c'. GetIDs ts c = Ret (js, c') \<and> length js = length ts \<and> distinct js"
proof -
  obtain js c' where r: "GetIDs ts c = Ret (js, c')"
    "map (ucast :: u64 \<Rightarrow> u32) js = map (\<lambda>k. start c + of_nat (Suc k) * step (mode c)) [0..<length ts]"
    using GetIDs_counting [OF assms(1)] by blast
  have "length js = length ts" using arg_cong [OF r(2), of length] by simp
  then show ?thesis using r(1) GetIDs_distinct [OF assms r(1)] by blast
qed

theorem counter_ids_distinct_witness:
  "\<exists>js c'. GetIDs [100, 100, 99] (NewIDCounter Odd (Some (6, 0, 0, 0))) = Ret (js, c') \<and> length js = 3 \<and> distinct js"
  using counter_ids_distinct [of "NewIDCounter Odd (Some (6, 0, 0, 0))" "[100, 100, 99]"]
  by (simp add: NewIDCounter_def counting_def period_def numeral_3_eq_3 del: GetIDs.simps)

text \<open>
  All ids of an \<open>Even\<close> or \<open>Odd\<close> counter have one parity, that of the counter's start: from
  an even seed \<open>Even\<close> gives even ids and \<open>Odd\<close> odd ones, so the two ends of a connection never
  choose the same packet id.
\<close>

theorem even_odd_disjoint:
  assumes "even (randomUint32 a)" "even (randomUint32 b)"
    and "GetIDs ts (NewIDCounter Even a) = Ret (js, c)" "GetIDs us (NewIDCounter Odd b) = Ret (ks, d)"
  shows "set js \<inter> set ks = {}"
proof -
  have "even i" if "i \<in> set js" for i
    using GetIDs_parity [OF _ assms(3) that] assms(1) by (simp add: NewIDCounter_def start_def)
  moreover have "odd i" if "i \<in> set ks" for i
    using GetIDs_parity [OF _ assms(4) that] assms(2) by (simp add: NewIDCounter_def start_def)
  ultimately show ?thesis by blast
qed

theorem even_odd_disjoint_witness:
  "\<exists>js c ks d. GetIDs [7, 8] (NewIDCounter Even (Some (2, 1, 0, 0))) = Ret (js, c)
     \<and> GetIDs [7, 8] (NewIDCounter Odd (Some (4, 1, 0, 0))) = Ret (ks, d) \<and> set js \<inter> set ks = {}"
proof -
  obtain js c ks d where r: "GetIDs [7, 8] (NewIDCounter Even (Some (2, 1, 0, 0))) = Ret (js, c)"
    "GetIDs [7, 8] (NewIDCounter Odd (Some (4, 1, 0, 0))) = Ret (ks, d)"
    by (simp add: NewIDCounter_def Let_def GetID_def)
  have "randomUint32 (Some (2, 1, 0, 0)) = 258" "randomUint32 (Some (4, 1, 0, 0)) = 260" by code_simp+
  then have "even (randomUint32 (Some (2, 1, 0, 0)))" "even (randomUint32 (Some (4, 1, 0, 0)))" by simp_all
  then show ?thesis using even_odd_disjoint [OF _ _ r] r by blast
qed

text \<open>
  The seed is not always even, though the code means it to be: \<open>randomUint32\<close> keeps the low
  bit of its first random byte, so an \<open>Even\<close> counter seeded with an odd byte gives only odd ids.
\<close>

theorem even_counter_odd_ids:
  assumes "odd b0" "GetIDs ts (NewIDCounter Even (Some (b0, b1, b2, b3))) = Ret (js, c)" "i \<in> set js"
  shows "odd i"
proof -
  have "odd (randomUint32 (Some (b0, b1, b2, b3)))"
    using assms(1) by (simp add: randomUint32_def Let_def flip: bit_0) (simp add: bit_simps)
  then show ?thesis
    using GetIDs_parity [OF _ assms(2,3)] by (simp add: NewIDCounter_def start_def)
qed

theorem even_counter_odd_ids_witness:
  "\<exists>i c. GetIDs [5] (NewIDCounter Even (Some (1, 0, 0, 0))) = Ret ([i], c) \<and> odd i"
proof -
  obtain i c where r: "GetIDs [5] (NewIDCounter Even (Some (1, 0, 0, 0))) = Ret ([i], c)"
    by (simp add: NewIDCounter_def Let_def GetID_def)
  then show ?thesis using even_counter_odd_ids [OF _ r, of i] by auto
qed

text \<open>
  In \<open>Unique\<close> mode \<open>GetID\<close> returns the least positive id not in use and marks it used, as
  long as one below \<open>math.MaxUint64\<close> is free.
\<close>

theorem unique_least_free:
  assumes "open_unique c" "k \<notin> live c" "1 \<le> k" "k < - 1"
  shows "\<exists>i. GetID now c = Ret (i, c\<lparr>ids := Some (insert i (live c))\<rparr>)
    \<and> i \<notin> live c \<and> 1 \<le> i \<and> (\<forall>j. 1 \<le> j \<and> j < i \<longrightarrow> j \<in> live c)"
proof -
  have "scan_free (live c) 1 \<noteq> None" using assms(2-) scan_free_None [of "live c" 1 k] by blast
  then have "has_room c" using assms(1)
    by (auto simp: has_room_def open_unique_def live_def)
  then show ?thesis using GetID_Unique [of c] by metis
qed

theorem unique_least_free_witness:
  "\<exists>i c. GetID 0 (NewIDCounter Unique None) = Ret (i, c) \<and> i \<notin> live (NewIDCounter Unique None) \<and> 1 \<le> i"
proof -
  have "open_unique (NewIDCounter Unique None)" "1 \<notin> live (NewIDCounter Unique None)"
    by (simp_all add: NewIDCounter_def open_unique_def live_def Let_def)
  moreover have "(1 :: u64) < - 1" by code_simp
  ultimately show ?thesis using unique_least_free [of "NewIDCounter Unique None" 1 0] by blast
qed

text \<open>
  C34. Ids in use never coincide: after any sequence of \<open>GetID\<close> and \<open>DelID\<close> calls on a fresh
  \<open>Unique\<close> counter, the ids handed out and not yet released are pairwise different.
\<close>

theorem unique_ids_in_use_distinct:
  assumes "unique.run ops ([], NewIDCounter Unique src) = (held, c)"
  shows "distinct held \<and> set held \<subseteq> live c"
proof -
  have "open_unique (NewIDCounter Unique src)" by (simp add: NewIDCounter_def open_unique_def Let_def)
  then show ?thesis using unique.run_distinct [OF _ _ _ assms] by simp
qed

theorem unique_ids_in_use_distinct_witness:
  "distinct (fst (unique.run [Get 0, Get 0, Del 1, Get 0] ([], NewIDCounter Unique None)))"
proof -
  obtain held c where "unique.run [Get 0, Get 0, Del 1, Get 0] ([], NewIDCounter Unique None) = (held, c)"
    by (cases "unique.run [Get 0, Get 0, Del 1, Get 0] ([], NewIDCounter Unique None)")
  then show ?thesis using unique_ids_in_use_distinct [of "[Get 0, Get 0, Del 1, Get 0]"] by (metis fst_conv)
qed

end
