(* ===== verification/Packet_Factory.thy ===== *)
theory Packet_Factory
  imports Packet_Decode Id_Counter
begin

text \<open>
  The packet factory (\<open>packet/factory.go\<close>): one definition per constructor method. A factory is
  its ID counter; a constructor that draws an id takes the clock reading of the draw. An \<open>err\<close>
  argument is the text of the error, \<open>None\<close> for nil.
\<close>

section \<open>State\<close>

record packetFactory =
  packetIDs :: IDCounter

definition NewPacketFactory :: "IDCounter \<Rightarrow> packetFactory" where
  "NewPacketFactory c = \<lparr>packetIDs = c\<rparr>"

definition NewPacketID :: "int \<Rightarrow> packetFactory \<Rightarrow> (u64 \<times> packetFactory) outcome" where
  "NewPacketID now pf = obind (GetID now (packetIDs pf)) (\<lambda>(i, c). Ret (i, pf\<lparr>packetIDs := c\<rparr>))"

text \<open>Draw an id and build a packet with it.\<close>

definition with_id :: "int \<Rightarrow> packetFactory \<Rightarrow> (u64 \<Rightarrow> 'p) \<Rightarrow> ('p \<times> packetFactory) outcome" where
  "with_id now pf mk = obind (NewPacketID now pf) (\<lambda>(i, pf'). Ret (mk i, pf'))"

definition mk_header :: "byte \<Rightarrow> u64 \<Rightarrow> byte \<Rightarrow> PacketHeader" where
  "mk_header typ packetID cnss =
     \<lparr>Version = V01, Typ = typ, PacketID = packetID, PacketLen = 0, Cnss = cnss\<rparr>"

definition err_text :: "bytes option \<Rightarrow> bytes" where
  "err_text err = (case err of None \<Rightarrow> [] | Some e \<Rightarrow> e)"

section \<open>Connection layer\<close>

definition NewConnPacket ::
  "int \<Rightarrow> u64 \<Rightarrow> bool \<Rightarrow> int \<Rightarrow> bytes \<Rightarrow> packetFactory \<Rightarrow> (ConnPacket \<times> packetFactory) outcome" where
  "NewConnPacket now wantedClientID clientIDPeersCall heartbeat meta pf =
     with_id now pf (\<lambda>packetID.
       \<lparr>cp_hdr = mk_header TypeConnPacket packetID CnssAtMostOnce,
        cp_flags = \<lparr>Heartbeat = heartbeat, clientIDAcquire = clientIDPeersCall, packetIDAcquire = False,
                    Retain = False, Clear = False\<rparr>,
        cp_ClientID = wantedClientID, cp_ConnData = Some (empty_ConnData\<lparr>cd_Meta := meta\<rparr>)\<rparr>)"

definition NewConnAckPacket :: "u64 \<Rightarrow> u64 \<Rightarrow> bytes option \<Rightarrow> ConnAckPacket" where
  "NewConnAckPacket packetID confirmedClientID err =
     \<lparr>ca_hdr = mk_header TypeConnAckPacket packetID CnssAtMostOnce,
      ca_RetCode = (if err \<noteq> None then RetCodeERR else RetCodeOK),
      ca_ClientID = confirmedClientID, ca_ConnData = Some (empty_ConnData\<lparr>cd_Error := err_text err\<rparr>)\<rparr>"

definition NewDisConnPacket :: "int \<Rightarrow> packetFactory \<Rightarrow> (DisConnPacket \<times> packetFactory) outcome" where
  "NewDisConnPacket now pf =
     with_id now pf (\<lambda>packetID. \<lparr>dc_hdr = mk_header TypeDisConnPacket packetID CnssAtMostOnce\<rparr>)"

definition NewDisConnAckPacket :: "u64 \<Rightarrow> bytes option \<Rightarrow> DisConnAckPacket" where
  "NewDisConnAckPacket packetID err =
     \<lparr>da_hdr = mk_header TypeDisConnAckPacket packetID CnssAtMostOnce,
      da_RetCode = (if err \<noteq> None then RetCodeERR else RetCodeOK),
      da_ConnData = Some (empty_ConnData\<lparr>cd_Error := err_text err\<rparr>)\<rparr>"

definition NewHeartbeatPacket :: "int \<Rightarrow> packetFactory \<Rightarrow> (HeartbeatPacket \<times> packetFactory) outcome" where
  "NewHeartbeatPacket now pf =
     with_id now pf (\<lambda>packetID. \<lparr>hb_hdr = mk_header TypeHeartbeatPacket packetID CnssAtLeastOnce\<rparr>)"

definition NewHeartbeatAckPacket :: "u64 \<Rightarrow> HeartbeatAckPacket" where
  "NewHeartbeatAckPacket packetID = \<lparr>ha_hdr = mk_header TypeHeartbeatAckPacket packetID CnssAtMostOnce\<rparr>"

section \<open>Session layer\<close>

definition NewSessionPacket ::
  "int \<Rightarrow> u64 \<Rightarrow> bool \<Rightarrow> bytes \<Rightarrow> bytes \<Rightarrow> packetFactory \<Rightarrow> (SessionPacket \<times> packetFactory) outcome" where
  "NewSessionPacket now negotiateID sessionIDPeersCall meta peer pf =
     with_id now pf (\<lambda>packetID.
       \<lparr>sp_hdr = mk_header TypeSessionPacket packetID CnssAtLeastOnce,
        sp_flags = new_SessionFlags\<lparr>sessionIDAcquire := sessionIDPeersCall\<rparr>,
        sp_negotiateID = negotiateID,
        sp_SessionData = Some (empty_SessionData\<lparr>sd_Meta := meta, sd_Peer := peer\<rparr>), sp_clientID = 0\<rparr>)"

definition NewSessionAckPacket :: "u64 \<Rightarrow> u64 \<Rightarrow> u64 \<Rightarrow> bytes option \<Rightarrow> SessionAckPacket" where
  "NewSessionAckPacket packetID negotiateID confirmedSessionID err =
     \<lparr>sa_hdr = mk_header TypeSessionAckPacket packetID CnssAtLeastOnce, sa_flags = new_SessionFlags,
      sa_negotiateID = negotiateID, sa_sessionID = confirmedSessionID,
      sa_SessionData = Some (empty_SessionData\<lparr>sd_Error := err_text err\<rparr>), sa_clientID = 0\<rparr>"

definition NewDismissPacket :: "int \<Rightarrow> u64 \<Rightarrow> packetFactory \<Rightarrow> (DismissPacket \<times> packetFactory) outcome" where
  "NewDismissPacket now sessionID pf =
     with_id now pf (\<lambda>packetID.
       \<lparr>dm_hdr = mk_header TypeDismissPacket packetID CnssAtLeastOnce, dm_sessionID = sessionID,
        dm_SessionData = Some empty_SessionData, dm_clientID = 0\<rparr>)"

definition NewDismissAckPacket :: "u64 \<Rightarrow> u64 \<Rightarrow> bytes option \<Rightarrow> DismissAckPacket" where
  "NewDismissAckPacket packetID sessionID err =
     \<lparr>dk_hdr = mk_header TypeDismissAckPacket packetID CnssAtLeastOnce, dk_sessionID = sessionID,
      dk_SessionData = Some (empty_SessionData\<lparr>sd_Error := err_text err\<rparr>), dk_clientID = 0\<rparr>"

section \<open>Application layer\<close>

definition mk_MessagePacket :: "byte \<Rightarrow> u64 \<Rightarrow> bytes \<Rightarrow> bytes \<Rightarrow> u64 \<Rightarrow> MessagePacket" where
  "mk_MessagePacket typ sessionID key val packetID =
     \<lparr>mp_hdr = mk_header typ packetID CnssAtLeastOnce, mp_sessionID = sessionID,
      mp_Data = Some (empty_MessageData\<lparr>md_Key := key, md_Value := val\<rparr>), mp_clientID = 0\<rparr>"

definition NewMessagePacket ::
  "int \<Rightarrow> bytes \<Rightarrow> bytes \<Rightarrow> packetFactory \<Rightarrow> (MessagePacket \<times> packetFactory) outcome" where
  "NewMessagePacket now key val pf = with_id now pf (mk_MessagePacket TypeMessagePacket 0 key val)"

definition NewMessagePacketWithIDAndSessionID ::
  "int \<Rightarrow> u64 \<Rightarrow> u64 \<Rightarrow> bytes \<Rightarrow> bytes \<Rightarrow> packetFactory \<Rightarrow> (MessagePacket \<times> packetFactory) outcome" where
  "NewMessagePacketWithIDAndSessionID now i sessionID key val pf =
     obind (NewMessagePacket now key val pf) (\<lambda>(pkt, pf').
     Ret (pkt\<lparr>mp_hdr := (mp_hdr pkt)\<lparr>PacketID := i\<rparr>, mp_sessionID := sessionID\<rparr>, pf'))"

text \<open>The \<open>custom\<close> argument is not stored.\<close>

definition NewMessagePacketWithSessionID ::
  "int \<Rightarrow> u64 \<Rightarrow> bytes \<Rightarrow> bytes \<Rightarrow> bytes \<Rightarrow> packetFactory \<Rightarrow> (MessagePacket \<times> packetFactory) outcome" where
  "NewMessagePacketWithSessionID now sessionID key val custom pf =
     with_id now pf (mk_MessagePacket TypeMessagePacket sessionID key val)"

definition NewMessageAckPacket :: "u64 \<Rightarrow> bytes option \<Rightarrow> MessageAckPacket" where
  "NewMessageAckPacket packetID err =
     \<lparr>ma_hdr = mk_header TypeMessageAckPacket packetID CnssAtLeastOnce, ma_sessionID = 0,
      ma_Data = Some (empty_MessageData\<lparr>md_Error := err_text err\<rparr>), ma_clientID = 0\<rparr>"

definition NewMessageAckPacketWithSessionID :: "u64 \<Rightarrow> u64 \<Rightarrow> bytes option \<Rightarrow> MessageAckPacket" where
  "NewMessageAckPacketWithSessionID sessionID packetID err =
     (NewMessageAckPacket packetID err)\<lparr>ma_sessionID := sessionID\<rparr>"

definition NewRequestPacket ::
  "int \<Rightarrow> bytes \<Rightarrow> bytes \<Rightarrow> packetFactory \<Rightarrow> (MessagePacket \<times> packetFactory) outcome" where
  "NewRequestPacket now pattern data pf = with_id now pf (mk_MessagePacket TypeRequestPacket 0 pattern data)"

definition NewRequestCancelPacketWithIDAndSessionID :: "u64 \<Rightarrow> u64 \<Rightarrow> u16 \<Rightarrow> RequestCancelPacket" where
  "NewRequestCancelPacketWithIDAndSessionID i sessionID cancelType =
     \<lparr>rc_hdr = mk_header TypeRequestCancelPacket i CnssAtLeastOnce, rc_sessionID = sessionID,
      rc_cancelType = cancelType\<rparr>"

definition NewRequestPacketWithIDAndSessionID ::
  "int \<Rightarrow> u64 \<Rightarrow> u64 \<Rightarrow> bytes \<Rightarrow> bytes \<Rightarrow> packetFactory \<Rightarrow> (MessagePacket \<times> packetFactory) outcome" where
  "NewRequestPacketWithIDAndSessionID now i sessionID pattern data pf =
     obind (NewRequestPacket now pattern data pf) (\<lambda>(pkt, pf').
     Ret (pkt\<lparr>mp_hdr := (mp_hdr pkt)\<lparr>PacketID := i\<rparr>, mp_sessionID := sessionID\<rparr>, pf'))"

definition NewResponsePacket :: "u64 \<Rightarrow> bytes \<Rightarrow> bytes \<Rightarrow> bytes option \<Rightarrow> MessageAckPacket" where
  "NewResponsePacket requestPacketID pattern data err =
     \<lparr>ma_hdr = mk_header TypeResponsePacket requestPacketID CnssAtLeastOnce, ma_sessionID = 0,
      ma_Data = Some (empty_MessageData\<lparr>md_Key := pattern, md_Value := data, md_Error := err_text err\<rparr>),
      ma_clientID = 0\<rparr>"

definition NewStreamPacket :: "int \<Rightarrow> bytes \<Rightarrow> packetFactory \<Rightarrow> (StreamPacket \<times> packetFactory) outcome" where
  "NewStreamPacket now data pf =
     with_id now pf (\<lambda>packetID.
       \<lparr>st_hdr = mk_header TypeStreamPacket packetID CnssAtLeastOnce, st_sessionID = 0, st_Data = data,
        st_clientID = 0\<rparr>)"

definition NewStreamPacketWithSessionID ::
  "int \<Rightarrow> u64 \<Rightarrow> bytes \<Rightarrow> packetFactory \<Rightarrow> (StreamPacket \<times> packetFactory) outcome" where
  "NewStreamPacketWithSessionID now sessionID data pf =
     obind (NewStreamPacket now data pf) (\<lambda>(pkt, pf'). Ret (pkt\<lparr>st_sessionID := sessionID\<rparr>, pf'))"

definition NewRegisterPacket :: "int \<Rightarrow> bytes \<Rightarrow> packetFactory \<Rightarrow> (RegisterPacket \<times> packetFactory) outcome" where
  "NewRegisterPacket now method pf =
     with_id now pf (\<lambda>packetID.
       \<lparr>rp_hdr = mk_header TypeRegisterPacket packetID CnssAtLeastOnce, rp_sessionID = 0, rp_method = method,
        rp_clientID = 0\<rparr>)"

definition NewRegisterPacketWithSessionID ::
  "int \<Rightarrow> u64 \<Rightarrow> bytes \<Rightarrow> packetFactory \<Rightarrow> (RegisterPacket \<times> packetFactory) outcome" where
  "NewRegisterPacketWithSessionID now sessionID method pf =
     obind (NewRegisterPacket now method pf) (\<lambda>(pkt, pf'). Ret (pkt\<lparr>rp_sessionID := sessionID\<rparr>, pf'))"

definition NewRegisterAckPacket :: "u64 \<Rightarrow> bytes option \<Rightarrow> RegisterAckPacket" where
  "NewRegisterAckPacket packetID err =
     \<lparr>ra_hdr = mk_header TypeRegisterAckPacket packetID CnssAtLeastOnce, ra_sessionID = 0,
      ra_RegisterData = Some (empty_RegisterData\<lparr>rd_Error := err_text err\<rparr>), ra_clientID = 0\<rparr>"

definition NewRegisterAckPacketWithSessionID :: "u64 \<Rightarrow> u64 \<Rightarrow> bytes option \<Rightarrow> RegisterAckPacket" where
  "NewRegisterAckPacketWithSessionID sessionID packetID err =
     (NewRegisterAckPacket packetID err)\<lparr>ra_sessionID := sessionID\<rparr>"

section \<open>Factory packets travel\<close>

lemma rfc3339_zero [simp]: "rfc3339_time zero_time"
  by (simp add: rfc3339_time_def civil_def zero_time_def days_in_def)

lemma ok_message_parts [simp]:
  "ok_MessageData (empty_MessageData\<lparr>md_Key := k, md_Value := v\<rparr>)"
  "ok_MessageData (empty_MessageData\<lparr>md_Error := e\<rparr>) \<longleftrightarrow> valid_utf8 e"
  "ok_MessageData (empty_MessageData\<lparr>md_Key := k, md_Value := v, md_Error := e\<rparr>) \<longleftrightarrow> valid_utf8 e"
  by (simp_all add: ok_MessageData_def empty_MessageData_def)

lemma with_id_Ret:
  "with_id now pf mk = Ret (p, pf') \<longleftrightarrow> (\<exists>i. NewPacketID now pf = Ret (i, pf') \<and> p = mk i)"
  by (cases "NewPacketID now pf") (auto simp: with_id_def)

lemmas factory_defs =
  NewConnPacket_def NewDisConnPacket_def NewHeartbeatPacket_def NewSessionPacket_def NewDismissPacket_def
  NewMessagePacket_def NewMessagePacketWithSessionID_def NewMessagePacketWithIDAndSessionID_def
  NewRequestPacket_def NewRequestPacketWithIDAndSessionID_def NewStreamPacket_def
  NewStreamPacketWithSessionID_def NewRegisterPacket_def NewRegisterPacketWithSessionID_def

lemmas ack_defs =
  NewConnAckPacket_def NewDisConnAckPacket_def NewHeartbeatAckPacket_def NewSessionAckPacket_def
  NewDismissAckPacket_def NewMessageAckPacket_def NewMessageAckPacketWithSessionID_def
  NewRequestCancelPacketWithIDAndSessionID_def NewResponsePacket_def NewRegisterAckPacket_def
  NewRegisterAckPacketWithSessionID_def

lemma utf8_err_text: "pred_option valid_utf8 err \<Longrightarrow> valid_utf8 (err_text err)"
  by (cases err) (simp_all add: err_text_def)

text \<open>The packets that draw an id, by constructor call.\<close>

definition drawn :: "int \<Rightarrow> packetFactory \<Rightarrow> Packet \<Rightarrow> packetFactory \<Rightarrow> bool" where
  "drawn now pf p pf' \<longleftrightarrow>
     (\<exists>q w a h m. NewConnPacket now w a h m pf = Ret (q, pf') \<and> p = PConn q)
   \<or> (\<exists>q. NewDisConnPacket now pf = Ret (q, pf') \<and> p = PDisConn q)
   \<or> (\<exists>q. NewHeartbeatPacket now pf = Ret (q, pf') \<and> p = PHeartbeat q)
   \<or> (\<exists>q n a m e. valid_utf8 e \<and> NewSessionPacket now n a m e pf = Ret (q, pf') \<and> p = PSession q)
   \<or> (\<exists>q s. NewDismissPacket now s pf = Ret (q, pf') \<and> p = PDismiss q)
   \<or> (\<exists>q k v. NewMessagePacket now k v pf = Ret (q, pf') \<and> p = PMessage q)
   \<or> (\<exists>q s k v c. NewMessagePacketWithSessionID now s k v c pf = Ret (q, pf') \<and> p = PMessage q)
   \<or> (\<exists>q k v. NewRequestPacket now k v pf = Ret (q, pf') \<and> p = PRequest (Some q))
   \<or> (\<exists>q d. NewStreamPacket now d pf = Ret (q, pf') \<and> p = PStream q)
   \<or> (\<exists>q s d. NewStreamPacketWithSessionID now s d pf = Ret (q, pf') \<and> p = PStream q)
   \<or> (\<exists>q m. NewRegisterPacket now m pf = Ret (q, pf') \<and> p = PRegister q)
   \<or> (\<exists>q s m. NewRegisterPacketWithSessionID now s m pf = Ret (q, pf') \<and> p = PRegister q)"

lemma drawn_ok: "drawn now pf p pf' \<Longrightarrow> ok_Packet p"
  by (auto simp: drawn_def factory_defs with_id_Ret obind_Ret_iff mk_header_def mk_MessagePacket_def ok_ConnData_def
      empty_ConnData_def ok_SessionData_def empty_SessionData_def)

lemma drawn_id: "drawn now pf p pf' \<Longrightarrow> \<exists>i. NewPacketID now pf = Ret (i, pf') \<and> Packet_ID p = Ret i"
  by (auto simp: drawn_def factory_defs with_id_Ret obind_Ret_iff mk_header_def mk_MessagePacket_def Packet_ID_def)

fun draws :: "int list \<Rightarrow> packetFactory \<Rightarrow> Packet list \<Rightarrow> bool" where
  "draws [] pf ps \<longleftrightarrow> ps = []"
| "draws (now # ts) pf ps \<longleftrightarrow> (\<exists>p qs pf'. ps = p # qs \<and> drawn now pf p pf' \<and> draws ts pf' qs)"

lemma draws_ids:
  "draws ts pf ps \<Longrightarrow> \<exists>js c. GetIDs ts (packetIDs pf) = Ret (js, c) \<and> map Packet_ID ps = map Ret js"
proof (induction ts arbitrary: pf ps)
  case (Cons now ts)
  then obtain p qs pf' where p: "ps = p # qs" "drawn now pf p pf'" "draws ts pf' qs" by auto
  obtain i where i: "NewPacketID now pf = Ret (i, pf')" "Packet_ID p = Ret i" using drawn_id [OF p(2)] by blast
  then have g: "GetID now (packetIDs pf) = Ret (i, packetIDs pf')"
    by (auto simp: NewPacketID_def obind_Ret_iff)
  obtain js c where "GetIDs ts (packetIDs pf') = Ret (js, c)" "map Packet_ID qs = map Ret js"
    using Cons.IH [OF p(3)] by blast
  then show ?case using g i p by auto
qed simp

section \<open>One packet from peer to peer\<close>

definition over_wire :: "Packet \<Rightarrow> Packet option" where
  "over_wire p =
     (case Encode p of
        Ret bs \<Rightarrow> (case fst (decode_stream (rd_of bs)) of Ret q \<Rightarrow> Some q | _ \<Rightarrow> None)
      | _ \<Rightarrow> None)"

text \<open>Packets the peer does not refuse for their size.\<close>

definition sendable :: "Packet \<Rightarrow> bool" where
  "sendable p \<longleftrightarrow> ok_Packet p \<and> (case Encode p of Ret bs \<Rightarrow> length bs \<le> 14 + MaxDecodablePacketLen | _ \<Rightarrow> False)"

lemma over_wire_sent:
  assumes "sendable p"
  shows "\<exists>bs. Encode p = Ret bs \<and> over_wire p = Some (sent p bs)"
proof -
  obtain bs where bs: "ok_Packet p" "Encode p = Ret bs" "length bs \<le> 14 + MaxDecodablePacketLen"
    using assms by (auto simp: sendable_def split: outcome.splits)
  from stream_reads_back [OF this, unfolded reads_as_def, rule_format, of "rd_of bs" "[]"]
  have "fst (decode_stream (rd_of bs)) = Ret (sent p bs)" by (auto simp: rd_of_def)
  then show ?thesis using bs(2) by (simp add: over_wire_def)
qed

section \<open>Properties\<close>



text \<open>
  C33. Acknowledgements, responses and cancellations travel too: the packets the factory builds
  from a received packet's id are read back by the peer with that same id, so that the peer can
  match them with what it sent. (The error text must be UTF-8 to survive.)
\<close>

theorem answers_correlate:
  assumes "pred_option valid_utf8 err"
    and "p \<in> {PConnAck (NewConnAckPacket i cid err), PDisConnAck (NewDisConnAckPacket i err),
        PHeartbeatAck (NewHeartbeatAckPacket i), PSessionAck (NewSessionAckPacket i n s err),
        PDismissAck (NewDismissAckPacket i s err), PMessageAck (NewMessageAckPacketWithSessionID s i err),
        PResponse (Some (NewResponsePacket i k v err)), PRegisterAck (NewRegisterAckPacketWithSessionID s i err),
        PRequestCancel (NewRequestCancelPacketWithIDAndSessionID i s t)}"
    and "Encode p = Ret bs" "length bs \<le> 14 + MaxDecodablePacketLen"
  shows "\<exists>q. fst (decode_stream (rd_of (bs @ rest))) = Ret q \<and> Packet_ID q = Ret i
    \<and> Packet_SessionID q = Packet_SessionID p"
proof -
  have ok: "ok_Packet p"
    using assms(1,2) by (auto simp: ack_defs mk_header_def ok_ConnData_def empty_ConnData_def ok_SessionData_def
        empty_SessionData_def ok_RegisterData_def empty_RegisterData_def utf8_err_text)
  have "reads_as decode_stream bs (sent p bs)" using ok assms(3,4) by (rule stream_reads_back)
  from this [unfolded reads_as_def, rule_format, of "rd_of (bs @ rest)" rest]
  have "fst (decode_stream (rd_of (bs @ rest))) = Ret (sent p bs)"
    by (auto simp: rd_of_def)
  moreover have "Packet_ID (sent p bs) = Ret i \<and> Packet_SessionID (sent p bs) = Packet_SessionID p"
    using assms(2)
    by (auto simp: sent_def Packet_ID_def ack_defs mk_header_def wire_header_def wire_ConnAckPacket_def
        wire_DisConnAckPacket_def new_HeartbeatAckPacket_def wire_SessionAckPacket_def wire_DismissAckPacket_def
        wire_MessageAckPacket_def wire_RegisterAckPacket_def wire_RequestCancelPacket_def)
  ultimately show ?thesis by blast
qed

theorem answers_correlate_witness:
  "\<exists>bs q. Encode (PResponse (Some (NewResponsePacket 7 [] [1] (Some (lit ''bad''))))) = Ret bs
     \<and> fst (decode_stream (rd_of bs)) = Ret q \<and> Packet_ID q = Ret 7"
proof -
  let ?p = "PResponse (Some (NewResponsePacket 7 [] [1] (Some (lit ''bad''))))"
  define bs where "bs = (case Encode ?p of Ret b \<Rightarrow> b | _ \<Rightarrow> [])"
  have e: "Encode ?p = Ret bs" unfolding bs_def by code_simp
  have "length bs \<le> 200" unfolding bs_def by code_simp
  then have l: "length bs \<le> 14 + MaxDecodablePacketLen" by (simp add: MaxDecodablePacketLen_def)
  have "pred_option valid_utf8 (Some (lit ''bad''))" by (simp add: lit_def)
  from answers_correlate [OF this, of ?p 7 0 0 0 "[]" "[1]" 0 bs "[]", OF _ e l]
  show ?thesis using e by auto
qed

end
