(* ===== verification/Go_Runtime.thy ===== *)
theory Go_Runtime
  imports Geminio_Prelude
begin

text \<open>
  What the layers use of the runtime around them: table-driven state machines (the library
  \<open>yafsm\<close>, an argument \<open>emit\<close> everywhere, with \<open>documented_fsm\<close> as what is relied on), bounded Go
  channels, the outcome of one step of a goroutine, and the closing handshake that connections and
  dialogues share, as the locale \<open>close_handshake\<close>.
\<close>

section \<open>State machines\<close>

type_synonym ('s, 'e) transitions = "('e \<times> 's \<times> 's) list"
type_synonym ('s, 'e) emitter = "('s, 'e) transitions \<Rightarrow> 's \<Rightarrow> 'e \<Rightarrow> 's option"

text \<open>
  \<open>EmitEvent\<close> of \<open>yafsm\<close>: it moves along the registered transition, and returns an error when
  there is none from the current state.
\<close>

definition documented_fsm :: "('s, 'e) emitter \<Rightarrow> bool" where
  "documented_fsm emit \<longleftrightarrow>
     (\<forall>T s e. (\<forall>s'. (e, s, s') \<notin> set T) \<longrightarrow> emit T s e = None) \<and>
     (\<forall>T s e s'. (e, s, s') \<in> set T \<longrightarrow> (\<forall>t. (e, s, t) \<in> set T \<longrightarrow> t = s') \<longrightarrow> emit T s e = Some s')"

text \<open>The first registered transition that matches: one machine that behaves as documented.\<close>

definition table_next :: "('s, 'e) emitter" where
  "table_next T s e = map_option (\<lambda>(_, _, t). t) (find (\<lambda>(e', s', _). e' = e \<and> s' = s) T)"

definition single_valued_table :: "('s, 'e) transitions \<Rightarrow> bool" where
  "single_valued_table T \<longleftrightarrow> list_all (\<lambda>(e, s, t). table_next T s e = Some t) T"

lemma table_next_None: "(\<forall>t. (e, s, t) \<notin> set T) \<Longrightarrow> table_next T s e = None"
  by (auto simp: table_next_def find_None_iff)

lemma table_next_Some: "table_next T s e = Some t \<Longrightarrow> (e, s, t) \<in> set T"
  by (auto simp: table_next_def find_Some_iff in_set_conv_nth)

lemma table_next_documented: "documented_fsm table_next"
  unfolding documented_fsm_def
proof (intro conjI allI impI)
  fix T :: "('s, 'e) transitions" and s e s'
  assume a: "(e, s, s') \<in> set T" "\<forall>t. (e, s, t) \<in> set T \<longrightarrow> t = s'"
  have "table_next T s e \<noteq> None" using a(1) by (auto simp: table_next_def find_None_iff)
  then obtain t where t: "table_next T s e = Some t" by blast
  then show "table_next T s e = Some s'" using a(2) table_next_Some [OF t] by simp
qed (rule table_next_None, blast)

lemma documented_fsmD:
  assumes "documented_fsm emit"
  shows "(\<And>t. (e, s, t) \<notin> set T) \<Longrightarrow> emit T s e = None"
    "(e, s, s') \<in> set T \<Longrightarrow> (\<And>t. (e, s, t) \<in> set T \<Longrightarrow> t = s') \<Longrightarrow> emit T s e = Some s'"
  using assms unfolding documented_fsm_def by blast+

text \<open>On a table without conflicting entries, every documented machine is this one.\<close>

lemma emit_table:
  assumes "documented_fsm emit" "single_valued_table T"
  shows "emit T s e = table_next T s e"
proof (cases "table_next T s e")
  case None
  have "(e, s, t) \<notin> set T" for t using assms(2) None by (auto simp: single_valued_table_def list_all_iff)
  then show ?thesis using documented_fsmD(1) [OF assms(1)] None by metis
next
  case (Some t)
  then have m: "(e, s, t) \<in> set T" by (rule table_next_Some)
  have "u = t" if "(e, s, u) \<in> set T" for u
    using assms(2) Some that by (auto simp: single_valued_table_def list_all_iff)
  then show ?thesis using documented_fsmD(2) [OF assms(1) m] Some by metis
qed

section \<open>Channels\<close>

record 'a chan =
  buf :: "'a list"
  cap :: nat
  is_closed :: bool

definition make_chan :: "nat \<Rightarrow> 'a chan" where
  "make_chan n = \<lparr>buf = [], cap = n, is_closed = False\<rparr>"

datatype 'a send_result = Sent "'a chan" | Full | OnClosed

definition ch_send :: "'a chan \<Rightarrow> 'a \<Rightarrow> 'a send_result" where
  "ch_send ch x =
     (if is_closed ch then OnClosed
      else if length (buf ch) < cap ch then Sent (ch\<lparr>buf := buf ch @ [x]\<rparr>) else Full)"

definition ch_close :: "'a chan \<Rightarrow> 'a chan" where
  "ch_close ch = ch\<lparr>is_closed := True\<rparr>"

definition chan_ok :: "'a chan \<Rightarrow> bool" where
  "chan_ok ch \<longleftrightarrow> length (buf ch) \<le> cap ch"

lemma chan_ok_send: "chan_ok ch \<Longrightarrow> ch_send ch x = Sent ch' \<Longrightarrow> chan_ok ch' \<and> buf ch' = buf ch @ [x] \<and> cap ch' = cap ch \<and> \<not> is_closed ch'"
  by (auto simp: chan_ok_def ch_send_def split: if_splits)

section \<open>Steps of goroutines\<close>

text \<open>
  A step of a goroutine over a state of type \<open>'s\<close> returns, blocks on a channel, panics, or sends on
  a closed channel, which panics too.
\<close>

datatype ('a, 's) gres = HRet 'a 's | HBlock | HPanic go_panic | HSendOnClosed

definition forget :: "('a, 's) gres \<Rightarrow> (unit, 's) gres" where
  "forget r = (case r of HRet _ c \<Rightarrow> HRet () c | HBlock \<Rightarrow> HBlock | HPanic p \<Rightarrow> HPanic p | HSendOnClosed \<Rightarrow> HSendOnClosed)"

definition of_outcome :: "'s outcome \<Rightarrow> (unit, 's) gres" where
  "of_outcome m = (case m of Ret c \<Rightarrow> HRet () c | Fail _ \<Rightarrow> HBlock | Panic p \<Rightarrow> HPanic p)"

lemma forget_HRet: "forget r = HRet () c' \<longleftrightarrow> (\<exists>x. r = HRet x c')"
  by (cases r) (auto simp: forget_def)

lemma of_outcome_HRet: "of_outcome m = HRet () c' \<longleftrightarrow> m = Ret c'"
  by (cases m) (auto simp: of_outcome_def)

lemma of_outcome_open [simp]: "of_outcome m \<noteq> HSendOnClosed"
  by (simp add: of_outcome_def split: outcome.splits)

lemma make_chan_simps [simp]: "buf (make_chan n) = []" "\<not> is_closed (make_chan n)" "chan_ok (make_chan n)" "cap (make_chan n) = n"
  by (simp_all add: make_chan_def chan_ok_def)

lemma close_simps [simp]:
  "chan_ok (ch_close a) = chan_ok a" "buf (ch_close a) = buf a" "is_closed (ch_close a)"
  "chan_ok (a\<lparr>buf := []\<rparr>)" "is_closed (a\<lparr>buf := bs\<rparr>) = is_closed a"
  by (simp_all add: ch_close_def chan_ok_def)

definition evolves :: "'a chan \<Rightarrow> 'a chan \<Rightarrow> bool" where
  "evolves a b \<longleftrightarrow> is_closed b = is_closed a \<and> (chan_ok a \<longrightarrow> chan_ok b)"

lemma evolves_refl [simp]: "evolves a a"
  by (simp add: evolves_def)

lemma evolves_send: "ch_send a x = Sent b \<Longrightarrow> evolves a b \<and> buf b = buf a @ [x] \<and> \<not> is_closed a"
  by (auto simp: ch_send_def evolves_def chan_ok_def split: if_splits)

lemma ch_send_open: "\<not> is_closed ch \<Longrightarrow> ch_send ch p \<noteq> OnClosed"
  by (simp add: ch_send_def)

text \<open>The side of a connection and the result a packet handler returns (\<open>pkg/iodefine\<close>).\<close>

datatype side = InitiatorSide | RecipientSide

datatype IORet = IOSuccess | IOData | IOReconnect | IONew | IONewActive | IONewPassive | IOClosed | IOClosedActive
  | IOClosedPassive | IOErr | IOExit | IODiscard

text \<open>
  \<open>select\<close> between a send and a context that may be done; \<open>pick\<close> says which of two ready cases runs.
\<close>

datatype 'a selected = SelSent "'a chan" | SelDone | SelBlock | SelPanic

definition select_chan :: "bool \<Rightarrow> bool \<Rightarrow> 'a chan \<Rightarrow> 'a \<Rightarrow> 'a selected" where
  "select_chan pick ctx_done ch x =
     (case ch_send ch x of
        Full \<Rightarrow> (if ctx_done then SelDone else SelBlock)
      | Sent ch' \<Rightarrow> (if ctx_done \<and> \<not> pick then SelDone else SelSent ch')
      | OnClosed \<Rightarrow> (if ctx_done \<and> \<not> pick then SelDone else SelPanic))"

lemma select_chan_sent:
  "select_chan pick ctx_done ch x = SelSent ch' \<Longrightarrow> evolves ch ch' \<and> buf ch' = buf ch @ [x] \<and> \<not> is_closed ch"
  by (auto simp: select_chan_def dest: evolves_send split: send_result.splits if_splits)

lemma select_chan_open: "\<not> is_closed ch \<Longrightarrow> select_chan pick ctx_done ch x \<noteq> SelPanic"
  by (simp add: select_chan_def ch_send_open split: send_result.splits)

lemma select_chan_done: "select_chan pick ctx_done ch x = SelDone \<Longrightarrow> ctx_done"
  by (auto simp: select_chan_def split: send_result.splits if_splits)

lemma select_chan_room:
  "\<not> is_closed ch \<Longrightarrow> \<not> ctx_done \<Longrightarrow> length (buf ch) < cap ch \<Longrightarrow>
    select_chan pick ctx_done ch x = SelSent (ch\<lparr>buf := buf ch @ [x]\<rparr>)"
  by (simp add: select_chan_def ch_send_def)

text \<open>Successive steps, and steps that must succeed.\<close>

fun turns :: "('a \<Rightarrow> 's \<Rightarrow> ('r, 's) gres) \<Rightarrow> 'a list \<Rightarrow> 's \<Rightarrow> ('r list \<times> 's) option" where
  "turns f [] c = Some ([], c)"
| "turns f (x # xs) c =
     (case f x c of HRet r c' \<Rightarrow> map_option (\<lambda>(rs, c''). (r # rs, c'')) (turns f xs c') | _ \<Rightarrow> None)"

definition settled :: "(IORet, 's) gres \<Rightarrow> 's option" where
  "settled r = (case r of HRet ret c \<Rightarrow> (if ret = IOSuccess then Some c else None) | _ \<Rightarrow> None)"

definition the_one :: "'a list \<Rightarrow> 'a option" where
  "the_one xs = (case xs of [x] \<Rightarrow> Some x | _ \<Rightarrow> None)"

section \<open>The closing handshake\<close>

text \<open>
  Each side sends a close, receives the peer's, receives the acknowledgement of its own and sends
  one for the peer's. The only order there is: an acknowledgement follows what it acknowledges.
\<close>

datatype close_step = SendClose | RecvClose | RecvAck | SendAck

definition before :: "'a \<Rightarrow> 'a \<Rightarrow> 'a list \<Rightarrow> bool" where
  "before x y xs \<longleftrightarrow> x \<in> set (takeWhile (\<lambda>z. z \<noteq> y) xs)"

definition close_order :: "close_step list \<Rightarrow> bool" where
  "close_order xs \<longleftrightarrow> distinct xs \<and> length xs = 4 \<and> before SendClose RecvAck xs \<and> before RecvClose SendAck xs"

text \<open>The states a machine goes through.\<close>

fun states_of :: "('s \<Rightarrow> 'e \<Rightarrow> 's option) \<Rightarrow> 's \<Rightarrow> 'e list \<Rightarrow> 's list option" where
  "states_of nxt s [] = Some []"
| "states_of nxt s (e # es) =
     (case nxt s e of None \<Rightarrow> None | Some s' \<Rightarrow> map_option (\<lambda>ss. s' # ss) (states_of nxt s' es))"

lemma close_order_cases:
  assumes "close_order xs"
  shows "xs \<in> {[SendClose, RecvClose, RecvAck, SendAck], [SendClose, RecvClose, SendAck, RecvAck],
    [SendClose, RecvAck, RecvClose, SendAck], [RecvClose, SendClose, RecvAck, SendAck],
    [RecvClose, SendClose, SendAck, RecvAck], [RecvClose, SendAck, SendClose, RecvAck]}"
proof -
  have "length xs = Suc (Suc (Suc (Suc 0)))" using assms by (simp add: close_order_def)
  then obtain a b c d where xs: "xs = [a, b, c, d]" by (auto simp: length_Suc_conv)
  show ?thesis using assms unfolding xs close_order_def before_def
    by (cases a; cases b; cases c; cases d; simp)
qed

locale close_handshake =
  fixes nxt :: "'s \<Rightarrow> 'e \<Rightarrow> 's option"
    and sent recvd ack :: 'e
    and up s_sent s_recv s_half s_closed :: 's
  assumes from_up: "nxt up sent = Some s_sent" "nxt up recvd = Some s_recv"
    and from_sent: "nxt s_sent recvd = Some s_recv" "nxt s_sent ack = Some s_half"
    and from_recv: "nxt s_recv sent = Some s_sent" "nxt s_recv ack = Some s_half"
    and from_half: "nxt s_half sent = Some s_half" "nxt s_half recvd = Some s_half" "nxt s_half ack = Some s_closed"
begin

fun event_of :: "close_step \<Rightarrow> 'e" where
  "event_of SendClose = sent"
| "event_of RecvClose = recvd"
| "event_of RecvAck = ack"
| "event_of SendAck = ack"

lemmas handshake_simps = from_up from_sent from_recv from_half

text \<open>Whatever the order, no event is illegal and the side ends closed, by way of \<open>half\<close>.\<close>

lemma all_orders_close:
  assumes "close_order xs"
  shows "\<exists>a b. states_of nxt up (map event_of xs) = Some [a, b, s_half, s_closed]
    \<and> (xs ! 1 = RecvAck \<or> xs ! 1 = SendAck \<longrightarrow> b = s_half)"
  using close_order_cases [OF assms] by (auto simp: handshake_simps)

text \<open>Until the first acknowledgement the side has not reached \<open>half\<close>.\<close>

lemma half_after_ack:
  assumes "close_order xs" "s_half \<notin> {s_sent, s_recv}"
    "states_of nxt up (map event_of (take n xs)) = Some ss" "s_half \<in> set ss"
  shows "RecvAck \<in> set (take n xs) \<or> SendAck \<in> set (take n xs)"
proof -
  consider "n = 0" | "n = 1" | "n = 2" | "3 \<le> n" by linarith
  then show ?thesis
  proof cases
    case 4
    then have "take n xs = take 3 xs @ take (n - 3) (drop 3 xs)" by (metis take_add le_add_diff_inverse)
    then show ?thesis using close_order_cases [OF assms(1)] by (auto simp: numeral_eq_Suc)
  qed (use close_order_cases [OF assms(1)] assms(2-4) in \<open>auto simp: handshake_simps numeral_eq_Suc\<close>)
qed

end

end
