(* ===== verification/Conn_Base.thy ===== *)
theory Conn_Base
  imports Packet_Factory Go_Runtime
begin

text \<open>
  The state of a connection and what client and server connections share
  (\<open>conn/conn_base.go\<close>): the protocol states and events, bounded Go channels, reading,
  writing and the close handshake handlers. The finite state machine library is the argument
  \<open>emit\<close>; \<open>documented_fsm\<close> is what the connections rely on. The synchronisation hub, the
  timer and the delegate are seen through what is asked of them.
\<close>

section \<open>States and events\<close>

datatype conn_state = INIT | CONN_SENT | CONN_RECV | CONNED | CLOSE_SENT | CLOSE_RECV | CLOSE_HALF | CLOSED | FINI

datatype conn_event = ET_CONNSENT | ET_CONNRECV | ET_CONNACK | ET_ERROR | ET_CLOSESENT | ET_CLOSERECV | ET_CLOSEACK | ET_FINI

section \<open>The connection\<close>

text \<open>What a connection asks of the hub, the timer and the delegate.\<close>

datatype sync_key = OfPacket u64 | OfAddrs

datatype conn_effect =
    SyncDone sync_key
  | SyncError sync_key bytes
  | DlgtOnline u64
  | DlgtOffline u64
  | DlgtHeartbeat u64

record conn =
  c_side :: side
  c_state :: conn_state
  c_clientID :: u64
  c_meta :: bytes
  c_heartbeat :: int
  c_connOK :: bool
  c_onlined :: bool
  c_closeOnce :: bool
  c_ctxDone :: bool
  c_pf :: packetFactory
  c_clientIDs :: IDCounter
  c_readIn :: "Packet chan"
  c_writeOut :: "Packet chan"
  c_readOut :: "Packet chan"
  c_readOutNil :: bool
  c_writeIn :: "Packet chan"
  c_hbIn :: "Packet chan"
  c_hbOut :: "Packet chan"
  c_failed :: "Packet list option"
  c_sends :: "Packet list"
  c_net :: "(Packet \<times> bytes) list"
  c_netClosed :: bool
  c_hbTick :: "int option"
  c_effects :: "conn_effect list"
  c_handling :: bool
  c_reading :: bool
  c_writing :: bool

type_synonym 'a hres = "('a, conn) gres"

definition effect :: "conn_effect \<Rightarrow> conn \<Rightarrow> conn" where
  "effect e c = c\<lparr>c_effects := c_effects c @ [e]\<rparr>"

text \<open>\<open>go func() { sendToWriteIn(pkt) }()\<close>.\<close>

definition spawn_send :: "Packet \<Rightarrow> conn \<Rightarrow> conn" where
  "spawn_send pkt c = c\<lparr>c_sends := c_sends c @ [pkt]\<rparr>"

text \<open>
  \<open>select\<close> between a send and \<open>ctx.Done()\<close>; \<open>pick\<close> says which of two ready cases runs.
\<close>

definition select_send ::
  "bool \<Rightarrow> (conn \<Rightarrow> Packet chan) \<Rightarrow> (Packet chan \<Rightarrow> conn \<Rightarrow> conn) \<Rightarrow> Packet \<Rightarrow> conn \<Rightarrow> IORet hres" where
  "select_send pick get put pkt c =
     (case ch_send (get c) pkt of
        Full \<Rightarrow> (if c_ctxDone c then HRet IOClosed c else HBlock)
      | Sent ch \<Rightarrow> (if c_ctxDone c \<and> \<not> pick then HRet IOClosed c else HRet IOSuccess (put ch c))
      | OnClosed \<Rightarrow> (if c_ctxDone c \<and> \<not> pick then HRet IOClosed c else HSendOnClosed))"

definition put_writeOut :: "Packet chan \<Rightarrow> conn \<Rightarrow> conn" where "put_writeOut ch c = c\<lparr>c_writeOut := ch\<rparr>"
definition put_readOut :: "Packet chan \<Rightarrow> conn \<Rightarrow> conn" where "put_readOut ch c = c\<lparr>c_readOut := ch\<rparr>"
definition put_writeIn :: "Packet chan \<Rightarrow> conn \<Rightarrow> conn" where "put_writeIn ch c = c\<lparr>c_writeIn := ch\<rparr>"

section \<open>The outside: Read, Write, sendToWriteIn\<close>

text \<open>\<open>Read\<close> forgets the closed channel; a receive from a nil channel never returns.\<close>

definition conn_Read :: "conn \<Rightarrow> Packet outcome hres" where
  "conn_Read c =
     (if c_readOutNil c then HBlock
      else (case buf (c_readOut c) of
              p # ps \<Rightarrow> HRet (Ret p) (c\<lparr>c_readOut := (c_readOut c)\<lparr>buf := ps\<rparr>\<rparr>)
            | [] \<Rightarrow> (if is_closed (c_readOut c) then HRet (Fail EOF) (c\<lparr>c_readOutNil := True\<rparr>) else HBlock)))"

definition conn_Write :: "bool \<Rightarrow> Packet \<Rightarrow> conn \<Rightarrow> unit outcome hres" where
  "conn_Write pick pkt c =
     (if \<not> c_connOK c then HRet (Fail EOF) c
      else (case select_send pick c_writeIn put_writeIn pkt c of
          HRet IOSuccess c' \<Rightarrow> HRet (Ret ()) c'
        | HRet _ c' \<Rightarrow> HRet (Fail EOF) c'
        | HBlock \<Rightarrow> HBlock
        | HPanic p \<Rightarrow> HPanic p
        | HSendOnClosed \<Rightarrow> HSendOnClosed))"

definition sendToWriteIn :: "bool \<Rightarrow> Packet \<Rightarrow> conn \<Rightarrow> unit outcome hres" where
  "sendToWriteIn pick pkt c =
     (case select_send pick c_writeIn put_writeIn pkt c of
        HRet IOSuccess c' \<Rightarrow> HRet (Ret ()) c'
      | HRet _ c' \<Rightarrow> HRet (Fail EOF) c'
      | HBlock \<Rightarrow> HBlock
      | HPanic p \<Rightarrow> HPanic p
      | HSendOnClosed \<Rightarrow> HSendOnClosed)"

section \<open>Reading from and writing to the network\<close>

definition DefaultMaxPacketSize :: nat where
  "DefaultMaxPacketSize = 10 * 1024 * 1024"

definition is_ConnLayer :: "Packet \<Rightarrow> bool" where
  "is_ConnLayer p = (ConnLayer p = Ret True)"

definition fail_packet :: "Packet \<Rightarrow> conn \<Rightarrow> conn" where
  "fail_packet pkt c = c\<lparr>c_failed := map_option (\<lambda>f. f @ [pkt]) (c_failed c)\<rparr>"

text \<open>
  \<open>dowritePkt\<close>: the connection's answer \<open>werr\<close> to the one \<open>Write\<close> that \<open>EncodeToWriter\<close> makes.
\<close>

definition dowritePkt :: "go_error option \<Rightarrow> Packet \<Rightarrow> bool \<Rightarrow> conn \<Rightarrow> unit outcome \<times> conn" where
  "dowritePkt werr pkt record c =
     (case Encode pkt of
        Panic p \<Rightarrow> (Panic p, c)
      | Fail e \<Rightarrow> (Fail e, if record then fail_packet pkt c else c)
      | Ret bs \<Rightarrow>
          (case werr of
             Some e \<Rightarrow> (Fail e, if record then fail_packet pkt c else c)
           | None \<Rightarrow> (Ret (), c\<lparr>c_net := c_net c @ [(pkt, bs)]\<rparr>)))"

text \<open>One turn of \<open>writePkt\<close> with a packet taken from a channel; \<open>None\<close> is a closed channel.\<close>

definition writePkt_turn :: "go_error option \<Rightarrow> Packet option \<Rightarrow> conn \<Rightarrow> unit hres" where
  "writePkt_turn werr got c =
     (case got of
        None \<Rightarrow> HRet () (c\<lparr>c_writing := False\<rparr>)
      | Some pkt \<Rightarrow>
          (case dowritePkt werr pkt (\<not> is_ConnLayer pkt) c of
             (Ret (), c') \<Rightarrow> HRet () c'
           | (Fail e, c') \<Rightarrow> HRet () (c'\<lparr>c_netClosed := True, c_ctxDone := True, c_writing := False\<rparr>)
           | (Panic p, c') \<Rightarrow> HPanic p))"

definition recv :: "(conn \<Rightarrow> Packet chan) \<Rightarrow> (Packet chan \<Rightarrow> conn \<Rightarrow> conn) \<Rightarrow> conn \<Rightarrow> (Packet option \<times> conn) option" where
  "recv get put c =
     (case buf (get c) of
        p # ps \<Rightarrow> Some (Some p, put ((get c)\<lparr>buf := ps\<rparr>) c)
      | [] \<Rightarrow> (if is_closed (get c) then Some (None, c) else None))"

text \<open>One turn of \<open>readPkt\<close> with the result of \<open>DecodeFromReader\<close>.\<close>

definition readPkt_turn :: "Packet outcome \<Rightarrow> conn \<Rightarrow> unit hres" where
  "readPkt_turn got c =
     (case got of
        Panic p \<Rightarrow> HPanic p
      | Fail e \<Rightarrow> HRet () (c\<lparr>c_readIn := ch_close (c_readIn c), c_reading := False\<rparr>)
      | Ret pkt \<Rightarrow>
          (case (Packet_Length pkt, Packet_Type pkt) of
             (Ret n, Ret t) \<Rightarrow>
               (if DefaultMaxPacketSize < n then HRet () c
                else if t = TypeHeartbeatPacket \<or> t = TypeHeartbeatAckPacket then
                  (case ch_send (c_hbIn c) pkt of
                     Sent ch \<Rightarrow> HRet () (c\<lparr>c_hbIn := ch\<rparr>)
                   | OnClosed \<Rightarrow> HSendOnClosed
                   | Full \<Rightarrow>
                       (case ch_send (c_readIn c) pkt of
                          Sent ch \<Rightarrow> HRet () (c\<lparr>c_readIn := ch\<rparr>)
                        | OnClosed \<Rightarrow> HSendOnClosed
                        | Full \<Rightarrow> HBlock))
                else
                  (case ch_send (c_readIn c) pkt of
                     Sent ch \<Rightarrow> HRet () (c\<lparr>c_readIn := ch\<rparr>)
                   | OnClosed \<Rightarrow> HSendOnClosed
                   | Full \<Rightarrow> HBlock))
           | _ \<Rightarrow> HPanic NilDereference))"

section \<open>Close\<close>

text \<open>
  \<open>Close\<close> of either side: once, and only on a connection that is up; the client also cancels its
  heartbeat tick. The base connection calls the side's own.
\<close>

definition ClientConn_Close :: "int \<Rightarrow> conn \<Rightarrow> conn outcome" where
  "ClientConn_Close now c =
     (if c_closeOnce c then Ret c
      else if \<not> c_connOK c then Ret (c\<lparr>c_closeOnce := True\<rparr>)
      else obind (NewDisConnPacket now (c_pf c)) (\<lambda>(pkt, pf).
           Ret (spawn_send (PDisConn pkt) (c\<lparr>c_closeOnce := True, c_pf := pf, c_hbTick := None\<rparr>))))"

definition ServerConn_Close :: "int \<Rightarrow> conn \<Rightarrow> conn outcome" where
  "ServerConn_Close now c =
     (if c_closeOnce c then Ret c
      else if \<not> c_connOK c then Ret (c\<lparr>c_closeOnce := True\<rparr>)
      else obind (NewDisConnPacket now (c_pf c)) (\<lambda>(pkt, pf).
           Ret (spawn_send (PDisConn pkt) (c\<lparr>c_closeOnce := True, c_pf := pf\<rparr>))))"

definition conn_Close :: "int \<Rightarrow> conn \<Rightarrow> conn outcome" where
  "conn_Close now c =
     (case c_side c of InitiatorSide \<Rightarrow> ClientConn_Close now c | RecipientSide \<Rightarrow> ServerConn_Close now c)"

lemma conn_Close_eq:
  "conn_Close now c =
     (if c_closeOnce c then Ret c
      else if \<not> c_connOK c then Ret (c\<lparr>c_closeOnce := True\<rparr>)
      else obind (NewDisConnPacket now (c_pf c)) (\<lambda>(pkt, pf).
           Ret (spawn_send (PDisConn pkt)
             (c\<lparr>c_closeOnce := True, c_pf := pf,
                c_hbTick := (if c_side c = InitiatorSide then None else c_hbTick c)\<rparr>))))"
  by (cases "c_side c") (simp_all add: conn_Close_def ClientConn_Close_def ServerConn_Close_def)

section \<open>Handlers of the close handshake and of outgoing data\<close>

definition handleInDisConnPacket ::
  "(conn_state, conn_event) emitter \<Rightarrow> (conn_state, conn_event) transitions \<Rightarrow> int \<Rightarrow> DisConnPacket \<Rightarrow> conn \<Rightarrow> IORet hres" where
  "handleInDisConnPacket emit T now pkt c =
     (case emit T (c_state c) ET_CLOSERECV of
        None \<Rightarrow> HRet IOErr c
      | Some s \<Rightarrow>
          (let c1 = c\<lparr>c_state := s\<rparr>;
               retPkt = NewDisConnAckPacket (PacketID (dc_hdr pkt)) None
           in (case conn_Close now (spawn_send (PDisConnAck retPkt) c1) of
                 Ret c2 \<Rightarrow> HRet IOSuccess c2
               | Fail e \<Rightarrow> HRet IOErr c1
               | Panic p \<Rightarrow> HPanic p)))"

definition handleInDisConnAckPacket ::
  "(conn_state, conn_event) emitter \<Rightarrow> (conn_state, conn_event) transitions \<Rightarrow> DisConnAckPacket \<Rightarrow> conn \<Rightarrow> IORet hres" where
  "handleInDisConnAckPacket emit T pkt c =
     (case emit T (c_state c) ET_CLOSEACK of
        None \<Rightarrow> HRet IOErr c
      | Some s \<Rightarrow> HRet (if s = CLOSE_HALF then IOSuccess else IOClosed) (c\<lparr>c_state := s\<rparr>))"

definition handleOutDisConnPacket ::
  "(conn_state, conn_event) emitter \<Rightarrow> (conn_state, conn_event) transitions \<Rightarrow> bool \<Rightarrow> DisConnPacket \<Rightarrow> conn \<Rightarrow> IORet hres" where
  "handleOutDisConnPacket emit T pick pkt c =
     (case emit T (c_state c) ET_CLOSESENT of
        None \<Rightarrow> HRet IOErr c
      | Some s \<Rightarrow> select_send pick c_writeOut put_writeOut (PDisConn pkt) (c\<lparr>c_state := s\<rparr>))"

definition handleOutDisConnAckPacket ::
  "(conn_state, conn_event) emitter \<Rightarrow> (conn_state, conn_event) transitions \<Rightarrow> go_error option \<Rightarrow> DisConnAckPacket \<Rightarrow> conn \<Rightarrow> IORet hres" where
  "handleOutDisConnAckPacket emit T werr pkt c =
     (case emit T (c_state c) ET_CLOSEACK of
        None \<Rightarrow> HRet IOErr c
      | Some s \<Rightarrow>
          (case dowritePkt werr (PDisConnAck pkt) False (c\<lparr>c_state := s\<rparr>) of
             (Ret (), c') \<Rightarrow> HRet (if s = CLOSE_HALF then IOSuccess else IOClosed) c'
           | (Fail e, c') \<Rightarrow> HRet IOErr c'
           | (Panic p, c') \<Rightarrow> HPanic p))"

definition handleOutDataPacket :: "bool \<Rightarrow> Packet \<Rightarrow> conn \<Rightarrow> IORet hres" where
  "handleOutDataPacket pick pkt c =
     (if \<not> c_connOK c then HRet IODiscard c
      else select_send pick c_writeOut put_writeOut pkt c)"

end
