(* ===== verification/Conn_Sides.thy ===== *)
theory Conn_Sides
  imports Conn_Base
begin

text \<open>
  The two kinds of connection: \<open>ClientConn\<close> (\<open>conn/conn_client.go\<close>) and \<open>ServerConn\<close>
  (\<open>conn/conn_server.go\<close>), each with its transition table, constructor, handlers of incoming
  and outgoing packets, heartbeat, and \<open>fini\<close>; then one turn of \<open>handlePkt\<close> over either.
\<close>

section \<open>Transition tables\<close>

definition client_events :: "(conn_state, conn_event) transitions" where
  "client_events =
     [(ET_CONNSENT, INIT, CONN_SENT),
      (ET_CONNACK, CONN_SENT, CONNED),
      (ET_CLOSESENT, CONN_SENT, CLOSE_SENT),
      (ET_CLOSESENT, CONNED, CLOSE_SENT),
      (ET_CLOSESENT, CLOSE_RECV, CLOSE_SENT),
      (ET_CLOSESENT, CLOSE_HALF, CLOSE_HALF),
      (ET_CLOSERECV, CONN_SENT, CLOSE_RECV),
      (ET_CLOSERECV, CONNED, CLOSE_RECV),
      (ET_CLOSERECV, CLOSE_SENT, CLOSE_RECV),
      (ET_CLOSERECV, CLOSE_HALF, CLOSE_HALF),
      (ET_CLOSEACK, CLOSE_SENT, CLOSE_HALF),
      (ET_CLOSEACK, CLOSE_RECV, CLOSE_HALF),
      (ET_CLOSEACK, CLOSE_HALF, CLOSED),
      (ET_FINI, INIT, FINI),
      (ET_FINI, CONN_SENT, FINI),
      (ET_FINI, CONNED, FINI),
      (ET_FINI, CLOSE_SENT, FINI),
      (ET_FINI, CLOSE_RECV, FINI),
      (ET_FINI, CLOSE_HALF, FINI),
      (ET_FINI, CLOSED, FINI)]"

text \<open>The server's \<open>closed\<close> state carries the name \<open>FINI\<close>.\<close>

definition server_events :: "(conn_state, conn_event) transitions" where
  "server_events =
     [(ET_CONNRECV, INIT, CONN_RECV),
      (ET_CONNACK, CONN_RECV, CONNED),
      (ET_ERROR, CONN_RECV, CONN_RECV),
      (ET_CLOSESENT, CONN_RECV, CLOSE_SENT),
      (ET_CLOSESENT, CONNED, CLOSE_SENT),
      (ET_CLOSESENT, CLOSE_RECV, CLOSE_SENT),
      (ET_CLOSESENT, CLOSE_HALF, CLOSE_HALF),
      (ET_CLOSERECV, CLOSE_SENT, CLOSE_RECV),
      (ET_CLOSERECV, CONNED, CLOSE_RECV),
      (ET_CLOSERECV, CLOSE_SENT, CLOSE_RECV),
      (ET_CLOSERECV, CLOSE_HALF, CLOSE_HALF),
      (ET_CLOSEACK, CLOSE_SENT, CLOSE_HALF),
      (ET_CLOSEACK, CLOSE_RECV, CLOSE_HALF),
      (ET_CLOSEACK, CLOSE_HALF, FINI),
      (ET_FINI, INIT, FINI),
      (ET_FINI, CONN_RECV, FINI),
      (ET_FINI, CONNED, FINI),
      (ET_FINI, CLOSE_SENT, FINI),
      (ET_FINI, CLOSE_RECV, FINI),
      (ET_FINI, CLOSE_HALF, FINI),
      (ET_FINI, FINI, FINI)]"

definition conn_events :: "side \<Rightarrow> (conn_state, conn_event) transitions" where
  "conn_events s = (case s of InitiatorSide \<Rightarrow> client_events | RecipientSide \<Rightarrow> server_events)"

lemma single_valued_conn: "single_valued_table (conn_events s)"
  by (cases s) (simp_all add: conn_events_def single_valued_table_def client_events_def server_events_def table_next_def)

section \<open>Constructors\<close>

definition new_conn :: "side \<Rightarrow> packetFactory \<Rightarrow> IDCounter \<Rightarrow> nat \<Rightarrow> nat \<Rightarrow> conn" where
  "new_conn sd pf clientIDs readOutSize writeInSize =
     \<lparr>c_side = sd, c_state = INIT, c_clientID = 0, c_meta = [], c_heartbeat = 0, c_connOK = True,
      c_onlined = False, c_closeOnce = False, c_ctxDone = False, c_pf = pf, c_clientIDs = clientIDs,
      c_readIn = make_chan 256, c_writeOut = make_chan 256, c_readOut = make_chan readOutSize, c_readOutNil = False,
      c_writeIn = make_chan writeInSize, c_hbIn = make_chan 10, c_hbOut = make_chan 10, c_failed = None,
      c_sends = [], c_net = [], c_netClosed = False, c_hbTick = None, c_effects = [],
      c_handling = True, c_reading = True, c_writing = True\<rparr>"

text \<open>
  \<open>newClientConn\<close> up to and including the first statement of \<open>connect\<close>: the conn packet is on
  its way to \<open>writeInCh\<close>. The caller then waits for the hub.
\<close>

definition newClientConn ::
  "int \<Rightarrow> packetFactory \<Rightarrow> u64 \<Rightarrow> bytes \<Rightarrow> nat \<Rightarrow> nat \<Rightarrow> (u64 \<times> conn) outcome" where
  "newClientConn now pf clientID meta readOutSize writeInSize =
     (let c = (new_conn InitiatorSide pf (NewIDCounter Inc None) readOutSize writeInSize)
                \<lparr>c_clientID := clientID, c_heartbeat := 20, c_meta := meta, c_hbTick := Some 20\<rparr>
      in obind (NewConnPacket now clientID True 20 meta pf) (\<lambda>(pkt, pf').
         Ret (PacketID (cp_hdr pkt), spawn_send (PConn pkt) (c\<lparr>c_pf := pf'\<rparr>))))"

text \<open>Both constructors on an error of the wait: the network connection is closed and \<open>fini\<close> follows.\<close>

definition setup_failed :: "conn \<Rightarrow> conn" where
  "setup_failed c =
     c\<lparr>c_hbTick := (if c_side c = InitiatorSide then None else c_hbTick c), c_netClosed := True\<rparr>"

definition NewServerConn :: "packetFactory \<Rightarrow> IDCounter \<Rightarrow> Packet list option \<Rightarrow> nat \<Rightarrow> nat \<Rightarrow> conn" where
  "NewServerConn pf clientIDs failedCh readOutSize writeInSize =
     (new_conn RecipientSide pf clientIDs readOutSize writeInSize)\<lparr>c_failed := failedCh\<rparr>"

section \<open>Client handlers\<close>

definition err_of_fsm :: bytes where
  "err_of_fsm = lit ''illegal event''"

text \<open>
  The incoming conn acknowledgement. A nil payload pointer panics where it is read; a decoded
  packet never has one. The error text of the hub when the event is refused is the library's.
\<close>

definition handleInConnAckPacket ::
  "(conn_state, conn_event) emitter \<Rightarrow> int \<Rightarrow> ConnAckPacket \<Rightarrow> conn \<Rightarrow> IORet hres" where
  "handleInConnAckPacket emit now pkt c =
     (case ca_ConnData pkt of
        None \<Rightarrow> HPanic NilDereference
      | Some d \<Rightarrow>
          (case emit client_events (c_state c) ET_CONNACK of
             None \<Rightarrow> HRet IOErr (effect (SyncError (OfPacket (PacketID (ca_hdr pkt))) err_of_fsm) c)
           | Some s \<Rightarrow>
               (let c1 = c\<lparr>c_state := s, c_clientID := ca_ClientID pkt\<rparr> in
                if cd_Error d \<noteq> [] then
                  (case NewDisConnPacket now (c_pf c1) of
                     Ret (retPkt, pf) \<Rightarrow>
                       HRet IOSuccess
                         (spawn_send (PDisConn retPkt)
                           (effect (SyncError (OfPacket (PacketID (ca_hdr pkt))) (cd_Error d)) (c1\<lparr>c_pf := pf\<rparr>)))
                   | Fail e \<Rightarrow> HRet IOErr c1
                   | Panic p \<Rightarrow> HPanic p)
                else HRet IOSuccess
                  (effect (SyncDone (OfPacket (PacketID (ca_hdr pkt)))) (c1\<lparr>c_onlined := True\<rparr>)))))"

definition handleInHeartbeatAckPacket :: "HeartbeatAckPacket \<Rightarrow> conn \<Rightarrow> IORet hres" where
  "handleInHeartbeatAckPacket pkt c = (if c_state c = CONNED then HRet IOSuccess c else HRet IOErr c)"

definition client_handleInDataPacket :: "bool \<Rightarrow> Packet \<Rightarrow> conn \<Rightarrow> IORet hres" where
  "client_handleInDataPacket pick pkt c =
     (if c_state c = CONNED then select_send pick c_readOut put_readOut pkt c else HRet IODiscard c)"

definition handleOutConnPacket ::
  "(conn_state, conn_event) emitter \<Rightarrow> bool \<Rightarrow> ConnPacket \<Rightarrow> conn \<Rightarrow> IORet hres" where
  "handleOutConnPacket emit pick pkt c =
     (case emit client_events (c_state c) ET_CONNSENT of
        None \<Rightarrow> HRet IOErr (effect (SyncError (OfPacket (PacketID (cp_hdr pkt))) err_of_fsm) c)
      | Some s \<Rightarrow> select_send pick c_writeOut put_writeOut (PConn pkt) (c\<lparr>c_state := s\<rparr>))"

definition handleOutHeartbeatPacket :: "bool \<Rightarrow> HeartbeatPacket \<Rightarrow> conn \<Rightarrow> IORet hres" where
  "handleOutHeartbeatPacket pick pkt c =
     (case ch_send (c_hbOut c) (PHeartbeat pkt) of
        Sent ch \<Rightarrow> HRet IOSuccess (c\<lparr>c_hbOut := ch\<rparr>)
      | OnClosed \<Rightarrow> HSendOnClosed
      | Full \<Rightarrow> select_send pick c_writeOut put_writeOut (PHeartbeat pkt) c)"

text \<open>The timer's callback; its send waits like a goroutine of its own.\<close>

definition sendHeartbeat :: "int \<Rightarrow> conn \<Rightarrow> conn outcome" where
  "sendHeartbeat now c =
     (if \<not> c_connOK c then Ret c
      else obind (NewHeartbeatPacket now (c_pf c)) (\<lambda>(pkt, pf).
           Ret (spawn_send (PHeartbeat pkt) (c\<lparr>c_pf := pf\<rparr>))))"

section \<open>Server handlers\<close>

text \<open>
  The delegate's answers: \<open>GetClientID\<close> returns an id and an error text, \<open>ConnOnline\<close> an error
  text.
\<close>

record server_delegate =
  GetClientID :: "u64 \<Rightarrow> bytes \<Rightarrow> u64 \<times> bytes option"
  ConnOnline :: "u64 \<Rightarrow> bytes \<Rightarrow> bytes option"

definition resetHeartbeatTimeout :: "conn \<Rightarrow> conn" where
  "resetHeartbeatTimeout c = (if \<not> c_connOK c then c else c\<lparr>c_hbTick := Some (c_heartbeat c * 2)\<rparr>)"

text \<open>The choice of the client id: the delegate's, the counter's when that is 0, or the peer's own.\<close>

definition choose_clientID ::
  "server_delegate option \<Rightarrow> int \<Rightarrow> ConnPacket \<Rightarrow> conn \<Rightarrow> (bytes option \<times> conn) outcome" where
  "choose_clientID dlgt now pkt c =
     (if clientIDAcquire (cp_flags pkt) then
        (let (i, err) = (case dlgt of None \<Rightarrow> (c_clientID c, None) | Some d \<Rightarrow> GetClientID d (cp_ClientID pkt) (c_meta c));
             c1 = c\<lparr>c_clientID := i\<rparr>
         in if i = 0 \<and> err = None then
              obind (GetIDByMeta now (c_meta c1) (c_clientIDs c1)) (\<lambda>(j, ctr).
              Ret (None, c1\<lparr>c_clientID := j, c_clientIDs := ctr\<rparr>))
            else Ret (err, c1))
      else Ret (None, c\<lparr>c_clientID := cp_ClientID pkt\<rparr>))"

definition handleInConnPacket ::
  "(conn_state, conn_event) emitter \<Rightarrow> server_delegate option \<Rightarrow> int \<Rightarrow> ConnPacket \<Rightarrow> conn \<Rightarrow> IORet hres" where
  "handleInConnPacket emit dlgt now pkt c =
     (case cp_ConnData pkt of
        None \<Rightarrow> HPanic NilDereference
      | Some d \<Rightarrow>
          (case emit server_events (c_state c) ET_CONNRECV of
             None \<Rightarrow> HRet IOErr (effect (SyncError OfAddrs err_of_fsm) c)
           | Some s \<Rightarrow>
               (case choose_clientID dlgt now pkt (c\<lparr>c_state := s, c_meta := cd_Meta d\<rparr>) of
                  Panic p \<Rightarrow> HPanic p
                | Fail e \<Rightarrow> HRet IOErr c
                | Ret (Some err, c1) \<Rightarrow>
                    HRet IOSuccess
                      (spawn_send (PConnAck (NewConnAckPacket (PacketID (cp_hdr pkt)) (c_clientID c1) (Some err))) c1)
                | Ret (None, c1) \<Rightarrow>
                    (let c2 = (case dlgt of None \<Rightarrow> c1 | Some _ \<Rightarrow> effect (DlgtOnline (c_clientID c1)) c1);
                         online = (case dlgt of None \<Rightarrow> None | Some dl \<Rightarrow> ConnOnline dl (c_clientID c1) (c_meta c1))
                     in (case online of
                           Some err \<Rightarrow>
                             HRet IOSuccess
                               (spawn_send (PConnAck (NewConnAckPacket (PacketID (cp_hdr pkt)) (c_clientID c2) (Some err))) c2)
                         | None \<Rightarrow>
                             HRet IOSuccess
                               (resetHeartbeatTimeout
                                 ((spawn_send (PConnAck (NewConnAckPacket (PacketID (cp_hdr pkt)) (c_clientID c2) None))
                                    (effect (SyncDone OfAddrs) c2))\<lparr>c_heartbeat := Heartbeat (cp_flags pkt)\<rparr>)))))))"

definition handleInHeartbeatPacket :: "bool \<Rightarrow> HeartbeatPacket \<Rightarrow> conn \<Rightarrow> IORet hres" where
  "handleInHeartbeatPacket has_dlgt pkt c =
     (if c_state c \<noteq> CONNED then HRet IODiscard c
      else
        (let c1 = resetHeartbeatTimeout c;
             retPkt = PHeartbeatAck (NewHeartbeatAckPacket (PacketID (hb_hdr pkt)));
             notify = (\<lambda>c. if has_dlgt then effect (DlgtHeartbeat (c_clientID c)) c else c)
         in (case ch_send (c_hbOut c1) retPkt of
               Sent ch \<Rightarrow> HRet IOSuccess (notify (c1\<lparr>c_hbOut := ch\<rparr>))
             | OnClosed \<Rightarrow> HSendOnClosed
             | Full \<Rightarrow>
                 (case ch_send (c_writeOut c1) retPkt of
                    Sent ch \<Rightarrow> HRet IOSuccess (notify (c1\<lparr>c_writeOut := ch\<rparr>))
                  | OnClosed \<Rightarrow> HSendOnClosed
                  | Full \<Rightarrow> HBlock))))"

definition server_handleInDataPacket :: "bool \<Rightarrow> Packet \<Rightarrow> conn \<Rightarrow> IORet hres" where
  "server_handleInDataPacket pick pkt c =
     (if c_state c = CONNED then select_send pick c_readOut put_readOut pkt (resetHeartbeatTimeout c)
      else HRet IODiscard (fail_packet pkt c))"

text \<open>On an error acknowledgement the transition's callback closes the connection.\<close>

definition handleOutConnAckPacket ::
  "(conn_state, conn_event) emitter \<Rightarrow> bool \<Rightarrow> int \<Rightarrow> ConnAckPacket \<Rightarrow> conn \<Rightarrow> IORet hres" where
  "handleOutConnAckPacket emit pick now pkt c =
     (if ca_RetCode pkt = RetCodeERR then
        (case emit server_events (c_state c) ET_ERROR of
           None \<Rightarrow> HRet IOErr c
         | Some s \<Rightarrow>
             (case conn_Close now (c\<lparr>c_state := s\<rparr>) of
                Ret c1 \<Rightarrow> select_send pick c_writeOut put_writeOut (PConnAck pkt) c1
              | Fail e \<Rightarrow> HRet IOErr c
              | Panic p \<Rightarrow> HPanic p))
      else
        (case emit server_events (c_state c) ET_CONNACK of
           None \<Rightarrow> HRet IOErr c
         | Some s \<Rightarrow>
             (case select_send pick c_writeOut put_writeOut (PConnAck pkt) (c\<lparr>c_state := s\<rparr>) of
                HRet IOSuccess c1 \<Rightarrow> HRet IOSuccess (c1\<lparr>c_onlined := True\<rparr>)
              | r \<Rightarrow> r)))"

text \<open>\<open>waitHBTimeout\<close> on an event of the timer: closed or never started timers are ignored.\<close>

datatype timer_error = ErrTimerForceClosed | ErrTimerNotStarted | ErrTimerOther

definition waitHBTimeout :: "timer_error option \<Rightarrow> int \<Rightarrow> conn \<Rightarrow> conn outcome" where
  "waitHBTimeout err now c =
     (if err = Some ErrTimerForceClosed \<or> err = Some ErrTimerNotStarted then Ret c else conn_Close now c)"

section \<open>Dispatch\<close>

text \<open>What the connection is set up with and what the environment answers during a turn.\<close>

record conn_env =
  e_emit :: "(conn_state, conn_event) emitter"
  e_server_dlgt :: "server_delegate option"
  e_client_dlgt :: bool

record turn =
  t_now :: int
  t_pick :: bool
  t_werr :: "go_error option"

definition client_handleIn :: "conn_env \<Rightarrow> turn \<Rightarrow> Packet \<Rightarrow> conn \<Rightarrow> IORet hres" where
  "client_handleIn env t pkt c =
     (case pkt of
        PConnAck p \<Rightarrow> handleInConnAckPacket (e_emit env) (t_now t) p c
      | PDisConn p \<Rightarrow> handleInDisConnPacket (e_emit env) client_events (t_now t) p c
      | PDisConnAck p \<Rightarrow> handleInDisConnAckPacket (e_emit env) client_events p c
      | PHeartbeatAck p \<Rightarrow> handleInHeartbeatAckPacket p c
      | _ \<Rightarrow> client_handleInDataPacket (t_pick t) pkt c)"

definition client_handleOut :: "conn_env \<Rightarrow> turn \<Rightarrow> Packet \<Rightarrow> conn \<Rightarrow> IORet hres" where
  "client_handleOut env t pkt c =
     (case pkt of
        PConn p \<Rightarrow> handleOutConnPacket (e_emit env) (t_pick t) p c
      | PDisConn p \<Rightarrow> handleOutDisConnPacket (e_emit env) client_events (t_pick t) p c
      | PDisConnAck p \<Rightarrow> handleOutDisConnAckPacket (e_emit env) client_events (t_werr t) p c
      | PHeartbeat p \<Rightarrow> handleOutHeartbeatPacket (t_pick t) p c
      | _ \<Rightarrow> handleOutDataPacket (t_pick t) pkt c)"

definition server_handleIn :: "conn_env \<Rightarrow> turn \<Rightarrow> Packet \<Rightarrow> conn \<Rightarrow> IORet hres" where
  "server_handleIn env t pkt c =
     (case pkt of
        PConn p \<Rightarrow> handleInConnPacket (e_emit env) (e_server_dlgt env) (t_now t) p c
      | PDisConn p \<Rightarrow> handleInDisConnPacket (e_emit env) server_events (t_now t) p c
      | PDisConnAck p \<Rightarrow> handleInDisConnAckPacket (e_emit env) server_events p c
      | PHeartbeat p \<Rightarrow> handleInHeartbeatPacket (e_server_dlgt env \<noteq> None) p c
      | _ \<Rightarrow> server_handleInDataPacket (t_pick t) pkt c)"

definition server_handleOut :: "conn_env \<Rightarrow> turn \<Rightarrow> Packet \<Rightarrow> conn \<Rightarrow> IORet hres" where
  "server_handleOut env t pkt c =
     (case pkt of
        PConnAck p \<Rightarrow> handleOutConnAckPacket (e_emit env) (t_pick t) (t_now t) p c
      | PDisConn p \<Rightarrow> handleOutDisConnPacket (e_emit env) server_events (t_pick t) p c
      | PDisConnAck p \<Rightarrow> handleOutDisConnAckPacket (e_emit env) server_events (t_werr t) p c
      | _ \<Rightarrow> handleOutDataPacket (t_pick t) pkt c)"

definition handleIn :: "conn_env \<Rightarrow> turn \<Rightarrow> Packet \<Rightarrow> conn \<Rightarrow> IORet hres" where
  "handleIn env t pkt c =
     (case c_side c of InitiatorSide \<Rightarrow> client_handleIn env t pkt c | RecipientSide \<Rightarrow> server_handleIn env t pkt c)"

definition handleOut :: "conn_env \<Rightarrow> turn \<Rightarrow> Packet \<Rightarrow> conn \<Rightarrow> IORet hres" where
  "handleOut env t pkt c =
     (case c_side c of InitiatorSide \<Rightarrow> client_handleOut env t pkt c | RecipientSide \<Rightarrow> server_handleOut env t pkt c)"

section \<open>The end of a connection\<close>

definition fail_all :: "Packet list \<Rightarrow> conn \<Rightarrow> conn" where
  "fail_all ps c = fold (\<lambda>p c. if is_ConnLayer p then c else fail_packet p c) ps c"

text \<open>
  \<open>fini\<close>: the tick and the network connection go, the context is cancelled, queued packets go to
  the failed-packet channel, and every channel but \<open>writeInCh\<close> is closed.
\<close>

definition client_fini :: "conn_env \<Rightarrow> conn \<Rightarrow> conn" where
  "client_fini env c =
     (let c1 = c\<lparr>c_hbTick := None, c_netClosed := True, c_connOK := False, c_ctxDone := True\<rparr>;
          c2 = (fail_all (buf (c_writeIn c1)) c1)\<lparr>c_writeIn := (c_writeIn c1)\<lparr>buf := []\<rparr>\<rparr>;
          c3 = c2\<lparr>c_readOut := ch_close (c_readOut c2)\<rparr>;
          c4 = (fail_all (buf (c_writeOut c3)) c3)\<lparr>c_writeOut := ch_close ((c_writeOut c3)\<lparr>buf := []\<rparr>)\<rparr>;
          c5 = c4\<lparr>c_state := (case e_emit env client_events (c_state c4) ET_FINI of None \<Rightarrow> c_state c4 | Some s \<Rightarrow> s)\<rparr>
      in c5\<lparr>c_hbIn := ch_close (c_hbIn c5), c_hbOut := ch_close (c_hbOut c5)\<rparr>)"

definition server_fini :: "conn_env \<Rightarrow> conn \<Rightarrow> conn" where
  "server_fini env c =
     (let c0 = effect (SyncError OfAddrs (lit ''connection closed'')) c;
          c1 = c0\<lparr>c_hbTick := None, c_netClosed := True, c_connOK := False, c_ctxDone := True\<rparr>;
          c2 = (fail_all (buf (c_writeIn c1)) c1)\<lparr>c_writeIn := (c_writeIn c1)\<lparr>buf := []\<rparr>\<rparr>;
          c3 = c2\<lparr>c_readOut := ch_close (c_readOut c2)\<rparr>;
          c4 = (fail_all (buf (c_writeOut c3)) c3)\<lparr>c_writeOut := ch_close ((c_writeOut c3)\<lparr>buf := []\<rparr>)\<rparr>;
          c5 = c4\<lparr>c_state := (case e_emit env server_events (c_state c4) ET_FINI of None \<Rightarrow> c_state c4 | Some s \<Rightarrow> s)\<rparr>
      in c5\<lparr>c_hbIn := ch_close (c_hbIn c5), c_hbOut := ch_close (c_hbOut c5)\<rparr>)"

text \<open>What follows the loop of \<open>handlePkt\<close>: the delegate is told, then \<open>fini\<close>.\<close>

definition client_handlePkt_end :: "conn_env \<Rightarrow> conn \<Rightarrow> conn" where
  "client_handlePkt_end env c =
     (let c1 = (if e_client_dlgt env \<and> c_clientID c \<noteq> 0 then effect (DlgtOffline (c_clientID c)) c else c)
      in (client_fini env c1)\<lparr>c_handling := False\<rparr>)"

definition server_handlePkt_end :: "conn_env \<Rightarrow> conn \<Rightarrow> conn" where
  "server_handlePkt_end env c =
     (let c1 = (if e_server_dlgt env \<noteq> None \<and> c_onlined c then effect (DlgtOffline (c_clientID c)) c else c)
      in (server_fini env c1)\<lparr>c_handling := False\<rparr>)"

definition handlePkt_end :: "side \<Rightarrow> conn_env \<Rightarrow> conn \<Rightarrow> conn" where
  "handlePkt_end sd env c =
     (case sd of InitiatorSide \<Rightarrow> client_handlePkt_end env c | RecipientSide \<Rightarrow> server_handlePkt_end env c)"

text \<open>One turn of \<open>handlePkt\<close> with a packet from \<open>heartbeatCh\<close> or \<open>readInCh\<close>, or from \<open>writeInCh\<close>.\<close>

datatype source = FromIn | FromOut

definition client_handlePkt :: "conn_env \<Rightarrow> turn \<Rightarrow> source \<Rightarrow> Packet \<Rightarrow> conn \<Rightarrow> unit hres" where
  "client_handlePkt env t src pkt c =
     (case (case src of FromIn \<Rightarrow> client_handleIn env t pkt c | FromOut \<Rightarrow> client_handleOut env t pkt c) of
        HRet ret c1 \<Rightarrow>
          (if ret = IOErr then HRet () (client_handlePkt_end env c1)
           else if ret = IOClosed then HRet () (client_handlePkt_end env c1)
           else HRet () c1)
      | HBlock \<Rightarrow> HBlock
      | HPanic p \<Rightarrow> HPanic p
      | HSendOnClosed \<Rightarrow> HSendOnClosed)"

definition server_handlePkt :: "conn_env \<Rightarrow> turn \<Rightarrow> source \<Rightarrow> Packet \<Rightarrow> conn \<Rightarrow> unit hres" where
  "server_handlePkt env t src pkt c =
     (case (case src of FromIn \<Rightarrow> server_handleIn env t pkt c | FromOut \<Rightarrow> server_handleOut env t pkt c) of
        HRet ret c1 \<Rightarrow>
          (if ret = IOErr then HRet () (server_handlePkt_end env c1)
           else if ret = IOClosed then HRet () (server_handlePkt_end env c1)
           else HRet () c1)
      | HBlock \<Rightarrow> HBlock
      | HPanic p \<Rightarrow> HPanic p
      | HSendOnClosed \<Rightarrow> HSendOnClosed)"

definition handlePkt_turn :: "conn_env \<Rightarrow> turn \<Rightarrow> source \<Rightarrow> Packet \<Rightarrow> conn \<Rightarrow> unit hres" where
  "handlePkt_turn env t src pkt c =
     (case c_side c of
        InitiatorSide \<Rightarrow> client_handlePkt env t src pkt c
      | RecipientSide \<Rightarrow> server_handlePkt env t src pkt c)"

lemma handlePkt_turn_eq:
  "handlePkt_turn env t src pkt c =
     (case (case src of FromIn \<Rightarrow> handleIn env t pkt c | FromOut \<Rightarrow> handleOut env t pkt c) of
        HRet ret c1 \<Rightarrow>
          (if ret = IOErr \<or> ret = IOClosed then HRet () (handlePkt_end (c_side c) env c1) else HRet () c1)
      | HBlock \<Rightarrow> HBlock
      | HPanic p \<Rightarrow> HPanic p
      | HSendOnClosed \<Rightarrow> HSendOnClosed)"
  by (cases "c_side c"; cases src)
    (auto simp: handlePkt_turn_def client_handlePkt_def server_handlePkt_def handleIn_def handleOut_def handlePkt_end_def
      split: gres.splits)

end
