(* ===== verification/Conn_System.thy ===== *)
theory Conn_System
  imports Conn_Sides "HOL-Library.Sublist"
begin

text \<open>
  A connection as a whole: every turn its goroutines, its timer and its callers can take is an
  operation, reachable states are what any interleaving of them leads to, and the invariants hold
  for all of them. A turn that blocks is retried from its start. The lemmas give the order of
  packets on the wire, the closing of channels, and what a finished connection leaves behind.
\<close>

section \<open>Turns\<close>

datatype conn_op =
    Reader "Packet outcome"
  | HandleHb turn
  | HandleIn turn
  | HandleOut turn
  | WriterHb "go_error option"
  | Writer "go_error option"
  | Sender bool nat
  | UserWrite bool Packet
  | UserRead
  | UserClose int
  | Tick int
  | HBTimeout "timer_error option" int
  | SetupFailed

definition put_hbIn :: "Packet chan \<Rightarrow> conn \<Rightarrow> conn" where "put_hbIn ch c = c\<lparr>c_hbIn := ch\<rparr>"
definition put_hbOut :: "Packet chan \<Rightarrow> conn \<Rightarrow> conn" where "put_hbOut ch c = c\<lparr>c_hbOut := ch\<rparr>"
definition put_readIn :: "Packet chan \<Rightarrow> conn \<Rightarrow> conn" where "put_readIn ch c = c\<lparr>c_readIn := ch\<rparr>"

fun conn_turn :: "conn_env \<Rightarrow> conn_op \<Rightarrow> conn \<Rightarrow> unit hres" where
  "conn_turn env (Reader got) c = (if c_reading c then readPkt_turn got c else HBlock)"
| "conn_turn env (HandleHb t) c =
     (if c_handling c then
        (case recv c_hbIn put_hbIn c of
           Some (Some p, c') \<Rightarrow> handlePkt_turn env t FromIn p c'
         | _ \<Rightarrow> HBlock)
      else HBlock)"
| "conn_turn env (HandleIn t) c =
     (if c_handling c then
        (case recv c_readIn put_readIn c of
           Some (Some p, c') \<Rightarrow> handlePkt_turn env t FromIn p c'
         | Some (None, c') \<Rightarrow> HRet () (handlePkt_end (c_side c) env c')
         | None \<Rightarrow> HBlock)
      else HBlock)"
| "conn_turn env (HandleOut t) c =
     (if c_handling c then
        (case recv c_writeIn put_writeIn c of
           Some (Some p, c') \<Rightarrow> handlePkt_turn env t FromOut p c'
         | Some (None, c') \<Rightarrow> HRet () (handlePkt_end (c_side c) env c')
         | None \<Rightarrow> HBlock)
      else HBlock)"
| "conn_turn env (WriterHb werr) c =
     (if c_writing c then
        (case recv c_hbOut put_hbOut c of Some (got, c') \<Rightarrow> writePkt_turn werr got c' | None \<Rightarrow> HBlock)
      else HBlock)"
| "conn_turn env (Writer werr) c =
     (if c_writing c then
        (case recv c_writeOut put_writeOut c of Some (got, c') \<Rightarrow> writePkt_turn werr got c' | None \<Rightarrow> HBlock)
      else HBlock)"
| "conn_turn env (Sender pick i) c =
     (if i < length (c_sends c) then
        forget (sendToWriteIn pick (c_sends c ! i) (c\<lparr>c_sends := take i (c_sends c) @ drop (Suc i) (c_sends c)\<rparr>))
      else HBlock)"
| "conn_turn env (UserWrite pick pkt) c = forget (conn_Write pick pkt c)"
| "conn_turn env UserRead c = forget (conn_Read c)"
| "conn_turn env (UserClose now) c = of_outcome (conn_Close now c)"
| "conn_turn env (Tick now) c =
     (if c_side c = InitiatorSide \<and> c_hbTick c \<noteq> None then of_outcome (sendHeartbeat now c) else HBlock)"
| "conn_turn env (HBTimeout err now) c =
     (if c_side c = RecipientSide then of_outcome (waitHBTimeout err now c) else HBlock)"
| "conn_turn env SetupFailed c = HRet () (setup_failed c)"

text \<open>Packets of the layers above, and the writes a turn accepts from them.\<close>

definition is_user :: "Packet \<Rightarrow> bool" where
  "is_user p =
     (case p of PConn _ \<Rightarrow> False | PConnAck _ \<Rightarrow> False | PDisConn _ \<Rightarrow> False | PDisConnAck _ \<Rightarrow> False
      | PHeartbeat _ \<Rightarrow> False | PHeartbeatAck _ \<Rightarrow> False | _ \<Rightarrow> True)"

fun accepted :: "conn_op \<Rightarrow> conn \<Rightarrow> Packet list" where
  "accepted (UserWrite pick pkt) c =
     (case conn_Write pick pkt c of HRet (Ret ()) _ \<Rightarrow> [pkt] | _ \<Rightarrow> [])"
| "accepted op c = []"

text \<open>A run: the writes accepted so far and the state.\<close>

inductive conn_run :: "conn_env \<Rightarrow> conn \<Rightarrow> Packet list \<Rightarrow> conn \<Rightarrow> bool" for env c0 where
  start: "conn_run env c0 [] c0"
| turn: "conn_run env c0 acc c \<Longrightarrow> conn_turn env op c = HRet () c' \<Longrightarrow> conn_run env c0 (acc @ accepted op c) c'"

section \<open>What handlers keep\<close>

definition kept :: "conn \<Rightarrow> conn \<Rightarrow> bool" where
  "kept c c' \<longleftrightarrow>
     c_handling c' = c_handling c \<and> c_reading c' = c_reading c \<and> c_writing c' = c_writing c
   \<and> c_connOK c' = c_connOK c \<and> c_ctxDone c' = c_ctxDone c \<and> c_side c' = c_side c
   \<and> c_readIn c' = c_readIn c \<and> c_writeIn c' = c_writeIn c \<and> c_hbIn c' = c_hbIn c
   \<and> evolves (c_readOut c) (c_readOut c') \<and> evolves (c_writeOut c) (c_writeOut c')
   \<and> evolves (c_hbOut c) (c_hbOut c')"

definition on_wire :: "conn \<Rightarrow> Packet list" where
  "on_wire c = filter is_user (map fst (c_net c))"

definition to_write :: "conn \<Rightarrow> Packet list" where
  "to_write c = filter is_user (buf (c_writeOut c))"

lemma select_send_cases:
  assumes "select_send pick get put pkt c = HRet ret c'"
  shows "(ret = IOClosed \<and> c' = c \<and> c_ctxDone c) \<or> (ret = IOSuccess \<and> (\<exists>ch. ch_send (get c) pkt = Sent ch \<and> c' = put ch c))"
  using assms by (auto simp: select_send_def split: send_result.splits if_splits)

lemma conn_Close_kept:
  "conn_Close now c = Ret c' \<Longrightarrow> kept c c' \<and> on_wire c' = on_wire c \<and> to_write c' = to_write c"
  by (auto simp: conn_Close_eq kept_def on_wire_def to_write_def spawn_send_def obind_Ret_iff split: if_splits)

lemmas keep_simps = kept_def on_wire_def to_write_def spawn_send_def effect_def put_writeOut_def put_readOut_def
  fail_packet_def resetHeartbeatTimeout_def is_user_def

lemma choose_clientID_kept:
  "choose_clientID dlgt now pkt c = Ret (err, c') \<Longrightarrow> kept c c' \<and> on_wire c' = on_wire c \<and> to_write c' = to_write c"
  by (auto simp: choose_clientID_def Let_def keep_simps obind_Ret_iff split: if_splits option.splits prod.splits)



definition same :: "conn \<Rightarrow> conn \<Rightarrow> bool" where
  "same c c' \<longleftrightarrow> kept c c' \<and> on_wire c' = on_wire c \<and> to_write c' = to_write c"

lemma kept_trans: "kept a b \<Longrightarrow> kept b c \<Longrightarrow> kept a c"
  by (auto simp: kept_def evolves_def)

lemma same_trans: "same a b \<Longrightarrow> same b c \<Longrightarrow> same a c"
  using kept_trans by (auto simp: same_def)

lemma same_refl [simp]: "same c c"
  by (simp add: same_def kept_def)

text \<open>Updates that none of this depends on.\<close>

lemma same_upd [simp]:
  "same (x\<lparr>c_state := s\<rparr>) y \<longleftrightarrow> same x y"
  "same (x\<lparr>c_clientID := i\<rparr>) y \<longleftrightarrow> same x y"
  "same (x\<lparr>c_meta := m\<rparr>) y \<longleftrightarrow> same x y"
  "same (x\<lparr>c_pf := pf\<rparr>) y \<longleftrightarrow> same x y"
  "same (x\<lparr>c_onlined := b\<rparr>) y \<longleftrightarrow> same x y"
  "same (x\<lparr>c_heartbeat := h\<rparr>) y \<longleftrightarrow> same x y"
  "same (x\<lparr>c_clientIDs := ctr\<rparr>) y \<longleftrightarrow> same x y"
  "same (x\<lparr>c_hbTick := tk\<rparr>) y \<longleftrightarrow> same x y"
  "same (x\<lparr>c_sends := ss\<rparr>) y \<longleftrightarrow> same x y"
  "same (spawn_send p x) y \<longleftrightarrow> same x y"
  "same (effect e x) y \<longleftrightarrow> same x y"
  "same (fail_packet p x) y \<longleftrightarrow> same x y"
  "same (resetHeartbeatTimeout x) y \<longleftrightarrow> same x y"
  "same y (x\<lparr>c_state := s\<rparr>) \<longleftrightarrow> same y x"
  "same y (x\<lparr>c_clientID := i\<rparr>) \<longleftrightarrow> same y x"
  "same y (x\<lparr>c_meta := m\<rparr>) \<longleftrightarrow> same y x"
  "same y (x\<lparr>c_pf := pf\<rparr>) \<longleftrightarrow> same y x"
  "same y (x\<lparr>c_onlined := b\<rparr>) \<longleftrightarrow> same y x"
  "same y (x\<lparr>c_heartbeat := h\<rparr>) \<longleftrightarrow> same y x"
  "same y (x\<lparr>c_clientIDs := ctr\<rparr>) \<longleftrightarrow> same y x"
  "same y (x\<lparr>c_hbTick := tk\<rparr>) \<longleftrightarrow> same y x"
  "same y (x\<lparr>c_sends := ss\<rparr>) \<longleftrightarrow> same y x"
  "same y (spawn_send p x) \<longleftrightarrow> same y x"
  "same y (effect e x) \<longleftrightarrow> same y x"
  "same y (fail_packet p x) \<longleftrightarrow> same y x"
  "same y (resetHeartbeatTimeout x) \<longleftrightarrow> same y x"
  by (simp_all add: same_def keep_simps)

lemma same_put:
  "ch_send (c_readOut c) p = Sent ch \<Longrightarrow> same c (put_readOut ch c)"
  "ch_send (c_hbOut c) p = Sent ch \<Longrightarrow> same c (c\<lparr>c_hbOut := ch\<rparr>)"
  "ch_send (c_writeOut c) p = Sent ch \<Longrightarrow> \<not> is_user p \<Longrightarrow> same c (put_writeOut ch c)"
  by (auto simp: same_def kept_def on_wire_def to_write_def put_readOut_def put_writeOut_def dest: evolves_send)

lemma same_select:
  "select_send pick c_readOut put_readOut p c = HRet ret c' \<Longrightarrow> same c c'"
  "select_send pick c_writeOut put_writeOut p c = HRet ret c' \<Longrightarrow> \<not> is_user p \<Longrightarrow> same c c'"
  by (auto dest!: select_send_cases simp: same_put)

lemma same_Close: "conn_Close now c = Ret c' \<Longrightarrow> same c c'"
  using conn_Close_kept by (simp add: same_def)

lemma same_choose: "choose_clientID dlgt now pkt c = Ret (err, c') \<Longrightarrow> same c c'"
  using choose_clientID_kept by (simp add: same_def)

lemma same_dowrite: "dowritePkt werr (PDisConnAck p) False c = (r, c') \<Longrightarrow> same c c'"
  by (auto simp: dowritePkt_def same_def kept_def on_wire_def to_write_def is_user_def split: outcome.splits option.splits)

lemma same_in_base:
  "handleInDisConnPacket emit T now dp c = HRet ret c' \<Longrightarrow> same c c'"
  "handleInDisConnAckPacket emit T da c = HRet ret c' \<Longrightarrow> same c c'"
  "handleOutDisConnPacket emit T pick dp c = HRet ret c' \<Longrightarrow> same c c'"
  "handleOutDisConnAckPacket emit T werr da c = HRet ret c' \<Longrightarrow> same c c'"
  by (auto simp: handleInDisConnPacket_def handleInDisConnAckPacket_def handleOutDisConnPacket_def
      handleOutDisConnAckPacket_def Let_def is_user_def
      split: option.splits outcome.splits prod.splits unit.splits
      dest!: same_Close same_select(2) same_dowrite)

lemma same_in_client:
  "handleInConnAckPacket emit now ca c = HRet ret c' \<Longrightarrow> same c c'"
  "handleInHeartbeatAckPacket ha c = HRet ret c' \<Longrightarrow> same c c'"
  "client_handleInDataPacket pick pkt c = HRet ret c' \<Longrightarrow> same c c'"
  "handleOutConnPacket emit pick cp c = HRet ret c' \<Longrightarrow> same c c'"
  by (auto simp: handleInConnAckPacket_def handleInHeartbeatAckPacket_def client_handleInDataPacket_def
      handleOutConnPacket_def Let_def is_user_def
      split: option.splits outcome.splits prod.splits if_splits
      dest!: same_select)

lemma same_out_heartbeat: "handleOutHeartbeatPacket pick hb c = HRet ret c' \<Longrightarrow> same c c'"
  by (auto simp: handleOutHeartbeatPacket_def is_user_def split: send_result.splits
      dest!: same_select(2) intro: same_put)

lemma same_in_server:
  "handleInConnPacket emit dlgt now cp c = HRet ret c' \<Longrightarrow> same c c'"
  "handleInHeartbeatPacket d hb c = HRet ret c' \<Longrightarrow> same c c'"
  "server_handleInDataPacket pick pkt c = HRet ret c' \<Longrightarrow> same c c'"
  "handleOutConnAckPacket emit pick now ca c = HRet ret c' \<Longrightarrow> same c c'"
proof -
  assume "handleInConnPacket emit dlgt now cp c = HRet ret c'"
  then show "same c c'"
    by (auto simp: handleInConnPacket_def Let_def split: option.splits outcome.splits prod.splits
        dest!: same_choose)
next
  assume h: "handleInHeartbeatPacket d hb c = HRet ret c'"
  have w: "ch_send (c_writeOut x) (PHeartbeatAck p) = Sent ch \<Longrightarrow> same x (x\<lparr>c_writeOut := ch\<rparr>)" for x p ch
    using same_put(3) [of x "PHeartbeatAck p" ch] by (simp add: is_user_def put_writeOut_def)
  show "same c c'" using h
    by (auto simp: handleInHeartbeatPacket_def Let_def split: if_splits send_result.splits
        dest!: same_put(2) w)
next
  assume "server_handleInDataPacket pick pkt c = HRet ret c'"
  then show "same c c'"
    by (auto simp: server_handleInDataPacket_def split: if_splits dest!: same_select)
next
  assume "handleOutConnAckPacket emit pick now ca c = HRet ret c'"
  then show "same c c'"
    by (auto simp: handleOutConnAckPacket_def is_user_def
        split: if_splits option.splits outcome.splits gres.splits IORet.splits
        dest!: same_Close same_select(2) intro: same_trans)
qed

text \<open>A data packet is appended to \<open>writeOutCh\<close>, unless the connection is ending.\<close>

lemma handleOutData_kept:
  assumes "handleOutDataPacket pick pkt c = HRet ret c'" "is_user pkt" "c_connOK c"
  shows "kept c c' \<and> on_wire c' = on_wire c \<and>
    (ret = IOSuccess \<and> to_write c' = to_write c @ [pkt] \<or> ret = IOClosed \<and> to_write c' = to_write c)"
  using assms
  by (auto simp: handleOutDataPacket_def kept_def on_wire_def to_write_def put_writeOut_def
      dest!: select_send_cases evolves_send)

lemma handleOutData_nonuser:
  "handleOutDataPacket pick pkt c = HRet ret c' \<Longrightarrow> \<not> is_user pkt \<Longrightarrow> same c c'"
  by (auto simp: handleOutDataPacket_def split: if_splits dest!: same_select(2))

lemma handleIn_same: "handleIn env t pkt c = HRet ret c' \<Longrightarrow> same c c'"
  by (auto simp: handleIn_def client_handleIn_def server_handleIn_def
      split: side.splits Packet.splits dest: same_in_base same_in_client same_in_server)

lemma handleOut_kept:
  assumes "handleOut env t pkt c = HRet ret c'" "c_connOK c"
  shows "kept c c' \<and> on_wire c' = on_wire c \<and>
    (to_write c' = to_write c @ filter is_user [pkt]
     \<or> ret = IOClosed \<and> is_user pkt \<and> to_write c' = to_write c)"
proof (cases "is_user pkt")
  case True
  then have "handleOutDataPacket (t_pick t) pkt c = HRet ret c'"
    using assms(1) by (auto simp: handleOut_def client_handleOut_def server_handleOut_def is_user_def
        split: side.splits Packet.splits)
  then show ?thesis using handleOutData_kept [OF _ True assms(2)] True by fastforce
next
  case False
  then have "same c c'"
    using assms(1) by (auto simp: handleOut_def client_handleOut_def server_handleOut_def
        split: side.splits Packet.splits
        dest: same_in_base same_in_client same_out_heartbeat same_in_server handleOutData_nonuser)
  then show ?thesis using False by (simp add: same_def)
qed

text \<open>The packets a connection makes itself are of its own layer.\<close>

definition quiet :: "conn \<Rightarrow> bool" where
  "quiet c \<longleftrightarrow> list_all (\<lambda>p. \<not> is_user p) (buf (c_hbOut c)) \<and> list_all (\<lambda>p. \<not> is_user p) (c_sends c)"

lemma quiet_upd [simp]:
  "quiet (x\<lparr>c_state := s\<rparr>) \<longleftrightarrow> quiet x"
  "quiet (x\<lparr>c_clientID := i\<rparr>) \<longleftrightarrow> quiet x"
  "quiet (x\<lparr>c_meta := m\<rparr>) \<longleftrightarrow> quiet x"
  "quiet (x\<lparr>c_pf := pf\<rparr>) \<longleftrightarrow> quiet x"
  "quiet (x\<lparr>c_onlined := b\<rparr>) \<longleftrightarrow> quiet x"
  "quiet (x\<lparr>c_heartbeat := h\<rparr>) \<longleftrightarrow> quiet x"
  "quiet (x\<lparr>c_clientIDs := ctr\<rparr>) \<longleftrightarrow> quiet x"
  "quiet (x\<lparr>c_hbTick := tk\<rparr>) \<longleftrightarrow> quiet x"
  "quiet (x\<lparr>c_closeOnce := b\<rparr>) \<longleftrightarrow> quiet x"
  "quiet (x\<lparr>c_net := n\<rparr>) \<longleftrightarrow> quiet x"
  "quiet (effect e x) \<longleftrightarrow> quiet x"
  "quiet (fail_packet p x) \<longleftrightarrow> quiet x"
  "quiet (resetHeartbeatTimeout x) \<longleftrightarrow> quiet x"
  "quiet (put_writeOut ch x) \<longleftrightarrow> quiet x"
  "quiet (put_readOut ch x) \<longleftrightarrow> quiet x"
  "quiet (spawn_send p x) \<longleftrightarrow> quiet x \<and> \<not> is_user p"
  by (auto simp: quiet_def keep_simps)

lemma is_user_simps [simp]:
  "\<not> is_user (PConn a)" "\<not> is_user (PConnAck b)" "\<not> is_user (PDisConn d)" "\<not> is_user (PDisConnAck e)"
  "\<not> is_user (PHeartbeat f)" "\<not> is_user (PHeartbeatAck g)"
  by (simp_all add: is_user_def)

lemma quiet_hbOut: "ch_send (c_hbOut c) p = Sent ch \<Longrightarrow> \<not> is_user p \<Longrightarrow> quiet (c\<lparr>c_hbOut := ch\<rparr>) \<longleftrightarrow> quiet c"
  by (auto simp: quiet_def dest: evolves_send)

lemma quiet_writeOut [simp]: "quiet (c\<lparr>c_writeOut := ch\<rparr>) \<longleftrightarrow> quiet c"
  by (simp add: quiet_def)

lemma quiet_select:
  "select_send pick c_readOut put_readOut p c = HRet ret c' \<Longrightarrow> quiet c' = quiet c"
  "select_send pick c_writeOut put_writeOut p c = HRet ret c' \<Longrightarrow> quiet c' = quiet c"
  by (auto dest!: select_send_cases)

lemma quiet_Close: "conn_Close now c = Ret c' \<Longrightarrow> quiet c' = quiet c"
  by (auto simp: conn_Close_eq obind_Ret_iff split: if_splits)

lemma quiet_choose: "choose_clientID dlgt now pkt c = Ret (err, c') \<Longrightarrow> quiet c' = quiet c"
  by (auto simp: choose_clientID_def Let_def obind_Ret_iff split: if_splits option.splits prod.splits)

lemma quiet_dowrite: "dowritePkt werr p r c = (res, c') \<Longrightarrow> quiet c' = quiet c"
  by (auto simp: dowritePkt_def split: outcome.splits option.splits if_splits)

lemma quiet_base:
  "handleInDisConnPacket emit T now dp c = HRet ret c' \<Longrightarrow> quiet c' = quiet c"
  "handleInDisConnAckPacket emit T da c = HRet ret c' \<Longrightarrow> quiet c' = quiet c"
  "handleOutDisConnPacket emit T pick dp c = HRet ret c' \<Longrightarrow> quiet c' = quiet c"
  "handleOutDisConnAckPacket emit T werr da c = HRet ret c' \<Longrightarrow> quiet c' = quiet c"
  "handleOutDataPacket pick pkt c = HRet ret c' \<Longrightarrow> quiet c' = quiet c"
  by (auto simp: handleInDisConnPacket_def handleInDisConnAckPacket_def handleOutDisConnPacket_def
      handleOutDisConnAckPacket_def handleOutDataPacket_def Let_def
      split: option.splits outcome.splits prod.splits unit.splits if_splits
      dest!: quiet_Close quiet_select quiet_dowrite)

lemma quiet_client:
  "handleInConnAckPacket emit now ca c = HRet ret c' \<Longrightarrow> quiet c' = quiet c"
  "handleInHeartbeatAckPacket ha c = HRet ret c' \<Longrightarrow> quiet c' = quiet c"
  "client_handleInDataPacket pick pkt c = HRet ret c' \<Longrightarrow> quiet c' = quiet c"
  "handleOutConnPacket emit pick cp c = HRet ret c' \<Longrightarrow> quiet c' = quiet c"
  "handleOutHeartbeatPacket pick hb c = HRet ret c' \<Longrightarrow> quiet c' = quiet c"
  by (auto simp: handleInConnAckPacket_def handleInHeartbeatAckPacket_def client_handleInDataPacket_def
      handleOutConnPacket_def handleOutHeartbeatPacket_def Let_def quiet_hbOut
      split: option.splits outcome.splits prod.splits if_splits send_result.splits
      dest!: quiet_select)

lemma quiet_server:
  "handleInConnPacket emit dlgt now cp c = HRet ret c' \<Longrightarrow> quiet c' = quiet c"
  "handleInHeartbeatPacket d hb c = HRet ret c' \<Longrightarrow> quiet c' = quiet c"
  "server_handleInDataPacket pick pkt c = HRet ret c' \<Longrightarrow> quiet c' = quiet c"
  "handleOutConnAckPacket emit pick now ca c = HRet ret c' \<Longrightarrow> quiet c' = quiet c"
  by (auto simp: handleInConnPacket_def handleInHeartbeatPacket_def server_handleInDataPacket_def
      handleOutConnAckPacket_def Let_def quiet_hbOut
      split: option.splits outcome.splits prod.splits if_splits send_result.splits gres.splits IORet.splits
      dest!: quiet_select quiet_choose quiet_Close)

lemma handleIn_quiet: "handleIn env t pkt c = HRet ret c' \<Longrightarrow> quiet c' = quiet c"
  by (auto simp: handleIn_def client_handleIn_def server_handleIn_def
      split: side.splits Packet.splits dest: quiet_base quiet_client quiet_server)

lemma handleOut_quiet: "handleOut env t pkt c = HRet ret c' \<Longrightarrow> quiet c' = quiet c"
  by (auto simp: handleOut_def client_handleOut_def server_handleOut_def
      split: side.splits Packet.splits dest: quiet_base quiet_client quiet_server)

section \<open>The invariant\<close>

definition weak_inv :: "Packet list \<Rightarrow> conn \<Rightarrow> bool" where
  "weak_inv acc c \<longleftrightarrow>
     c_connOK c = c_handling c
   \<and> (c_handling c \<longrightarrow> \<not> is_closed (c_readOut c) \<and> \<not> is_closed (c_writeOut c) \<and> \<not> is_closed (c_hbIn c) \<and> \<not> is_closed (c_hbOut c))
   \<and> (\<not> c_handling c \<longrightarrow> is_closed (c_readOut c) \<and> is_closed (c_writeOut c) \<and> is_closed (c_hbIn c) \<and> is_closed (c_hbOut c)
        \<and> c_ctxDone c \<and> buf (c_writeOut c) = [])
   \<and> (c_ctxDone c \<longrightarrow> \<not> c_writing c \<or> \<not> c_handling c)
   \<and> c_reading c = (\<not> is_closed (c_readIn c)) \<and> \<not> is_closed (c_writeIn c)
   \<and> list_all chan_ok [c_readIn c, c_writeOut c, c_readOut c, c_writeIn c, c_hbIn c, c_hbOut c]
   \<and> quiet c
   \<and> prefix (on_wire c) (filter is_user acc)"

text \<open>While handler and writer run, no accepted packet is lost, doubled or overtaken.\<close>

definition conn_inv :: "Packet list \<Rightarrow> conn \<Rightarrow> bool" where
  "conn_inv acc c \<longleftrightarrow> weak_inv acc c
   \<and> (c_handling c \<and> c_writing c \<longrightarrow>
        on_wire c @ to_write c @ filter is_user (buf (c_writeIn c)) = filter is_user acc)"



section \<open>The end of a connection\<close>

lemma fail_all_eq:
  "fail_all ps c = c\<lparr>c_failed := map_option (\<lambda>f. f @ filter (\<lambda>p. \<not> is_ConnLayer p) ps) (c_failed c)\<rparr>"
proof (induction ps arbitrary: c)
  case Nil
  have "map_option (\<lambda>f. f) (c_failed c) = c_failed c" by (cases "c_failed c") simp_all
  then show ?case by (simp add: fail_all_def)
next
  case (Cons p ps)
  have "fail_all (p # ps) c = fail_all ps (if is_ConnLayer p then c else fail_packet p c)"
    by (simp add: fail_all_def)
  then show ?case by (simp add: Cons.IH fail_packet_def option.map_comp comp_def)
qed

lemmas end_simps = handlePkt_end_def client_handlePkt_end_def server_handlePkt_end_def client_fini_def server_fini_def
  Let_def fail_all_eq effect_def

lemma handlePkt_end_sel [simp]:
  "c_handling (handlePkt_end sd env c) = False" "c_connOK (handlePkt_end sd env c) = False"
  "c_ctxDone (handlePkt_end sd env c) = True" "c_netClosed (handlePkt_end sd env c) = True"
  "c_reading (handlePkt_end sd env c) = c_reading c" "c_writing (handlePkt_end sd env c) = c_writing c"
  "c_readIn (handlePkt_end sd env c) = c_readIn c" "c_writeIn (handlePkt_end sd env c) = (c_writeIn c)\<lparr>buf := []\<rparr>"
  "c_readOut (handlePkt_end sd env c) = ch_close (c_readOut c)"
  "c_writeOut (handlePkt_end sd env c) = ch_close ((c_writeOut c)\<lparr>buf := []\<rparr>)"
  "c_hbIn (handlePkt_end sd env c) = ch_close (c_hbIn c)" "c_hbOut (handlePkt_end sd env c) = ch_close (c_hbOut c)"
  "c_sends (handlePkt_end sd env c) = c_sends c" "c_net (handlePkt_end sd env c) = c_net c"
  "c_hbTick (handlePkt_end sd env c) = None" "c_side (handlePkt_end sd env c) = c_side c"
  by (cases sd; simp add: end_simps)+

text \<open>Everything still queued is handed to the failed-packet channel, in order.\<close>

lemma handlePkt_end_failed:
  "c_failed (handlePkt_end sd env c) =
     map_option (\<lambda>f. f @ filter (\<lambda>p. \<not> is_ConnLayer p) (buf (c_writeIn c) @ buf (c_writeOut c))) (c_failed c)"
  by (cases sd) (simp_all add: end_simps option.map_comp comp_def)

lemma inv_end: "weak_inv acc c \<Longrightarrow> conn_inv acc (handlePkt_end sd env c)"
  by (simp add: conn_inv_def weak_inv_def on_wire_def quiet_def)

section \<open>Every turn keeps the invariant\<close>

lemma weak_same:
  assumes "weak_inv acc c" "kept c c'" "on_wire c' = on_wire c" "quiet c'" "c_handling c"
  shows "weak_inv acc c'"
  using assms by (auto simp: weak_inv_def kept_def evolves_def)

lemma inv_turnIn:
  assumes "conn_inv acc c" "c_handling c" "handlePkt_turn env t FromIn p c = HRet () c'"
  shows "conn_inv acc c'"
proof -
  obtain ret c1 where h: "handleIn env t p c = HRet ret c1"
    and c': "c' = (if ret = IOErr \<or> ret = IOClosed then handlePkt_end (c_side c) env c1 else c1)"
    using assms(3) by (auto simp: handlePkt_turn_eq split: gres.splits if_splits)
  have q: "quiet c1" using handleIn_quiet [OF h] assms(1) by (simp add: conn_inv_def weak_inv_def)
  have s: "same c c1" using h by (rule handleIn_same)
  then have w: "weak_inv acc c1" using weak_same [of acc c c1] assms(1,2) q by (auto simp: same_def conn_inv_def)
  have "conn_inv acc c1" using assms(1) s w by (auto simp: conn_inv_def same_def kept_def)
  then show ?thesis using c' w inv_end by simp
qed

lemma inv_turnOut:
  assumes "conn_inv acc c" "c_handling c" "recv c_writeIn put_writeIn c = Some (Some p, c0)"
    "handlePkt_turn env t FromOut p c0 = HRet () c'"
  shows "conn_inv acc c'"
proof -
  obtain ps where ps: "buf (c_writeIn c) = p # ps" "c0 = c\<lparr>c_writeIn := (c_writeIn c)\<lparr>buf := ps\<rparr>\<rparr>"
    using assms(3) by (auto simp: recv_def put_writeIn_def split: list.splits if_splits)
  have w0: "weak_inv acc c0" using assms(1) ps
    by (auto simp: conn_inv_def weak_inv_def on_wire_def quiet_def chan_ok_def)
  have ok: "c_connOK c0" "c_handling c0" using assms(1,2) ps(2) by (simp_all add: conn_inv_def weak_inv_def)
  obtain ret c1 where h: "handleOut env t p c0 = HRet ret c1"
    and c': "c' = (if ret = IOErr \<or> ret = IOClosed then handlePkt_end (c_side c0) env c1 else c1)"
    using assms(4) by (auto simp: handlePkt_turn_eq split: gres.splits if_splits)
  note k = handleOut_kept [OF h ok(1)]
  have "quiet c1" using handleOut_quiet [OF h] w0 by (simp add: weak_inv_def)
  then have w: "weak_inv acc c1" using weak_same [of acc c0 c1] w0 k ok(2) by blast
  show ?thesis
  proof (cases "ret = IOErr \<or> ret = IOClosed")
    case True
    then show ?thesis using c' inv_end [OF w] by simp
  next
    case False
    then have t: "to_write c1 = to_write c0 @ filter is_user [p]" using k by blast
    have "c_handling c \<and> c_writing c \<longrightarrow> on_wire c @ to_write c @ filter is_user (p # ps) = filter is_user acc"
      using assms(1) ps(1) by (simp add: conn_inv_def)
    then have "c_writing c \<longrightarrow> on_wire c0 @ (to_write c0 @ filter is_user [p]) @ filter is_user ps = filter is_user acc"
      using assms(2) ps(2) by (auto simp: on_wire_def to_write_def)
    then have "conn_inv acc c1" using w k t ps(2) by (auto simp: conn_inv_def kept_def)
    then show ?thesis using False c' by simp
  qed
qed



lemma readPkt_turn_cases:
  assumes "readPkt_turn got c = HRet () c'"
  shows "c' = c
    \<or> (\<exists>ch p. ch_send (c_hbIn c) p = Sent ch \<and> c' = c\<lparr>c_hbIn := ch\<rparr>)
    \<or> (\<exists>ch p. ch_send (c_readIn c) p = Sent ch \<and> c' = c\<lparr>c_readIn := ch\<rparr>)
    \<or> c' = c\<lparr>c_readIn := ch_close (c_readIn c), c_reading := False\<rparr>"
  using assms by (auto simp: readPkt_turn_def split: outcome.splits if_splits send_result.splits)

lemma inv_readIn:
  "conn_inv acc c \<Longrightarrow> evolves (c_readIn c) ch \<Longrightarrow> conn_inv acc (c\<lparr>c_readIn := ch\<rparr>)"
  by (simp add: conn_inv_def weak_inv_def evolves_def on_wire_def to_write_def quiet_def)

lemma inv_hbIn:
  "conn_inv acc c \<Longrightarrow> evolves (c_hbIn c) ch \<Longrightarrow> conn_inv acc (c\<lparr>c_hbIn := ch\<rparr>)"
  by (simp add: conn_inv_def weak_inv_def evolves_def on_wire_def to_write_def quiet_def)

lemma inv_read:
  assumes "conn_inv acc c" "c_reading c" "readPkt_turn got c = HRet () c'"
  shows "conn_inv acc c'"
proof -
  have "conn_inv acc (c\<lparr>c_readIn := ch_close (c_readIn c), c_reading := False\<rparr>)"
    using assms(1) by (simp add: conn_inv_def weak_inv_def on_wire_def to_write_def quiet_def)
  then show ?thesis
    using readPkt_turn_cases [OF assms(3)]
    by (elim disjE exE conjE) (simp_all add: assms(1) inv_hbIn inv_readIn evolves_send)
qed

lemma recv_cases:
  assumes "recv get put c = Some (got, c')"
  shows "(\<exists>p ps. got = Some p \<and> buf (get c) = p # ps \<and> c' = put ((get c)\<lparr>buf := ps\<rparr>) c)
    \<or> (got = None \<and> buf (get c) = [] \<and> is_closed (get c) \<and> c' = c)"
  using assms by (auto simp: recv_def split: list.splits if_splits)

lemma dowrite_sel:
  assumes "dowritePkt werr p r c = (res, c')"
  shows "kept c c' \<and> quiet c' = quiet c \<and> c_writeOut c' = c_writeOut c
    \<and> on_wire c' = on_wire c @ (if res = Ret () then filter is_user [p] else [])"
  using assms
  by (auto simp: dowritePkt_def kept_def on_wire_def quiet_def fail_packet_def
      split: outcome.splits option.splits if_splits)

text \<open>The writer after its packet: it goes on after a write, and stops after an error.\<close>

lemma inv_written:
  assumes "weak_inv acc c" "writePkt_turn werr (Some p) c = HRet () c'"
    "prefix (on_wire c @ filter is_user [p]) (filter is_user acc)"
    "c_handling c \<and> c_writing c \<Longrightarrow>
       on_wire c @ filter is_user [p] @ to_write c @ filter is_user (buf (c_writeIn c)) = filter is_user acc"
  shows "conn_inv acc c'"
proof -
  obtain res c1 where d: "dowritePkt werr p (\<not> is_ConnLayer p) c = (res, c1)" by fastforce
  note k = dowrite_sel [OF d]
  have w: "weak_inv acc c1" using k assms(1,3) append_prefixD
    by (cases "res = Ret ()") (auto simp: weak_inv_def kept_def evolves_def)
  show ?thesis
  proof (cases res)
    case (Ret u)
    then have c': "c' = c1" "on_wire c1 = on_wire c @ filter is_user [p]"
      using assms(2) d k by (simp_all add: writePkt_turn_def split: unit.splits)
    have "c_handling c1 = c_handling c" "c_writing c1 = c_writing c" "to_write c1 = to_write c" "c_writeIn c1 = c_writeIn c"
      using k by (simp_all add: kept_def to_write_def)
    then show ?thesis using w c' assms(4) by (simp add: conn_inv_def del: filter.simps)
  next
    case (Fail e)
    then have "c' = c1\<lparr>c_netClosed := True, c_ctxDone := True, c_writing := False\<rparr>"
      using assms(2) d by (simp add: writePkt_turn_def)
    then show ?thesis using w by (simp add: conn_inv_def weak_inv_def on_wire_def quiet_def)
  next
    case (Panic q)
    then show ?thesis using assms(2) d by (simp add: writePkt_turn_def)
  qed
qed

lemma inv_writer_stops: "conn_inv acc c \<Longrightarrow> writePkt_turn werr None c = HRet () c' \<Longrightarrow> conn_inv acc c'"
  by (drule sym) (simp add: writePkt_turn_def conn_inv_def weak_inv_def on_wire_def quiet_def)

lemma inv_writeHb:
  assumes "conn_inv acc c" "c_writing c" "recv c_hbOut put_hbOut c = Some (got, c0)"
    "writePkt_turn werr got c0 = HRet () c'"
  shows "conn_inv acc c'"
  using recv_cases [OF assms(3)]
proof (elim disjE exE conjE)
  fix p ps assume a: "got = Some p" "buf (c_hbOut c) = p # ps" "c0 = put_hbOut ((c_hbOut c)\<lparr>buf := ps\<rparr>) c"
  have u: "\<not> is_user p" using assms(1) a(2) by (simp add: conn_inv_def weak_inv_def quiet_def)
  have e: "on_wire c0 = on_wire c" "to_write c0 = to_write c" "c_handling c0 = c_handling c" "c_writing c0 = c_writing c"
    "c_writeIn c0 = c_writeIn c" using a(3) by (simp_all add: put_hbOut_def on_wire_def to_write_def)
  have w: "weak_inv acc c0" using assms(1) a(2,3)
    by (simp add: put_hbOut_def conn_inv_def weak_inv_def on_wire_def quiet_def chan_ok_def)
  have o: "c_handling c0 \<and> c_writing c0 \<Longrightarrow>
      on_wire c0 @ filter is_user [p] @ to_write c0 @ filter is_user (buf (c_writeIn c0)) = filter is_user acc"
    using assms(1) u e by (simp add: conn_inv_def)
  have pre: "prefix (on_wire c0 @ filter is_user [p]) (filter is_user acc)"
    using w u by (simp add: weak_inv_def)
  show ?thesis using inv_written [OF w _ pre o] assms(4) a(1) by simp
qed (use assms inv_writer_stops in simp)

lemma inv_write:
  assumes "conn_inv acc c" "c_writing c" "recv c_writeOut put_writeOut c = Some (got, c0)"
    "writePkt_turn werr got c0 = HRet () c'"
  shows "conn_inv acc c'"
  using recv_cases [OF assms(3)]
proof (elim disjE exE conjE)
  fix p ps assume a: "got = Some p" "buf (c_writeOut c) = p # ps" "c0 = put_writeOut ((c_writeOut c)\<lparr>buf := ps\<rparr>) c"
  have h: "c_handling c" using assms(1) a(2) by (auto simp: conn_inv_def weak_inv_def)
  have e: "on_wire c0 = on_wire c" "filter is_user [p] @ to_write c0 = to_write c" "c_handling c0 = c_handling c" "c_writing c0 = c_writing c"
    "c_writeIn c0 = c_writeIn c" using a(2,3) by (simp_all add: put_writeOut_def on_wire_def to_write_def)
  have w: "weak_inv acc c0" using assms(1) a(2,3) h
    by (simp add: put_writeOut_def conn_inv_def weak_inv_def on_wire_def quiet_def chan_ok_def)
  have o: "on_wire c0 @ filter is_user [p] @ to_write c0 @ filter is_user (buf (c_writeIn c0)) = filter is_user acc"
    using assms(1,2) h by (metis append_assoc conn_inv_def e(1,2,5))
  then have pre: "prefix (on_wire c0 @ filter is_user [p]) (filter is_user acc)" by (metis append_assoc prefixI)
  show ?thesis using inv_written [OF w _ pre o] assms(4) a(1) by simp
qed (use assms inv_writer_stops in simp)


lemma to_writeIn_inv:
  assumes "conn_inv acc c" "ch_send (c_writeIn c) p = Sent ch"
  shows "conn_inv (acc @ [p]) (c\<lparr>c_writeIn := ch\<rparr>)" "\<not> is_user p \<Longrightarrow> conn_inv acc (c\<lparr>c_writeIn := ch\<rparr>)"
proof -
  note e = evolves_send [OF assms(2)]
  have pre: "prefix (on_wire c) (filter is_user (acc @ [p]))"
    using assms(1) by (simp add: conn_inv_def weak_inv_def prefix_def) force
  show "conn_inv (acc @ [p]) (c\<lparr>c_writeIn := ch\<rparr>)" "\<not> is_user p \<Longrightarrow> conn_inv acc (c\<lparr>c_writeIn := ch\<rparr>)"
    using assms(1) e pre
    by (simp_all add: conn_inv_def weak_inv_def evolves_def on_wire_def to_write_def quiet_def del: filter_append)
      (simp_all add: filter_append)
qed

lemma conn_Write_cases:
  assumes "conn_Write pick p c = HRet r c'"
  shows "(r = Fail EOF \<and> c' = c) \<or> (r = Ret () \<and> (\<exists>ch. ch_send (c_writeIn c) p = Sent ch \<and> c' = c\<lparr>c_writeIn := ch\<rparr>))"
  using assms by (auto simp: conn_Write_def put_writeIn_def split: if_splits gres.splits IORet.splits dest!: select_send_cases)

lemma sendToWriteIn_cases:
  assumes "sendToWriteIn pick p c = HRet r c'"
  shows "(r = Fail EOF \<and> c' = c) \<or> (r = Ret () \<and> (\<exists>ch. ch_send (c_writeIn c) p = Sent ch \<and> c' = c\<lparr>c_writeIn := ch\<rparr>))"
  using assms by (auto simp: sendToWriteIn_def put_writeIn_def split: gres.splits IORet.splits dest!: select_send_cases)

lemma inv_UserWrite:
  assumes "conn_inv acc c" "conn_turn env (UserWrite pick p) c = HRet () c'"
  shows "conn_inv (acc @ accepted (UserWrite pick p) c) c'"
proof -
  obtain r where r: "conn_Write pick p c = HRet r c'" using assms(2) by (auto simp: forget_HRet)
  from conn_Write_cases [OF r] show ?thesis
    by (elim disjE conjE exE) (simp_all add: r assms(1) to_writeIn_inv(1) split: unit.splits)
qed

lemma inv_Sender:
  assumes "conn_inv acc c" "conn_turn env (Sender pick i) c = HRet () c'"
  shows "conn_inv acc c'"
proof -
  let ?c = "c\<lparr>c_sends := take i (c_sends c) @ drop (Suc i) (c_sends c)\<rparr>"
  from assms(2) obtain r where i: "i < length (c_sends c)" and r: "sendToWriteIn pick (c_sends c ! i) ?c = HRet r c'"
    by (auto simp: forget_HRet split: if_splits)
  have q: "list_all (\<lambda>p. \<not> is_user p) (c_sends c)" using assms(1) by (simp add: conn_inv_def weak_inv_def quiet_def)
  then have u: "\<not> is_user (c_sends c ! i)" using i by (simp add: list_all_length)
  have q': "list_all (\<lambda>p. \<not> is_user p) (take i (c_sends c) @ drop (Suc i) (c_sends c))"
    using q by (auto simp: list_all_iff dest: in_set_takeD in_set_dropD)
  have v: "conn_inv acc ?c" using assms(1) q'
    by (simp add: conn_inv_def weak_inv_def quiet_def on_wire_def to_write_def del: list_all_append)
  from sendToWriteIn_cases [OF r] show ?thesis
    by (elim disjE conjE exE) (simp_all only: v to_writeIn_inv(2) [OF v _ u])
qed

lemma inv_same_quiet: "conn_inv acc c \<Longrightarrow> same c c' \<Longrightarrow> quiet c' \<Longrightarrow> c_handling c \<Longrightarrow> conn_inv acc c'"
  using weak_same [of acc c c'] by (simp add: conn_inv_def same_def kept_def)


lemma inv_upd [simp]:
  "conn_inv acc (c\<lparr>c_closeOnce := b\<rparr>) \<longleftrightarrow> conn_inv acc c"
  "conn_inv acc (c\<lparr>c_readOutNil := b\<rparr>) \<longleftrightarrow> conn_inv acc c"
  "conn_inv acc (setup_failed c) \<longleftrightarrow> conn_inv acc c"
  by (simp_all add: conn_inv_def weak_inv_def on_wire_def to_write_def quiet_def setup_failed_def)

lemma inv_Close:
  assumes "conn_inv acc c" "conn_Close now c = Ret c'"
  shows "conn_inv acc c'"
proof (cases "c_handling c")
  case True
  have "quiet c'" using quiet_Close [OF assms(2)] assms(1) by (simp add: conn_inv_def weak_inv_def)
  then show ?thesis using inv_same_quiet [OF assms(1) same_Close [OF assms(2)]] True by blast
next
  case False
  then have "\<not> c_connOK c" using assms(1) by (simp add: conn_inv_def weak_inv_def)
  then have "c' = c \<or> c' = c\<lparr>c_closeOnce := True\<rparr>" using assms(2) by (auto simp: conn_Close_eq split: if_splits)
  then show ?thesis using assms(1) by (elim disjE) simp_all
qed

lemma inv_Tick:
  assumes "conn_inv acc c" "sendHeartbeat now c = Ret c'"
  shows "conn_inv acc c'"
proof (cases "c_connOK c")
  case True
  then have h: "c_handling c" using assms(1) by (simp add: conn_inv_def weak_inv_def)
  have "same c c' \<and> quiet c' = quiet c" using assms(2) True
    by (auto simp: sendHeartbeat_def obind_Ret_iff)
  then show ?thesis using inv_same_quiet [OF assms(1)] h assms(1) by (simp add: conn_inv_def weak_inv_def)
next
  case False
  then show ?thesis using assms by (simp add: sendHeartbeat_def)
qed

lemma inv_Read:
  assumes "conn_inv acc c" "conn_Read c = HRet r c'"
  shows "conn_inv acc c'"
proof -
  have i: "conn_inv acc (c\<lparr>c_readOut := (c_readOut c)\<lparr>buf := ps\<rparr>\<rparr>)" if "buf (c_readOut c) = p # ps" for p ps
    using assms(1) that by (simp add: conn_inv_def weak_inv_def on_wire_def to_write_def quiet_def chan_ok_def)
  show ?thesis
    using assms by (auto simp: conn_Read_def i split: if_splits list.splits)
qed

lemma inv_recv_hbIn: "conn_inv acc c \<Longrightarrow> recv c_hbIn put_hbIn c = Some (got, c') \<Longrightarrow> conn_inv acc c' \<and> c_handling c' = c_handling c"
  by (drule recv_cases, elim disjE exE conjE)
    (simp_all add: put_hbIn_def inv_hbIn evolves_def chan_ok_def)

lemma inv_recv_readIn: "conn_inv acc c \<Longrightarrow> recv c_readIn put_readIn c = Some (got, c') \<Longrightarrow> conn_inv acc c' \<and> c_handling c' = c_handling c"
  by (drule recv_cases, elim disjE exE conjE)
    (simp_all add: put_readIn_def inv_readIn evolves_def chan_ok_def)

lemma conn_turn_inv:
  assumes "conn_inv acc c" "conn_turn env op c = HRet () c'"
  shows "conn_inv (acc @ accepted op c) c'"
proof (cases op)
  case (Reader got)
  then show ?thesis using assms inv_read by (simp split: if_splits)
next
  case (HandleHb t)
  then obtain p c0 where "recv c_hbIn put_hbIn c = Some (Some p, c0)" "c_handling c" "handlePkt_turn env t FromIn p c0 = HRet () c'"
    using assms(2) by (auto split: if_splits option.splits)
  then show ?thesis using HandleHb inv_recv_hbIn [OF assms(1)] inv_turnIn [of acc c0] by simp
next
  case (HandleIn t)
  then obtain got c0 where r: "recv c_readIn put_readIn c = Some (got, c0)" "c_handling c"
    "(case got of Some p \<Rightarrow> handlePkt_turn env t FromIn p c0 | None \<Rightarrow> HRet () (handlePkt_end (c_side c) env c0)) = HRet () c'"
    using assms(2) by (auto split: if_splits option.splits)
  show ?thesis using r HandleIn inv_recv_readIn [OF assms(1) r(1)] inv_turnIn [of acc c0] inv_end
    by (cases got) (auto simp: conn_inv_def)
next
  case (HandleOut t)
  then obtain got c0 where r: "recv c_writeIn put_writeIn c = Some (got, c0)" "c_handling c"
    "(case got of Some p \<Rightarrow> handlePkt_turn env t FromOut p c0 | None \<Rightarrow> HRet () (handlePkt_end (c_side c) env c0)) = HRet () c'"
    using assms(2) by (auto split: if_splits option.splits)
  have "\<not> is_closed (c_writeIn c)" using assms(1) by (simp add: conn_inv_def weak_inv_def)
  then obtain p where "got = Some p" using recv_cases [OF r(1)] by blast
  then show ?thesis using HandleOut inv_turnOut [OF assms(1) r(2)] r(1,3) by simp
next
  case (WriterHb werr)
  then show ?thesis using assms inv_writeHb by (auto split: if_splits option.splits)
next
  case (Writer werr)
  then show ?thesis using assms inv_write by (auto split: if_splits option.splits)
next
  case (Sender pick i)
  then show ?thesis using inv_Sender [OF assms(1)] assms(2) by simp
next
  case (UserWrite pick p)
  then show ?thesis using inv_UserWrite [OF assms(1)] assms(2) by blast
next
  case UserRead
  then show ?thesis using inv_Read [OF assms(1)] assms(2) by (auto simp: forget_HRet)
next
  case (UserClose now)
  then show ?thesis using inv_Close [OF assms(1)] assms(2) by (simp add: of_outcome_HRet)
next
  case (Tick now)
  then show ?thesis using inv_Tick [OF assms(1)] assms(2) by (simp add: of_outcome_HRet split: if_splits)
next
  case (HBTimeout err now)
  then show ?thesis using inv_Close [OF assms(1)] assms by (simp add: of_outcome_HRet waitHBTimeout_def split: if_splits)
next
  case SetupFailed
  then show ?thesis using assms by auto
qed

lemma conn_run_inv: "conn_run env c0 acc c \<Longrightarrow> conn_inv [] c0 \<Longrightarrow> conn_inv acc c"
  by (induction rule: conn_run.induct) (simp_all add: conn_turn_inv)

end
