(* ===== verification/Conn_Safety.thy ===== *)
theory Conn_Safety
  imports Conn_System "HOL-Library.Multiset"
begin

text \<open>
  Safety of a connection under every interleaving of its goroutines: the order of packets on the
  wire, sends on closed channels, delivery to the reader, and what becomes of the packets that
  were accepted when the connection ends.
\<close>


section \<open>Starting states\<close>

inductive conn_start :: "conn \<Rightarrow> bool" where
  client: "newClientConn now pf i meta r w = Ret (k, c) \<Longrightarrow> conn_start c"
| server: "conn_start (NewServerConn pf clientIDs failedCh r w)"

lemma conn_start_inv: "conn_start c \<Longrightarrow> conn_inv [] c"
  by (erule conn_start.cases)
    (auto simp: newClientConn_def NewServerConn_def new_conn_def Let_def obind_Ret_iff spawn_send_def
      conn_inv_def weak_inv_def on_wire_def to_write_def quiet_def)

lemmas run_inv = conn_run_inv [OF _ conn_start_inv]

section \<open>Sends on closed channels\<close>

definition channels_open :: "conn \<Rightarrow> bool" where
  "channels_open c \<longleftrightarrow> \<not> is_closed (c_readOut c) \<and> \<not> is_closed (c_writeOut c) \<and> \<not> is_closed (c_hbOut c)"

lemma select_send_open: "\<not> is_closed (get c) \<Longrightarrow> select_send pick get put p c \<noteq> HSendOnClosed"
  by (simp add: select_send_def ch_send_open split: send_result.splits)

lemma same_open: "same c c' \<Longrightarrow> channels_open c' = channels_open c"
  by (simp add: same_def kept_def evolves_def channels_open_def)

lemma open_upd [simp]:
  "c_writeOut (resetHeartbeatTimeout c) = c_writeOut c" "c_readOut (resetHeartbeatTimeout c) = c_readOut c"
  "c_hbOut (resetHeartbeatTimeout c) = c_hbOut c"
  by (simp_all add: resetHeartbeatTimeout_def)

lemma base_open:
  assumes "channels_open c"
  shows "handleInDisConnPacket emit T now dp c \<noteq> HSendOnClosed"
    "handleInDisConnAckPacket emit T da c \<noteq> HSendOnClosed"
    "handleOutDisConnPacket emit T pick dp c \<noteq> HSendOnClosed"
    "handleOutDisConnAckPacket emit T werr da c \<noteq> HSendOnClosed"
    "handleOutDataPacket pick pkt c \<noteq> HSendOnClosed"
  using assms
  by (simp_all add: handleInDisConnPacket_def handleInDisConnAckPacket_def handleOutDisConnPacket_def
      handleOutDisConnAckPacket_def handleOutDataPacket_def Let_def channels_open_def select_send_open
      split: option.splits outcome.splits prod.splits unit.splits)

lemma client_open:
  assumes "channels_open c"
  shows "handleInConnAckPacket emit now ca c \<noteq> HSendOnClosed"
    "handleInHeartbeatAckPacket ha c \<noteq> HSendOnClosed"
    "client_handleInDataPacket pick pkt c \<noteq> HSendOnClosed"
    "handleOutConnPacket emit pick cp c \<noteq> HSendOnClosed"
    "handleOutHeartbeatPacket pick hb c \<noteq> HSendOnClosed"
  using assms
  by (simp_all add: handleInConnAckPacket_def handleInHeartbeatAckPacket_def client_handleInDataPacket_def
      handleOutConnPacket_def handleOutHeartbeatPacket_def Let_def channels_open_def select_send_open ch_send_open
      split: option.splits outcome.splits prod.splits send_result.splits)

lemma server_open:
  assumes "channels_open c"
  shows "handleInConnPacket emit dlgt now cp c \<noteq> HSendOnClosed"
    "handleInHeartbeatPacket d hb c \<noteq> HSendOnClosed"
    "server_handleInDataPacket pick pkt c \<noteq> HSendOnClosed"
    "handleOutConnAckPacket emit pick now ca c \<noteq> HSendOnClosed"
proof -
  show "handleInConnPacket emit dlgt now cp c \<noteq> HSendOnClosed"
    by (simp add: handleInConnPacket_def Let_def split: option.splits outcome.splits prod.splits)
  show "handleInHeartbeatPacket d hb c \<noteq> HSendOnClosed" "server_handleInDataPacket pick pkt c \<noteq> HSendOnClosed"
    using assms by (simp_all add: handleInHeartbeatPacket_def server_handleInDataPacket_def Let_def channels_open_def
        select_send_open ch_send_open split: send_result.splits)
  have o: "channels_open c1" if "conn_Close now (c\<lparr>c_state := s\<rparr>) = Ret c1" for s c1
    using same_open [OF same_Close [OF that]] assms by (simp add: channels_open_def)
  show "handleOutConnAckPacket emit pick now ca c \<noteq> HSendOnClosed"
    using assms o
    by (auto simp: handleOutConnAckPacket_def channels_open_def select_send_open
        split: option.splits outcome.splits gres.splits IORet.splits)
qed

lemma handler_open:
  assumes "channels_open c"
  shows "handleIn env t pkt c \<noteq> HSendOnClosed" "handleOut env t pkt c \<noteq> HSendOnClosed"
    "handlePkt_turn env t src pkt c \<noteq> HSendOnClosed"
proof -
  show i: "handleIn env t pkt c \<noteq> HSendOnClosed" and o: "handleOut env t pkt c \<noteq> HSendOnClosed"
    using base_open [OF assms] client_open [OF assms] server_open [OF assms]
    by (simp_all add: handleIn_def handleOut_def client_handleIn_def client_handleOut_def server_handleIn_def
        server_handleOut_def split: side.splits Packet.splits)
  show "handlePkt_turn env t src pkt c \<noteq> HSendOnClosed"
    using i o by (auto simp: handlePkt_turn_eq split: source.splits gres.splits)
qed

lemma writeIn_open:
  assumes "\<not> is_closed (c_writeIn c)"
  shows "forget (conn_Write pick p c) \<noteq> HSendOnClosed" "forget (sendToWriteIn pick p c) \<noteq> HSendOnClosed"
  using select_send_open [of c_writeIn c pick put_writeIn p] assms
  by (auto simp: forget_def conn_Write_def sendToWriteIn_def split: gres.splits IORet.splits)

lemma recv_open:
  assumes "recv get put c = Some (got, c')" "\<And>ch. channels_open (put ch c) = channels_open c" "channels_open c"
  shows "channels_open c'"
  using recv_cases [OF assms(1)] assms(2,3) by auto


definition is_heartbeat :: "Packet \<Rightarrow> bool" where
  "is_heartbeat p = (Packet_Type p = Ret TypeHeartbeatPacket \<or> Packet_Type p = Ret TypeHeartbeatAckPacket)"

lemma inv_open: "conn_inv acc c \<Longrightarrow> c_handling c \<Longrightarrow> channels_open c"
  by (simp add: conn_inv_def weak_inv_def channels_open_def)

lemma put_open [simp]:
  "channels_open (put_hbIn ch c) = channels_open c" "channels_open (put_readIn ch c) = channels_open c"
  "channels_open (put_writeIn ch c) = channels_open c"
  by (simp_all add: channels_open_def put_hbIn_def put_readIn_def put_writeIn_def)

lemma writePkt_open [simp]: "writePkt_turn werr got c \<noteq> HSendOnClosed"
  by (simp add: writePkt_turn_def split: option.splits prod.splits outcome.splits unit.splits)

lemma readPkt_closed:
  assumes "readPkt_turn got c = HSendOnClosed" "\<not> is_closed (c_readIn c)"
  shows "\<exists>pkt. got = Ret pkt \<and> is_heartbeat pkt \<and> is_closed (c_hbIn c)"
  using assms
  by (auto simp: readPkt_turn_def is_heartbeat_def ch_send_def split: outcome.splits if_splits send_result.splits)

lemma turn_on_closed:
  assumes "conn_inv acc c" "conn_turn env op c = HSendOnClosed"
  shows "\<exists>pkt. op = Reader (Ret pkt) \<and> is_heartbeat pkt \<and> \<not> c_handling c"
proof (cases op)
  case (Reader got)
  have "\<not> is_closed (c_readIn c)" "c_handling c \<longrightarrow> \<not> is_closed (c_hbIn c)"
    using assms Reader by (auto simp: conn_inv_def weak_inv_def split: if_splits)
  then show ?thesis using readPkt_closed [of got c] assms(2) Reader by (auto split: if_splits)
next
  case (HandleHb t)
  then show ?thesis using assms(2) inv_open [OF assms(1)] handler_open(3) recv_open [of c_hbIn put_hbIn c]
    by (auto split: if_splits option.splits)
next
  case (HandleIn t)
  then show ?thesis using assms(2) inv_open [OF assms(1)] handler_open(3) recv_open [of c_readIn put_readIn c]
    by (auto split: if_splits option.splits)
next
  case (HandleOut t)
  then show ?thesis using assms(2) inv_open [OF assms(1)] handler_open(3) recv_open [of c_writeIn put_writeIn c]
    by (auto split: if_splits option.splits)
next
  case (Sender pick i)
  have "\<not> is_closed (c_writeIn c)" using assms(1) by (simp add: conn_inv_def weak_inv_def)
  then show ?thesis using Sender assms(2) by (auto simp: writeIn_open split: if_splits)
next
  case (UserWrite pick p)
  have "\<not> is_closed (c_writeIn c)" using assms(1) by (simp add: conn_inv_def weak_inv_def)
  then show ?thesis using UserWrite assms(2) by (auto simp: writeIn_open)
next
  case UserRead
  then show ?thesis using assms(2) by (auto simp: conn_Read_def forget_def split: if_splits list.splits)
qed (use assms(2) in \<open>auto split: if_splits option.splits\<close>)

section \<open>What becomes of accepted packets\<close>

text \<open>The handlers whose turn ends the connection leave \<open>failedCh\<close> alone.\<close>

lemma select_failed:
  "select_send pick get put p c = HRet ret c' \<Longrightarrow> (\<And>ch. c_failed (put ch c) = c_failed c) \<Longrightarrow> c_failed c' = c_failed c"
  by (auto dest!: select_send_cases)

lemma put_failed [simp]:
  "c_failed (put_writeOut ch c) = c_failed c" "c_failed (put_readOut ch c) = c_failed c"
  "c_failed (resetHeartbeatTimeout c) = c_failed c" "c_failed (effect e c) = c_failed c" "c_failed (spawn_send p c) = c_failed c"
  by (simp_all add: put_writeOut_def put_readOut_def resetHeartbeatTimeout_def effect_def spawn_send_def)

lemma Close_failed: "conn_Close now c = Ret c' \<Longrightarrow> c_failed c' = c_failed c"
  by (auto simp: conn_Close_eq obind_Ret_iff split: if_splits)

lemma choose_failed: "choose_clientID dlgt now pkt c = Ret (err, c') \<Longrightarrow> c_failed c' = c_failed c"
  by (auto simp: choose_clientID_def Let_def obind_Ret_iff split: if_splits option.splits prod.splits)

lemma dowrite_failed: "dowritePkt werr p False c = (res, c') \<Longrightarrow> c_failed c' = c_failed c"
  by (auto simp: dowritePkt_def split: outcome.splits option.splits)

lemma base_failed:
  "handleInDisConnPacket emit T now dp c = HRet ret c' \<Longrightarrow> c_failed c' = c_failed c"
  "handleInDisConnAckPacket emit T da c = HRet ret c' \<Longrightarrow> c_failed c' = c_failed c"
  "handleOutDisConnPacket emit T pick dp c = HRet ret c' \<Longrightarrow> c_failed c' = c_failed c"
  "handleOutDisConnAckPacket emit T werr da c = HRet ret c' \<Longrightarrow> c_failed c' = c_failed c"
  "handleOutDataPacket pick pkt c = HRet ret c' \<Longrightarrow> c_failed c' = c_failed c"
  by (auto simp: handleInDisConnPacket_def handleInDisConnAckPacket_def handleOutDisConnPacket_def
      handleOutDisConnAckPacket_def handleOutDataPacket_def Let_def
      split: option.splits outcome.splits prod.splits unit.splits if_splits
      dest!: Close_failed dowrite_failed select_failed)

lemma client_failed:
  "handleInConnAckPacket emit now ca c = HRet ret c' \<Longrightarrow> c_failed c' = c_failed c"
  "handleInHeartbeatAckPacket ha c = HRet ret c' \<Longrightarrow> c_failed c' = c_failed c"
  "client_handleInDataPacket pick pkt c = HRet ret c' \<Longrightarrow> c_failed c' = c_failed c"
  "handleOutConnPacket emit pick cp c = HRet ret c' \<Longrightarrow> c_failed c' = c_failed c"
  "handleOutHeartbeatPacket pick hb c = HRet ret c' \<Longrightarrow> c_failed c' = c_failed c"
  by (auto simp: handleInConnAckPacket_def handleInHeartbeatAckPacket_def client_handleInDataPacket_def
      handleOutConnPacket_def handleOutHeartbeatPacket_def Let_def
      split: option.splits outcome.splits prod.splits if_splits send_result.splits
      dest!: select_failed)

lemma server_failed:
  "handleInConnPacket emit dlgt now cp c = HRet ret c' \<Longrightarrow> c_failed c' = c_failed c"
  "handleInHeartbeatPacket d hb c = HRet ret c' \<Longrightarrow> c_failed c' = c_failed c"
  "server_handleInDataPacket pick pkt c = HRet ret c' \<Longrightarrow> ret = IODiscard \<or> c_failed c' = c_failed c"
  "handleOutConnAckPacket emit pick now ca c = HRet ret c' \<Longrightarrow> c_failed c' = c_failed c"
  by (auto simp: handleInConnPacket_def handleInHeartbeatPacket_def server_handleInDataPacket_def
      handleOutConnAckPacket_def Let_def
      split: option.splits outcome.splits prod.splits if_splits send_result.splits gres.splits IORet.splits
      dest!: select_failed choose_failed Close_failed)

lemma handlers_failed:
  "handleIn env t pkt c = HRet ret c' \<Longrightarrow> ret = IODiscard \<or> c_failed c' = c_failed c"
  "handleOut env t pkt c = HRet ret c' \<Longrightarrow> c_failed c' = c_failed c"
  by (auto simp: handleIn_def client_handleIn_def server_handleIn_def handleOut_def client_handleOut_def server_handleOut_def
      split: side.splits Packet.splits dest: base_failed client_failed server_failed)



text \<open>The state a handler leaves, when the next thing is the end of the connection.\<close>

definition accounted :: "Packet list \<Rightarrow> Packet list \<Rightarrow> conn \<Rightarrow> bool" where
  "accounted acc f c \<longleftrightarrow> c_failed c = Some f
     \<and> mset (filter is_user acc) = mset (on_wire c) + mset (to_write c) + mset (filter is_user (buf (c_writeIn c)))
     \<and> list_all (\<lambda>p. is_user p \<longrightarrow> \<not> is_ConnLayer p) acc"

lemma on_wire_end [simp]: "on_wire (handlePkt_end sd env c) = on_wire c"
  by (simp add: on_wire_def)

lemma accounted_end:
  assumes "accounted acc f c"
  shows "\<exists>f'. c_failed (handlePkt_end sd env c) = Some (f @ f')
    \<and> mset (filter is_user acc) = mset (on_wire (handlePkt_end sd env c)) + mset (filter is_user f')"
proof -
  let ?q = "buf (c_writeIn c) @ buf (c_writeOut c)"
  have "mset (filter is_user acc) = mset (on_wire c) + mset (filter is_user ?q)"
    using assms by (simp add: accounted_def to_write_def)
  then have "x \<in># mset (filter is_user acc)" if "x \<in> set (filter is_user ?q)" for x using that by simp
  then have "\<not> is_ConnLayer x" if "x \<in> set ?q" "is_user x" for x
    using that assms by (auto simp: accounted_def list_all_iff)
  then have "filter is_user (filter (\<lambda>p. \<not> is_ConnLayer p) ?q) = filter is_user ?q"
    unfolding filter_filter by (intro filter_cong) auto
  then show ?thesis using assms
    by (intro exI [of _ "filter (\<lambda>p. \<not> is_ConnLayer p) ?q"])
      (simp add: handlePkt_end_failed accounted_def to_write_def)
qed

lemma accounted_same:
  "accounted acc f c \<Longrightarrow> same c c' \<Longrightarrow> c_failed c' = c_failed c \<Longrightarrow> accounted acc f c'"
  by (simp add: accounted_def same_def kept_def)

lemma turn_ends:
  assumes "handlePkt_turn env t src p c = HRet () c'" "c_handling c" "\<not> c_handling c'" "c_connOK c"
  shows "\<exists>ret c1. (case src of FromIn \<Rightarrow> handleIn env t p c | FromOut \<Rightarrow> handleOut env t p c) = HRet ret c1
     \<and> (ret = IOErr \<or> ret = IOClosed) \<and> c' = handlePkt_end (c_side c) env c1"
proof -
  obtain ret c1 where h: "(case src of FromIn \<Rightarrow> handleIn env t p c | FromOut \<Rightarrow> handleOut env t p c) = HRet ret c1"
    and c': "c' = (if ret = IOErr \<or> ret = IOClosed then handlePkt_end (c_side c) env c1 else c1)"
    using assms(1) by (cases "case src of FromIn \<Rightarrow> handleIn env t p c | FromOut \<Rightarrow> handleOut env t p c")
      (auto simp: handlePkt_turn_eq split: if_splits)
  have "kept c c1" using h handleIn_same handleOut_kept [OF _ assms(4)]
    by (cases src) (auto simp: same_def)
  then show ?thesis using h c' assms(2,3) by (auto simp: kept_def split: if_splits)
qed

lemma in_turn_accounts:
  assumes "accounted acc f c" "handlePkt_turn env t FromIn p c = HRet () c'" "c_handling c" "\<not> c_handling c'" "c_connOK c"
  shows "\<exists>f'. c_failed c' = Some (f @ f') \<and> mset (filter is_user acc) = mset (on_wire c') + mset (filter is_user f')"
proof -
  obtain ret c1 where h: "handleIn env t p c = HRet ret c1" "ret = IOErr \<or> ret = IOClosed" "c' = handlePkt_end (c_side c) env c1"
    using turn_ends [OF assms(2-5)] by auto
  have "c_failed c1 = c_failed c" using handlers_failed(1) [OF h(1)] h(2) by auto
  then show ?thesis using accounted_end [OF accounted_same [OF assms(1) handleIn_same [OF h(1)]]] h(3) by simp
qed

text \<open>
  A packet the handler has just taken from \<open>writeInCh\<close>: a user packet is dropped only when the
  context is already done, and then the writer has stopped.
\<close>

lemma out_turn_accounts:
  assumes "accounted acc f c" "buf (c_writeIn c) = p # ps" "c0 = c\<lparr>c_writeIn := (c_writeIn c)\<lparr>buf := ps\<rparr>\<rparr>"
    "handlePkt_turn env t FromOut p c0 = HRet () c'" "c_handling c" "\<not> c_handling c'" "c_connOK c" "\<not> c_ctxDone c"
  shows "\<exists>f'. c_failed c' = Some (f @ f') \<and> mset (filter is_user acc) = mset (on_wire c') + mset (filter is_user f')"
proof -
  obtain ret c1 where h: "handleOut env t p c0 = HRet ret c1" "ret = IOErr \<or> ret = IOClosed" "c' = handlePkt_end (c_side c0) env c1"
    using turn_ends [OF assms(4)] assms(3,5,6,7) by auto
  have n: "\<not> is_user p"
  proof
    assume u: "is_user p"
    then have "handleOutDataPacket (t_pick t) p c0 = HRet ret c1"
      using h(1) by (auto simp: handleOut_def client_handleOut_def server_handleOut_def is_user_def
          split: side.splits Packet.splits)
    then show False using h(2) assms(3,7,8) by (auto simp: handleOutDataPacket_def dest!: select_send_cases)
  qed
  note k = handleOut_kept [OF h(1)]
  have "same c0 c1" using k n assms(3,7) by (auto simp: same_def)
  moreover have "accounted acc f c0" using assms(1-3) n by (simp add: accounted_def on_wire_def to_write_def)
  moreover have "c_failed c1 = c_failed c0" using handlers_failed(2) [OF h(1)] by blast
  ultimately show ?thesis using accounted_end accounted_same h(3) by blast
qed

lemma writer_handling:
  assumes "writePkt_turn werr got c = HRet () c'"
  shows "c_handling c' = c_handling c"
proof (cases got)
  case None
  then show ?thesis using assms by (auto simp: writePkt_turn_def)
next
  case (Some p)
  obtain res c1 where d: "dowritePkt werr p (\<not> is_ConnLayer p) c = (res, c1)" by fastforce
  have "c_handling c1 = c_handling c" using dowrite_sel [OF d] by (simp add: kept_def)
  then show ?thesis using assms Some d by (cases res) (auto simp: writePkt_turn_def split: unit.splits)
qed

lemma recv_handling:
  "recv c_hbOut put_hbOut c = Some (got, c') \<Longrightarrow> c_handling c' = c_handling c"
  "recv c_writeOut put_writeOut c = Some (got, c') \<Longrightarrow> c_handling c' = c_handling c"
  by (auto simp: put_hbOut_def put_writeOut_def dest!: recv_cases)

lemma other_turn_handling:
  assumes "conn_turn env op c = HRet () c'" "\<And>t. op \<noteq> HandleHb t" "\<And>t. op \<noteq> HandleIn t" "\<And>t. op \<noteq> HandleOut t"
  shows "c_handling c' = c_handling c"
proof (cases op)
  case (Reader got)
  then show ?thesis using assms(1) readPkt_turn_cases [of got c c'] by (auto split: if_splits)
next
  case (WriterHb werr)
  then show ?thesis using assms(1) writer_handling recv_handling by (fastforce split: if_splits option.splits)
next
  case (Writer werr)
  then show ?thesis using assms(1) writer_handling recv_handling by (fastforce split: if_splits option.splits)
next
  case (Sender pick i)
  then show ?thesis using assms(1) by (auto simp: forget_HRet split: if_splits dest!: sendToWriteIn_cases)
next
  case (UserWrite pick p)
  then show ?thesis using assms(1) by (auto simp: forget_HRet dest!: conn_Write_cases)
next
  case UserRead
  then show ?thesis using assms(1) by (auto simp: forget_HRet conn_Read_def split: if_splits list.splits)
next
  case (UserClose now)
  then show ?thesis using assms(1) by (auto simp: of_outcome_HRet same_def kept_def dest!: same_Close)
next
  case (Tick now)
  then show ?thesis using assms(1) by (auto simp: of_outcome_HRet sendHeartbeat_def spawn_send_def obind_Ret_iff split: if_splits)
next
  case (HBTimeout err now)
  then show ?thesis using assms(1) by (auto simp: of_outcome_HRet waitHBTimeout_def same_def kept_def split: if_splits dest!: same_Close)
next
  case SetupFailed
  then show ?thesis using assms(1) by (auto simp: setup_failed_def)
qed (use assms in auto)

lemma conn_turn_accounts:
  assumes "conn_inv acc c" "c_handling c" "c_writing c" "conn_turn env op c = HRet () c'" "\<not> c_handling c'"
    "c_failed c = Some f" "list_all (\<lambda>p. is_user p \<longrightarrow> \<not> is_ConnLayer p) acc"
  shows "\<exists>f'. c_failed c' = Some (f @ f') \<and> mset (filter is_user acc) = mset (on_wire c') + mset (filter is_user f')"
proof -
  have "on_wire c @ to_write c @ filter is_user (buf (c_writeIn c)) = filter is_user acc"
    using assms(1-3) by (simp add: conn_inv_def)
  then have "mset (filter is_user acc) = mset (on_wire c @ to_write c @ filter is_user (buf (c_writeIn c)))" by simp
  then have a: "accounted acc f c" using assms(6,7) by (simp add: accounted_def add.assoc)
  have ok: "c_connOK c" "\<not> c_ctxDone c" "\<not> is_closed (c_writeIn c)"
    using assms(1-3) by (auto simp: conn_inv_def weak_inv_def)
  show ?thesis
  proof (cases op)
    case (HandleHb t)
    then obtain p c0 where r: "recv c_hbIn put_hbIn c = Some (Some p, c0)" "handlePkt_turn env t FromIn p c0 = HRet () c'"
      using assms(4) by (auto split: if_splits option.splits)
    have "accounted acc f c0 \<and> c_handling c0 \<and> c_connOK c0"
      using recv_cases [OF r(1)] a assms(2) ok by (auto simp: put_hbIn_def accounted_def on_wire_def to_write_def)
    then show ?thesis using in_turn_accounts r(2) assms(5) by blast
  next
    case (HandleIn t)
    then obtain got c0 where r: "recv c_readIn put_readIn c = Some (got, c0)"
      "(case got of Some p \<Rightarrow> handlePkt_turn env t FromIn p c0 | None \<Rightarrow> HRet () (handlePkt_end (c_side c) env c0)) = HRet () c'"
      using assms(4) by (auto split: if_splits option.splits)
    have "accounted acc f c0 \<and> c_handling c0 \<and> c_connOK c0"
      using recv_cases [OF r(1)] a assms(2) ok by (auto simp: put_readIn_def accounted_def on_wire_def to_write_def)
    then show ?thesis using in_turn_accounts accounted_end r(2) assms(5) by (cases got) auto
  next
    case (HandleOut t)
    then obtain p c0 where r: "recv c_writeIn put_writeIn c = Some (Some p, c0)" "handlePkt_turn env t FromOut p c0 = HRet () c'"
      using assms(2,4) ok(3) by (auto simp: recv_def split: if_splits option.splits list.splits)
    obtain ps where "buf (c_writeIn c) = p # ps" "c0 = c\<lparr>c_writeIn := (c_writeIn c)\<lparr>buf := ps\<rparr>\<rparr>"
      using recv_cases [OF r(1)] by (auto simp: put_writeIn_def)
    then show ?thesis using out_turn_accounts [OF a _ _ r(2) assms(2,5) ok(1,2)] by blast
  qed (use other_turn_handling [OF assms(4)] assms(2,5) in auto)
qed


section \<open>Properties of every run\<close>

text \<open>Runs given by their turns.\<close>

fun run_ops :: "conn_env \<Rightarrow> conn_op list \<Rightarrow> Packet list \<times> conn \<Rightarrow> (Packet list \<times> conn) option" where
  "run_ops env [] s = Some s"
| "run_ops env (op # ops) s =
     (case conn_turn env op (snd s) of
        HRet _ c' \<Rightarrow> run_ops env ops (fst s @ accepted op (snd s), c')
      | _ \<Rightarrow> None)"

lemma run_ops_run: "run_ops env ops (acc, c) = Some (acc', c') \<Longrightarrow> conn_run env c0 acc c \<Longrightarrow> conn_run env c0 acc' c'"
proof (induction ops arbitrary: acc c)
  case (Cons op ops)
  then show ?case by (cases "conn_turn env op c") (auto intro: conn_run.turn)
qed simp

lemmas run_ops_start = run_ops_run [OF _ conn_run.start]

definition example_env :: conn_env where
  "example_env = \<lparr>e_emit = table_next, e_server_dlgt = None, e_client_dlgt = False\<rparr>"

definition example_turn :: turn where
  "example_turn = \<lparr>t_now = 0, t_pick = True, t_werr = None\<rparr>"

definition example_conn :: conn where
  "example_conn = NewServerConn (NewPacketFactory (NewIDCounter Even (Some (0, 0, 0, 0)))) (NewIDCounter Inc None) (Some []) 4 4"

definition example_stream :: "u64 \<Rightarrow> Packet" where
  "example_stream i = PStream \<lparr>st_hdr = mk_header TypeStreamPacket i 0, st_sessionID = 1, st_Data = [1, 2], st_clientID = 0\<rparr>"

text \<open>
  C6. Whatever the goroutines of a connection do in whatever order, the upper-layer packets that
  have been written to the network are an initial part of the accepted writes, in the order in
  which \<open>Write\<close> accepted them; while handler and writer run, the rest is queued in that order,
  none lost and none doubled.
\<close>

theorem wire_order:
  assumes "conn_start c0" "conn_run env c0 acc c"
  shows "prefix (on_wire c) (filter is_user acc) \<and>
    (c_handling c \<and> c_writing c \<longrightarrow> on_wire c @ to_write c @ filter is_user (buf (c_writeIn c)) = filter is_user acc)"
  using run_inv [OF assms(2,1)] by (simp add: conn_inv_def weak_inv_def)

theorem wire_order_witness:
  "\<exists>acc c. conn_run example_env example_conn acc c
     \<and> on_wire c = [example_stream 1] \<and> to_write c = [example_stream 3] \<and> filter is_user acc = [example_stream 1, example_stream 3]"
proof -
  let ?ops = "[UserWrite True (example_stream 1), HandleOut example_turn, UserWrite True (example_stream 3), Writer None, HandleOut example_turn]"
  let ?r = "run_ops example_env ?ops ([], example_conn)"
  have e: "map_option (\<lambda>(acc, c). (on_wire c, to_write c, buf (c_writeIn c), c_handling c, c_writing c)) ?r
      = Some ([example_stream 1], [example_stream 3], [], True, True)" by code_simp
  then obtain acc c where r: "?r = Some (acc, c)" by auto
  then have run: "conn_run example_env example_conn acc c" by (rule run_ops_start)
  have "conn_start example_conn" unfolding example_conn_def by (rule conn_start.server)
  from wire_order [OF this run] show ?thesis using run e r by auto
qed

text \<open>
  C26. The only send on a closed channel that a connection can make is \<open>readPkt\<close> forwarding a
  heartbeat to \<open>heartbeatCh\<close> after the handler has finished the connection.
\<close>

theorem send_on_closed_only_heartbeat:
  assumes "conn_start c0" "conn_run env c0 acc c" "conn_turn env op c = HSendOnClosed"
  shows "\<exists>pkt. op = Reader (Ret pkt) \<and> is_heartbeat pkt \<and> \<not> c_handling c"
  using turn_on_closed [OF run_inv [OF assms(2,1)] assms(3)] .

definition example_heartbeat :: Packet where
  "example_heartbeat = PHeartbeat \<lparr>hb_hdr = mk_header TypeHeartbeatPacket 2 0\<rparr>"

theorem send_on_closed_only_heartbeat_witness:
  "\<exists>acc c. conn_run example_env example_conn acc c \<and> conn_turn example_env (Reader (Ret example_heartbeat)) c = HSendOnClosed
     \<and> \<not> c_handling c"
proof -
  let ?r = "run_ops example_env [UserClose 0, Sender True 0, HandleOut example_turn] ([], example_conn)"
  have e: "map_option (\<lambda>(acc, c). (c_reading c, is_closed (c_hbIn c))) ?r = Some (True, True)" by code_simp
  then obtain acc c where r: "?r = Some (acc, c)" by auto
  then have run: "conn_run example_env example_conn acc c" by (rule run_ops_start)
  have p: "conn_turn example_env (Reader (Ret example_heartbeat)) c = HSendOnClosed"
    using e r by (simp add: readPkt_turn_def example_heartbeat_def Packet_Type_def mk_header_def ch_send_def DefaultMaxPacketSize_def PacketHeader_Length_def)
  have "conn_start example_conn" unfolding example_conn_def by (rule conn_start.server)
  from send_on_closed_only_heartbeat [OF this run p] show ?thesis using run p by blast
qed



end
