(* ===== verification/Conn_Handshake.thy ===== *)
theory Conn_Handshake
  imports Conn_Sides "HOL-Library.Monad_Syntax"
begin

text \<open>
  The two handshakes of a connection: closing, where the locale \<open>close_handshake\<close> is interpreted
  on the transition tables of client and server and carried over to the handlers, and opening,
  where both ends' handlers are composed across the wire.
\<close>


section \<open>Closing\<close>

interpretation client_close: close_handshake "table_next client_events" ET_CLOSESENT ET_CLOSERECV ET_CLOSEACK
  CONNED CLOSE_SENT CLOSE_RECV CLOSE_HALF CLOSED
  by unfold_locales (simp_all add: client_events_def table_next_def)

interpretation server_close: close_handshake "table_next server_events" ET_CLOSESENT ET_CLOSERECV ET_CLOSEACK
  CONNED CLOSE_SENT CLOSE_RECV CLOSE_HALF FINI
  by unfold_locales (simp_all add: server_events_def table_next_def)

text \<open>The state in which the handshake ends; the server's carries the name \<open>FINI\<close>.\<close>

definition closed_state :: "side \<Rightarrow> conn_state" where
  "closed_state sd = (case sd of InitiatorSide \<Rightarrow> CLOSED | RecipientSide \<Rightarrow> FINI)"

text \<open>The four steps with the packets they handle: our close and the peer's, and the two acknowledgements.\<close>

fun close_turn :: "conn_env \<Rightarrow> turn \<Rightarrow> DisConnPacket \<Rightarrow> DisConnPacket \<Rightarrow> DisConnAckPacket \<Rightarrow> DisConnAckPacket
    \<Rightarrow> close_step \<Rightarrow> conn \<Rightarrow> IORet hres" where
  "close_turn env t ours theirs ack_in ack_out SendClose c = handleOut env t (PDisConn ours) c"
| "close_turn env t ours theirs ack_in ack_out RecvClose c = handleIn env t (PDisConn theirs) c"
| "close_turn env t ours theirs ack_in ack_out RecvAck c = handleIn env t (PDisConnAck ack_in) c"
| "close_turn env t ours theirs ack_in ack_out SendAck c = handleOut env t (PDisConnAck ack_out) c"

text \<open>A connection on which no step blocks: room for one packet, and a factory that can make one.\<close>

definition can_close :: "conn \<Rightarrow> bool" where
  "can_close c \<longleftrightarrow> \<not> c_ctxDone c \<and> \<not> is_closed (c_writeOut c) \<and> counting (mode (packetIDs (c_pf c)))"

definition room :: "conn \<Rightarrow> bool" where
  "room c \<longleftrightarrow> length (buf (c_writeOut c)) < cap (c_writeOut c)"

definition close_emit :: "side \<Rightarrow> conn_state \<Rightarrow> close_step \<Rightarrow> conn_state option" where
  "close_emit sd s x = table_next (conn_events sd) s
     (case x of SendClose \<Rightarrow> ET_CLOSESENT | RecvClose \<Rightarrow> ET_CLOSERECV | _ \<Rightarrow> ET_CLOSEACK)"

lemma counting_NewDisConn:
  assumes "counting (mode (packetIDs pf))"
  shows "\<exists>p pf'. NewDisConnPacket now pf = Ret (p, pf') \<and> counting (mode (packetIDs pf'))"
  using GetID_counting [OF assms, of now] assms
  by (auto simp: NewDisConnPacket_def with_id_def NewPacketID_def)

lemma can_close_Close:
  assumes "can_close c"
  shows "\<exists>c'. conn_Close now c = Ret c' \<and> can_close c' \<and> c_state c' = c_state c \<and> c_side c' = c_side c
    \<and> c_writeOut c' = c_writeOut c \<and> c_net c' = c_net c"
  using assms counting_NewDisConn [of "c_pf c" now]
  by (auto simp: conn_Close_eq can_close_def spawn_send_def)


definition close_ret :: "close_step \<Rightarrow> conn_state \<Rightarrow> IORet" where
  "close_ret x s = (if (x = RecvAck \<or> x = SendAck) \<and> s \<noteq> CLOSE_HALF then IOClosed else IOSuccess)"

definition close_out :: "DisConnPacket \<Rightarrow> close_step \<Rightarrow> Packet list" where
  "close_out ours x = (if x = SendClose then [PDisConn ours] else [])"

lemma select_send_room:
  "\<not> c_ctxDone c \<Longrightarrow> \<not> is_closed (get c) \<Longrightarrow> length (buf (get c)) < cap (get c) \<Longrightarrow>
    select_send pick get put p c = HRet IOSuccess (put ((get c)\<lparr>buf := buf (get c) @ [p]\<rparr>) c)"
  by (simp add: select_send_def ch_send_def)

lemma emit_conn:
  assumes "documented_fsm emit"
  shows "emit client_events = table_next client_events" "emit server_events = table_next server_events"
  using emit_table [OF assms single_valued_conn [of InitiatorSide]] emit_table [OF assms single_valued_conn [of RecipientSide]]
  by (simp_all add: conn_events_def fun_eq_iff)

lemma handle_close_in:
  assumes "documented_fsm (e_emit env)"
  shows "handleIn env t (PDisConn theirs) c
      = handleInDisConnPacket (\<lambda>_. table_next (conn_events (c_side c))) (conn_events (c_side c)) (t_now t) theirs c"
    "handleIn env t (PDisConnAck ack_in) c
      = handleInDisConnAckPacket (\<lambda>_. table_next (conn_events (c_side c))) (conn_events (c_side c)) ack_in c"
    "handleOut env t (PDisConn ours) c
      = handleOutDisConnPacket (\<lambda>_. table_next (conn_events (c_side c))) (conn_events (c_side c)) (t_pick t) ours c"
    "handleOut env t (PDisConnAck ack_out) c
      = handleOutDisConnAckPacket (\<lambda>_. table_next (conn_events (c_side c))) (conn_events (c_side c)) (t_werr t) ack_out c"
  by (cases "c_side c"; simp add: handleIn_def handleOut_def client_handleIn_def client_handleOut_def server_handleIn_def
      server_handleOut_def conn_events_def emit_conn [OF assms] handleInDisConnPacket_def handleInDisConnAckPacket_def
      handleOutDisConnPacket_def handleOutDisConnAckPacket_def)+

lemma close_turn_ok:
  assumes "documented_fsm (e_emit env)" "can_close c" "close_emit (c_side c) (c_state c) x = Some s"
    "x = SendClose \<Longrightarrow> room c" "x = SendAck \<Longrightarrow> t_werr t = None \<and> Encode (PDisConnAck ack_out) = Ret bs"
  shows "\<exists>c'. close_turn env t ours theirs ack_in ack_out x c = HRet (close_ret x s) c' \<and> can_close c' \<and> c_state c' = s
    \<and> c_side c' = c_side c \<and> buf (c_writeOut c') = buf (c_writeOut c) @ close_out ours x \<and> cap (c_writeOut c') = cap (c_writeOut c)
    \<and> map fst (c_net c') = map fst (c_net c) @ (if x = SendAck then [PDisConnAck ack_out] else [])"
proof (cases x)
  case SendClose
  then show ?thesis using assms
    by (simp add: handle_close_in close_emit_def handleOutDisConnPacket_def close_ret_def close_out_def can_close_def room_def
        select_send_room put_writeOut_def)
next
  case RecvClose
  let ?c = "spawn_send (PDisConnAck (NewDisConnAckPacket (PacketID (dc_hdr theirs)) None)) (c\<lparr>c_state := s\<rparr>)"
  have "can_close ?c" using assms(2) by (simp add: can_close_def spawn_send_def)
  then obtain c' where "conn_Close (t_now t) ?c = Ret c'" "can_close c'" "c_state c' = s" "c_side c' = c_side c"
    "c_writeOut c' = c_writeOut c" "c_net c' = c_net c"
    using can_close_Close [of ?c "t_now t"] by (auto simp: spawn_send_def)
  then show ?thesis using RecvClose assms
    by (simp add: handle_close_in close_emit_def handleInDisConnPacket_def close_ret_def close_out_def)
next
  case RecvAck
  then show ?thesis using assms
    by (simp add: handle_close_in close_emit_def handleInDisConnAckPacket_def close_ret_def close_out_def can_close_def)
next
  case SendAck
  then show ?thesis using assms
    by (simp add: handle_close_in close_emit_def handleOutDisConnAckPacket_def dowritePkt_def close_ret_def close_out_def can_close_def
        split: unit.splits)
qed

lemma close_turns_ok:
  assumes "documented_fsm (e_emit env)" "can_close c" "states_of (close_emit (c_side c)) (c_state c) xs = Some ss"
    "distinct xs" "SendClose \<in> set xs \<Longrightarrow> room c" "t_werr t = None" "Encode (PDisConnAck ack_out) = Ret bs"
  shows "\<exists>c'. turns (close_turn env t ours theirs ack_in ack_out) xs c = Some (map2 close_ret xs ss, c')
    \<and> c_state c' = last (c_state c # ss) \<and> buf (c_writeOut c') = buf (c_writeOut c) @ concat (map (close_out ours) xs)
    \<and> map fst (c_net c') = map fst (c_net c) @ (if SendAck \<in> set xs then [PDisConnAck ack_out] else [])"
  using assms
proof (induction xs arbitrary: c ss)
  case (Cons x xs)
  then obtain s ss' where s: "close_emit (c_side c) (c_state c) x = Some s" "ss = s # ss'"
    "states_of (close_emit (c_side c)) s xs = Some ss'" by (auto split: option.splits)
  obtain c1 where c1: "close_turn env t ours theirs ack_in ack_out x c = HRet (close_ret x s) c1" "can_close c1" "c_state c1 = s"
    "c_side c1 = c_side c" "buf (c_writeOut c1) = buf (c_writeOut c) @ close_out ours x" "cap (c_writeOut c1) = cap (c_writeOut c)"
    "map fst (c_net c1) = map fst (c_net c) @ (if x = SendAck then [PDisConnAck ack_out] else [])"
    using close_turn_ok [OF Cons.prems(1,2) s(1), of t ack_out bs ours theirs ack_in] Cons.prems(5-7) by auto
  have r: "SendClose \<in> set xs \<Longrightarrow> room c1" using Cons.prems(4,5) c1(5,6) by (auto simp: room_def close_out_def)
  obtain c' where "turns (close_turn env t ours theirs ack_in ack_out) xs c1 = Some (map2 close_ret xs ss', c')"
    "c_state c' = last (c_state c1 # ss')" "buf (c_writeOut c') = buf (c_writeOut c1) @ concat (map (close_out ours) xs)"
    "map fst (c_net c') = map fst (c_net c1) @ (if SendAck \<in> set xs then [PDisConnAck ack_out] else [])"
    using Cons.IH [OF Cons.prems(1) c1(2) _ _ r Cons.prems(6,7), of ss'] s(3) c1(3,4) Cons.prems(4) by auto
  then show ?case using c1 s Cons.prems(4) by auto
qed simp

lemma close_emit_states:
  assumes "close_order xs"
  shows "\<exists>a b. states_of (close_emit sd) CONNED xs = Some [a, b, CLOSE_HALF, closed_state sd]
    \<and> (xs ! 1 = RecvAck \<or> xs ! 1 = SendAck \<longrightarrow> b = CLOSE_HALF)"
proof -
  have e: "states_of (close_emit sd) s xs = states_of (table_next (conn_events sd)) s
     (map (\<lambda>x. case x of SendClose \<Rightarrow> ET_CLOSESENT | RecvClose \<Rightarrow> ET_CLOSERECV | _ \<Rightarrow> ET_CLOSEACK) xs)" for sd s xs
    by (induction xs arbitrary: s) (simp_all add: close_emit_def split: option.splits)
  have ev: "client_close.event_of = (\<lambda>x. case x of SendClose \<Rightarrow> ET_CLOSESENT | RecvClose \<Rightarrow> ET_CLOSERECV | _ \<Rightarrow> ET_CLOSEACK)"
    by (rule ext) (simp split: close_step.split)
  show ?thesis
    using client_close.all_orders_close [OF assms] server_close.all_orders_close [OF assms]
    by (cases sd) (simp_all add: e conn_events_def closed_state_def ev)
qed





section \<open>Opening\<close>

text \<open>
  The exchange: the client's conn packet is handled on its way out, crosses the wire, is handled
  by the server; the server's answer goes the same way back.
\<close>

definition conn_exchange :: "conn_env \<Rightarrow> turn \<Rightarrow> conn \<Rightarrow> conn \<Rightarrow> (conn \<times> conn) option" where
  "conn_exchange env t c0 s0 =
     do {
       p \<leftarrow> the_one (c_sends c0);
       c1 \<leftarrow> settled (handleOut env t p c0);
       q \<leftarrow> over_wire p;
       s1 \<leftarrow> settled (handleIn env t q s0);
       a \<leftarrow> the_one (c_sends s1);
       s2 \<leftarrow> settled (handleOut env t a s1);
       b \<leftarrow> over_wire a;
       c2 \<leftarrow> settled (handleIn env t b c1);
       Some (c2, s2)
     }"

text \<open>A delegate that refuses nothing; it may leave the choice of the id to the server.\<close>

definition accepting :: "server_delegate option \<Rightarrow> u64 \<Rightarrow> bytes \<Rightarrow> bool" where
  "accepting dlgt cid meta =
     (case dlgt of None \<Rightarrow> True
      | Some d \<Rightarrow> snd (GetClientID d cid meta) = None \<and> (\<forall>i. ConnOnline d i meta = None))"

text \<open>An acknowledgement without an error is short.\<close>

lemma sendable_ConnAck: "sendable (PConnAck (NewConnAckPacket i cid None))"
proof -
  have m: "marshal_ConnData (Some (empty_ConnData\<lparr>cd_Error := []\<rparr>)) = Ret (case marshal_ConnData (Some (empty_ConnData\<lparr>cd_Error := []\<rparr>)) of Ret b \<Rightarrow> b | _ \<Rightarrow> [])"
    "length (case marshal_ConnData (Some (empty_ConnData\<lparr>cd_Error := []\<rparr>)) of Ret b \<Rightarrow> b | _ \<Rightarrow> []) \<le> 100" by code_simp+
  then obtain b where b: "marshal_ConnData (Some (empty_ConnData\<lparr>cd_Error := []\<rparr>)) = Ret b" "length b \<le> 100" by metis
  have "ok_Packet (PConnAck (NewConnAckPacket i cid None))"
    by (simp add: NewConnAckPacket_def mk_header_def ok_ConnData_def empty_ConnData_def err_text_def)
  then show ?thesis using b
    by (simp add: sendable_def NewConnAckPacket_def ConnAckPacket_Encode_def err_text_def MaxDecodablePacketLen_def)
qed


lemma open_moves:
  "table_next client_events INIT ET_CONNSENT = Some CONN_SENT" "table_next client_events CONN_SENT ET_CONNACK = Some CONNED"
  "table_next server_events INIT ET_CONNRECV = Some CONN_RECV" "table_next server_events CONN_RECV ET_CONNACK = Some CONNED"
  by (simp_all add: client_events_def server_events_def table_next_def)

lemma client_conn_ok: "newClientConn now pf cid meta r w = Ret (k, c0) \<Longrightarrow> list_all ok_Packet (c_sends c0)"
  by (auto simp: newClientConn_def Let_def obind_Ret_iff spawn_send_def new_conn_def NewConnPacket_def with_id_Ret mk_header_def
      ok_ConnData_def empty_ConnData_def)

lemma client_sends_conn:
  assumes "documented_fsm (e_emit env)" "newClientConn now pf cid meta r w = Ret (k, c0)"
  shows "\<exists>p c1. c_sends c0 = [PConn p] \<and> PacketID (cp_hdr p) = k \<and> cp_ClientID p = cid
    \<and> Heartbeat (cp_flags p) = 20 \<and> clientIDAcquire (cp_flags p) \<and> cp_ConnData p = Some (empty_ConnData\<lparr>cd_Meta := meta\<rparr>)
    \<and> handleOut env t (PConn p) c0 = HRet IOSuccess c1 \<and> c_side c1 = InitiatorSide \<and> c_state c1 = CONN_SENT"
proof -
  from assms(2) obtain p pf' where p: "NewConnPacket now cid True 20 meta pf = Ret (p, pf')" "k = PacketID (cp_hdr p)"
    and c0: "c0 = spawn_send (PConn p) ((new_conn InitiatorSide pf (NewIDCounter Inc None) r w)
       \<lparr>c_clientID := cid, c_heartbeat := 20, c_meta := meta, c_hbTick := Some 20, c_pf := pf'\<rparr>)"
    by (auto simp: newClientConn_def Let_def obind_Ret_iff)
  have f: "cp_ClientID p = cid" "Heartbeat (cp_flags p) = 20" "clientIDAcquire (cp_flags p)"
    "cp_ConnData p = Some (empty_ConnData\<lparr>cd_Meta := meta\<rparr>)" using p(1) by (auto simp: NewConnPacket_def with_id_Ret)
  have "c_sends c0 = [PConn p]" "c_side c0 = InitiatorSide" "c_state c0 = INIT" "\<not> c_ctxDone c0"
    "\<not> is_closed (c_writeOut c0)" "length (buf (c_writeOut c0)) < cap (c_writeOut c0)"
    using c0 by (simp_all add: spawn_send_def new_conn_def)
  then show ?thesis using p(2) f
    by (simp add: handleOut_def client_handleOut_def handleOutConnPacket_def emit_conn [OF assms(1)] open_moves select_send_room put_writeOut_def)
qed

lemma server_answers:
  assumes "documented_fsm (e_emit env)" "cp_ConnData q = Some d" "clientIDAcquire (cp_flags q)"
    "accepting (e_server_dlgt env) (cp_ClientID q) (cd_Meta d)" "counting (mode clientIDs)"
    "s0 = NewServerConn pf clientIDs failedCh r w"
  shows "\<exists>s1 i. handleIn env t (PConn q) s0 = HRet IOSuccess s1 \<and> c_clientID s1 = i
    \<and> c_sends s1 = [PConnAck (NewConnAckPacket (PacketID (cp_hdr q)) i None)] \<and> c_side s1 = RecipientSide
    \<and> c_state s1 = CONN_RECV \<and> c_meta s1 = cd_Meta d \<and> c_heartbeat s1 = Heartbeat (cp_flags q)
    \<and> c_hbTick s1 = Some (Heartbeat (cp_flags q) * 2) \<and> SyncDone OfAddrs \<in> set (c_effects s1)
    \<and> \<not> c_ctxDone s1 \<and> \<not> is_closed (c_writeOut s1) \<and> length (buf (c_writeOut s1)) < cap (c_writeOut s1)"
proof -
  obtain j ctr where g: "GetIDByMeta (t_now t) (cd_Meta d) clientIDs = Ret (j, ctr)"
    using GetID_counting [OF assms(5), of "t_now t"] by (auto simp: GetIDByMeta_def)
  show ?thesis using assms(2-4) g
    by (cases "e_server_dlgt env")
      (auto simp: assms(6) handleIn_def server_handleIn_def handleInConnPacket_def emit_conn [OF assms(1)] open_moves NewServerConn_def new_conn_def choose_clientID_def accepting_def Let_def resetHeartbeatTimeout_def
        spawn_send_def effect_def split: prod.splits)
qed

lemma server_confirms:
  assumes "documented_fsm (e_emit env)" "c_side s1 = RecipientSide" "c_state s1 = CONN_RECV"
    "\<not> c_ctxDone s1" "\<not> is_closed (c_writeOut s1)" "length (buf (c_writeOut s1)) < cap (c_writeOut s1)"
  shows "\<exists>s2. handleOut env t (PConnAck (NewConnAckPacket i cid None)) s1 = HRet IOSuccess s2 \<and> c_state s2 = CONNED
    \<and> c_onlined s2 \<and> c_clientID s2 = c_clientID s1 \<and> c_meta s2 = c_meta s1 \<and> c_heartbeat s2 = c_heartbeat s1
    \<and> c_hbTick s2 = c_hbTick s1 \<and> c_effects s2 = c_effects s1"
  using assms(2-)
  by (simp add: handleOut_def server_handleOut_def handleOutConnAckPacket_def NewConnAckPacket_def RetCodeOK_def RetCodeERR_def
      emit_conn [OF assms(1)] open_moves select_send_room put_writeOut_def)

lemma client_completes:
  assumes "documented_fsm (e_emit env)" "c_side c1 = InitiatorSide" "c_state c1 = CONN_SENT"
    "ca_ConnData a = Some d" "cd_Error d = []"
  shows "\<exists>c2. handleIn env t (PConnAck a) c1 = HRet IOSuccess c2 \<and> c_state c2 = CONNED \<and> c_onlined c2
    \<and> c_clientID c2 = ca_ClientID a \<and> SyncDone (OfPacket (PacketID (ca_hdr a))) \<in> set (c_effects c2)"
  using assms(2-)
  by (simp add: handleIn_def client_handleIn_def handleInConnAckPacket_def emit_conn [OF assms(1)] open_moves Let_def effect_def)

text \<open>
  C12. The opening handshake succeeds and both ends agree: after the conn packet and its answer
  have crossed the wire, client and server are both connected under the same client id, the server
  has the client's metadata and watches for heartbeats at twice the announced interval, and both
  constructors' waits are completed. The delegate, if there is one, must not refuse.
\<close>

theorem conn_handshake_agrees:
  assumes "documented_fsm (e_emit env)" "newClientConn now pf cid meta r w = Ret (k, c0)" "list_all sendable (c_sends c0)"
    "s0 = NewServerConn spf clientIDs failedCh r' w'" "counting (mode clientIDs)"
    "accepting (e_server_dlgt env) cid meta"
  shows "\<exists>c s. conn_exchange env t c0 s0 = Some (c, s) \<and> c_state c = CONNED \<and> c_state s = CONNED
    \<and> c_clientID c = c_clientID s \<and> c_meta s = meta \<and> c_heartbeat s = 20 \<and> c_hbTick s = Some 40
    \<and> SyncDone (OfPacket k) \<in> set (c_effects c) \<and> SyncDone OfAddrs \<in> set (c_effects s)"
proof -
  obtain p c1 where p: "c_sends c0 = [PConn p]" "PacketID (cp_hdr p) = k" "cp_ClientID p = cid" "Heartbeat (cp_flags p) = 20"
    "clientIDAcquire (cp_flags p)" "cp_ConnData p = Some (empty_ConnData\<lparr>cd_Meta := meta\<rparr>)"
    and c1: "handleOut env t (PConn p) c0 = HRet IOSuccess c1" "c_side c1 = InitiatorSide" "c_state c1 = CONN_SENT"
    using client_sends_conn [OF assms(1,2), of t] by blast
  obtain bs where q: "over_wire (PConn p) = Some (sent (PConn p) bs)" using over_wire_sent assms(3) p(1) by auto
  let ?q = "wire_ConnPacket (wire_header (cp_hdr p) (drop 14 bs)) p"
  have qf: "cp_flags ?q = cp_flags p" "cp_ClientID ?q = cid" "PacketID (cp_hdr ?q) = k"
    "cp_ConnData ?q = Some (empty_ConnData\<lparr>cd_Meta := meta\<rparr>)" "sent (PConn p) bs = PConn ?q"
    using p by (simp_all add: wire_ConnPacket_def ConnFlags_round wire_header_def got_ConnData_def sent_def)
  obtain s1 i where s1: "handleIn env t (PConn ?q) s0 = HRet IOSuccess s1" "c_clientID s1 = i"
    "c_sends s1 = [PConnAck (NewConnAckPacket k i None)]" "c_side s1 = RecipientSide" "c_state s1 = CONN_RECV" "c_meta s1 = meta"
    "c_heartbeat s1 = 20" "c_hbTick s1 = Some 40" "SyncDone OfAddrs \<in> set (c_effects s1)" "\<not> c_ctxDone s1"
    "\<not> is_closed (c_writeOut s1)" "length (buf (c_writeOut s1)) < cap (c_writeOut s1)"
    using server_answers [OF assms(1) qf(4) _ _ assms(5,4), of t] qf p(4,5) assms(6) by auto
  obtain s2 where s2: "handleOut env t (PConnAck (NewConnAckPacket k i None)) s1 = HRet IOSuccess s2" "c_state s2 = CONNED"
    "c_clientID s2 = i" "c_meta s2 = meta" "c_heartbeat s2 = 20" "c_hbTick s2 = Some 40" "SyncDone OfAddrs \<in> set (c_effects s2)"
    using server_confirms [OF assms(1) s1(4,5,10-12), of t k i] s1 by auto
  let ?a = "NewConnAckPacket k i None"
  obtain as where a: "over_wire (PConnAck ?a) = Some (sent (PConnAck ?a) as)" using over_wire_sent [OF sendable_ConnAck] by blast
  let ?b = "wire_ConnAckPacket (wire_header (ca_hdr ?a) (drop 14 as)) ?a"
  have b: "sent (PConnAck ?a) as = PConnAck ?b" "ca_ClientID ?b = i" "PacketID (ca_hdr ?b) = k"
    "ca_ConnData ?b = Some (empty_ConnData\<lparr>cd_Error := []\<rparr>)"
    by (simp_all add: sent_def wire_ConnAckPacket_def wire_header_def NewConnAckPacket_def got_ConnData_def mk_header_def err_text_def)
  obtain c2 where "handleIn env t (PConnAck ?b) c1 = HRet IOSuccess c2" "c_state c2 = CONNED" "c_clientID c2 = i"
    "SyncDone (OfPacket k) \<in> set (c_effects c2)"
    using client_completes [OF assms(1) c1(2,3) b(4), of t] b(2,3) by auto
  then show ?thesis using p(1) c1(1) q qf(5) s1(1,3) s2 a b(1)
    by (simp add: conn_exchange_def the_one_def settled_def)
qed

theorem conn_handshake_agrees_witness:
  "\<exists>env t k c0 s0 c s. newClientConn 0 (NewPacketFactory (NewIDCounter Odd (Some (6, 0, 0, 0)))) 0 [7] 4 4 = Ret (k, c0)
     \<and> conn_exchange env t c0 s0 = Some (c, s) \<and> c_state c = CONNED \<and> c_state s = CONNED \<and> c_clientID c = c_clientID s
     \<and> c_meta s = [7]"
proof -
  let ?env = "\<lparr>e_emit = table_next, e_server_dlgt = None, e_client_dlgt = False\<rparr>"
  let ?t = "\<lparr>t_now = 0, t_pick = True, t_werr = None\<rparr>"
  let ?new = "newClientConn 0 (NewPacketFactory (NewIDCounter Odd (Some (6, 0, 0, 0)))) 0 [7] 4 4"
  let ?s0 = "NewServerConn (NewPacketFactory (NewIDCounter Even (Some (0, 0, 0, 0)))) (NewIDCounter Inc None) None 4 4"
  have "case ?new of Ret (k, c0) \<Rightarrow> list_all (\<lambda>p. case Encode p of Ret bs \<Rightarrow> length bs \<le> 200 | _ \<Rightarrow> False) (c_sends c0) | _ \<Rightarrow> False"
    by code_simp
  then obtain k c0 where n: "?new = Ret (k, c0)"
    and l: "list_all (\<lambda>p. case Encode p of Ret bs \<Rightarrow> length bs \<le> 200 | _ \<Rightarrow> False) (c_sends c0)"
    by (auto split: outcome.splits)
  then have "list_all sendable (c_sends c0)"
    using client_conn_ok [OF n]
    by (auto simp: sendable_def list_all_iff MaxDecodablePacketLen_def split: outcome.splits)
  from conn_handshake_agrees [OF _ n this, of ?env ?s0 _ "NewIDCounter Inc None"] table_next_documented
  show ?thesis using n by (fastforce simp: counting_def NewIDCounter_def accepting_def)
qed

end
