(* ===== verification/Dialogue.thy ===== *)
theory Dialogue
  imports Packet_Factory Go_Runtime
begin

text \<open>
  A dialogue, one logical stream over a connection (\<open>multiplexer/dialogue.go\<close>): its states, the
  handlers of session, dismiss and data packets in both directions, and its three goroutines. The
  connection below is seen through what \<open>Write\<close> is handed (\<open>d_down\<close>) and what it answers; the
  delegate, which is the dialogue manager, through its answer to \<open>DialogueOnline\<close>; the
  synchronisation hub through what is asked of it. Packet handlers, \<open>fini\<close> and \<open>Close\<close> run as one
  step each.
\<close>

section \<open>States and events\<close>

datatype dlg_state = DG_INIT | SESSION_SENT | SESSION_RECV | SESSIONED | DISMISS_SENT | DISMISS_RECV
  | DISMISS_HALF | DISMISSED | DG_FINI

text \<open>The source gives \<open>ET_SESSIONACK\<close> the same name as \<open>ET_SESSIONRECV\<close>.\<close>

datatype dlg_event = ET_SESSIONSENT | ET_SESSIONRECV | ET_DG_ERROR | ET_DISMISSSENT | ET_DISMISSRECV
  | ET_DISMISSACK | ET_DG_FINI

abbreviation ET_SESSIONACK :: dlg_event where "ET_SESSIONACK \<equiv> ET_SESSIONRECV"

definition dlg_events :: "(dlg_state, dlg_event) transitions" where
  "dlg_events =
     [(ET_SESSIONSENT, DG_INIT, SESSION_SENT),
      (ET_SESSIONACK, SESSION_SENT, SESSIONED),
      (ET_SESSIONRECV, DG_INIT, SESSION_RECV),
      (ET_SESSIONACK, SESSION_RECV, SESSIONED),
      (ET_DG_ERROR, SESSION_RECV, SESSION_RECV),
      (ET_DISMISSSENT, SESSION_RECV, DISMISS_SENT),
      (ET_DISMISSSENT, SESSIONED, DISMISS_SENT),
      (ET_DISMISSSENT, DISMISS_RECV, DISMISS_SENT),
      (ET_DISMISSSENT, DISMISS_HALF, DISMISS_HALF),
      (ET_DISMISSRECV, SESSION_SENT, DISMISS_RECV),
      (ET_DISMISSRECV, SESSIONED, DISMISS_RECV),
      (ET_DISMISSRECV, DISMISS_SENT, DISMISS_RECV),
      (ET_DISMISSRECV, DISMISS_HALF, DISMISS_HALF),
      (ET_DISMISSACK, DISMISS_SENT, DISMISS_HALF),
      (ET_DISMISSACK, DISMISS_RECV, DISMISS_HALF),
      (ET_DISMISSACK, DISMISS_HALF, DISMISSED),
      (ET_DG_FINI, DG_INIT, DG_FINI),
      (ET_DG_FINI, SESSION_SENT, DG_FINI),
      (ET_DG_FINI, SESSION_RECV, DG_FINI),
      (ET_DG_FINI, SESSIONED, DG_FINI),
      (ET_DG_FINI, DISMISS_SENT, DG_FINI),
      (ET_DG_FINI, DISMISS_RECV, DG_FINI),
      (ET_DG_FINI, DISMISS_HALF, DG_FINI),
      (ET_DG_FINI, DISMISSED, DG_FINI)]"

lemma single_valued_dlg: "single_valued_table dlg_events"
  by (simp add: single_valued_table_def dlg_events_def table_next_def)

section \<open>The dialogue\<close>

text \<open>What is asked of the synchronisation hub.\<close>

datatype dlg_effect = DSyncDone u64 | DSyncError u64 | DHubClose

record dialogue =
  d_fsm :: "dlg_state option"
  d_negotiatingID :: u64
  d_peerNegotiatingID :: u64
  d_peersCall :: bool
  d_dialogueID :: u64
  d_meta :: bytes
  d_peer :: bytes
  d_onlined :: bool
  d_closewait :: "u64 option"
  d_pf :: packetFactory
  d_ctxDone :: bool
  d_readIn :: "Packet chan"
  d_writeOut :: "Packet chan"
  d_readOut :: "Packet chan"
  d_writeIn :: "Packet chan"
  d_failed :: "Packet list option"
  d_closeOnce :: bool
  d_finiOnce :: bool
  d_sends :: "Packet list"
  d_closers :: nat
  d_down :: "Packet list"
  d_effects :: "dlg_effect list"
  d_handling :: bool
  d_writing :: bool

type_synonym 'a dres = "('a, dialogue) gres"

definition NewDialogue :: "packetFactory \<Rightarrow> dlg_state \<Rightarrow> u64 \<Rightarrow> bool \<Rightarrow> bytes \<Rightarrow> bytes \<Rightarrow> nat \<Rightarrow> nat \<Rightarrow> dialogue" where
  "NewDialogue pf state negotiatingID peersCall meta peer readOutSize writeInSize =
     \<lparr>d_fsm = Some state, d_negotiatingID = negotiatingID, d_peerNegotiatingID = 0, d_peersCall = peersCall,
      d_dialogueID = SessionIDNull, d_meta = meta, d_peer = peer, d_onlined = False, d_closewait = None, d_pf = pf,
      d_ctxDone = False, d_readIn = make_chan 32, d_writeOut = make_chan 32, d_readOut = make_chan readOutSize,
      d_writeIn = make_chan writeInSize, d_failed = None, d_closeOnce = False, d_finiOnce = False, d_sends = [],
      d_closers = 0, d_down = [], d_effects = [], d_handling = True, d_writing = True\<rparr>"

definition d_effect :: "dlg_effect \<Rightarrow> dialogue \<Rightarrow> dialogue" where
  "d_effect e d = d\<lparr>d_effects := d_effects d @ [e]\<rparr>"

definition d_spawn :: "Packet \<Rightarrow> dialogue \<Rightarrow> dialogue" where
  "d_spawn pkt d = d\<lparr>d_sends := d_sends d @ [pkt]\<rparr>"

definition d_fail :: "Packet \<Rightarrow> dialogue \<Rightarrow> dialogue" where
  "d_fail pkt d = d\<lparr>d_failed := map_option (\<lambda>f. f @ [pkt]) (d_failed d)\<rparr>"

definition closewait_Done :: "dialogue \<Rightarrow> dialogue" where
  "closewait_Done d = (case d_closewait d of None \<Rightarrow> d | Some i \<Rightarrow> d_effect (DSyncDone i) d)"

text \<open>
  \<open>EmitEvent\<close> on the dialogue's machine: \<open>Ret None\<close> is its error; the machine is nil once the
  dialogue is finished.
\<close>

definition d_emit :: "(dlg_state, dlg_event) emitter \<Rightarrow> dlg_event \<Rightarrow> dialogue \<Rightarrow> dialogue option outcome" where
  "d_emit emit ev d =
     (case d_fsm d of
        None \<Rightarrow> Panic NilDereference
      | Some s \<Rightarrow> Ret (map_option (\<lambda>s'. d\<lparr>d_fsm := Some s'\<rparr>) (emit dlg_events s ev)))"

section \<open>Write, Read and the channels\<close>

definition d_sendToWriteIn :: "bool \<Rightarrow> Packet \<Rightarrow> dialogue \<Rightarrow> unit outcome dres" where
  "d_sendToWriteIn pick pkt d =
     (case select_chan pick (d_ctxDone d) (d_writeIn d) pkt of
        SelSent ch \<Rightarrow> HRet (Ret ()) (d\<lparr>d_writeIn := ch\<rparr>)
      | SelDone \<Rightarrow> HRet (Fail EOF) d
      | SelBlock \<Rightarrow> HBlock
      | SelPanic \<Rightarrow> HSendOnClosed)"

text \<open>\<open>sendToWriteOut\<close>, with what a handler returns when it succeeds and when the context is done.\<close>

definition d_sendToWriteOut :: "bool \<Rightarrow> Packet \<Rightarrow> dialogue \<Rightarrow> bool dres" where
  "d_sendToWriteOut pick pkt d =
     (case select_chan pick (d_ctxDone d) (d_writeOut d) pkt of
        SelSent ch \<Rightarrow> HRet True (d\<lparr>d_writeOut := ch\<rparr>)
      | SelDone \<Rightarrow> HRet False d
      | SelBlock \<Rightarrow> HBlock
      | SelPanic \<Rightarrow> HSendOnClosed)"

definition after_send :: "bool dres \<Rightarrow> (dialogue \<Rightarrow> IORet \<times> dialogue) \<Rightarrow> IORet dres" where
  "after_send r k =
     (case r of
        HRet ok d \<Rightarrow> (if ok then (case k d of (ret, d') \<Rightarrow> HRet ret d') else HRet IOClosed d)
      | HBlock \<Rightarrow> HBlock | HPanic p \<Rightarrow> HPanic p | HSendOnClosed \<Rightarrow> HSendOnClosed)"

text \<open>A packet that carries no session id is not a \<open>SessionAbove\<close>: the assertion panics.\<close>

definition d_Write :: "bool \<Rightarrow> Packet \<Rightarrow> dialogue \<Rightarrow> unit outcome dres" where
  "d_Write pick pkt d =
     (if Packet_SessionID pkt = None then HPanic TypeAssertion
      else d_sendToWriteIn pick (Packet_SetSessionID (d_dialogueID d) pkt) d)"

definition d_Read :: "dialogue \<Rightarrow> Packet outcome dres" where
  "d_Read d =
     (case buf (d_readOut d) of
        p # ps \<Rightarrow> HRet (Ret p) (d\<lparr>d_readOut := (d_readOut d)\<lparr>buf := ps\<rparr>\<rparr>)
      | [] \<Rightarrow> (if is_closed (d_readOut d) then HRet (Fail EOF) d else HBlock))"

section \<open>Close\<close>

definition d_Close :: "int \<Rightarrow> dialogue \<Rightarrow> dialogue outcome" where
  "d_Close now d =
     (if d_closeOnce d then Ret d
      else obind (NewDismissPacket now (d_dialogueID d) (d_pf d)) (\<lambda>(pkt, pf).
           Ret (d_spawn (PDismiss pkt)
             (d\<lparr>d_closeOnce := True, d_pf := pf, d_closewait := Some (PacketID (dm_hdr pkt))\<rparr>))))"

text \<open>\<open>CloseWait\<close> up to the wait.\<close>

definition d_CloseWait :: "int \<Rightarrow> dialogue \<Rightarrow> dialogue outcome" where
  "d_CloseWait now d =
     (if d_closeOnce d then Ret d
      else obind (NewDismissPacket now (d_dialogueID d) (d_pf d)) (\<lambda>(pkt, pf).
           Ret (d_spawn (PDismiss pkt)
             (d\<lparr>d_closeOnce := True, d_pf := pf, d_closewait := Some (PacketID (dm_hdr pkt))\<rparr>))))"

definition d_closeIO :: "dialogue \<Rightarrow> dialogue" where
  "d_closeIO d = d\<lparr>d_ctxDone := True\<rparr>"

text \<open>The end of either wait.\<close>

datatype sync_error = ErrSyncTimeout | ErrSyncOther

definition closewait_event :: "sync_error option \<Rightarrow> dialogue \<Rightarrow> dialogue" where
  "closewait_event err d = (if err = Some ErrSyncTimeout then d_closeIO d else d)"

section \<open>Incoming packets\<close>

definition d_handleInSessionPacket :: "(dlg_state, dlg_event) emitter \<Rightarrow> SessionPacket \<Rightarrow> dialogue \<Rightarrow> IORet dres" where
  "d_handleInSessionPacket emit pkt d =
     (let d0 = d\<lparr>d_peerNegotiatingID := sp_negotiateID pkt\<rparr> in
      case d_emit emit ET_SESSIONRECV d0 of
        Panic p \<Rightarrow> HPanic p
      | Fail e \<Rightarrow> HRet IOErr d0
      | Ret None \<Rightarrow> HRet IOErr d0
      | Ret (Some d1) \<Rightarrow>
          (case sp_SessionData pkt of
             None \<Rightarrow> HPanic NilDereference
           | Some x \<Rightarrow>
               (let i = (if sessionIDAcquire (sp_flags pkt) then d_negotiatingID d1 else sp_negotiateID pkt);
                    retPkt = NewSessionAckPacket (PacketID (sp_hdr pkt)) (sp_negotiateID pkt) i None
                in HRet IOSuccess (d_spawn (PSessionAck retPkt) (d1\<lparr>d_dialogueID := i, d_meta := sd_Meta x\<rparr>)))))"

definition d_handleInSessionAckPacket :: "(dlg_state, dlg_event) emitter \<Rightarrow> SessionAckPacket \<Rightarrow> dialogue \<Rightarrow> IORet dres" where
  "d_handleInSessionAckPacket emit pkt d =
     (case d_emit emit ET_SESSIONACK d of
        Panic p \<Rightarrow> HPanic p
      | Fail e \<Rightarrow> HRet IOErr d
      | Ret None \<Rightarrow> HRet IOErr (d_effect (DSyncError (PacketID (sa_hdr pkt))) d)
      | Ret (Some d1) \<Rightarrow>
          (case sa_SessionData pkt of
             None \<Rightarrow> HPanic NilDereference
           | Some x \<Rightarrow>
               HRet IONewActive
                 ((d_effect (DSyncDone (PacketID (sa_hdr pkt))) (d1\<lparr>d_dialogueID := sa_sessionID pkt, d_meta := sd_Meta x\<rparr>))
                    \<lparr>d_onlined := True\<rparr>)))"

definition d_handleInDismissPacket :: "(dlg_state, dlg_event) emitter \<Rightarrow> bool \<Rightarrow> DismissPacket \<Rightarrow> dialogue \<Rightarrow> IORet dres" where
  "d_handleInDismissPacket emit pick pkt d =
     (case d_emit emit ET_DISMISSRECV d of
        Panic p \<Rightarrow> HPanic p
      | Fail e \<Rightarrow> HRet IOErr d
      | Ret None \<Rightarrow> HRet IOErr d
      | Ret (Some d1) \<Rightarrow>
          (let retPkt = PDismissAck (NewDismissAckPacket (PacketID (dm_hdr pkt)) (dm_sessionID pkt) None) in
           if d_fsm d = Some DISMISS_HALF then
             (case d_sendToWriteOut pick retPkt d1 of
                HRet _ d2 \<Rightarrow> HRet IOClosed (closewait_Done d2)
              | HBlock \<Rightarrow> HBlock | HPanic p \<Rightarrow> HPanic p | HSendOnClosed \<Rightarrow> HSendOnClosed)
           else HRet IOSuccess ((d_spawn retPkt d1)\<lparr>d_closers := Suc (d_closers d1)\<rparr>)))"

definition d_handleInDimssAckPacket :: "(dlg_state, dlg_event) emitter \<Rightarrow> DismissAckPacket \<Rightarrow> dialogue \<Rightarrow> IORet dres" where
  "d_handleInDimssAckPacket emit pkt d =
     (case d_emit emit ET_DISMISSACK d of
        Panic p \<Rightarrow> HPanic p
      | Fail e \<Rightarrow> HRet IOErr d
      | Ret None \<Rightarrow> HRet IOErr d
      | Ret (Some d1) \<Rightarrow>
          (if d_fsm d1 = Some DISMISS_HALF then HRet IOSuccess d1 else HRet IOClosed (closewait_Done d1)))"

definition d_handleInDataPacket :: "bool \<Rightarrow> Packet \<Rightarrow> dialogue \<Rightarrow> IORet dres" where
  "d_handleInDataPacket pick pkt d =
     (case d_fsm d of
        None \<Rightarrow> HPanic NilDereference
      | Some s \<Rightarrow>
          (if s = SESSIONED \<or> s = DISMISS_HALF \<or> s = DISMISS_SENT \<or> s = DISMISS_RECV then
             (case select_chan pick (d_ctxDone d) (d_readOut d) pkt of
                SelSent ch \<Rightarrow> HRet IOSuccess (d\<lparr>d_readOut := ch\<rparr>)
              | SelDone \<Rightarrow> HRet IODiscard d
              | SelBlock \<Rightarrow> HBlock
              | SelPanic \<Rightarrow> HSendOnClosed)
           else HRet IODiscard (d_fail pkt d)))"

section \<open>Outgoing packets\<close>

definition d_handleOutSessionPacket :: "(dlg_state, dlg_event) emitter \<Rightarrow> bool \<Rightarrow> SessionPacket \<Rightarrow> dialogue \<Rightarrow> IORet dres" where
  "d_handleOutSessionPacket emit pick pkt d =
     (case d_emit emit ET_SESSIONSENT d of
        Panic p \<Rightarrow> HPanic p
      | Fail e \<Rightarrow> HRet IOErr d
      | Ret None \<Rightarrow> HRet IOErr d
      | Ret (Some d1) \<Rightarrow> after_send (d_sendToWriteOut pick (PSession pkt) d1) (\<lambda>d. (IOSuccess, d)))"

text \<open>
  \<open>online\<close> is the delegate's answer to \<open>DialogueOnline\<close>: \<open>None\<close> without a delegate, \<open>Some None\<close>
  without an error. The callback of \<open>ET_ERROR\<close> closes the dialogue.
\<close>

definition d_handleOutSessionAckPacket ::
  "(dlg_state, dlg_event) emitter \<Rightarrow> bool \<Rightarrow> int \<Rightarrow> bytes option option \<Rightarrow> SessionAckPacket \<Rightarrow> dialogue \<Rightarrow> IORet dres" where
  "d_handleOutSessionAckPacket emit pick now online pkt d =
     (case online of
        Some (Some err) \<Rightarrow>
          (case SessionAckPacket_SetError err pkt of
             Panic p \<Rightarrow> HPanic p
           | Fail e \<Rightarrow> HRet IOErr d
           | Ret pkt' \<Rightarrow>
               (case d_emit emit ET_DG_ERROR d of
                  Panic p \<Rightarrow> HPanic p
                | Fail e \<Rightarrow> HRet IOErr d
                | Ret None \<Rightarrow> HRet IOErr d
                | Ret (Some d1) \<Rightarrow>
                    (case d_Close now d1 of
                       Panic p \<Rightarrow> HPanic p
                     | Fail e \<Rightarrow> HRet IOErr d1
                     | Ret d2 \<Rightarrow> after_send (d_sendToWriteOut pick (PSessionAck pkt') d2) (\<lambda>d. (IOSuccess, d)))))
      | _ \<Rightarrow>
          (case d_emit emit ET_SESSIONACK d of
             Panic p \<Rightarrow> HPanic p
           | Fail e \<Rightarrow> HRet IOErr d
           | Ret None \<Rightarrow> HRet IOErr d
           | Ret (Some d1) \<Rightarrow>
               after_send (d_sendToWriteOut pick (PSessionAck pkt) d1) (\<lambda>d. (IONewPassive, d\<lparr>d_onlined := True\<rparr>))))"

definition d_handleOutDismissPacket :: "(dlg_state, dlg_event) emitter \<Rightarrow> bool \<Rightarrow> DismissPacket \<Rightarrow> dialogue \<Rightarrow> IORet dres" where
  "d_handleOutDismissPacket emit pick pkt d =
     (case d_emit emit ET_DISMISSSENT d of
        Panic p \<Rightarrow> HPanic p
      | Fail e \<Rightarrow> HRet IOErr d
      | Ret None \<Rightarrow> HRet IOErr d
      | Ret (Some d1) \<Rightarrow> after_send (d_sendToWriteOut pick (PDismiss pkt) d1) (\<lambda>d. (IOSuccess, d)))"

definition d_handleOutDismissAckPacket :: "(dlg_state, dlg_event) emitter \<Rightarrow> bool \<Rightarrow> DismissAckPacket \<Rightarrow> dialogue \<Rightarrow> IORet dres" where
  "d_handleOutDismissAckPacket emit pick pkt d =
     (case d_emit emit ET_DISMISSACK d of
        Panic p \<Rightarrow> HPanic p
      | Fail e \<Rightarrow> HRet IOErr d
      | Ret None \<Rightarrow> HRet IOErr d
      | Ret (Some d1) \<Rightarrow>
          after_send (d_sendToWriteOut pick (PDismissAck pkt) d1)
            (\<lambda>d. if d_fsm d = Some DISMISS_HALF then (IOSuccess, d) else (IOClosed, closewait_Done d)))"

definition d_handleOutDataPacket :: "bool \<Rightarrow> Packet \<Rightarrow> dialogue \<Rightarrow> IORet dres" where
  "d_handleOutDataPacket pick pkt d = after_send (d_sendToWriteOut pick pkt d) (\<lambda>d. (IOSuccess, d))"

section \<open>The goroutines\<close>

text \<open>What the environment answers during a turn.\<close>

record dturn =
  dt_now :: int
  dt_pick :: bool
  dt_online :: "bytes option option"

definition d_handleIn :: "(dlg_state, dlg_event) emitter \<Rightarrow> dturn \<Rightarrow> Packet \<Rightarrow> dialogue \<Rightarrow> IORet dres" where
  "d_handleIn emit t pkt d =
     (case pkt of
        PSession p \<Rightarrow> d_handleInSessionPacket emit p d
      | PSessionAck p \<Rightarrow> d_handleInSessionAckPacket emit p d
      | PDismiss p \<Rightarrow> d_handleInDismissPacket emit (dt_pick t) p d
      | PDismissAck p \<Rightarrow> d_handleInDimssAckPacket emit p d
      | _ \<Rightarrow> d_handleInDataPacket (dt_pick t) pkt d)"

definition d_handleOut :: "(dlg_state, dlg_event) emitter \<Rightarrow> dturn \<Rightarrow> Packet \<Rightarrow> dialogue \<Rightarrow> IORet dres" where
  "d_handleOut emit t pkt d =
     (case pkt of
        PSession p \<Rightarrow> d_handleOutSessionPacket emit (dt_pick t) p d
      | PSessionAck p \<Rightarrow> d_handleOutSessionAckPacket emit (dt_pick t) (dt_now t) (dt_online t) p d
      | PDismiss p \<Rightarrow> d_handleOutDismissPacket emit (dt_pick t) p d
      | PDismissAck p \<Rightarrow> d_handleOutDismissAckPacket emit (dt_pick t) p d
      | _ \<Rightarrow> d_handleOutDataPacket (dt_pick t) pkt d)"

definition d_fini :: "dialogue \<Rightarrow> dialogue" where
  "d_fini d =
     (if d_finiOnce d then d
      else (d_effect DHubClose (d\<lparr>d_finiOnce := True, d_ctxDone := True\<rparr>))
             \<lparr>d_readOut := ch_close (d_readOut d), d_writeOut := ch_close (d_writeOut d), d_fsm := None\<rparr>)"

text \<open>
  What follows the loop of \<open>handlePkt\<close>; the delegate, told of a dialogue that was online, is the
  manager's part.
\<close>

definition d_handlePkt_end :: "dialogue \<Rightarrow> dialogue" where
  "d_handlePkt_end d = (d_fini d)\<lparr>d_handling := False\<rparr>"

definition is_SessionLayer :: "Packet \<Rightarrow> bool" where
  "is_SessionLayer p = (SessionLayer p = Ret True)"

definition d_drain :: "Packet list \<Rightarrow> dialogue \<Rightarrow> dialogue" where
  "d_drain ps d = fold (\<lambda>p d. if is_SessionLayer p then d else d_fail p d) ps d"

text \<open>One turn of \<open>handlePkt\<close>: the case of the context, of \<open>readInCh\<close> and of \<open>writeInCh\<close>.\<close>

definition d_turn_done :: "dialogue \<Rightarrow> unit dres" where
  "d_turn_done d =
     (if d_ctxDone d then
        HRet () (d_handlePkt_end ((d_drain (buf (d_writeIn d)) d)\<lparr>d_writeIn := (d_writeIn d)\<lparr>buf := []\<rparr>\<rparr>))
      else HBlock)"

definition d_finish :: "IORet dres \<Rightarrow> unit dres" where
  "d_finish r =
     (case r of
        HRet ret d \<Rightarrow> (if ret = IOClosed \<or> ret = IOErr then HRet () (d_handlePkt_end d) else HRet () d)
      | HBlock \<Rightarrow> HBlock | HPanic p \<Rightarrow> HPanic p | HSendOnClosed \<Rightarrow> HSendOnClosed)"

definition d_turn_in :: "(dlg_state, dlg_event) emitter \<Rightarrow> dturn \<Rightarrow> dialogue \<Rightarrow> unit dres" where
  "d_turn_in emit t d =
     (case buf (d_readIn d) of
        p # ps \<Rightarrow> d_finish (d_handleIn emit t p (d\<lparr>d_readIn := (d_readIn d)\<lparr>buf := ps\<rparr>\<rparr>))
      | [] \<Rightarrow> (if is_closed (d_readIn d) then HRet () (d_handlePkt_end d) else HBlock))"

definition d_turn_out :: "(dlg_state, dlg_event) emitter \<Rightarrow> dturn \<Rightarrow> dialogue \<Rightarrow> unit dres" where
  "d_turn_out emit t d =
     (case buf (d_writeIn d) of
        p # ps \<Rightarrow> d_finish (d_handleOut emit t p (d\<lparr>d_writeIn := (d_writeIn d)\<lparr>buf := ps\<rparr>\<rparr>))
      | [] \<Rightarrow> HBlock)"

text \<open>One turn of \<open>writePkt\<close>: \<open>werr\<close> is what \<open>Write\<close> of the connection answers.\<close>

definition d_dowritePkt :: "go_error option \<Rightarrow> Packet \<Rightarrow> bool \<Rightarrow> dialogue \<Rightarrow> go_error option \<times> dialogue" where
  "d_dowritePkt werr pkt record d =
     (case werr of
        None \<Rightarrow> (None, d\<lparr>d_down := d_down d @ [pkt]\<rparr>)
      | Some e \<Rightarrow> (Some e, if record then d_fail pkt d else d))"

definition d_turn_write :: "go_error option \<Rightarrow> dialogue \<Rightarrow> unit dres" where
  "d_turn_write werr d =
     (case buf (d_writeOut d) of
        p # ps \<Rightarrow>
          (case d_dowritePkt werr p True (d\<lparr>d_writeOut := (d_writeOut d)\<lparr>buf := ps\<rparr>\<rparr>) of
             (None, d') \<Rightarrow> HRet () d'
           | (Some e, d') \<Rightarrow> HRet () ((d_closeIO d')\<lparr>d_writing := False\<rparr>))
      | [] \<Rightarrow> (if is_closed (d_writeOut d) then HRet () (d\<lparr>d_writing := False\<rparr>) else HBlock))"

text \<open>\<open>open\<close> up to the wait: the session packet and the id its sync waits for.\<close>

definition d_open :: "int \<Rightarrow> dialogue \<Rightarrow> (u64 \<times> dialogue) outcome" where
  "d_open now d =
     obind (NewSessionPacket now (d_negotiatingID d) (d_peersCall d) (d_meta d) (d_peer d) (d_pf d)) (\<lambda>(pkt, pf).
     Ret (PacketID (sp_hdr pkt), d_spawn (PSession pkt) (d\<lparr>d_pf := pf\<rparr>)))"

end
