(* ===== verification/Dialogue_System.thy ===== *)
theory Dialogue_System
  imports Dialogue "HOL-Library.Sublist"
begin

text \<open>
  A dialogue as a whole: every turn of its goroutines, of its callers and of the manager is an
  operation; the invariant holds after every sequence of them.
\<close>

section \<open>Turns\<close>

datatype dlg_op =
    DDeliver bool Packet
  | DHandleIn dturn
  | DHandleOut dturn
  | DHandleDone
  | DWriter "go_error option"
  | DSender bool nat
  | DCloser int
  | DUserWrite bool Packet
  | DUserRead
  | DUserClose int
  | DUserCloseWait int
  | DCloseEvent "sync_error option"
  | DCloseIO

text \<open>The manager hands a packet over: \<open>select\<close> between the dialogue's context and \<open>readInCh\<close>.\<close>

definition d_deliver :: "bool \<Rightarrow> Packet \<Rightarrow> dialogue \<Rightarrow> bool dres" where
  "d_deliver pick pkt d =
     (case select_chan pick (d_ctxDone d) (d_readIn d) pkt of
        SelSent ch \<Rightarrow> HRet True (d\<lparr>d_readIn := ch\<rparr>)
      | SelDone \<Rightarrow> HRet False d
      | SelBlock \<Rightarrow> HBlock
      | SelPanic \<Rightarrow> HSendOnClosed)"

fun dlg_turn :: "(dlg_state, dlg_event) emitter \<Rightarrow> dlg_op \<Rightarrow> dialogue \<Rightarrow> unit dres" where
  "dlg_turn emit (DDeliver pick pkt) d = forget (d_deliver pick pkt d)"
| "dlg_turn emit (DHandleIn t) d = (if d_handling d then d_turn_in emit t d else HBlock)"
| "dlg_turn emit (DHandleOut t) d = (if d_handling d then d_turn_out emit t d else HBlock)"
| "dlg_turn emit DHandleDone d = (if d_handling d then d_turn_done d else HBlock)"
| "dlg_turn emit (DWriter werr) d = (if d_writing d then d_turn_write werr d else HBlock)"
| "dlg_turn emit (DSender pick i) d =
     (if i < length (d_sends d) then
        forget (d_sendToWriteIn pick (d_sends d ! i) (d\<lparr>d_sends := take i (d_sends d) @ drop (Suc i) (d_sends d)\<rparr>))
      else HBlock)"
| "dlg_turn emit (DCloser now) d =
     (case d_closers d of 0 \<Rightarrow> HBlock | Suc n \<Rightarrow> of_outcome (d_Close now (d\<lparr>d_closers := n\<rparr>)))"
| "dlg_turn emit (DUserWrite pick pkt) d = forget (d_Write pick pkt d)"
| "dlg_turn emit DUserRead d = forget (d_Read d)"
| "dlg_turn emit (DUserClose now) d = of_outcome (d_Close now d)"
| "dlg_turn emit (DUserCloseWait now) d = of_outcome (d_CloseWait now d)"
| "dlg_turn emit (DCloseEvent err) d = (if d_closewait d = None then HBlock else HRet () (closewait_event err d))"
| "dlg_turn emit DCloseIO d = HRet () (d_closeIO d)"

text \<open>Packets of the application layer, and the writes a turn accepts.\<close>

definition is_app :: "Packet \<Rightarrow> bool" where
  "is_app p = (case p of PSession _ \<Rightarrow> False | PSessionAck _ \<Rightarrow> False | PDismiss _ \<Rightarrow> False | PDismissAck _ \<Rightarrow> False | _ \<Rightarrow> True)"

lemma is_app_simps [simp]:
  "\<not> is_app (PSession a)" "\<not> is_app (PSessionAck b)" "\<not> is_app (PDismiss x)" "\<not> is_app (PDismissAck y)"
  by (simp_all add: is_app_def)

fun d_accepted :: "dlg_op \<Rightarrow> dialogue \<Rightarrow> Packet list" where
  "d_accepted (DUserWrite pick pkt) d =
     (case d_Write pick pkt d of HRet (Ret ()) _ \<Rightarrow> [Packet_SetSessionID (d_dialogueID d) pkt] | _ \<Rightarrow> [])"
| "d_accepted op d = []"

inductive dlg_run :: "(dlg_state, dlg_event) emitter \<Rightarrow> dialogue \<Rightarrow> Packet list \<Rightarrow> dialogue \<Rightarrow> bool" for emit d0 where
  dstart: "dlg_run emit d0 [] d0"
| dturn: "dlg_run emit d0 acc d \<Longrightarrow> dlg_turn emit op d = HRet () d' \<Longrightarrow> dlg_run emit d0 (acc @ d_accepted op d) d'"

section \<open>What handlers keep\<close>

definition dkept :: "dialogue \<Rightarrow> dialogue \<Rightarrow> bool" where
  "dkept d d' \<longleftrightarrow>
     d_handling d' = d_handling d \<and> d_writing d' = d_writing d \<and> d_finiOnce d' = d_finiOnce d \<and> d_ctxDone d' = d_ctxDone d
   \<and> d_readIn d' = d_readIn d \<and> d_writeIn d' = d_writeIn d \<and> d_down d' = d_down d
   \<and> evolves (d_readOut d) (d_readOut d') \<and> evolves (d_writeOut d) (d_writeOut d')
   \<and> (d_fsm d' = None \<longleftrightarrow> d_fsm d = None)
   \<and> (list_all (\<lambda>p. \<not> is_app p) (d_sends d) \<longrightarrow> list_all (\<lambda>p. \<not> is_app p) (d_sends d'))"

definition app_out :: "dialogue \<Rightarrow> Packet list" where
  "app_out d = filter is_app (buf (d_writeOut d))"

definition app_down :: "dialogue \<Rightarrow> Packet list" where
  "app_down d = filter is_app (d_down d)"

lemma app_sel [simp]:
  "app_down (d\<lparr>d_writeIn := ch\<rparr>) = app_down d" "app_out (d\<lparr>d_writeIn := ch\<rparr>) = app_out d"
  "app_down (d\<lparr>d_readIn := ch\<rparr>) = app_down d" "app_out (d\<lparr>d_readIn := ch\<rparr>) = app_out d"
  "app_down (d\<lparr>d_readOut := ch\<rparr>) = app_down d" "app_out (d\<lparr>d_readOut := ch\<rparr>) = app_out d"
  by (simp_all add: app_down_def app_out_def)

definition dsame :: "dialogue \<Rightarrow> dialogue \<Rightarrow> bool" where
  "dsame d d' \<longleftrightarrow> dkept d d' \<and> app_out d' = app_out d"

lemma dsame_refl [simp]: "dsame d d"
  by (simp add: dsame_def dkept_def)

lemma dsame_trans: "dsame a b \<Longrightarrow> dsame b c \<Longrightarrow> dsame a c"
  by (auto simp: dsame_def dkept_def evolves_def)

lemma dsame_upd [simp]:
  "dsame d (x\<lparr>d_peerNegotiatingID := i\<rparr>) \<longleftrightarrow> dsame d x"
  "dsame d (x\<lparr>d_dialogueID := i\<rparr>) \<longleftrightarrow> dsame d x"
  "dsame d (x\<lparr>d_meta := m\<rparr>) \<longleftrightarrow> dsame d x"
  "dsame d (x\<lparr>d_onlined := b\<rparr>) \<longleftrightarrow> dsame d x"
  "dsame d (x\<lparr>d_closers := n\<rparr>) \<longleftrightarrow> dsame d x"
  "dsame d (x\<lparr>d_closewait := w\<rparr>) \<longleftrightarrow> dsame d x"
  "dsame d (x\<lparr>d_closeOnce := b\<rparr>) \<longleftrightarrow> dsame d x"
  "dsame d (x\<lparr>d_pf := pf\<rparr>) \<longleftrightarrow> dsame d x"
  "dsame d (d_effect e x) \<longleftrightarrow> dsame d x"
  "dsame d (d_fail p x) \<longleftrightarrow> dsame d x"
  "dsame d (closewait_Done x) \<longleftrightarrow> dsame d x"
  "dsame (x\<lparr>d_peerNegotiatingID := i\<rparr>) d \<longleftrightarrow> dsame x d"
  "dsame (x\<lparr>d_closers := n\<rparr>) d \<longleftrightarrow> dsame x d"
  by (simp_all add: dsame_def dkept_def app_out_def d_effect_def d_fail_def closewait_Done_def split: option.split)

lemma dsame_spawn: "dsame d x \<Longrightarrow> \<not> is_app p \<Longrightarrow> dsame d (d_spawn p x)"
  by (simp add: dsame_def dkept_def app_out_def d_spawn_def)

lemma dsame_emit: "d_emit emit ev d = Ret (Some d') \<Longrightarrow> dsame d d'"
  by (auto simp: d_emit_def dsame_def dkept_def app_out_def split: option.splits)

lemma dsame_Close: "d_Close now d = Ret d' \<Longrightarrow> dsame d d'"
  by (auto simp: d_Close_def obind_Ret_iff dsame_spawn split: if_splits)

lemma dsame_CloseWait: "d_CloseWait now d = Ret d' \<Longrightarrow> dsame d d'"
  by (auto simp: d_CloseWait_def obind_Ret_iff dsame_spawn split: if_splits)

text \<open>What a send to \<open>writeOutCh\<close> does.\<close>

lemma sendToWriteOut_kept:
  assumes "d_sendToWriteOut pick p d = HRet ok d'"
  shows "dkept d d' \<and> app_out d' = app_out d @ (if ok then filter is_app [p] else []) \<and> d_fsm d' = d_fsm d"
  using assms by (auto simp: d_sendToWriteOut_def dkept_def app_out_def split: selected.splits dest: select_chan_sent)

lemma dsame_send: "d_sendToWriteOut pick p d = HRet ok d' \<Longrightarrow> \<not> is_app p \<Longrightarrow> dsame d d'"
  using sendToWriteOut_kept by (fastforce simp: dsame_def)

lemma after_send_cases:
  assumes "after_send r k = HRet ret d'"
  shows "(\<exists>d. r = HRet True d \<and> k d = (ret, d')) \<or> (r = HRet False d' \<and> ret = IOClosed)"
  using assms by (auto simp: after_send_def split: gres.splits if_splits prod.splits)

lemma dsame_after_send:
  assumes "after_send (d_sendToWriteOut pick p d0) k = HRet ret d'" "\<not> is_app p" "dsame d d0"
    "\<And>x ret y. k x = (ret, y) \<Longrightarrow> dsame x y"
  shows "dsame d d'"
  using after_send_cases [OF assms(1)] dsame_send [OF _ assms(2)] assms(3,4) dsame_trans by metis

lemma handleIn_dsame: "d_handleIn emit t pkt d = HRet ret d' \<Longrightarrow> dsame d d'"
proof -
  assume h: "d_handleIn emit t pkt d = HRet ret d'"
  have "d_handleInSessionPacket emit p d = HRet ret d' \<Longrightarrow> dsame d d'" for p
    by (auto simp: d_handleInSessionPacket_def Let_def intro!: dsame_spawn dest!: dsame_emit
        split: outcome.splits option.splits)
  moreover have "d_handleInSessionAckPacket emit p d = HRet ret d' \<Longrightarrow> dsame d d'" for p
    by (auto simp: d_handleInSessionAckPacket_def dest!: dsame_emit split: outcome.splits option.splits)
  moreover have "d_handleInDismissPacket emit pick p d = HRet ret d' \<Longrightarrow> dsame d d'" for pick p
    by (auto simp: d_handleInDismissPacket_def Let_def intro!: dsame_spawn intro: dsame_trans dest!: dsame_send dsame_emit
        split: outcome.splits option.splits if_splits gres.splits)
  moreover have "d_handleInDimssAckPacket emit p d = HRet ret d' \<Longrightarrow> dsame d d'" for p
    by (auto simp: d_handleInDimssAckPacket_def dest!: dsame_emit split: outcome.splits option.splits if_splits)
  moreover have "d_handleInDataPacket pick p d = HRet ret d' \<Longrightarrow> dsame d d'" for pick p
    by (auto simp: d_handleInDataPacket_def dsame_def dkept_def app_out_def d_fail_def
        split: option.splits if_splits selected.splits dest: select_chan_sent)
  ultimately show ?thesis using h by (auto simp: d_handleIn_def split: Packet.splits)
qed

lemma handleOut_session_dsame:
  assumes "d_handleOut emit t pkt d = HRet ret d'" "\<not> is_app pkt"
  shows "dsame d d'"
proof -
  have e: "d_emit emit ev d = Ret (Some y) \<Longrightarrow> dsame d y" for ev y by (rule dsame_emit)
  have "d_handleOutSessionPacket emit pick p d = HRet ret d' \<Longrightarrow> dsame d d'" for pick p
    by (auto simp: d_handleOutSessionPacket_def split: outcome.splits option.splits intro: e elim: dsame_after_send)
  moreover have "d_handleOutSessionAckPacket emit pick now online p d = HRet ret d' \<Longrightarrow> dsame d d'" for pick now online p
    by (auto simp: d_handleOutSessionAckPacket_def split: outcome.splits option.splits
        intro: e dsame_trans [OF e dsame_Close] elim!: dsame_after_send)
  moreover have "d_handleOutDismissPacket emit pick p d = HRet ret d' \<Longrightarrow> dsame d d'" for pick p
    by (auto simp: d_handleOutDismissPacket_def split: outcome.splits option.splits intro: e elim: dsame_after_send)
  moreover have "d_handleOutDismissAckPacket emit pick p d = HRet ret d' \<Longrightarrow> dsame d d'" for pick p
    by (auto simp: d_handleOutDismissAckPacket_def split: outcome.splits option.splits if_splits intro: e elim!: dsame_after_send)
  ultimately show ?thesis using assms by (auto simp: d_handleOut_def is_app_def split: Packet.splits)
qed

lemma d_handleOut_kept:
  assumes "d_handleOut emit t pkt d = HRet ret d'"
  shows "dkept d d' \<and> (app_out d' = app_out d @ filter is_app [pkt] \<or> ret = IOClosed \<and> app_out d' = app_out d)"
proof (cases "is_app pkt")
  case True
  then have h: "d_handleOutDataPacket (dt_pick t) pkt d = HRet ret d'"
    using assms by (auto simp: d_handleOut_def is_app_def split: Packet.splits)
  show ?thesis using after_send_cases [OF h [unfolded d_handleOutDataPacket_def]] sendToWriteOut_kept by fastforce
next
  case False
  then show ?thesis using handleOut_session_dsame [OF assms False] by (simp add: dsame_def)
qed


section \<open>The invariant\<close>

definition dlg_inv :: "Packet list \<Rightarrow> dialogue \<Rightarrow> bool" where
  "dlg_inv acc d \<longleftrightarrow>
     is_closed (d_readOut d) = (\<not> d_handling d) \<and> is_closed (d_writeOut d) = (\<not> d_handling d)
   \<and> (d_fsm d = None) = (\<not> d_handling d) \<and> d_finiOnce d = (\<not> d_handling d) \<and> (\<not> d_handling d \<longrightarrow> d_ctxDone d)
   \<and> \<not> is_closed (d_readIn d) \<and> \<not> is_closed (d_writeIn d)
   \<and> list_all chan_ok [d_readIn d, d_writeOut d, d_readOut d, d_writeIn d]
   \<and> list_all (\<lambda>p. \<not> is_app p) (d_sends d)
   \<and> prefix (app_down d) (filter is_app acc)
   \<and> (d_writing d \<longrightarrow> prefix (app_down d @ app_out d) (filter is_app acc))"

text \<open>While handler and writer run, nothing accepted is lost, doubled or overtaken.\<close>

definition dlg_full :: "Packet list \<Rightarrow> dialogue \<Rightarrow> bool" where
  "dlg_full acc d \<longleftrightarrow> (d_handling d \<and> d_writing d \<longrightarrow>
     app_down d @ app_out d @ filter is_app (buf (d_writeIn d)) = filter is_app acc)"

lemma NewDialogue_inv: "dlg_inv [] (NewDialogue pf s n b m p r w) \<and> dlg_full [] (NewDialogue pf s n b m p r w)"
  by (simp add: dlg_inv_def dlg_full_def NewDialogue_def app_down_def app_out_def)

lemma dlg_inv_same:
  assumes "dlg_inv acc d" "dsame d d'"
  shows "dlg_inv acc d'"
  using assms by (simp add: dlg_inv_def dsame_def dkept_def evolves_def app_down_def)

lemma dlg_full_same: "dlg_full acc d \<Longrightarrow> dsame d d' \<Longrightarrow> dlg_full acc d'"
  by (simp add: dlg_full_def dsame_def dkept_def app_down_def)

lemma d_drain_eq: "d_drain ps d = d\<lparr>d_failed := map_option (\<lambda>f. f @ filter (\<lambda>p. \<not> is_SessionLayer p) ps) (d_failed d)\<rparr>"
proof (induction ps arbitrary: d)
  case Nil
  have "map_option (\<lambda>f. f) (d_failed d) = d_failed d" by (cases "d_failed d") simp_all
  then show ?case by (simp add: d_drain_def)
next
  case (Cons p ps)
  have "d_drain (p # ps) d = d_drain ps (if is_SessionLayer p then d else d_fail p d)" by (simp add: d_drain_def)
  then show ?case by (simp add: Cons.IH d_fail_def option.map_comp comp_def)
qed

lemma dlg_inv_end: "dlg_inv acc d \<Longrightarrow> d_handling d \<Longrightarrow> dlg_inv acc (d_handlePkt_end d)"
  by (simp add: d_handlePkt_end_def d_fini_def d_effect_def dlg_inv_def app_down_def app_out_def)

lemma dlg_full_end [simp]: "dlg_full acc (d_handlePkt_end d)"
  by (simp add: d_handlePkt_end_def dlg_full_def)

lemma dlg_inv_take:
  "dlg_inv acc d \<Longrightarrow> buf (d_readIn d) = p # ps \<Longrightarrow> dlg_inv acc (d\<lparr>d_readIn := (d_readIn d)\<lparr>buf := ps\<rparr>\<rparr>)"
  "dlg_inv acc d \<Longrightarrow> buf (d_writeIn d) = p # ps \<Longrightarrow> dlg_inv acc (d\<lparr>d_writeIn := (d_writeIn d)\<lparr>buf := ps\<rparr>\<rparr>)"
  "dlg_inv acc d \<Longrightarrow> dlg_inv acc (d\<lparr>d_writeIn := (d_writeIn d)\<lparr>buf := []\<rparr>\<rparr>)"
  by (simp_all add: dlg_inv_def chan_ok_def app_down_def app_out_def)

lemma dlg_turnIn:
  assumes "dlg_inv acc d" "dlg_full acc d" "d_handling d" "d_turn_in emit t d = HRet () d'"
  shows "dlg_inv acc d' \<and> dlg_full acc d'"
proof -
  have "\<not> is_closed (d_readIn d)" using assms(1) by (simp add: dlg_inv_def)
  then obtain p ps where p: "buf (d_readIn d) = p # ps" using assms(4) by (auto simp: d_turn_in_def split: list.splits)
  let ?d = "d\<lparr>d_readIn := (d_readIn d)\<lparr>buf := ps\<rparr>\<rparr>"
  obtain ret d1 where h: "d_handleIn emit t p ?d = HRet ret d1"
    and d': "d' = (if ret = IOClosed \<or> ret = IOErr then d_handlePkt_end d1 else d1)"
    using assms(4) p by (auto simp: d_turn_in_def d_finish_def split: gres.splits if_splits)
  have s: "dsame ?d d1" using h by (rule handleIn_dsame)
  have i: "dlg_inv acc d1" using dlg_inv_same [OF dlg_inv_take(1) [OF assms(1) p] s] .
  have "dlg_full acc ?d" using assms(2) by (simp add: dlg_full_def app_down_def app_out_def)
  then have f: "dlg_full acc d1" using s by (rule dlg_full_same)
  have "d_handling d1" using s assms(3) by (simp add: dsame_def dkept_def)
  then show ?thesis using d' i f dlg_inv_end [OF i] by simp
qed

lemma dlg_turnOut:
  assumes "dlg_inv acc d" "dlg_full acc d" "d_handling d" "d_turn_out emit t d = HRet () d'"
  shows "dlg_inv acc d' \<and> dlg_full acc d'"
proof -
  obtain p ps where p: "buf (d_writeIn d) = p # ps" using assms(4) by (auto simp: d_turn_out_def split: list.splits)
  let ?d = "d\<lparr>d_writeIn := (d_writeIn d)\<lparr>buf := ps\<rparr>\<rparr>"
  obtain ret d1 where h: "d_handleOut emit t p ?d = HRet ret d1"
    and d': "d' = (if ret = IOClosed \<or> ret = IOErr then d_handlePkt_end d1 else d1)"
    using assms(4) p by (auto simp: d_turn_out_def d_finish_def split: gres.splits if_splits)
  note k = d_handleOut_kept [OF h]
  have hd: "d_handling d1" "d_writing d1 = d_writing d" "app_down d1 = app_down d" "app_out ?d = app_out d"
    "buf (d_writeIn d1) = ps" using k assms(3) by (simp_all add: dkept_def app_down_def app_out_def)
  have full: "d_writing d \<longrightarrow> app_down d @ app_out d @ filter is_app [p] @ filter is_app ps = filter is_app acc"
    using assms(2,3) p by (cases "is_app p") (simp_all add: dlg_full_def)
  have "d_writing d1 \<longrightarrow> prefix (app_down d1 @ app_out d1) (filter is_app acc)"
    using k hd full by (metis append_assoc prefixI)
  then have i: "dlg_inv acc d1" using dlg_inv_take(2) [OF assms(1) p] k hd(3)
    by (simp add: dlg_inv_def dkept_def evolves_def)
  show ?thesis
  proof (cases "ret = IOClosed \<or> ret = IOErr")
    case True
    then show ?thesis using d' dlg_inv_end [OF i hd(1)] by simp
  next
    case False
    then have "app_out d1 = app_out d @ filter is_app [p]" using k hd(4) by auto
    then have "dlg_full acc d1" using full hd by (simp add: dlg_full_def)
    then show ?thesis using i d' False by simp
  qed
qed

lemma dlg_turnWrite:
  assumes "dlg_inv acc d" "dlg_full acc d" "d_writing d" "d_turn_write werr d = HRet () d'"
  shows "dlg_inv acc d' \<and> dlg_full acc d'"
proof (cases "buf (d_writeOut d)")
  case Nil
  then have "d' = d\<lparr>d_writing := False\<rparr>" using assms(4) by (simp add: d_turn_write_def split: if_splits)
  then show ?thesis using assms(1) by (simp add: dlg_inv_def dlg_full_def app_down_def app_out_def)
next
  case (Cons p ps)
  let ?d = "d\<lparr>d_writeOut := (d_writeOut d)\<lparr>buf := ps\<rparr>\<rparr>"
  have pre: "prefix (app_down d @ filter is_app [p] @ filter is_app ps) (filter is_app acc)"
    using assms(1,3) Cons by (cases "is_app p") (simp_all add: dlg_inv_def app_out_def)
  show ?thesis
  proof (cases werr)
    case None
    then have d': "d' = ?d\<lparr>d_down := d_down d @ [p]\<rparr>" using assms(4) Cons by (simp add: d_turn_write_def d_dowritePkt_def)
    have "prefix (app_down d @ filter is_app [p]) (filter is_app acc)" using pre by (metis append_assoc append_prefixD)
    then show ?thesis using assms(1,2) pre Cons d'
      by (cases "is_app p") (simp_all add: dlg_inv_def dlg_full_def app_down_def app_out_def chan_ok_def)
  next
    case (Some e)
    then have "d' = (d_closeIO (d_fail p ?d))\<lparr>d_writing := False\<rparr>"
      using assms(4) Cons by (simp add: d_turn_write_def d_dowritePkt_def)
    then show ?thesis using assms(1) Cons
      by (simp add: dlg_inv_def dlg_full_def app_down_def app_out_def chan_ok_def d_closeIO_def d_fail_def)
  qed
qed


lemma d_send_in_cases:
  assumes "d_sendToWriteIn pick p d = HRet r d'"
  shows "(r = Fail EOF \<and> d' = d \<and> d_ctxDone d)
    \<or> (r = Ret () \<and> (\<exists>ch. evolves (d_writeIn d) ch \<and> buf ch = buf (d_writeIn d) @ [p] \<and> d' = d\<lparr>d_writeIn := ch\<rparr>))"
  using assms by (auto simp: d_sendToWriteIn_def split: selected.splits dest: select_chan_sent select_chan_done)

lemma dlg_into_writeIn:
  assumes "dlg_inv acc d" "dlg_full acc d" "evolves (d_writeIn d) ch" "buf ch = buf (d_writeIn d) @ [p]"
  shows "dlg_inv (acc @ [p]) (d\<lparr>d_writeIn := ch\<rparr>) \<and> dlg_full (acc @ [p]) (d\<lparr>d_writeIn := ch\<rparr>)"
    "\<not> is_app p \<Longrightarrow> dlg_inv acc (d\<lparr>d_writeIn := ch\<rparr>) \<and> dlg_full acc (d\<lparr>d_writeIn := ch\<rparr>)"
proof -
  have "prefix xs (filter is_app acc) \<Longrightarrow> prefix xs (filter is_app (acc @ [p]))" for xs
    by (simp add: prefix_prefix)
  then show "dlg_inv (acc @ [p]) (d\<lparr>d_writeIn := ch\<rparr>) \<and> dlg_full (acc @ [p]) (d\<lparr>d_writeIn := ch\<rparr>)"
    "\<not> is_app p \<Longrightarrow> dlg_inv acc (d\<lparr>d_writeIn := ch\<rparr>) \<and> dlg_full acc (d\<lparr>d_writeIn := ch\<rparr>)"
    using assms by (auto simp: dlg_inv_def dlg_full_def evolves_def app_down_def app_out_def)
qed

lemma dlg_UserWrite:
  assumes "dlg_inv acc d" "dlg_full acc d" "dlg_turn emit (DUserWrite pick p) d = HRet () d'"
  shows "dlg_inv (acc @ d_accepted (DUserWrite pick p) d) d' \<and> dlg_full (acc @ d_accepted (DUserWrite pick p) d) d'"
proof -
  obtain r where r: "d_Write pick p d = HRet r d'" using assms(3) by (auto simp: forget_HRet)
  then have s: "d_sendToWriteIn pick (Packet_SetSessionID (d_dialogueID d) p) d = HRet r d'"
    by (auto simp: d_Write_def split: if_splits)
  from d_send_in_cases [OF s] show ?thesis
    by (elim disjE conjE exE) (simp_all add: r assms(1,2) dlg_into_writeIn(1) split: unit.splits)
qed

lemma dlg_Sender:
  assumes "dlg_inv acc d" "dlg_full acc d" "dlg_turn emit (DSender pick i) d = HRet () d'"
  shows "dlg_inv acc d' \<and> dlg_full acc d'"
proof -
  let ?d = "d\<lparr>d_sends := take i (d_sends d) @ drop (Suc i) (d_sends d)\<rparr>"
  from assms(3) obtain r where i: "i < length (d_sends d)" and r: "d_sendToWriteIn pick (d_sends d ! i) ?d = HRet r d'"
    by (auto simp: forget_HRet split: if_splits)
  have q: "list_all (\<lambda>p. \<not> is_app p) (d_sends d)" using assms(1) by (simp add: dlg_inv_def)
  then have u: "\<not> is_app (d_sends d ! i)" using i by (simp add: list_all_length)
  have "list_all (\<lambda>p. \<not> is_app p) (take i (d_sends d) @ drop (Suc i) (d_sends d))"
    using q by (auto simp: list_all_iff dest: in_set_takeD in_set_dropD)
  then have v: "dlg_inv acc ?d" "dlg_full acc ?d" using assms(1,2)
    by (simp_all add: dlg_inv_def dlg_full_def app_down_def app_out_def del: list_all_append)
  from d_send_in_cases [OF r] show ?thesis
    by (elim disjE conjE exE) (simp_all only: v dlg_into_writeIn(2) [OF v _ _ u] simp_thms)
qed

lemma dlg_other:
  assumes "dlg_inv acc d" "dlg_full acc d"
  shows "d_deliver pick p d = HRet ok d' \<Longrightarrow> dlg_inv acc d' \<and> dlg_full acc d'"
    "d_Read d = HRet r d' \<Longrightarrow> dlg_inv acc d' \<and> dlg_full acc d'"
    "dlg_inv acc (d_closeIO d) \<and> dlg_full acc (d_closeIO d)"
proof -
  assume "d_deliver pick p d = HRet ok d'"
  then have "d' = d \<or> (\<exists>ch. evolves (d_readIn d) ch \<and> d' = d\<lparr>d_readIn := ch\<rparr>)"
    by (auto simp: d_deliver_def split: selected.splits dest: select_chan_sent)
  then show "dlg_inv acc d' \<and> dlg_full acc d'"
    by (elim disjE exE conjE) (use assms in \<open>simp_all add: dlg_inv_def dlg_full_def evolves_def\<close>)
next
  assume "d_Read d = HRet r d'"
  then have "d' = d \<or> (\<exists>p ps. buf (d_readOut d) = p # ps \<and> d' = d\<lparr>d_readOut := (d_readOut d)\<lparr>buf := ps\<rparr>\<rparr>)"
    by (auto simp: d_Read_def split: list.splits if_splits)
  then show "dlg_inv acc d' \<and> dlg_full acc d'"
    by (elim disjE exE conjE) (use assms in \<open>simp_all add: dlg_inv_def dlg_full_def chan_ok_def\<close>)
next
  show "dlg_inv acc (d_closeIO d) \<and> dlg_full acc (d_closeIO d)"
    using assms by (simp add: d_closeIO_def dlg_inv_def dlg_full_def app_down_def app_out_def)
qed

lemma dlg_turn_inv:
  assumes "dlg_inv acc d" "dlg_full acc d" "dlg_turn emit op d = HRet () d'"
  shows "dlg_inv (acc @ d_accepted op d) d' \<and> dlg_full (acc @ d_accepted op d) d'"
proof (cases op)
  case (DHandleIn t)
  then show ?thesis using dlg_turnIn [OF assms(1,2)] assms(3) by (simp split: if_splits)
next
  case (DHandleOut t)
  then show ?thesis using dlg_turnOut [OF assms(1,2)] assms(3) by (simp split: if_splits)
next
  case DHandleDone
  let ?x = "(d_drain (buf (d_writeIn d)) d)\<lparr>d_writeIn := (d_writeIn d)\<lparr>buf := []\<rparr>\<rparr>"
  have "dlg_inv acc ?x" using assms(1) by (simp add: d_drain_eq dlg_inv_def app_down_def app_out_def)
  then have "d_handling d \<Longrightarrow> dlg_inv acc (d_handlePkt_end ?x)" by (intro dlg_inv_end) (simp_all add: d_drain_eq)
  then show ?thesis using DHandleDone assms(3) by (auto simp: d_turn_done_def split: if_splits)
next
  case (DWriter werr)
  then show ?thesis using dlg_turnWrite [OF assms(1,2)] assms(3) by (simp split: if_splits)
next
  case (DSender pick i)
  then show ?thesis using dlg_Sender [OF assms(1,2)] assms(3) by simp
next
  case (DUserWrite pick p)
  then show ?thesis using dlg_UserWrite [OF assms(1,2)] assms(3) by blast
next
  case (DDeliver pick p)
  then show ?thesis using dlg_other(1) [OF assms(1,2)] assms(3) by (auto simp: forget_HRet)
next
  case DUserRead
  then show ?thesis using dlg_other(2) [OF assms(1,2)] assms(3) by (auto simp: forget_HRet)
next
  case (DCloser now)
  then obtain n where "d_Close now (d\<lparr>d_closers := n\<rparr>) = Ret d'" using assms(3) by (auto simp: of_outcome_HRet split: nat.splits)
  then have "dsame d d'" using dsame_Close by fastforce
  then show ?thesis using DCloser dlg_inv_same [OF assms(1)] dlg_full_same [OF assms(2)] by simp
next
  case (DUserClose now)
  then have "dsame d d'" using assms(3) dsame_Close by (simp add: of_outcome_HRet)
  then show ?thesis using DUserClose dlg_inv_same [OF assms(1)] dlg_full_same [OF assms(2)] by simp
next
  case (DUserCloseWait now)
  then have "dsame d d'" using assms(3) dsame_CloseWait by (simp add: of_outcome_HRet)
  then show ?thesis using DUserCloseWait dlg_inv_same [OF assms(1)] dlg_full_same [OF assms(2)] by simp
next
  case (DCloseEvent err)
  then show ?thesis using dlg_other(3) [OF assms(1,2)] assms by (auto simp: closewait_event_def split: if_splits)
next
  case DCloseIO
  then show ?thesis using dlg_other(3) [OF assms(1,2)] assms(3) by auto
qed

lemma dlg_run_inv:
  assumes "dlg_run emit d0 acc d" "dlg_inv [] d0" "dlg_full [] d0"
  shows "dlg_inv acc d \<and> dlg_full acc d"
  using assms by (induction rule: dlg_run.induct) (simp_all add: dlg_turn_inv)


section \<open>Properties of every run\<close>

lemma dsend_open: "\<not> is_closed (d_writeOut d) \<Longrightarrow> d_sendToWriteOut pick p d \<noteq> HSendOnClosed"
  by (auto simp: d_sendToWriteOut_def select_chan_open split: selected.splits)

lemma after_send_open: "r \<noteq> HSendOnClosed \<Longrightarrow> after_send r k \<noteq> HSendOnClosed"
  by (auto simp: after_send_def split: gres.splits prod.splits)

lemma dsame_writeOut: "dsame d d' \<Longrightarrow> is_closed (d_writeOut d') = is_closed (d_writeOut d)"
  by (simp add: dsame_def dkept_def evolves_def)

lemma d_handlers_open:
  assumes "\<not> is_closed (d_writeOut d)" "\<not> is_closed (d_readOut d)"
  shows "d_handleIn emit t p d \<noteq> HSendOnClosed" "d_handleOut emit t p d \<noteq> HSendOnClosed"
proof -
  have e: "d_emit emit ev d = Ret (Some y) \<Longrightarrow> \<not> is_closed (d_writeOut y)" for ev y
    using dsame_writeOut dsame_emit assms(1) by blast
  have c: "d_emit emit ev d = Ret (Some y) \<Longrightarrow> d_Close now y = Ret z \<Longrightarrow> \<not> is_closed (d_writeOut z)" for ev y now z
    using dsame_writeOut [OF dsame_Close] e by blast
  show "d_handleIn emit t p d \<noteq> HSendOnClosed"
    using assms e dsend_open
    by (auto simp: d_handleIn_def d_handleInSessionPacket_def d_handleInSessionAckPacket_def d_handleInDismissPacket_def
        d_handleInDimssAckPacket_def d_handleInDataPacket_def Let_def select_chan_open
        split: Packet.splits outcome.splits option.splits gres.splits selected.splits)
  show "d_handleOut emit t p d \<noteq> HSendOnClosed"
    using assms
    by (auto simp: d_handleOut_def d_handleOutSessionPacket_def d_handleOutSessionAckPacket_def d_handleOutDismissPacket_def
        d_handleOutDismissAckPacket_def d_handleOutDataPacket_def
        intro!: after_send_open dsend_open dest: e c split: Packet.splits outcome.splits option.splits)
qed

lemma dlg_turn_open:
  assumes "dlg_inv acc d"
  shows "dlg_turn emit op d \<noteq> HSendOnClosed"
proof -
  have o: "d_handling d \<Longrightarrow> \<not> is_closed (d_writeOut d) \<and> \<not> is_closed (d_readOut d)"
    "\<not> is_closed (d_readIn d)" "\<not> is_closed (d_writeIn d)" using assms by (simp_all add: dlg_inv_def)
  have f: "r \<noteq> HSendOnClosed \<Longrightarrow> d_finish r \<noteq> HSendOnClosed" for r
    by (auto simp: d_finish_def split: gres.splits)
  have w: "forget (d_sendToWriteIn pick p x) \<noteq> HSendOnClosed" if "\<not> is_closed (d_writeIn x)" for pick p x
    using select_chan_open [OF that] by (auto simp: forget_def d_sendToWriteIn_def split: selected.splits)
  show ?thesis
  proof (cases op)
    case (DUserWrite pick p)
    then show ?thesis using w [OF o(3)] by (auto simp: d_Write_def forget_def)
  next
    case (DDeliver pick p)
    then show ?thesis using select_chan_open [OF o(2)] by (auto simp: d_deliver_def forget_def split: selected.splits)
  next
    case (DSender pick i)
    then show ?thesis using w o(3) by simp
  qed (use o f d_handlers_open in \<open>auto simp: d_turn_in_def d_turn_out_def d_turn_done_def d_turn_write_def d_dowritePkt_def
      d_Read_def forget_def split: list.splits option.splits nat.splits\<close>)
qed


text \<open>
  C8. What the application writes to a dialogue reaches the connection in that order: whatever the
  dialogue's goroutines, its peer and the manager do, the application packets handed to the
  connection are an initial part of the accepted ones, each with the dialogue's id written into it
  on acceptance; while handler and writer run the rest is queued in order.
\<close>

theorem dialogue_order:
  assumes "dlg_run emit (NewDialogue pf s n b m peer r w) acc d"
  shows "prefix (app_down d) (filter is_app acc) \<and>
    (d_handling d \<and> d_writing d \<longrightarrow> app_down d @ app_out d @ filter is_app (buf (d_writeIn d)) = filter is_app acc)"
  using dlg_run_inv [OF assms] NewDialogue_inv by (simp add: dlg_inv_def dlg_full_def)

text \<open>
  C25. As long as only its own handler finishes a dialogue, none of its goroutines ever sends on a
  closed channel, in any interleaving; and the state machine is gone exactly when the handler has
  finished, so that no handler meets it nil.
\<close>

theorem dialogue_no_send_on_closed:
  assumes "dlg_run emit (NewDialogue pf s n b m peer r w) acc d"
  shows "dlg_turn emit op d \<noteq> HSendOnClosed \<and> (d_fsm d = None \<longleftrightarrow> \<not> d_handling d)"
proof -
  have i: "dlg_inv acc d" using dlg_run_inv [OF assms] NewDialogue_inv by blast
  then show ?thesis using dlg_turn_open [OF i] by (simp add: dlg_inv_def)
qed

fun drun_ops :: "(dlg_state, dlg_event) emitter \<Rightarrow> dlg_op list \<Rightarrow> Packet list \<times> dialogue \<Rightarrow> (Packet list \<times> dialogue) option" where
  "drun_ops emit [] s = Some s"
| "drun_ops emit (op # ops) s =
     (case dlg_turn emit op (snd s) of
        HRet _ d' \<Rightarrow> drun_ops emit ops (fst s @ d_accepted op (snd s), d')
      | _ \<Rightarrow> None)"

lemma drun_ops_run: "drun_ops emit ops (acc, d) = Some (acc', d') \<Longrightarrow> dlg_run emit d0 acc d \<Longrightarrow> dlg_run emit d0 acc' d'"
proof (induction ops arbitrary: acc d)
  case (Cons op ops)
  then show ?case by (cases "dlg_turn emit op d") (auto intro: dlg_run.dturn)
qed simp

lemmas drun_ops_start = drun_ops_run [OF _ dlg_run.dstart]

definition example_dialogue :: dialogue where
  "example_dialogue = NewDialogue (NewPacketFactory (NewIDCounter Even (Some (0, 0, 0, 0)))) SESSIONED 8 False [] [] 4 4"

definition example_app :: "u64 \<Rightarrow> u64 \<Rightarrow> Packet" where
  "example_app sid i = PStream \<lparr>st_hdr = mk_header TypeStreamPacket i 0, st_sessionID = sid, st_Data = [1, 2], st_clientID = 0\<rparr>"

definition example_dturn :: dturn where
  "example_dturn = \<lparr>dt_now = 0, dt_pick = True, dt_online = None\<rparr>"

definition example_dlg_ops :: "dlg_op list" where
  "example_dlg_ops = [DUserWrite True (example_app 5 1), DHandleOut example_dturn, DUserWrite True (example_app 5 3), DWriter None,
     DUserClose 0, DHandleOut example_dturn]"

lemma example_dlg_run:
  "\<exists>acc d. dlg_run table_next example_dialogue acc d \<and> app_down d = [example_app 0 1] \<and> app_out d = [example_app 0 3]
     \<and> buf (d_writeIn d) = [] \<and> d_handling d \<and> d_writing d"
proof -
  let ?r = "drun_ops table_next example_dlg_ops ([], example_dialogue)"
  have e: "map_option (\<lambda>(acc, d). (app_down d, app_out d, buf (d_writeIn d), d_handling d, d_writing d)) ?r
      = Some ([example_app 0 1], [example_app 0 3], [], True, True)" by code_simp
  then obtain acc d where r: "?r = Some (acc, d)" by auto
  then show ?thesis using e drun_ops_start [of table_next example_dlg_ops example_dialogue acc d] by auto
qed

theorem dialogue_order_witness:
  "\<exists>acc d. dlg_run table_next example_dialogue acc d \<and> filter is_app acc = [example_app 0 1, example_app 0 3]
     \<and> app_down d = [example_app 0 1]"
proof -
  obtain acc d where d: "dlg_run table_next example_dialogue acc d" "app_down d = [example_app 0 1]" "app_out d = [example_app 0 3]"
    "buf (d_writeIn d) = []" "d_handling d" "d_writing d" using example_dlg_run by blast
  from dialogue_order [OF d(1) [unfolded example_dialogue_def]] show ?thesis using d by auto
qed

theorem dialogue_no_send_on_closed_witness:
  "\<exists>acc d. dlg_run table_next example_dialogue acc d \<and> app_down d = [example_app 0 1]
     \<and> dlg_turn table_next (DHandleIn example_dturn) d \<noteq> HSendOnClosed \<and> d_fsm d \<noteq> None"
proof -
  obtain acc d where d: "dlg_run table_next example_dialogue acc d" "app_down d = [example_app 0 1]" "d_handling d"
    using example_dlg_run by blast
  from dialogue_no_send_on_closed [OF d(1) [unfolded example_dialogue_def]] show ?thesis using d by blast
qed

end
