(* ===== verification/Dialogue_Mgr.thy ===== *)
theory Dialogue_Mgr
  imports Dialogue_System "HOL-Library.AList"
begin

text \<open>
  The dialogue manager (\<open>multiplexer/dialogue_mgr.go\<close>), which opens, accepts, routes to and ends
  the dialogues of one connection. Dialogues live in a store and are named by their address; the
  two tables map ids to addresses. The packet factory is shared: a dialogue's turn starts from the
  manager's and leaves it to it. The critical section of \<open>DialogueOnline\<close> and \<open>DialogueOffline\<close> and
  the notification after it are one step, and so is each of the three phases of \<open>OpenDialogue\<close>.
\<close>

section \<open>State\<close>

datatype mux_error = ErrOperationOnClosedMultiplexer | ErrConnNotFound | ErrDialogueNotFound | ErrAcceptChNotEnabled
  | ErrClosedChNotEnabled | ErrUnfoundClientID | MuxEOF | MuxSync sync_error

type_synonym addr = nat

text \<open>What runs outside on the manager's behalf: the delegate and the callbacks of the options.\<close>

datatype mgr_call = DlgtOnline addr | DlgtOffline addr | AcceptFn addr | ClosedFn addr

text \<open>
  A caller inside \<open>OpenDialogue\<close>: past the first check, or waiting with the dialogue, its
  negotiating id and the packet id the wait is for.
\<close>

datatype opener = Checked bytes bytes | Waiting addr u64 u64

record mux_opts =
  o_dlgt :: bool
  o_acceptCh :: "nat option"
  o_acceptFn :: bool
  o_closedCh :: "nat option"
  o_closedFn :: bool
  o_readSize :: int
  o_writeSize :: int

record dialogueMgr =
  m_opts :: mux_opts
  m_side :: side
  m_clientID :: u64
  m_pf :: packetFactory
  m_ids :: "IDCounter option"
  m_ok :: bool
  m_dialogues :: "(u64 \<times> addr) list"
  m_negotiating :: "(u64 \<times> addr) list"
  m_accept :: "addr chan option"
  m_closedCh :: "addr chan option"
  m_closeCh :: bool
  m_reading :: bool
  m_store :: "dialogue list"
  m_openers :: "opener list"
  m_closes :: "(bool \<times> addr) list list"
  m_calls :: "mgr_call list"

type_synonym 'a mres = "('a, dialogueMgr) gres"

text \<open>\<open>OptionDialogueBufferSize\<close> keeps the default of 32 for sizes that are not positive.\<close>

definition buffer_size :: "int \<Rightarrow> nat" where
  "buffer_size n = (if n > 0 then nat n else 32)"

definition NewDialogueMgr ::
  "side \<Rightarrow> u64 \<Rightarrow> bytes \<Rightarrow> packetFactory \<Rightarrow> mux_opts \<Rightarrow> (byte \<times> byte \<times> byte \<times> byte) option \<Rightarrow> dialogueMgr outcome" where
  "NewDialogueMgr sd clientID meta pf opts src =
     obind (ReserveID SessionID1 (NewIDCounter (if sd = RecipientSide then Even else Odd) src)) (\<lambda>dialogueIDs.
     let dg = (NewDialogue pf SESSIONED 0 False meta [] (buffer_size (o_readSize opts)) (buffer_size (o_writeSize opts)))
                \<lparr>d_dialogueID := SessionID1\<rparr>
     in Ret \<lparr>m_opts = opts, m_side = sd, m_clientID = clientID, m_pf = pf, m_ids = Some dialogueIDs, m_ok = True,
          m_dialogues = [(SessionID1, 0)], m_negotiating = [], m_accept = map_option make_chan (o_acceptCh opts),
          m_closedCh = map_option make_chan (o_closedCh opts), m_closeCh = False, m_reading = True, m_store = [dg],
          m_openers = [], m_closes = [], m_calls = []\<rparr>)"

definition m_call :: "mgr_call \<Rightarrow> dialogueMgr \<Rightarrow> dialogueMgr" where
  "m_call x m = m\<lparr>m_calls := m_calls m @ [x]\<rparr>"

section \<open>Online and offline\<close>

definition mgr_DialogueOnline :: "addr \<Rightarrow> dialogueMgr \<Rightarrow> mux_error option mres" where
  "mgr_DialogueOnline a m =
     (if \<not> m_ok m then HRet (Some ErrOperationOnClosedMultiplexer) m
      else
        let d = m_store m ! a;
            m1 = m\<lparr>m_negotiating := AList.delete (d_negotiatingID d) (m_negotiating m),
                   m_dialogues := AList.update (d_dialogueID d) a (m_dialogues m)\<rparr>;
            m2 = (if o_dlgt (m_opts m) then m_call (DlgtOnline a) m1 else m1)
        in if o_acceptFn (m_opts m) then HRet None (m_call (AcceptFn a) m2)
           else case m_accept m of
                  None \<Rightarrow> HRet None m2
                | Some ch \<Rightarrow>
                    (case ch_send ch a of
                       Sent ch' \<Rightarrow> HRet None (m2\<lparr>m_accept := Some ch'\<rparr>)
                     | Full \<Rightarrow> HBlock
                     | OnClosed \<Rightarrow> HSendOnClosed))"

definition mgr_DialogueOffline :: "addr \<Rightarrow> dialogueMgr \<Rightarrow> mux_error option mres" where
  "mgr_DialogueOffline a m =
     (let i = d_dialogueID (m_store m ! a) in
      if map_of (m_dialogues m) i = None then HRet (Some ErrDialogueNotFound) m
      else
        let m1 = m\<lparr>m_dialogues := AList.delete i (m_dialogues m)\<rparr>;
            m2 = (if o_dlgt (m_opts m) then m_call (DlgtOffline a) m1 else m1)
        in if o_closedFn (m_opts m) then HRet (Some ErrDialogueNotFound) (m_call (ClosedFn a) m2)
           else case m_closedCh m of
                  None \<Rightarrow> HRet (Some ErrDialogueNotFound) m2
                | Some ch \<Rightarrow>
                    (case ch_send ch a of
                       Sent ch' \<Rightarrow> HRet (Some ErrDialogueNotFound) (m2\<lparr>m_closedCh := Some ch'\<rparr>)
                     | Full \<Rightarrow> HBlock
                     | OnClosed \<Rightarrow> HSendOnClosed))"

section \<open>Opening\<close>

definition OpenDialogue_check :: "bytes \<Rightarrow> bytes \<Rightarrow> dialogueMgr \<Rightarrow> mux_error option \<times> dialogueMgr" where
  "OpenDialogue_check meta peer m =
     (if \<not> m_ok m then (Some ErrOperationOnClosedMultiplexer, m)
      else (None, m\<lparr>m_openers := m_openers m @ [Checked meta peer]\<rparr>))"

text \<open>A new dialogue, entered among the negotiating ones under a fresh id; the id and the address.\<close>

definition new_negotiating :: "int \<Rightarrow> bytes \<Rightarrow> bytes \<Rightarrow> dialogueMgr \<Rightarrow> ((u64 \<times> addr) \<times> dialogueMgr) outcome" where
  "new_negotiating now meta peer m =
     (case m_ids m of
        None \<Rightarrow> Panic NilDereference
      | Some c \<Rightarrow>
          obind (GetID now c) (\<lambda>(negotiatingID, c').
          let dialogueIDPeersCall = (m_side m = InitiatorSide);
              dg = NewDialogue (m_pf m) DG_INIT negotiatingID dialogueIDPeersCall meta peer 32 32;
              a = length (m_store m)
          in Ret ((negotiatingID, a), m\<lparr>m_ids := Some c', m_store := m_store m @ [dg],
                 m_negotiating := AList.update negotiatingID a (m_negotiating m)\<rparr>)))"

text \<open>A dialogue's step inside the manager, with the shared packet factory.\<close>

definition with_dialogue :: "addr \<Rightarrow> (dialogue \<Rightarrow> 'a dres) \<Rightarrow> dialogueMgr \<Rightarrow> 'a mres" where
  "with_dialogue a f m =
     (if a < length (m_store m) then
        (case f ((m_store m ! a)\<lparr>d_pf := m_pf m\<rparr>) of
           HRet r d \<Rightarrow> HRet r (m\<lparr>m_store := (m_store m)[a := d], m_pf := d_pf d\<rparr>)
         | HBlock \<Rightarrow> HBlock | HPanic p \<Rightarrow> HPanic p | HSendOnClosed \<Rightarrow> HSendOnClosed)
      else HBlock)"

definition OpenDialogue_start :: "nat \<Rightarrow> int \<Rightarrow> dialogueMgr \<Rightarrow> unit mres" where
  "OpenDialogue_start n now m =
     (if n < length (m_openers m) then
        (case m_openers m ! n of
           Checked meta peer \<Rightarrow>
             (case new_negotiating now meta peer m of
                Panic p \<Rightarrow> HPanic p
              | Fail e \<Rightarrow> HBlock
              | Ret ((negotiatingID, a), m1) \<Rightarrow>
                  (case with_dialogue a (\<lambda>d. case d_open now d of Ret (k, d') \<Rightarrow> HRet k d' | Fail _ \<Rightarrow> HBlock | Panic p \<Rightarrow> HPanic p) m1 of
                     HRet k m2 \<Rightarrow> HRet () (m2\<lparr>m_openers := (m_openers m)[n := Waiting a negotiatingID k]\<rparr>)
                   | HBlock \<Rightarrow> HBlock | HPanic p \<Rightarrow> HPanic p | HSendOnClosed \<Rightarrow> HSendOnClosed))
         | Waiting _ _ _ \<Rightarrow> HBlock)
      else HBlock)"

text \<open>
  The end: \<open>open\<close> returns the error of its wait, or nothing once the acknowledgement has completed
  it. After a \<open>fini\<close> the dialogue is finished from this goroutine.
\<close>

definition drop_nth :: "nat \<Rightarrow> 'a list \<Rightarrow> 'a list" where
  "drop_nth n xs = take n xs @ drop (Suc n) xs"

definition OpenDialogue_end :: "nat \<Rightarrow> sync_error option \<Rightarrow> dialogueMgr \<Rightarrow> (mux_error + addr) mres" where
  "OpenDialogue_end n err m =
     (if n < length (m_openers m) then
        (case m_openers m ! n of
           Checked _ _ \<Rightarrow> HBlock
         | Waiting a negotiatingID k \<Rightarrow>
             (let m1 = m\<lparr>m_negotiating := AList.delete negotiatingID (m_negotiating m), m_openers := drop_nth n (m_openers m)\<rparr> in
              case err of
                Some e \<Rightarrow> HRet (Inl (MuxSync e)) m1
              | None \<Rightarrow>
                  (if DSyncDone k \<notin> set (d_effects (m_store m ! a)) then HBlock
                   else if \<not> m_ok m then
                     HRet (Inl ErrOperationOnClosedMultiplexer) (m1\<lparr>m_store := (m_store m)[a := d_fini (m_store m ! a)]\<rparr>)
                   else HRet (Inr a) (m1\<lparr>m_dialogues := AList.update (d_dialogueID (m_store m ! a)) a (m_dialogues m)\<rparr>))))
      else HBlock)"

section \<open>Accepting and looking up\<close>

definition AcceptDialogue :: "dialogueMgr \<Rightarrow> (mux_error + addr) mres" where
  "AcceptDialogue m =
     (case m_accept m of
        None \<Rightarrow> HRet (Inl ErrAcceptChNotEnabled) m
      | Some ch \<Rightarrow>
          (case buf ch of
             a # as \<Rightarrow> HRet (Inr a) (m\<lparr>m_accept := Some (ch\<lparr>buf := as\<rparr>)\<rparr>)
           | [] \<Rightarrow> (if is_closed ch then HRet (Inl MuxEOF) m else HBlock)))"

definition ClosedDialogue :: "dialogueMgr \<Rightarrow> (mux_error + addr) mres" where
  "ClosedDialogue m =
     (case m_closedCh m of
        None \<Rightarrow> HRet (Inl ErrClosedChNotEnabled) m
      | Some ch \<Rightarrow>
          (case buf ch of
             a # as \<Rightarrow> HRet (Inr a) (m\<lparr>m_closedCh := Some (ch\<lparr>buf := as\<rparr>)\<rparr>)
           | [] \<Rightarrow> (if is_closed ch then HRet (Inl MuxEOF) m else HBlock)))"

definition ListDialogues :: "dialogueMgr \<Rightarrow> addr list" where
  "ListDialogues m = map snd (m_dialogues m)"

definition GetDialogue :: "u64 \<Rightarrow> u64 \<Rightarrow> dialogueMgr \<Rightarrow> mux_error + addr" where
  "GetDialogue clientID dialogueID m =
     (if m_clientID m \<noteq> clientID then Inl ErrUnfoundClientID
      else case map_of (m_dialogues m) dialogueID of None \<Rightarrow> Inl ErrDialogueNotFound | Some a \<Rightarrow> Inr a)"

section \<open>Routing\<close>

definition deliver_to :: "addr \<Rightarrow> bool \<Rightarrow> Packet \<Rightarrow> dialogueMgr \<Rightarrow> unit mres" where
  "deliver_to a pick pkt m = forget (with_dialogue a (d_deliver pick pkt) m)"

definition mgr_handlePkt :: "bool \<Rightarrow> int \<Rightarrow> Packet \<Rightarrow> dialogueMgr \<Rightarrow> unit mres" where
  "mgr_handlePkt pick now pkt m =
     (case pkt of
        PSession p \<Rightarrow>
          (case sp_SessionData p of
             None \<Rightarrow> HPanic NilDereference
           | Some x \<Rightarrow>
               (case new_negotiating now (sd_Meta x) (sd_Peer x) m of
                  Panic q \<Rightarrow> HPanic q
                | Fail e \<Rightarrow> HRet () m
                | Ret ((_, a), m1) \<Rightarrow> deliver_to a pick pkt m1))
      | PSessionAck p \<Rightarrow>
          (case map_of (m_negotiating m) (sa_negotiateID p) of
             None \<Rightarrow> HRet () m
           | Some a \<Rightarrow> deliver_to a pick pkt m)
      | _ \<Rightarrow>
          (case Packet_SessionID pkt of
             None \<Rightarrow> HRet () m
           | Some dialogueID \<Rightarrow>
               (case map_of (m_dialogues m) dialogueID of
                  Some a \<Rightarrow> deliver_to a pick pkt m
                | None \<Rightarrow>
                    (case map_of (m_negotiating m) dialogueID of
                       None \<Rightarrow> HRet () m
                     | Some a \<Rightarrow> deliver_to a pick pkt m))))"

section \<open>Closing\<close>

text \<open>
  \<open>Close\<close> starts one \<open>CloseWait\<close> per dialogue; \<open>m_closes\<close> holds, for each running \<open>Close\<close>, the
  ones it still waits for and whether they have started. The last step closes \<open>closeCh\<close>.
\<close>

definition mgr_Close :: "dialogueMgr \<Rightarrow> dialogueMgr" where
  "mgr_Close m =
     (if \<not> m_ok m then m
      else m\<lparr>m_closes := m_closes m @ [map (\<lambda>(_, a). (False, a)) (m_dialogues m @ m_negotiating m)]\<rparr>)"

definition Close_start :: "nat \<Rightarrow> nat \<Rightarrow> int \<Rightarrow> dialogueMgr \<Rightarrow> unit mres" where
  "Close_start c i now m =
     (if c < length (m_closes m) \<and> i < length (m_closes m ! c) \<and> \<not> fst (m_closes m ! c ! i) then
        (let a = snd (m_closes m ! c ! i);
             rest = (if d_closeOnce (m_store m ! a) then drop_nth i (m_closes m ! c) else (m_closes m ! c)[i := (True, a)])
         in case with_dialogue a (\<lambda>d. of_outcome (d_CloseWait now d)) m of
              HRet _ m1 \<Rightarrow> HRet () (m1\<lparr>m_closes := (m_closes m)[c := rest]\<rparr>)
            | HBlock \<Rightarrow> HBlock | HPanic p \<Rightarrow> HPanic p | HSendOnClosed \<Rightarrow> HSendOnClosed)
      else HBlock)"

definition wait_over :: "sync_error option \<Rightarrow> dialogue \<Rightarrow> bool" where
  "wait_over err d = (case d_closewait d of None \<Rightarrow> False | Some k \<Rightarrow> err \<noteq> None \<or> DSyncDone k \<in> set (d_effects d))"

definition Close_return :: "nat \<Rightarrow> nat \<Rightarrow> sync_error option \<Rightarrow> dialogueMgr \<Rightarrow> unit mres" where
  "Close_return c i err m =
     (if c < length (m_closes m) \<and> i < length (m_closes m ! c) \<and> fst (m_closes m ! c ! i)
         \<and> wait_over err (m_store m ! snd (m_closes m ! c ! i)) then
        (case with_dialogue (snd (m_closes m ! c ! i)) (\<lambda>d. HRet () (closewait_event err d)) m of
           HRet _ m1 \<Rightarrow> HRet () (m1\<lparr>m_closes := (m_closes m)[c := drop_nth i (m_closes m ! c)]\<rparr>)
         | HBlock \<Rightarrow> HBlock | HPanic p \<Rightarrow> HPanic p | HSendOnClosed \<Rightarrow> HSendOnClosed)
      else HBlock)"

definition Close_end :: "nat \<Rightarrow> dialogueMgr \<Rightarrow> unit mres" where
  "Close_end c m =
     (if c < length (m_closes m) \<and> m_closes m ! c = [] then
        (if m_closeCh m then HPanic CloseOfClosed
         else HRet () (m\<lparr>m_closeCh := True, m_closes := drop_nth c (m_closes m)\<rparr>))
      else HBlock)"

definition mgr_fini :: "dialogueMgr \<Rightarrow> dialogueMgr" where
  "mgr_fini m =
     m\<lparr>m_ok := False,
       m_store := fold (\<lambda>(_, a) st. st[a := d_closeIO (st ! a)]) (m_dialogues m @ m_negotiating m) (m_store m),
       m_dialogues := [], m_negotiating := [], m_ids := None,
       m_accept := map_option ch_close (m_accept m), m_closedCh := map_option ch_close (m_closedCh m), m_reading := False\<rparr>"

section \<open>The manager's steps\<close>

definition mux_text :: "mux_error \<Rightarrow> bytes" where
  "mux_text e = (if e = ErrOperationOnClosedMultiplexer then lit ''operation on closed multiplexer'' else lit ''dialogue not found'')"

text \<open>
  A step of a dialogue with the manager as its delegate: a session acknowledgement on its way out
  first reports the dialogue online, and a handler that ends reports an online dialogue offline.
\<close>

definition then_offline :: "addr \<Rightarrow> bool \<Rightarrow> unit mres \<Rightarrow> unit mres" where
  "then_offline a handling r =
     (case r of
        HRet _ m \<Rightarrow>
          (if handling \<and> \<not> d_handling (m_store m ! a) \<and> d_onlined (m_store m ! a) then forget (mgr_DialogueOffline a m)
           else HRet () m)
      | HBlock \<Rightarrow> HBlock | HPanic p \<Rightarrow> HPanic p | HSendOnClosed \<Rightarrow> HSendOnClosed)"

definition mgr_dialogue :: "(dlg_state, dlg_event) emitter \<Rightarrow> addr \<Rightarrow> dlg_op \<Rightarrow> dialogueMgr \<Rightarrow> unit mres" where
  "mgr_dialogue emit a op m =
     (if a < length (m_store m) then
        (let d = m_store m ! a in
         then_offline a (d_handling d)
           (case (op, buf (d_writeIn d)) of
              (DHandleOut t, PSessionAck p # ps) \<Rightarrow>
                (if \<not> d_handling d then HBlock
                 else case mgr_DialogueOnline a m of
                        HRet err m1 \<Rightarrow>
                          with_dialogue a (dlg_turn emit (DHandleOut (t\<lparr>dt_online := Some (map_option mux_text err)\<rparr>))) m1
                      | HBlock \<Rightarrow> HBlock | HPanic p \<Rightarrow> HPanic p | HSendOnClosed \<Rightarrow> HSendOnClosed)
            | _ \<Rightarrow> with_dialogue a (dlg_turn emit op) m))
      else HBlock)"

text \<open>The application writes packets of its own layer only; delivery and \<open>closeIO\<close> are the manager's.\<close>

fun dialogue_op :: "dlg_op \<Rightarrow> bool" where
  "dialogue_op (DDeliver _ _) = False"
| "dialogue_op DCloseIO = False"
| "dialogue_op (DUserWrite _ pkt) = is_app pkt"
| "dialogue_op _ = True"

datatype mgr_op =
    MOpenCheck bytes bytes
  | MOpenStart nat int
  | MOpenEnd nat "sync_error option"
  | MPacket bool int Packet
  | MReadDone
  | MCloseSeen
  | MDialogue addr dlg_op
  | MClose
  | MCloseStart nat nat int
  | MCloseReturn nat nat "sync_error option"
  | MCloseEnd nat
  | MAccept
  | MClosedDialogue

text \<open>\<open>readPkt\<close> reads a packet, finds the connection's channel closed, or \<open>closeCh\<close>.\<close>

fun mgr_turn :: "(dlg_state, dlg_event) emitter \<Rightarrow> mgr_op \<Rightarrow> dialogueMgr \<Rightarrow> unit mres" where
  "mgr_turn emit (MOpenCheck meta peer) m = HRet () (snd (OpenDialogue_check meta peer m))"
| "mgr_turn emit (MOpenStart n now) m = OpenDialogue_start n now m"
| "mgr_turn emit (MOpenEnd n err) m = forget (OpenDialogue_end n err m)"
| "mgr_turn emit (MPacket pick now pkt) m = (if m_reading m then mgr_handlePkt pick now pkt m else HBlock)"
| "mgr_turn emit MReadDone m = (if m_reading m then HRet () (mgr_fini m) else HBlock)"
| "mgr_turn emit MCloseSeen m = (if m_reading m \<and> m_closeCh m then HRet () (mgr_fini m) else HBlock)"
| "mgr_turn emit (MDialogue a op) m = (if dialogue_op op then mgr_dialogue emit a op m else HBlock)"
| "mgr_turn emit MClose m = HRet () (mgr_Close m)"
| "mgr_turn emit (MCloseStart c i now) m = Close_start c i now m"
| "mgr_turn emit (MCloseReturn c i err) m = Close_return c i err m"
| "mgr_turn emit (MCloseEnd c) m = Close_end c m"
| "mgr_turn emit MAccept m = forget (AcceptDialogue m)"
| "mgr_turn emit MClosedDialogue m = forget (ClosedDialogue m)"

end
