(* ===== verification/Dialogue_Handshake.thy ===== *)
theory Dialogue_Handshake
  imports Dialogue_System
begin

text \<open>
  The dismissal handshake of a dialogue: the dialogue's table is an instance of
  \<open>close_handshake\<close>, and its handlers complete the handshake in every order, with what is queued
  for the peer still written after the dialogue has finished.
\<close>

interpretation dlg_close: close_handshake "table_next dlg_events" ET_DISMISSSENT ET_DISMISSRECV ET_DISMISSACK
  SESSIONED DISMISS_SENT DISMISS_RECV DISMISS_HALF DISMISSED
  by unfold_locales (simp_all add: dlg_events_def table_next_def)

lemma emit_dlg:
  assumes "documented_fsm emit" "d_fsm d = Some s" "table_next dlg_events s ev = Some s'"
  shows "d_emit emit ev d = Ret (Some (d\<lparr>d_fsm := Some s'\<rparr>))"
  using assms emit_table [OF assms(1) single_valued_dlg] by (simp add: d_emit_def)

lemma emit_dlg_None:
  assumes "documented_fsm emit" "d_fsm d = Some s" "table_next dlg_events s ev = None"
  shows "d_emit emit ev d = Ret None"
  using assms emit_table [OF assms(1) single_valued_dlg] by (simp add: d_emit_def)

section \<open>Steps of the dismissal\<close>

text \<open>
  The four steps as the handlers run them. \<open>theirs\<close> is the peer's dismiss packet; our
  acknowledgement of it is the packet its handler builds.
\<close>

definition dismiss_ack :: "DismissPacket \<Rightarrow> Packet" where
  "dismiss_ack theirs = PDismissAck (NewDismissAckPacket (PacketID (dm_hdr theirs)) (dm_sessionID theirs) None)"

fun dismiss_turn :: "(dlg_state, dlg_event) emitter \<Rightarrow> dturn \<Rightarrow> DismissPacket \<Rightarrow> DismissPacket \<Rightarrow> DismissAckPacket
    \<Rightarrow> close_step \<Rightarrow> dialogue \<Rightarrow> IORet dres" where
  "dismiss_turn emit t ours theirs ack_in SendClose d = d_handleOut emit t (PDismiss ours) d"
| "dismiss_turn emit t ours theirs ack_in RecvClose d = d_handleIn emit t (PDismiss theirs) d"
| "dismiss_turn emit t ours theirs ack_in RecvAck d = d_handleIn emit t (PDismissAck ack_in) d"
| "dismiss_turn emit t ours theirs ack_in SendAck d = d_handleOut emit t (dismiss_ack theirs) d"

text \<open>
  Once its own dismissal is acknowledged, the peer's dismiss packet ends the dialogue at once: the
  handler writes the acknowledgement itself.
\<close>

definition dismissal_steps :: "close_step list \<Rightarrow> close_step list" where
  "dismissal_steps xs = (if xs ! 1 = RecvAck then take 3 xs else xs)"

definition d_room :: "nat \<Rightarrow> dialogue \<Rightarrow> bool" where
  "d_room n d \<longleftrightarrow> \<not> d_ctxDone d \<and> \<not> is_closed (d_writeOut d) \<and> length (buf (d_writeOut d)) + n \<le> cap (d_writeOut d)"

definition put_out :: "Packet \<Rightarrow> dialogue \<Rightarrow> dialogue" where
  "put_out p d = d\<lparr>d_writeOut := (d_writeOut d)\<lparr>buf := buf (d_writeOut d) @ [p]\<rparr>\<rparr>"

lemma send_room: "d_room (Suc n) d \<Longrightarrow> d_sendToWriteOut pick p d = HRet True (put_out p d)"
  by (simp add: d_room_def d_sendToWriteOut_def select_chan_room put_out_def)

lemma room_sel [simp]:
  "d_room n (d\<lparr>d_fsm := s\<rparr>) = d_room n d" "d_room n (d_spawn p d) = d_room n d" "d_room n (d\<lparr>d_closers := k\<rparr>) = d_room n d"
  "d_room n (put_out p d) = d_room (Suc n) d"
  by (simp_all add: d_room_def d_spawn_def put_out_def)

lemma put_out_sel [simp]:
  "d_fsm (put_out p d) = d_fsm d" "buf (d_writeOut (put_out p d)) = buf (d_writeOut d) @ [p]"
  "d_closewait (put_out p d) = d_closewait d" "d_effects (put_out p d) = d_effects d" "d_down (put_out p d) = d_down d"
  "d_fsm (d_spawn p d) = d_fsm d" "d_writeOut (d_spawn p d) = d_writeOut d" "d_closewait (d_spawn p d) = d_closewait d"
  "d_effects (d_spawn p d) = d_effects d" "d_down (d_spawn p d) = d_down d"
  by (simp_all add: put_out_def d_spawn_def)

lemma closewait_Done_sel [simp]:
  "d_closewait d = Some k \<Longrightarrow> closewait_Done d = d_effect (DSyncDone k) d"
  "d_fsm (d_effect e d) = d_fsm d" "d_writeOut (d_effect e d) = d_writeOut d" "d_effects (d_effect e d) = d_effects d @ [e]"
  "d_down (d_effect e d) = d_down d"
  by (simp_all add: closewait_Done_def d_effect_def)

lemmas dismiss_defs = d_handleIn_def d_handleOut_def d_handleInDismissPacket_def d_handleInDimssAckPacket_def
  d_handleOutDismissPacket_def d_handleOutDismissAckPacket_def after_send_def dismiss_ack_def

text \<open>Each step, by the transition it makes.\<close>

lemma SendClose_step:
  assumes "documented_fsm emit" "d_room (Suc n) d" "d_fsm d = Some s" "table_next dlg_events s ET_DISMISSSENT = Some s'"
  shows "dismiss_turn emit t ours theirs ack_in SendClose d = HRet IOSuccess (put_out (PDismiss ours) (d\<lparr>d_fsm := Some s'\<rparr>))"
  using emit_dlg [OF assms(1,3,4)] send_room [of n "d\<lparr>d_fsm := Some s'\<rparr>"] assms(2) by (simp add: dismiss_defs)

lemma RecvClose_step:
  assumes "documented_fsm emit" "d_room n d" "d_fsm d = Some s" "table_next dlg_events s ET_DISMISSRECV = Some s'"
    "s \<noteq> DISMISS_HALF"
  shows "dismiss_turn emit t ours theirs ack_in RecvClose d =
    HRet IOSuccess ((d_spawn (dismiss_ack theirs) (d\<lparr>d_fsm := Some s'\<rparr>))\<lparr>d_closers := Suc (d_closers d)\<rparr>)"
  using emit_dlg [OF assms(1,3,4)] assms(3,5) by (simp add: dismiss_defs Let_def)

lemma RecvClose_half:
  assumes "documented_fsm emit" "d_room (Suc n) d" "d_fsm d = Some DISMISS_HALF"
  shows "dismiss_turn emit t ours theirs ack_in RecvClose d =
    HRet IOClosed (closewait_Done (put_out (dismiss_ack theirs) (d\<lparr>d_fsm := Some DISMISS_HALF\<rparr>)))"
  using emit_dlg [OF assms(1,3) dlg_close.from_half(2)] send_room [of n "d\<lparr>d_fsm := Some DISMISS_HALF\<rparr>"] assms(2,3)
  by (simp add: dismiss_defs Let_def)

lemma RecvAck_step:
  assumes "documented_fsm emit" "d_fsm d = Some s" "table_next dlg_events s ET_DISMISSACK = Some s'"
  shows "dismiss_turn emit t ours theirs ack_in RecvAck d =
    (if s' = DISMISS_HALF then HRet IOSuccess (d\<lparr>d_fsm := Some s'\<rparr>) else HRet IOClosed (closewait_Done (d\<lparr>d_fsm := Some s'\<rparr>)))"
  using emit_dlg [OF assms(1-3)] by (simp add: dismiss_defs)

lemma SendAck_step:
  assumes "documented_fsm emit" "d_room (Suc n) d" "d_fsm d = Some s" "table_next dlg_events s ET_DISMISSACK = Some s'"
  shows "dismiss_turn emit t ours theirs ack_in SendAck d =
    (if s' = DISMISS_HALF then HRet IOSuccess (put_out (dismiss_ack theirs) (d\<lparr>d_fsm := Some s'\<rparr>))
     else HRet IOClosed (closewait_Done (put_out (dismiss_ack theirs) (d\<lparr>d_fsm := Some s'\<rparr>))))"
  using emit_dlg [OF assms(1,3,4)] send_room [of n "d\<lparr>d_fsm := Some s'\<rparr>"] assms(2) by (simp add: dismiss_defs)

lemma d_room_mono: "d_room (Suc n) d \<Longrightarrow> d_room n d"
  by (simp add: d_room_def)

lemmas dismiss_steps = SendClose_step [of _ 1] SendClose_step [of _ 0] RecvClose_step [of _ 2] RecvClose_step [of _ 1]
  RecvClose_half [of _ 0] RecvAck_step SendAck_step [of _ 1] SendAck_step [of _ 0]

text \<open>The writer, after the handler has finished, still writes what is queued.\<close>

lemma writer_flushes:
  assumes "is_closed (d_writeOut d)"
  shows "\<exists>d'. turns (\<lambda>_. d_turn_write None) (replicate (length (buf (d_writeOut d))) ()) d =
      Some (replicate (length (buf (d_writeOut d))) (), d')
    \<and> d_down d' = d_down d @ buf (d_writeOut d) \<and> buf (d_writeOut d') = []"
  using assms
proof (induction "buf (d_writeOut d)" arbitrary: d)
  case (Cons p ps)
  let ?d = "(d\<lparr>d_writeOut := (d_writeOut d)\<lparr>buf := ps\<rparr>\<rparr>)\<lparr>d_down := d_down d @ [p]\<rparr>"
  have s: "d_turn_write None d = HRet () ?d" using Cons.hyps(2) [symmetric] by (simp add: d_turn_write_def d_dowritePkt_def)
  have "ps = buf (d_writeOut ?d)" "is_closed (d_writeOut ?d)" using Cons.prems by simp_all
  from Cons.hyps(1) [OF this] show ?case using s Cons.hyps(2) [symmetric] by auto
qed simp

lemma finiOnce_sel [simp]:
  "d_finiOnce (put_out p d) = d_finiOnce d" "d_finiOnce (d_spawn p d) = d_finiOnce d" "d_finiOnce (d_effect e d) = d_finiOnce d"
  by (simp_all add: put_out_def d_spawn_def d_effect_def)

lemma dismissal_turns:
  assumes "documented_fsm emit" "close_order xs" "d_fsm d = Some SESSIONED" "d_room 2 d" "d_closewait d = Some k"
  shows "\<exists>d' ps. turns (dismiss_turn emit t ours theirs ack_in) (dismissal_steps xs) d =
      Some (replicate (length (dismissal_steps xs) - 1) IOSuccess @ [IOClosed], d')
    \<and> DSyncDone k \<in> set (d_effects d') \<and> buf (d_writeOut d') = buf (d_writeOut d) @ ps \<and> d_down d' = d_down d
    \<and> d_finiOnce d' = d_finiOnce d
    \<and> (ps = [PDismiss ours, dismiss_ack theirs] \<or> ps = [dismiss_ack theirs, PDismiss ours])"
proof -
  have r: "d_room 1 d" "d_room (Suc 0) d" "d_room (Suc (Suc 0)) d" using assms(4) d_room_mono [of 1 d] by (simp_all add: numeral_2_eq_2)
  note s = dismiss_steps [OF assms(1)] dlg_close.handshake_simps
  consider "xs = [SendClose, RecvAck, RecvClose, SendAck]"
    | "xs = [SendClose, RecvClose, RecvAck, SendAck]" | "xs = [SendClose, RecvClose, SendAck, RecvAck]"
    | "xs = [RecvClose, SendClose, RecvAck, SendAck]" | "xs = [RecvClose, SendClose, SendAck, RecvAck]"
    | "xs = [RecvClose, SendAck, SendClose, RecvAck]"
    using close_order_cases [OF assms(2)] by blast
  then show ?thesis
    by cases (use assms(3-5) r in \<open>simp_all add: dismissal_steps_def s numeral_2_eq_2 numeral_3_eq_3 del: dismiss_turn.simps\<close>)
qed



end
