(* ===== verification/Dialogue_Phases.thy ===== *)
theory Dialogue_Phases
  imports Dialogue_Mgr Dialogue_Handshake
begin

text \<open>
  The phases a dialogue goes through and what every turn keeps of them: phases are not left again,
  an established dialogue keeps its id, and a session packet, an acknowledgement or a completed
  wait tells the phase.
\<close>

section \<open>Phases of a dialogue\<close>

definition left_init :: "dialogue \<Rightarrow> bool" where
  "left_init d \<longleftrightarrow> d_fsm d \<noteq> Some DG_INIT"

definition initiator :: "dialogue \<Rightarrow> bool" where
  "initiator d \<longleftrightarrow> d_fsm d \<noteq> Some DG_INIT \<and> d_fsm d \<noteq> Some SESSION_RECV"

definition established :: "dialogue \<Rightarrow> bool" where
  "established d \<longleftrightarrow> d_fsm d \<noteq> Some DG_INIT \<and> d_fsm d \<noteq> Some SESSION_SENT \<and> d_fsm d \<noteq> Some SESSION_RECV"

definition is_session :: "Packet \<Rightarrow> bool" where
  "is_session p = (case p of PSession _ \<Rightarrow> True | _ \<Rightarrow> False)"

definition is_sessionAck :: "Packet \<Rightarrow> bool" where
  "is_sessionAck p = (case p of PSessionAck _ \<Rightarrow> True | _ \<Rightarrow> False)"

definition sync_done :: "dlg_effect \<Rightarrow> bool" where
  "sync_done e = (case e of DSyncDone _ \<Rightarrow> True | _ \<Rightarrow> False)"

definition phases :: "dialogue \<Rightarrow> bool" where
  "phases d \<longleftrightarrow>
     (list_ex is_sessionAck (d_sends d @ buf (d_writeIn d)) \<longrightarrow> left_init d)
   \<and> (list_ex is_session (buf (d_writeOut d) @ d_down d) \<longrightarrow> initiator d)
   \<and> (list_ex is_sessionAck (buf (d_readIn d)) \<longrightarrow> initiator d)
   \<and> (list_ex sync_done (d_effects d) \<longrightarrow> established d)
   \<and> (d_finiOnce d \<longrightarrow> d_fsm d = None)"

text \<open>What a step may do to a dialogue: phases are not left again, and an established dialogue keeps its id.\<close>

definition moves :: "dialogue \<Rightarrow> dialogue \<Rightarrow> bool" where
  "moves d d' \<longleftrightarrow> (left_init d \<longrightarrow> left_init d') \<and> (initiator d \<longrightarrow> initiator d') \<and> (established d \<longrightarrow> established d')
     \<and> (established d \<longrightarrow> d_dialogueID d' = d_dialogueID d)"

lemma moves_refl [simp]: "moves d d"
  by (simp add: moves_def)

lemma moves_trans: "moves a b \<Longrightarrow> moves b c \<Longrightarrow> moves a c"
  by (auto simp: moves_def)

lemmas phase_defs = left_init_def initiator_def established_def

text \<open>The transitions by event.\<close>

lemma dlg_table:
  "table_next dlg_events s ET_SESSIONSENT = Some s' \<longleftrightarrow> s = DG_INIT \<and> s' = SESSION_SENT"
  "table_next dlg_events s ET_SESSIONRECV = Some s' \<longleftrightarrow>
     s = SESSION_SENT \<and> s' = SESSIONED \<or> s = DG_INIT \<and> s' = SESSION_RECV \<or> s = SESSION_RECV \<and> s' = SESSIONED"
  "table_next dlg_events s ET_DG_ERROR = Some s' \<longleftrightarrow> s = SESSION_RECV \<and> s' = SESSION_RECV"
  "table_next dlg_events s ET_DISMISSSENT = Some s' \<longleftrightarrow>
     s = SESSION_RECV \<and> s' = DISMISS_SENT \<or> s = SESSIONED \<and> s' = DISMISS_SENT \<or> s = DISMISS_RECV \<and> s' = DISMISS_SENT
     \<or> s = DISMISS_HALF \<and> s' = DISMISS_HALF"
  "table_next dlg_events s ET_DISMISSRECV = Some s' \<longleftrightarrow>
     s = SESSION_SENT \<and> s' = DISMISS_RECV \<or> s = SESSIONED \<and> s' = DISMISS_RECV \<or> s = DISMISS_SENT \<and> s' = DISMISS_RECV
     \<or> s = DISMISS_HALF \<and> s' = DISMISS_HALF"
  "table_next dlg_events s ET_DISMISSACK = Some s' \<longleftrightarrow>
     s = DISMISS_SENT \<and> s' = DISMISS_HALF \<or> s = DISMISS_RECV \<and> s' = DISMISS_HALF \<or> s = DISMISS_HALF \<and> s' = DISMISSED"
  by (cases s; auto simp: table_next_def dlg_events_def)+

lemma emit_dlgE:
  assumes "documented_fsm emit" "d_emit emit ev d = Ret (Some d')"
  obtains s s' where "d_fsm d = Some s" "table_next dlg_events s ev = Some s'" "d' = d\<lparr>d_fsm := Some s'\<rparr>"
  using assms emit_table [OF assms(1) single_valued_dlg] by (auto simp: d_emit_def split: option.splits)

lemma emit_move:
  assumes "documented_fsm emit" "d_emit emit ev d = Ret (Some d')"
  shows "\<exists>s s'. d_fsm d = Some s \<and> table_next dlg_events s ev = Some s' \<and> d_fsm d' = Some s'"
  by (rule emit_dlgE [OF assms]) simp

section \<open>Handlers\<close>

definition good_step :: "dialogue \<Rightarrow> dialogue \<Rightarrow> bool" where
  "good_step d d' \<longleftrightarrow> (phases d \<longrightarrow> phases d') \<and> moves d d'"

lemma good_refl [simp]: "good_step d d"
  by (simp add: good_step_def)

lemma good_trans: "good_step a b \<Longrightarrow> good_step b c \<Longrightarrow> good_step a c"
  by (auto simp: good_step_def moves_def)

lemma packet_kinds [simp]:
  "is_session (PSession a)" "\<not> is_session (PSessionAck b)" "\<not> is_session (PDismiss x)" "\<not> is_session (PDismissAck y)"
  "\<not> is_sessionAck (PSession a)" "is_sessionAck (PSessionAck b)" "\<not> is_sessionAck (PDismiss x)" "\<not> is_sessionAck (PDismissAck y)"
  "sync_done (DSyncDone k)" "\<not> sync_done (DSyncError k)" "\<not> sync_done DHubClose"
  by (simp_all add: is_session_def is_sessionAck_def sync_done_def)

lemma app_kinds: "is_app p \<Longrightarrow> \<not> is_session p \<and> \<not> is_sessionAck p"
  by (cases p) (simp_all add: is_app_def is_session_def is_sessionAck_def)

text \<open>Updates that leave phases alone.\<close>

lemma good_upd [simp]:
  "good_step d (d\<lparr>d_onlined := b\<rparr>)" "good_step d (d\<lparr>d_peerNegotiatingID := i\<rparr>)" "good_step d (d\<lparr>d_closers := n\<rparr>)"
  "good_step d (d\<lparr>d_readOut := ch\<rparr>)" "good_step d (d_fail p d)" "good_step d (d\<lparr>d_pf := pf\<rparr>)" "good_step d (d_closeIO d)"
  "good_step d (d\<lparr>d_writing := b\<rparr>)" "good_step d (d_effect (DSyncError k) d)"
  "\<not> is_sessionAck p \<Longrightarrow> good_step d (d_spawn p d)"
  by (simp_all add: good_step_def phases_def moves_def phase_defs d_fail_def d_closeIO_def d_effect_def d_spawn_def)

lemma good_writeOut:
  assumes "is_session p \<longrightarrow> initiator d" "buf ch = buf (d_writeOut d) @ [p]"
  shows "good_step d (d\<lparr>d_writeOut := ch\<rparr>)"
  using assms by (auto simp: good_step_def phases_def moves_def phase_defs)

lemma good_send:
  assumes "d_sendToWriteOut pick p d = HRet ok d'" "is_session p \<longrightarrow> initiator d"
  shows "good_step d d'"
  using assms select_chan_sent [of pick "d_ctxDone d" "d_writeOut d" p]
  by (auto simp: d_sendToWriteOut_def intro!: good_writeOut split: selected.splits)

lemma good_fini: "good_step d (d_fini d)"
  by (simp add: d_fini_def d_effect_def good_step_def phases_def moves_def phase_defs ch_close_def)

lemma good_end: "good_step d (d_handlePkt_end d)"
proof -
  have "good_step x (x\<lparr>d_handling := b\<rparr>)" for x b by (simp add: good_step_def phases_def moves_def phase_defs)
  then show ?thesis using good_fini good_trans unfolding d_handlePkt_end_def by blast
qed

lemma good_closewait_Done: "established d \<Longrightarrow> good_step d (closewait_Done d)"
  by (auto simp: closewait_Done_def d_effect_def good_step_def phases_def moves_def phase_defs split: option.splits)

text \<open>No transition leads back to an earlier phase.\<close>

lemma dlg_forward:
  assumes "table_next dlg_events s ev = Some s'"
  shows "s' \<noteq> DG_INIT" "s \<noteq> DG_INIT \<Longrightarrow> s \<noteq> SESSION_RECV \<Longrightarrow> s' \<noteq> SESSION_RECV"
    "s \<noteq> DG_INIT \<Longrightarrow> s \<noteq> SESSION_SENT \<Longrightarrow> s \<noteq> SESSION_RECV \<Longrightarrow> s' \<noteq> SESSION_SENT"
  using table_next_Some [OF assms] by (auto simp: dlg_events_def)

lemma good_fsm:
  assumes "table_next dlg_events s ev = Some s'" "d_fsm d = Some s"
  shows "good_step d (d\<lparr>d_fsm := Some s'\<rparr>)"
  using dlg_forward [OF assms(1)] assms(2) unfolding good_step_def phases_def moves_def phase_defs by simp

lemma good_emit:
  assumes "documented_fsm emit" "d_emit emit ev d = Ret (Some d')"
  shows "good_step d d'"
  using emit_dlgE [OF assms] good_fsm by metis

lemma good_dismissing: "\<not> is_sessionAck p \<Longrightarrow> good_step d (d_spawn p (d\<lparr>d_closeOnce := True, d_pf := pf, d_closewait := k\<rparr>))"
  by (simp add: good_step_def phases_def moves_def phase_defs d_spawn_def)

lemma good_Close:
  assumes "d_Close now d = Ret d'"
  shows "good_step d d'"
proof (cases "d_closeOnce d \<or> (\<forall>x. NewDismissPacket now (d_dialogueID d) (d_pf d) \<noteq> Ret x)")
  case False
  then obtain pkt pf where "\<not> d_closeOnce d" "NewDismissPacket now (d_dialogueID d) (d_pf d) = Ret (pkt, pf)" by auto
  then have "d' = d_spawn (PDismiss pkt) (d\<lparr>d_closeOnce := True, d_pf := pf, d_closewait := Some (PacketID (dm_hdr pkt))\<rparr>)"
    using assms by (simp add: d_Close_def)
  then show ?thesis using good_dismissing by simp
next
  case True
  then have "d' = d" using assms by (cases "NewDismissPacket now (d_dialogueID d) (d_pf d)") (simp_all add: d_Close_def split: if_splits)
  then show ?thesis by simp
qed

lemma good_CloseWait:
  assumes "d_CloseWait now d = Ret d'"
  shows "good_step d d'"
  using assms good_Close [of now d d'] by (simp add: d_Close_def d_CloseWait_def)

lemma good_after_send:
  assumes "after_send (d_sendToWriteOut pick p d) k = HRet ret d'" "is_session p \<longrightarrow> initiator d" "\<And>x. good_step x (snd (k x)) \<or> \<not> good_step d x"
  shows "good_step d d'"
proof -
  obtain ok d1 where s: "d_sendToWriteOut pick p d = HRet ok d1" "d' = (if ok then snd (k d1) else d1)"
    using assms(1) by (auto simp: after_send_def split: gres.splits if_splits prod.splits)
  have "good_step d d1" using good_send [OF s(1) assms(2)] .
  then show ?thesis using s(2) assms(3) [of d1] good_trans by auto
qed

text \<open>After the acknowledgement of a dismissal the dialogue is established.\<close>

lemma emit_DISMISSACK: "documented_fsm emit \<Longrightarrow> d_emit emit ET_DISMISSACK d = Ret (Some d') \<Longrightarrow> established d'"
  by (erule emit_dlgE, assumption) (auto simp: dlg_table phase_defs)

lemma good_handleInSession:
  assumes "documented_fsm emit" "d_handleInSessionPacket emit p d = HRet ret d'"
  shows "good_step d d'"
proof -
  let ?d0 = "d\<lparr>d_peerNegotiatingID := sp_negotiateID p\<rparr>"
  show ?thesis
  proof (cases "\<exists>d1 x. d_emit emit ET_SESSIONRECV ?d0 = Ret (Some d1) \<and> sp_SessionData p = Some x")
    case True
    then obtain d1 x where e: "d_emit emit ET_SESSIONRECV ?d0 = Ret (Some d1)" "sp_SessionData p = Some x" by blast
    obtain s s' where s: "d_fsm d = Some s" "table_next dlg_events s ET_SESSIONRECV = Some s'" "d1 = ?d0\<lparr>d_fsm := Some s'\<rparr>"
      using emit_dlgE [OF assms(1) e(1)] by auto
    obtain i k where "d' = d_spawn (PSessionAck k) (d1\<lparr>d_dialogueID := i, d_meta := sd_Meta x\<rparr>)"
      using assms(2) e by (auto simp: d_handleInSessionPacket_def Let_def)
    then show ?thesis using s by (auto simp: dlg_table good_step_def phases_def moves_def phase_defs d_spawn_def)
  next
    case False
    then have "d' = ?d0" using assms(2)
      by (auto simp: d_handleInSessionPacket_def Let_def split: outcome.splits option.splits)
    then show ?thesis by simp
  qed
qed

lemma good_handleInSessionAck:
  assumes "documented_fsm emit" "d_handleInSessionAckPacket emit p d = HRet ret d'" "initiator d"
  shows "good_step d d'"
proof (cases "\<exists>d1 x. d_emit emit ET_SESSIONACK d = Ret (Some d1) \<and> sa_SessionData p = Some x")
  case True
  then obtain d1 x where e: "d_emit emit ET_SESSIONACK d = Ret (Some d1)" "sa_SessionData p = Some x" by blast
  obtain s s' where s: "d_fsm d = Some s" "table_next dlg_events s ET_SESSIONRECV = Some s'" "d1 = d\<lparr>d_fsm := Some s'\<rparr>"
    using emit_dlgE [OF assms(1) e(1)] by auto
  then have "s = SESSION_SENT" "s' = SESSIONED" using assms(3) by (auto simp: dlg_table phase_defs)
  moreover have "d' = (d_effect (DSyncDone (PacketID (sa_hdr p))) (d1\<lparr>d_dialogueID := sa_sessionID p, d_meta := sd_Meta x\<rparr>))\<lparr>d_onlined := True\<rparr>"
    using assms(2) e by (simp add: d_handleInSessionAckPacket_def)
  ultimately show ?thesis using s by (simp add: good_step_def phases_def moves_def phase_defs d_effect_def)
next
  case False
  then have "d' = d \<or> d' = d_effect (DSyncError (PacketID (sa_hdr p))) d" using assms(2)
    by (auto simp: d_handleInSessionAckPacket_def split: outcome.splits option.splits)
  then show ?thesis by auto
qed

text \<open>What a handler does that starts by emitting an event: nothing, or what follows the move.\<close>

lemma emit_cases:
  assumes "(case d_emit emit ev d of Panic p \<Rightarrow> HPanic p | Fail e \<Rightarrow> HRet IOErr d | Ret None \<Rightarrow> HRet IOErr d | Ret (Some d1) \<Rightarrow> f d1) = HRet ret d'"
  obtains "d' = d" | d1 where "d_emit emit ev d = Ret (Some d1)" "f d1 = HRet ret d'"
  using assms by (auto split: outcome.splits option.splits)

lemma good_handleInDismiss:
  assumes "documented_fsm emit" "d_handleInDismissPacket emit pick p d = HRet ret d'"
  shows "good_step d d'"
  using assms(2) unfolding d_handleInDismissPacket_def
proof (cases rule: emit_cases)
  case (2 d1)
  have g: "good_step d d1" using good_emit [OF assms(1) 2(1)] .
  let ?q = "PDismissAck (NewDismissAckPacket (PacketID (dm_hdr p)) (dm_sessionID p) None)"
  show ?thesis
  proof (cases "d_fsm d = Some DISMISS_HALF")
    case True
    have h: "d_fsm d1 = Some DISMISS_HALF" using emit_move [OF assms(1) 2(1)] True by (auto simp: dlg_table)
    obtain ok d2 where d2: "d_sendToWriteOut pick ?q d1 = HRet ok d2" "d' = closewait_Done d2"
      using 2(2) True by (auto simp: Let_def split: gres.splits)
    have "good_step d1 d2" using good_send [OF d2(1)] by simp
    moreover have "established d2" using \<open>good_step d1 d2\<close> h by (auto simp: good_step_def moves_def established_def)
    ultimately show ?thesis using g d2(2) good_closewait_Done good_trans by metis
  next
    case False
    then have "d' = (d_spawn ?q d1)\<lparr>d_closers := Suc (d_closers d1)\<rparr>" using 2(2) by (simp add: Let_def)
    then show ?thesis using g good_trans good_upd(3,10) [of _] packet_kinds(8) by metis
  qed
qed simp

lemma good_handleInDismissAck:
  assumes "documented_fsm emit" "d_handleInDimssAckPacket emit p d = HRet ret d'"
  shows "good_step d d'"
  using assms(2) unfolding d_handleInDimssAckPacket_def
proof (cases rule: emit_cases)
  case (2 d1)
  have "good_step d1 d'" using 2(2) good_closewait_Done [OF emit_DISMISSACK [OF assms(1) 2(1)]] by (auto split: if_splits)
  then show ?thesis using good_emit [OF assms(1) 2(1)] good_trans by blast
qed simp

lemma good_handleInData:
  assumes "d_handleInDataPacket pick p d = HRet ret d'"
  shows "good_step d d'"
  using assms by (auto simp: d_handleInDataPacket_def split: option.splits if_splits selected.splits)

lemma good_handleIn:
  assumes "documented_fsm emit" "d_handleIn emit t p d = HRet ret d'" "is_sessionAck p \<longrightarrow> initiator d"
  shows "good_step d d'"
proof (cases p)
  case (PSession a)
  then show ?thesis using assms(2) good_handleInSession [OF assms(1)] by (simp add: d_handleIn_def)
next
  case (PSessionAck a)
  then show ?thesis using assms(2,3) good_handleInSessionAck [OF assms(1)] by (simp add: d_handleIn_def)
next
  case (PDismiss a)
  then show ?thesis using assms(2) good_handleInDismiss [OF assms(1)] by (simp add: d_handleIn_def)
next
  case (PDismissAck a)
  then show ?thesis using assms(2) good_handleInDismissAck [OF assms(1)] by (simp add: d_handleIn_def)
qed (use assms(2) good_handleInData in \<open>simp_all add: d_handleIn_def\<close>)

lemma good_handleOutSession:
  assumes "documented_fsm emit" "d_handleOutSessionPacket emit pick p d = HRet ret d'"
  shows "good_step d d'"
  using assms(2) unfolding d_handleOutSessionPacket_def
proof (cases rule: emit_cases)
  case (2 d1)
  have "initiator d1" using emit_move [OF assms(1) 2(1)] by (auto simp: dlg_table phase_defs)
  then have "good_step d1 d'" using good_after_send [OF 2(2)] by simp
  then show ?thesis using good_emit [OF assms(1) 2(1)] good_trans by blast
qed simp

lemma good_handleOutDismiss:
  assumes "documented_fsm emit" "d_handleOutDismissPacket emit pick p d = HRet ret d'"
  shows "good_step d d'"
  using assms(2) unfolding d_handleOutDismissPacket_def
proof (cases rule: emit_cases)
  case (2 d1)
  have "good_step d1 d'" using good_after_send [OF 2(2)] by simp
  then show ?thesis using good_emit [OF assms(1) 2(1)] good_trans by blast
qed simp

lemma good_handleOutDismissAck:
  assumes "documented_fsm emit" "d_handleOutDismissAckPacket emit pick p d = HRet ret d'"
  shows "good_step d d'"
  using assms(2) unfolding d_handleOutDismissAckPacket_def
proof (cases rule: emit_cases)
  case (2 d1)
  have "established d1" using emit_DISMISSACK [OF assms(1) 2(1)] .
  then have "good_step x (closewait_Done x)" if "good_step d1 x" for x
    using that good_closewait_Done by (auto simp: good_step_def moves_def)
  then have "good_step d1 d'" by (intro good_after_send [OF 2(2)]) auto
  then show ?thesis using good_emit [OF assms(1) 2(1)] good_trans by blast
qed simp

lemma good_handleOutSessionAck_err:
  assumes "documented_fsm emit" "d_handleOutSessionAckPacket emit pick now (Some (Some err)) p d = HRet ret d'"
  shows "good_step d d'"
proof -
  obtain p' where p: "SessionAckPacket_SetError err p = Ret p' \<or> d' = d"
    using assms(2) by (auto simp: d_handleOutSessionAckPacket_def split: outcome.splits)
  show ?thesis
  proof (cases "d' = d")
    case False
    then obtain d1 d2 where s: "d_emit emit ET_DG_ERROR d = Ret (Some d1)" "d_Close now d1 = Ret d2 \<or> d' = d1"
      "d' = d1 \<or> after_send (d_sendToWriteOut pick (PSessionAck p') d2) (\<lambda>d. (IOSuccess, d)) = HRet ret d'"
      using assms(2) p by (auto simp: d_handleOutSessionAckPacket_def split: outcome.splits option.splits)
    have "d' = d1 \<or> good_step d2 d'" using s(3) good_after_send [of pick "PSessionAck p'" d2 "\<lambda>d. (IOSuccess, d)" ret d'] by auto
    then have "good_step d1 d'" using s(2) good_Close good_trans by (metis good_refl)
    then show ?thesis using good_emit [OF assms(1) s(1)] good_trans by blast
  qed simp
qed

lemma good_handleOutSessionAck:
  assumes "documented_fsm emit" "d_handleOutSessionAckPacket emit pick now online p d = HRet ret d'"
  shows "good_step d d'"
    and "online = None \<or> online = Some None \<Longrightarrow> left_init d \<Longrightarrow> ret = IOErr \<or> established d'"
proof -
  have "good_step d d' \<and> (left_init d \<longrightarrow> ret = IOErr \<or> established d')" if o: "online = None \<or> online = Some None"
  proof (cases "d_emit emit ET_SESSIONACK d")
    case (Ret x)
    show ?thesis
    proof (cases x)
      case (Some d1)
      with Ret have e: "d_emit emit ET_SESSIONACK d = Ret (Some d1)" by simp
      have a: "after_send (d_sendToWriteOut pick (PSessionAck p) d1) (\<lambda>d. (IONewPassive, d\<lparr>d_onlined := True\<rparr>)) = HRet ret d'"
        using assms(2) o e by (auto simp: d_handleOutSessionAckPacket_def)
      have g: "good_step d1 d'" using good_after_send [OF a] by simp
      have "left_init d \<longrightarrow> established d1" using emit_move [OF assms(1) e] by (auto simp: dlg_table phase_defs)
      then show ?thesis using g good_emit [OF assms(1) e] good_trans [OF _ g] by (auto simp: good_step_def moves_def)
    qed (use Ret assms(2) o in \<open>auto simp: d_handleOutSessionAckPacket_def\<close>)
  qed (use assms(2) o in \<open>auto simp: d_handleOutSessionAckPacket_def\<close>)
  then show "good_step d d'" "online = None \<or> online = Some None \<Longrightarrow> left_init d \<Longrightarrow> ret = IOErr \<or> established d'"
    using good_handleOutSessionAck_err [OF assms(1)] assms(2) by (metis option.exhaust)+
qed

lemma good_handleOut:
  assumes "documented_fsm emit" "d_handleOut emit t p d = HRet ret d'"
  shows "good_step d d'"
proof -
  have data: "good_step d d'" if "d_handleOutDataPacket (dt_pick t) p d = HRet ret d'" "\<not> is_session p"
    using good_after_send [OF that(1) [unfolded d_handleOutDataPacket_def]] that(2) by simp
  show ?thesis
    using assms(2) data good_handleOutSession [OF assms(1)] good_handleOutSessionAck(1) [OF assms(1)]
      good_handleOutDismiss [OF assms(1)] good_handleOutDismissAck [OF assms(1)]
    by (cases p) (simp_all add: d_handleOut_def is_session_def)
qed

section \<open>Turns\<close>

lemma good_finish: "d_finish r = HRet () d' \<Longrightarrow> \<exists>ret d1. r = HRet ret d1 \<and> good_step d1 d' \<and> (ret = IOErr \<or> ret = IOClosed \<longrightarrow> d' = d_handlePkt_end d1)"
  using good_end by (auto simp: d_finish_def split: gres.splits if_splits)

lemma good_take:
  "buf (d_readIn d) = p # ps \<Longrightarrow> good_step d (d\<lparr>d_readIn := (d_readIn d)\<lparr>buf := ps\<rparr>\<rparr>)"
  "buf (d_writeIn d) = p # ps \<Longrightarrow> good_step d (d\<lparr>d_writeIn := (d_writeIn d)\<lparr>buf := ps\<rparr>\<rparr>)"
  by (simp_all add: good_step_def phases_def moves_def phase_defs)

lemma good_turn_in:
  assumes "documented_fsm emit" "d_turn_in emit t d = HRet () d'" "phases d"
  shows "good_step d d'"
proof (cases "buf (d_readIn d)")
  case (Cons p ps)
  let ?d = "d\<lparr>d_readIn := (d_readIn d)\<lparr>buf := ps\<rparr>\<rparr>"
  have "d_finish (d_handleIn emit t p ?d) = HRet () d'" using assms(2) Cons by (simp add: d_turn_in_def)
  then obtain ret d1 where h: "d_handleIn emit t p ?d = HRet ret d1" "good_step d1 d'" using good_finish by blast
  have "is_sessionAck p \<longrightarrow> initiator ?d" using assms(3) Cons by (simp add: phases_def initiator_def)
  then show ?thesis using good_handleIn [OF assms(1) h(1)] h(2) good_take(1) [OF Cons] good_trans by blast
qed (use assms(2) good_end in \<open>auto simp: d_turn_in_def split: if_splits\<close>)

lemma good_turn_out:
  assumes "documented_fsm emit" "d_turn_out emit t d = HRet () d'"
  shows "good_step d d'"
proof (cases "buf (d_writeIn d)")
  case (Cons p ps)
  let ?d = "d\<lparr>d_writeIn := (d_writeIn d)\<lparr>buf := ps\<rparr>\<rparr>"
  have "d_finish (d_handleOut emit t p ?d) = HRet () d'" using assms(2) Cons by (simp add: d_turn_out_def)
  then obtain ret d1 where h: "d_handleOut emit t p ?d = HRet ret d1" "good_step d1 d'" using good_finish by blast
  then show ?thesis using good_handleOut [OF assms(1) h(1)] good_take(2) [OF Cons] good_trans by blast
qed (use assms(2) in \<open>simp add: d_turn_out_def\<close>)

lemma good_turn_write:
  assumes "d_turn_write werr d = HRet () d'"
  shows "good_step d d'"
proof (cases "buf (d_writeOut d)")
  case (Cons p ps)
  let ?d = "d\<lparr>d_writeOut := (d_writeOut d)\<lparr>buf := ps\<rparr>\<rparr>"
  have g: "good_step d ?d" using Cons by (simp add: good_step_def phases_def moves_def phase_defs)
  show ?thesis
  proof (cases werr)
    case None
    then have "d' = ?d\<lparr>d_down := d_down d @ [p]\<rparr>" using assms Cons by (simp add: d_turn_write_def d_dowritePkt_def)
    then show ?thesis using Cons by (auto simp: good_step_def phases_def moves_def phase_defs)
  next
    case (Some e)
    then have "d' = (d_closeIO (d_fail p ?d))\<lparr>d_writing := False\<rparr>" using assms Cons by (simp add: d_turn_write_def d_dowritePkt_def)
    then show ?thesis using g good_trans good_upd(5,7,8) by metis
  qed
qed (use assms in \<open>auto simp: d_turn_write_def split: if_splits\<close>)

lemma good_writeIn:
  assumes "\<not> is_sessionAck p" "d_sendToWriteIn pick p d = HRet r d'"
  shows "good_step d d'"
proof -
  consider ch where "select_chan pick (d_ctxDone d) (d_writeIn d) p = SelSent ch" "d' = d\<lparr>d_writeIn := ch\<rparr>" | "d' = d"
    using assms(2) by (auto simp: d_sendToWriteIn_def split: selected.splits)
  then show ?thesis
  proof cases
    case 1
    then show ?thesis using select_chan_sent [OF 1(1)] assms(1) by (simp add: good_step_def phases_def moves_def phase_defs)
  qed simp
qed

lemma good_sender:
  assumes "i < length (d_sends d)"
    "d_sendToWriteIn pick (d_sends d ! i) (d\<lparr>d_sends := take i (d_sends d) @ drop (Suc i) (d_sends d)\<rparr>) = HRet r d'"
  shows "good_step d d'"
proof -
  have e: "list_ex P (d_sends d) \<longleftrightarrow> list_ex P (take i (d_sends d) @ drop (Suc i) (d_sends d)) \<or> P (d_sends d ! i)" for P
    by (subst id_take_nth_drop [OF assms(1)]) auto
  consider ch where "select_chan pick (d_ctxDone d) (d_writeIn d) (d_sends d ! i) = SelSent ch"
      "d' = d\<lparr>d_sends := take i (d_sends d) @ drop (Suc i) (d_sends d), d_writeIn := ch\<rparr>"
    | "d' = d\<lparr>d_sends := take i (d_sends d) @ drop (Suc i) (d_sends d)\<rparr>"
    using assms(2) by (auto simp: d_sendToWriteIn_def split: selected.splits)
  then show ?thesis
  proof cases
    case 1
    then show ?thesis using select_chan_sent [OF 1(1)] e [of is_sessionAck]
      by (auto simp: good_step_def phases_def moves_def phase_defs)
  next
    case 2
    then show ?thesis using e [of is_sessionAck] by (auto simp: good_step_def phases_def moves_def phase_defs)
  qed
qed

lemma good_turn_done: "d_turn_done d = HRet () d' \<Longrightarrow> good_step d d'"
proof -
  assume a: "d_turn_done d = HRet () d'"
  let ?d = "(d_drain (buf (d_writeIn d)) d)\<lparr>d_writeIn := (d_writeIn d)\<lparr>buf := []\<rparr>\<rparr>"
  have "d' = d_handlePkt_end ?d" using a by (simp add: d_turn_done_def split: if_splits)
  moreover have "good_step d ?d" by (simp add: d_drain_eq good_step_def phases_def moves_def phase_defs)
  ultimately show ?thesis using good_end good_trans by blast
qed

lemma SetSessionID_kind [simp]: "is_sessionAck (Packet_SetSessionID i p) = is_sessionAck p"
  by (rule Packet_SetSessionID.cases [of "(i, p)"]) (simp_all add: is_sessionAck_def)

lemma good_dlg_turn:
  assumes "documented_fsm emit" "dlg_turn emit op d = HRet () d'" "phases d" "dialogue_op op"
  shows "good_step d d'"
  using assms(2,4)
proof (cases op)
  case (DHandleIn t)
  then show ?thesis using assms(2) good_turn_in [OF assms(1) _ assms(3)] by (simp split: if_splits)
next
  case (DHandleOut t)
  then show ?thesis using assms(2) good_turn_out [OF assms(1)] by (simp split: if_splits)
next
  case (DUserWrite pick pkt)
  then show ?thesis using assms(2,4) app_kinds [of pkt] good_writeIn [of "Packet_SetSessionID (d_dialogueID d) pkt" pick d]
    by (auto simp: d_Write_def forget_HRet split: if_splits)
next
  case (DCloser now)
  then obtain n where "d_Close now (d\<lparr>d_closers := n\<rparr>) = Ret d'" using assms(2) by (auto simp: of_outcome_HRet split: nat.splits)
  then show ?thesis using good_Close good_upd(3) good_trans by blast
next
  case (DSender pick i)
  then show ?thesis using assms(2) good_sender [of i d pick] by (auto simp: forget_HRet split: if_splits)
qed (use good_turn_done good_turn_write good_Close good_CloseWait in
    \<open>auto simp: of_outcome_HRet forget_HRet closewait_event_def d_Read_def split: if_splits list.splits\<close>)

end
