(* ===== verification/Dialogue_Registry.thy ===== *)
theory Dialogue_Registry
  imports Dialogue_Phases
begin

text \<open>
  The manager's tables over every run of the manager, its dialogues and their callers: a dialogue
  is registered under the id it has, and routing reaches it alone.
\<close>

section \<open>Runs\<close>

text \<open>
  What is relied on of the peer: it acknowledges only session packets that have been handed to the
  connection.
\<close>

definition answers :: "mgr_op \<Rightarrow> dialogueMgr \<Rightarrow> bool" where
  "answers op m =
     (case op of
        MPacket _ _ (PSessionAck p) \<Rightarrow>
          (case map_of (m_negotiating m) (sa_negotiateID p) of
             None \<Rightarrow> True
           | Some a \<Rightarrow> list_ex is_session (d_down (m_store m ! a)))
      | _ \<Rightarrow> True)"

inductive mgr_run :: "(dlg_state, dlg_event) emitter \<Rightarrow> dialogueMgr \<Rightarrow> dialogueMgr \<Rightarrow> bool" for emit m0 where
  mstart: "mgr_run emit m0 m0"
| mturn: "mgr_run emit m0 m \<Longrightarrow> answers op m \<Longrightarrow> mgr_turn emit op m = HRet () m' \<Longrightarrow> mgr_run emit m0 m'"

text \<open>Successive steps without acknowledgements from the peer are a run.\<close>

definition no_ack :: "mgr_op \<Rightarrow> bool" where
  "no_ack op = (case op of MPacket _ _ p \<Rightarrow> \<not> is_sessionAck p | _ \<Rightarrow> True)"

lemma turns_run:
  "turns (mgr_turn emit) ops m = Some (rs, m') \<Longrightarrow> list_all no_ack ops \<Longrightarrow> mgr_run emit m0 m \<Longrightarrow> mgr_run emit m0 m'"
proof (induction ops arbitrary: m rs)
  case (Cons op ops)
  obtain m1 rs' where s: "mgr_turn emit op m = HRet () m1" "turns (mgr_turn emit) ops m1 = Some (rs', m')"
    using Cons.prems(1) by (auto split: gres.splits)
  have "answers op m" using Cons.prems(2) by (auto simp: answers_def no_ack_def is_sessionAck_def split: mgr_op.splits Packet.splits)
  then show ?case using Cons.IH [OF s(2)] Cons.prems(2,3) s(1) mgr_run.mturn by auto
qed simp

section \<open>The invariant\<close>

definition registered_ok :: "dialogue list \<Rightarrow> (u64 \<times> addr) list \<Rightarrow> bool" where
  "registered_ok st T \<longleftrightarrow>
     distinct (map fst T) \<and> (\<forall>i a. map_of T i = Some a \<longrightarrow> a < length st \<and> established (st ! a) \<and> d_dialogueID (st ! a) = i)"

definition negotiating_ok :: "dialogue list \<Rightarrow> (u64 \<times> addr) list \<Rightarrow> bool" where
  "negotiating_ok st T \<longleftrightarrow> distinct (map fst T) \<and> (\<forall>i a. map_of T i = Some a \<longrightarrow> a < length st)"

definition openers_ok :: "dialogue list \<Rightarrow> opener list \<Rightarrow> bool" where
  "openers_ok st ops \<longleftrightarrow> (\<forall>x \<in> set ops. case x of Waiting a _ _ \<Rightarrow> a < length st | Checked _ _ \<Rightarrow> True)"

definition mgr_inv :: "dialogueMgr \<Rightarrow> bool" where
  "mgr_inv m \<longleftrightarrow>
     list_all phases (m_store m) \<and> registered_ok (m_store m) (m_dialogues m) \<and> negotiating_ok (m_store m) (m_negotiating m)
   \<and> openers_ok (m_store m) (m_openers m) \<and> m_reading m = m_ok m
   \<and> (\<not> m_ok m \<longrightarrow> m_dialogues m = [] \<and> m_negotiating m = [] \<and> m_ids m = None)"

lemma phases_New: "phases (NewDialogue pf s n b mt p r w)" "d_fsm (NewDialogue pf s n b mt p r w) = Some s"
  by (simp_all add: phases_def NewDialogue_def)

lemma NewDialogueMgr_inv: "NewDialogueMgr sd cid meta pf opts src = Ret m \<Longrightarrow> mgr_inv m"
  by (auto simp: NewDialogueMgr_def obind_Ret_iff Let_def mgr_inv_def registered_ok_def negotiating_ok_def openers_ok_def
      phases_New established_def phases_def NewDialogue_def split: if_splits)

lemma registered_ok_map:
  assumes "registered_ok st T" "length st' = length st"
    "\<And>a. a < length st \<Longrightarrow> established (st ! a) \<Longrightarrow> established (st' ! a) \<and> d_dialogueID (st' ! a) = d_dialogueID (st ! a)"
  shows "registered_ok st' T"
  using assms unfolding registered_ok_def by metis

lemma registered_ok_append: "registered_ok st T \<Longrightarrow> registered_ok (st @ ds) T"
  unfolding registered_ok_def by (fastforce simp: nth_append)

lemma registered_ok_delete: "registered_ok st T \<Longrightarrow> registered_ok st (AList.delete i T)"
  unfolding registered_ok_def by (auto simp: AList.distinct_delete delete_conv' split: if_splits)

lemma registered_ok_update:
  "registered_ok st T \<Longrightarrow> a < length st \<Longrightarrow> established (st ! a) \<Longrightarrow> registered_ok st (AList.update (d_dialogueID (st ! a)) a T)"
  unfolding registered_ok_def by (auto simp: AList.distinct_update update_conv' split: if_splits)

lemma negotiating_ok_simps:
  "negotiating_ok st T \<Longrightarrow> negotiating_ok (st @ ds) T" "negotiating_ok st T \<Longrightarrow> negotiating_ok st (AList.delete i T)"
  "negotiating_ok st T \<Longrightarrow> a < length st \<Longrightarrow> negotiating_ok st (AList.update i a T)"
  "negotiating_ok st T \<Longrightarrow> length st' = length st \<Longrightarrow> negotiating_ok st' T"
  unfolding negotiating_ok_def
  by (fastforce simp: AList.distinct_delete AList.distinct_update delete_conv' update_conv' split: if_splits)+

lemma openers_ok_simps:
  "openers_ok st os \<Longrightarrow> openers_ok (st @ ds) os" "openers_ok st os \<Longrightarrow> openers_ok st (drop_nth n os)"
  "openers_ok st os \<Longrightarrow> a < length st \<Longrightarrow> openers_ok st (os[n := Waiting a i k])" "openers_ok st os \<Longrightarrow> openers_ok st (os @ [Checked x y])"
  "openers_ok st os \<Longrightarrow> length st' = length st \<Longrightarrow> openers_ok st' os"
  unfolding openers_ok_def drop_nth_def
  by (force split: opener.splits dest: in_set_takeD in_set_dropD set_mp [OF set_update_subset_insert])+

section \<open>Every step keeps it\<close>

lemma mgr_inv_store:
  assumes "mgr_inv m" "a < length (m_store m)" "phases d" "moves (m_store m ! a) d"
  shows "mgr_inv (m\<lparr>m_store := (m_store m)[a := d], m_pf := pf\<rparr>)"
proof -
  have "registered_ok ((m_store m)[a := d]) (m_dialogues m)"
    using registered_ok_map [of "m_store m" "m_dialogues m" "(m_store m)[a := d]"] assms
    by (auto simp: mgr_inv_def moves_def nth_list_update)
  moreover have "list_all phases ((m_store m)[a := d])"
    using assms(1,3) by (auto simp: mgr_inv_def list_all_iff dest!: set_mp [OF set_update_subset_insert])
  ultimately show ?thesis using assms(1)
    negotiating_ok_simps(4) [of "m_store m" "m_negotiating m" "(m_store m)[a := d]"] openers_ok_simps(5) [of "m_store m" "m_openers m" "(m_store m)[a := d]"]
    by (simp add: mgr_inv_def)
qed

lemma with_dialogue_HRet:
  assumes "with_dialogue a f m = HRet r m'"
  obtains d where "a < length (m_store m)" "f ((m_store m ! a)\<lparr>d_pf := m_pf m\<rparr>) = HRet r d"
    "m' = m\<lparr>m_store := (m_store m)[a := d], m_pf := d_pf d\<rparr>"
  using assms by (auto simp: with_dialogue_def split: if_splits gres.splits)

lemma good_stepD: "good_step d d' \<Longrightarrow> phases d \<Longrightarrow> phases d' \<and> moves d d'"
  by (simp add: good_step_def)

lemma phases_at: "mgr_inv m \<Longrightarrow> a < length (m_store m) \<Longrightarrow> phases (m_store m ! a)"
  by (simp add: mgr_inv_def list_all_length)

lemma with_dialogue_inv:
  assumes "with_dialogue a f m = HRet r m'" "mgr_inv m"
    "\<And>d d'. phases d \<Longrightarrow> d = (m_store m ! a)\<lparr>d_pf := m_pf m\<rparr> \<Longrightarrow> f d = HRet r d' \<Longrightarrow> good_step d d'"
  shows "mgr_inv m'"
proof -
  obtain d where d: "a < length (m_store m)" "f ((m_store m ! a)\<lparr>d_pf := m_pf m\<rparr>) = HRet r d"
    "m' = m\<lparr>m_store := (m_store m)[a := d], m_pf := d_pf d\<rparr>"
    using with_dialogue_HRet [OF assms(1)] by blast
  have p: "phases (m_store m ! a)" "phases ((m_store m ! a)\<lparr>d_pf := m_pf m\<rparr>)"
    using phases_at [OF assms(2) d(1)] good_stepD [OF good_upd(6)] by blast+
  have "good_step (m_store m ! a) d" using assms(3) [OF p(2) refl d(2)] good_upd(6) good_trans by blast
  then show ?thesis using mgr_inv_store [OF assms(2) d(1)] good_stepD p(1) d(3) by blast
qed

lemma mgr_inv_sel [simp]:
  "mgr_inv (m_call x m) = mgr_inv m" "mgr_inv (m\<lparr>m_accept := ch\<rparr>) = mgr_inv m" "mgr_inv (m\<lparr>m_closedCh := ch\<rparr>) = mgr_inv m"
  "mgr_inv (m\<lparr>m_closes := cs\<rparr>) = mgr_inv m" "mgr_inv (m\<lparr>m_closeCh := b\<rparr>) = mgr_inv m"
  by (simp_all add: mgr_inv_def m_call_def)

lemma mgr_inv_tables:
  assumes "mgr_inv m"
  shows "mgr_inv (m\<lparr>m_dialogues := AList.delete i (m_dialogues m)\<rparr>)"
    "mgr_inv (m\<lparr>m_negotiating := AList.delete i (m_negotiating m), m_openers := drop_nth n (m_openers m)\<rparr>)"
    "m_ok m \<Longrightarrow> a < length (m_store m) \<Longrightarrow> established (m_store m ! a) \<Longrightarrow>
       mgr_inv (m\<lparr>m_dialogues := AList.update (d_dialogueID (m_store m ! a)) a (m_dialogues m)\<rparr>)"
    "mgr_inv (m\<lparr>m_openers := m_openers m @ [Checked x y]\<rparr>)"
    "a < length (m_store m) \<Longrightarrow> mgr_inv (m\<lparr>m_openers := (m_openers m)[n := Waiting a i k]\<rparr>)"
  using assms registered_ok_delete registered_ok_update negotiating_ok_simps(2) openers_ok_simps(2-4)
  by (auto simp: mgr_inv_def)

lemma new_negotiating_Ret:
  assumes "new_negotiating now meta peer m = Ret ((i, a), m1)" "mgr_inv m"
  shows "mgr_inv m1 \<and> a = length (m_store m) \<and> a < length (m_store m1) \<and> phases (m_store m1 ! a) \<and> m_openers m1 = m_openers m
    \<and> m_pf m1 = m_pf m"
proof -
  obtain c c' where c: "m_ids m = Some c" "GetID now c = Ret (i, c')" "a = length (m_store m)"
    "m1 = m\<lparr>m_ids := Some c', m_store := m_store m @ [NewDialogue (m_pf m) DG_INIT i (m_side m = InitiatorSide) meta peer 32 32],
            m_negotiating := AList.update i a (m_negotiating m)\<rparr>"
    using assms(1) by (auto simp: new_negotiating_def obind_Ret_iff Let_def split: option.splits)
  have "m_ok m" using c(1) assms(2) by (auto simp: mgr_inv_def)
  then show ?thesis using assms(2) c registered_ok_append negotiating_ok_simps(1,3) openers_ok_simps(1)
    by (simp add: mgr_inv_def phases_New nth_append)
qed

lemma good_open:
  assumes "d_open now d = Ret (k, d')"
  shows "good_step d d'"
proof -
  obtain pkt pf where "d' = d_spawn (PSession pkt) (d\<lparr>d_pf := pf\<rparr>)"
    using assms by (cases "NewSessionPacket now (d_negotiatingID d) (d_peersCall d) (d_meta d) (d_peer d) (d_pf d)")
      (auto simp: d_open_def split: prod.splits)
  then show ?thesis using good_upd(6,10) good_trans packet_kinds(5) by metis
qed

lemma OpenDialogue_start_inv:
  assumes "OpenDialogue_start n now m = HRet () m'" "mgr_inv m"
  shows "mgr_inv m'"
proof -
  obtain x y i a m1 k m2 where s: "m_openers m ! n = Checked x y" "new_negotiating now x y m = Ret ((i, a), m1)"
    "with_dialogue a (\<lambda>d. case d_open now d of Ret (k, d') \<Rightarrow> HRet k d' | Fail _ \<Rightarrow> HBlock | Panic p \<Rightarrow> HPanic p) m1 = HRet k m2"
    "m' = m2\<lparr>m_openers := (m_openers m)[n := Waiting a i k]\<rparr>"
    using assms(1) by (auto simp: OpenDialogue_start_def split: if_splits opener.splits outcome.splits gres.splits)
  have n: "mgr_inv m1" "m_openers m1 = m_openers m" "a < length (m_store m1)" using new_negotiating_Ret [OF s(2) assms(2)] by auto
  have "mgr_inv m2"
  proof (rule with_dialogue_inv [OF s(3) n(1)])
    fix d d'
    assume "(case d_open now d of Ret (k, d') \<Rightarrow> HRet k d' | Fail _ \<Rightarrow> HBlock | Panic p \<Rightarrow> HPanic p) = HRet k d'"
    then have "d_open now d = Ret (k, d')" by (auto split: outcome.splits)
    then show "good_step d d'" by (rule good_open)
  qed
  moreover have "m_openers m2 = m_openers m" "length (m_store m2) = length (m_store m1)"
    by (rule with_dialogue_HRet [OF s(3)], use n(2) in simp)+
  ultimately show ?thesis using s(4) n(3) mgr_inv_tables(5) [of m2 a n i k] by simp
qed

lemma sync_established: "phases d \<Longrightarrow> DSyncDone k \<in> set (d_effects d) \<Longrightarrow> established d"
  by (force simp: phases_def list_ex_iff sync_done_def)

lemma OpenDialogue_end_inv:
  assumes "OpenDialogue_end n err m = HRet r m'" "mgr_inv m"
  shows "mgr_inv m'"
proof -
  obtain a i k where w: "n < length (m_openers m)" "m_openers m ! n = Waiting a i k"
    using assms(1) by (auto simp: OpenDialogue_end_def split: if_splits opener.splits)
  have a: "a < length (m_store m)" using w assms(2) nth_mem [OF w(1)] by (auto simp: mgr_inv_def openers_ok_def split: opener.splits)
  let ?m1 = "m\<lparr>m_negotiating := AList.delete i (m_negotiating m), m_openers := drop_nth n (m_openers m)\<rparr>"
  have i: "mgr_inv ?m1" using mgr_inv_tables(2) [OF assms(2)] .
  have p: "phases (m_store m ! a)" using phases_at [OF assms(2) a] .
  show ?thesis
  proof (cases err)
    case None
    have e: "established (m_store m ! a)" using assms(1) w None sync_established [OF p]
      by (auto simp: OpenDialogue_end_def Let_def split: if_splits)
    have f: "mgr_inv (?m1\<lparr>m_store := (m_store m)[a := d_fini (m_store m ! a)]\<rparr>)"
      using mgr_inv_store [OF i, of a _ "m_pf m"] a good_stepD [OF good_fini p] by simp
    show ?thesis using assms(1) w None f mgr_inv_tables(3) [OF i, of a] a e
      by (auto simp: OpenDialogue_end_def Let_def split: if_splits)
  qed (use assms(1) w i in \<open>auto simp: OpenDialogue_end_def Let_def\<close>)
qed

lemma good_deliver:
  assumes "d_deliver pick p d = HRet ok d'" "is_sessionAck p \<longrightarrow> initiator d"
  shows "good_step d d'"
proof -
  consider ch where "select_chan pick (d_ctxDone d) (d_readIn d) p = SelSent ch" "d' = d\<lparr>d_readIn := ch\<rparr>" | "d' = d"
    using assms(1) by (auto simp: d_deliver_def split: selected.splits)
  then show ?thesis
  proof cases
    case 1
    then show ?thesis using select_chan_sent [OF 1(1)] assms(2) by (simp add: good_step_def phases_def moves_def phase_defs)
  qed simp
qed

lemma deliver_to_inv:
  assumes "deliver_to a pick p m = HRet () m'" "mgr_inv m" "is_sessionAck p \<longrightarrow> initiator (m_store m ! a)"
  shows "mgr_inv m'"
proof -
  obtain ok where w: "with_dialogue a (d_deliver pick p) m = HRet ok m'" using assms(1) by (auto simp: deliver_to_def forget_HRet)
  show ?thesis by (rule with_dialogue_inv [OF w assms(2)]) (use assms(3) in \<open>auto intro!: good_deliver simp: initiator_def\<close>)
qed

lemma handlePkt_cases:
  assumes "mgr_handlePkt pick now p m = HRet () m'"
  obtains "m' = m" | a where "deliver_to a pick p m = HRet () m'" "\<not> is_sessionAck p"
    | q a where "p = PSessionAck q" "map_of (m_negotiating m) (sa_negotiateID q) = Some a" "deliver_to a pick p m = HRet () m'"
    | x y i a m1 where "is_session p" "new_negotiating now x y m = Ret ((i, a), m1)" "deliver_to a pick p m1 = HRet () m'"
proof -
  note cs = that
  have "m' = m \<or> (\<exists>a. deliver_to a pick p m = HRet () m')" if "\<not> is_session p" "\<not> is_sessionAck p"
    using assms that unfolding mgr_handlePkt_def
    by (cases p) (simp_all add: is_session_def is_sessionAck_def split: option.splits, blast+)
  then have plain: thesis if "\<not> is_session p" "\<not> is_sessionAck p" using that cs(1,2) by blast
  show thesis
  proof (cases p)
    case (PSession q)
    show thesis
    proof (cases "sp_SessionData q")
      case (Some x)
      show thesis
      proof (cases "new_negotiating now (sd_Meta x) (sd_Peer x) m")
        case (Ret r)
        then show thesis using cs(4) assms PSession Some by (cases r) (auto simp: mgr_handlePkt_def)
      qed (use cs(1) assms PSession Some in \<open>auto simp: mgr_handlePkt_def\<close>)
    qed (use assms PSession in \<open>simp add: mgr_handlePkt_def\<close>)
  next
    case (PSessionAck q)
    then show thesis using cs(1,3) assms by (auto simp: mgr_handlePkt_def split: option.splits)
  qed (use plain in \<open>simp_all add: is_session_def is_sessionAck_def\<close>)
qed

lemma handlePkt_inv:
  assumes "mgr_handlePkt pick now p m = HRet () m'" "mgr_inv m" "answers (MPacket pick now p) m"
  shows "mgr_inv m'"
  using assms(1)
proof (cases rule: handlePkt_cases)
  case (2 a)
  then show ?thesis using deliver_to_inv [OF 2(1) assms(2)] by simp
next
  case (3 q a)
  then have "a < length (m_store m)" using assms(2) by (simp add: mgr_inv_def negotiating_ok_def)
  then have "initiator (m_store m ! a)" using assms(3) 3 phases_at [OF assms(2)] by (auto simp: answers_def phases_def)
  then show ?thesis using deliver_to_inv [OF 3(3) assms(2)] by simp
next
  case (4 x y i a m1)
  have "\<not> is_sessionAck p" using 4(1) by (cases p) (simp_all add: is_session_def is_sessionAck_def)
  then show ?thesis using deliver_to_inv [OF 4(3)] new_negotiating_Ret [OF 4(2) assms(2)] by simp
qed (use assms(2) in simp)

lemma closeIO_all:
  "length (fold (\<lambda>(_, a) st. st[a := d_closeIO (st ! a)]) T st) = length st"
  "b < length st \<Longrightarrow> fold (\<lambda>(_, a) st. st[a := d_closeIO (st ! a)]) T st ! b = (if b \<in> snd ` set T then d_closeIO (st ! b) else st ! b)"
proof (induction T arbitrary: st)
  case (Cons x T)
  have idem: "d_closeIO (d_closeIO d) = d_closeIO d" for d by (simp add: d_closeIO_def)
  { case 1 then show ?case using Cons.IH(1) by (simp split: prod.splits) }
  { case 2
    then show ?case using Cons.IH(2) [of "st[snd x := d_closeIO (st ! snd x)]"] idem
      by (cases x; cases "b = snd x"; simp) }
qed simp_all

lemma fini_inv:
  assumes "mgr_inv m"
  shows "mgr_inv (mgr_fini m)"
proof -
  let ?st = "fold (\<lambda>(_, a) st. st[a := d_closeIO (st ! a)]) (m_dialogues m @ m_negotiating m) (m_store m)"
  have l: "length ?st = length (m_store m)" using closeIO_all(1) by blast
  have "phases (d_closeIO d)" if "phases d" for d using that good_upd(7) good_stepD by blast
  then have "phases (?st ! a)" if "a < length (m_store m)" for a
    using closeIO_all(2) [OF that, of "m_dialogues m @ m_negotiating m"] phases_at [OF assms that] by auto
  then show ?thesis using assms l openers_ok_simps(5) [of "m_store m" _ ?st]
    by (simp add: mgr_fini_def mgr_inv_def list_all_length registered_ok_def negotiating_ok_def)
qed

text \<open>The manager as the dialogue's delegate.\<close>

lemma mgr_online_HRet:
  assumes "mgr_DialogueOnline a m = HRet err m1"
  shows "m_ok m \<and> err = None \<and> m_store m1 = m_store m \<and> m_pf m1 = m_pf m \<and> m_ok m1 \<and> m_reading m1 = m_reading m \<and> m_openers m1 = m_openers m
      \<and> m_dialogues m1 = AList.update (d_dialogueID (m_store m ! a)) a (m_dialogues m)
      \<and> m_negotiating m1 = AList.delete (d_negotiatingID (m_store m ! a)) (m_negotiating m) \<and> m_ids m1 = m_ids m
    \<or> \<not> m_ok m \<and> err = Some ErrOperationOnClosedMultiplexer \<and> m1 = m"
  using assms by (auto simp: mgr_DialogueOnline_def Let_def m_call_def split: if_splits option.splits send_result.splits)

lemma offline_inv:
  assumes "mgr_DialogueOffline a m = HRet r m'" "mgr_inv m"
  shows "mgr_inv m'"
  using assms(1) mgr_inv_tables(1) [OF assms(2)] assms(2)
  by (auto simp: mgr_DialogueOffline_def Let_def split: if_splits option.splits send_result.splits)

lemma end_established: "phases d \<Longrightarrow> established (d_handlePkt_end d)"
  by (simp add: d_handlePkt_end_def d_fini_def phase_defs phases_def)

lemma dialogueID_kept:
  "d_emit emit ev d = Ret (Some d') \<Longrightarrow> d_dialogueID d' = d_dialogueID d"
  "d_sendToWriteOut pick p d = HRet ok d' \<Longrightarrow> d_dialogueID d' = d_dialogueID d"
  "d_dialogueID (d_handlePkt_end d) = d_dialogueID d"
  by (auto simp: d_emit_def d_sendToWriteOut_def d_handlePkt_end_def d_fini_def d_effect_def split: option.splits selected.splits)

lemma sessionAck_out_id:
  assumes "d_handleOutSessionAckPacket emit pick now (Some None) p d = HRet ret d'"
  shows "d_dialogueID d' = d_dialogueID d"
  using assms unfolding d_handleOutSessionAckPacket_def option.case
proof (cases rule: emit_cases)
  case (2 d1)
  then obtain ok d2 where "d_sendToWriteOut pick (PSessionAck p) d1 = HRet ok d2" "d' = d2 \<or> d' = d2\<lparr>d_onlined := True\<rparr>"
    by (auto simp: after_send_def split: gres.splits if_splits)
  then show ?thesis using dialogueID_kept(1) [OF 2(1)] dialogueID_kept(2) by fastforce
qed simp

text \<open>The acknowledgement of a dialogue that was just registered leaves it established under the same id.\<close>

lemma sessionAck_turn:
  assumes "documented_fsm emit" "d_turn_out emit t d = HRet () d'" "buf (d_writeIn d) = PSessionAck p # ps" "dt_online t = Some None" "phases d"
  shows "established d' \<and> d_dialogueID d' = d_dialogueID d"
proof -
  let ?d = "d\<lparr>d_writeIn := (d_writeIn d)\<lparr>buf := ps\<rparr>\<rparr>"
  have "d_finish (d_handleOut emit t (PSessionAck p) ?d) = HRet () d'" using assms(2,3) by (simp add: d_turn_out_def)
  then obtain ret d1 where h: "d_handleOut emit t (PSessionAck p) ?d = HRet ret d1" "good_step d1 d'"
      "ret = IOErr \<or> ret = IOClosed \<longrightarrow> d' = d_handlePkt_end d1" "ret \<noteq> IOErr \<and> ret \<noteq> IOClosed \<longrightarrow> d' = d1"
    using good_finish by (fastforce simp: d_finish_def split: gres.splits if_splits)
  have o: "d_handleOutSessionAckPacket emit (dt_pick t) (dt_now t) (Some None) p ?d = HRet ret d1"
    using h(1) assms(4) by (simp add: d_handleOut_def)
  have l: "left_init ?d" using assms(3,5) by (simp add: phases_def phase_defs)
  have p: "phases d1" using good_handleOutSessionAck(1) [OF assms(1) o] good_take(2) [OF assms(3)] assms(5) by (auto simp: good_step_def)
  have "established d'"
    using good_handleOutSessionAck(2) [OF assms(1) o _ l] end_established [OF p] h(2-) by (auto simp: good_step_def moves_def)
  moreover have "d_dialogueID d' = d_dialogueID d"
    using sessionAck_out_id [OF o] h(3,4) dialogueID_kept(3) by (cases "ret = IOErr \<or> ret = IOClosed") auto
  ultimately show ?thesis by simp
qed

lemma with_turn_inv:
  assumes "documented_fsm emit" "with_dialogue a (dlg_turn emit op) m = HRet () m'" "mgr_inv m" "dialogue_op op"
  shows "mgr_inv m'"
  by (rule with_dialogue_inv [OF assms(2,3)]) (use good_dlg_turn [OF assms(1)] assms(4) in blast)

lemma mgr_online_inv:
  assumes "documented_fsm emit" "mgr_inv m" "a < length (m_store m)" "buf (d_writeIn (m_store m ! a)) = PSessionAck p # ps"
    "mgr_DialogueOnline a m = HRet err m1"
    "with_dialogue a (dlg_turn emit (DHandleOut (t\<lparr>dt_online := Some (map_option mux_text err)\<rparr>))) m1 = HRet () m2"
  shows "mgr_inv m2"
proof (cases "m_ok m")
  case False
  then have "m1 = m" using mgr_online_HRet [OF assms(5)] by simp
  then show ?thesis using with_turn_inv [OF assms(1,6)] assms(2) by simp
next
  case True
  then have o: "err = None" "m_store m1 = m_store m" "m_pf m1 = m_pf m" "m_ok m1" "m_reading m1 = m_reading m" "m_openers m1 = m_openers m"
    "m_dialogues m1 = AList.update (d_dialogueID (m_store m ! a)) a (m_dialogues m)"
    "m_negotiating m1 = AList.delete (d_negotiatingID (m_store m ! a)) (m_negotiating m)"
    using mgr_online_HRet [OF assms(5)] by auto
  let ?d = "(m_store m ! a)\<lparr>d_pf := m_pf m\<rparr>"
  have "\<exists>d'. d_turn_out emit (t\<lparr>dt_online := Some None\<rparr>) ?d = HRet () d' \<and> m2 = m1\<lparr>m_store := (m_store m)[a := d'], m_pf := d_pf d'\<rparr>"
    by (rule with_dialogue_HRet [OF assms(6)]) (use o(1-3) in \<open>simp split: if_splits\<close>)
  then obtain d' where d': "d_turn_out emit (t\<lparr>dt_online := Some None\<rparr>) ?d = HRet () d'"
    "m2 = m1\<lparr>m_store := (m_store m)[a := d'], m_pf := d_pf d'\<rparr>" by blast
  have p: "phases (m_store m ! a)" "phases ?d" using phases_at [OF assms(2,3)] good_stepD [OF good_upd(6)] by blast+
  have e: "established d'" "d_dialogueID d' = d_dialogueID (m_store m ! a)"
    using sessionAck_turn [OF assms(1) d'(1) _ _ p(2)] assms(4) by auto
  have g: "good_step (m_store m ! a) d'" using good_turn_out [OF assms(1) d'(1)] good_upd(6) good_trans by blast
  let ?m = "m\<lparr>m_store := (m_store m)[a := d'], m_pf := d_pf d'\<rparr>"
  have i: "mgr_inv ?m" using mgr_inv_store [OF assms(2,3)] good_stepD [OF g p(1)] by blast
  have r: "registered_ok ((m_store m)[a := d']) (AList.update (d_dialogueID (m_store m ! a)) a (m_dialogues m))"
    using mgr_inv_tables(3) [OF i, of a] True assms(3) e by (simp add: mgr_inv_def)
  show ?thesis using i r o d'(2) True negotiating_ok_simps(2) by (auto simp: mgr_inv_def)
qed

lemma mgr_dialogue_cases:
  assumes "mgr_dialogue emit a op m = HRet () m'"
  obtains m1 op' m2 where "with_dialogue a (dlg_turn emit op') m1 = HRet () m2" "m' = m2 \<or> (\<exists>e. mgr_DialogueOffline a m2 = HRet e m')"
    "m1 = m \<and> op' = op \<or> (\<exists>t p ps err. op = DHandleOut t \<and> buf (d_writeIn (m_store m ! a)) = PSessionAck p # ps
       \<and> mgr_DialogueOnline a m = HRet err m1 \<and> op' = DHandleOut (t\<lparr>dt_online := Some (map_option mux_text err)\<rparr>))"
proof -
  have o: "\<exists>m2. r = HRet () m2 \<and> (m' = m2 \<or> (\<exists>e. mgr_DialogueOffline a m2 = HRet e m'))" if "then_offline a h r = HRet () m'" for h r
    using that by (auto simp: then_offline_def forget_HRet split: gres.splits if_splits)
  show thesis
  proof (cases "\<exists>t p ps. op = DHandleOut t \<and> buf (d_writeIn (m_store m ! a)) = PSessionAck p # ps")
    case True
    then obtain t p ps where t: "op = DHandleOut t" "buf (d_writeIn (m_store m ! a)) = PSessionAck p # ps" by blast
    let ?r = "if \<not> d_handling (m_store m ! a) then HBlock
       else case mgr_DialogueOnline a m of
              HRet err m1 \<Rightarrow> with_dialogue a (dlg_turn emit (DHandleOut (t\<lparr>dt_online := Some (map_option mux_text err)\<rparr>))) m1
            | HBlock \<Rightarrow> HBlock | HPanic p \<Rightarrow> HPanic p | HSendOnClosed \<Rightarrow> HSendOnClosed"
    have "then_offline a (d_handling (m_store m ! a)) ?r = HRet () m'" using assms t by (simp add: mgr_dialogue_def Let_def split: if_splits)
    from o [OF this] obtain m2 where m2: "?r = HRet () m2" "m' = m2 \<or> (\<exists>e. mgr_DialogueOffline a m2 = HRet e m')" by blast
    then obtain err m1 where "mgr_DialogueOnline a m = HRet err m1"
      "with_dialogue a (dlg_turn emit (DHandleOut (t\<lparr>dt_online := Some (map_option mux_text err)\<rparr>))) m1 = HRet () m2"
      by (auto split: if_splits gres.splits)
    then show thesis using that m2(2) t by blast
  next
    case False
    then have "then_offline a (d_handling (m_store m ! a)) (with_dialogue a (dlg_turn emit op) m) = HRet () m'"
      using assms by (auto simp: mgr_dialogue_def Let_def split: if_splits dlg_op.splits list.splits Packet.splits)
    from o [OF this] show thesis using that by blast
  qed
qed

lemma mgr_dialogue_inv:
  assumes "documented_fsm emit" "mgr_dialogue emit a op m = HRet () m'" "mgr_inv m" "dialogue_op op"
  shows "mgr_inv m'"
proof (rule mgr_dialogue_cases [OF assms(2)])
  fix m1 op' m2
  assume w: "with_dialogue a (dlg_turn emit op') m1 = HRet () m2" and e: "m' = m2 \<or> (\<exists>e. mgr_DialogueOffline a m2 = HRet e m')"
    and o: "m1 = m \<and> op' = op \<or> (\<exists>t p ps err. op = DHandleOut t \<and> buf (d_writeIn (m_store m ! a)) = PSessionAck p # ps
       \<and> mgr_DialogueOnline a m = HRet err m1 \<and> op' = DHandleOut (t\<lparr>dt_online := Some (map_option mux_text err)\<rparr>))"
  have a: "a < length (m_store m)" using assms(2) by (simp add: mgr_dialogue_def split: if_splits)
  have "mgr_inv m2" using o
  proof
    assume "m1 = m \<and> op' = op"
    then show ?thesis using with_turn_inv [OF assms(1) w] assms(3,4) by simp
  qed (use mgr_online_inv [OF assms(1,3) a] w in blast)
  then show ?thesis using e offline_inv by blast
qed

lemma Close_start_inv:
  assumes "Close_start c i now m = HRet () m'" "mgr_inv m"
  shows "mgr_inv m'"
proof -
  obtain a cs m1 where w: "with_dialogue a (\<lambda>d. of_outcome (d_CloseWait now d)) m = HRet () m1" "m' = m1\<lparr>m_closes := cs\<rparr>"
    using assms(1) by (auto simp: Close_start_def Let_def split: if_splits gres.splits)
  have "mgr_inv m1" by (rule with_dialogue_inv [OF w(1) assms(2)]) (simp add: of_outcome_HRet good_CloseWait)
  then show ?thesis using w(2) by simp
qed

lemma Close_return_inv:
  assumes "Close_return c i err m = HRet () m'" "mgr_inv m"
  shows "mgr_inv m'"
proof -
  obtain a cs m1 where w: "with_dialogue a (\<lambda>d. HRet () (closewait_event err d)) m = HRet () m1" "m' = m1\<lparr>m_closes := cs\<rparr>"
    using assms(1) by (auto simp: Close_return_def split: if_splits gres.splits)
  have "mgr_inv m1" by (rule with_dialogue_inv [OF w(1) assms(2)]) (auto simp: closewait_event_def)
  then show ?thesis using w(2) by simp
qed

lemma mgr_turn_inv:
  assumes "documented_fsm emit" "mgr_turn emit op m = HRet () m'" "mgr_inv m" "answers op m"
  shows "mgr_inv m'"
proof (cases op)
  case (MOpenCheck x y)
  then show ?thesis using assms(2,3) mgr_inv_tables(4) [OF assms(3)] by (auto simp: OpenDialogue_check_def split: if_splits)
next
  case (MOpenStart n now)
  then show ?thesis using assms(2,3) OpenDialogue_start_inv by simp
next
  case (MOpenEnd n err)
  then show ?thesis using assms(2,3) OpenDialogue_end_inv by (auto simp: forget_HRet)
next
  case (MPacket pick now p)
  then show ?thesis using assms(2-4) handlePkt_inv by (auto split: if_splits)
next
  case (MDialogue a dop)
  then show ?thesis using assms(2,3) mgr_dialogue_inv [OF assms(1)] by (auto split: if_splits)
next
  case (MCloseEnd c)
  have "mgr_inv (m\<lparr>m_closeCh := True, m_closes := cs\<rparr>)" for cs using assms(3) by (simp add: mgr_inv_def)
  then show ?thesis using assms(2) MCloseEnd by (auto simp: Close_end_def split: if_splits)
qed (use assms(2,3) fini_inv [OF assms(3)] Close_start_inv Close_return_inv in
    \<open>auto simp: mgr_Close_def forget_HRet AcceptDialogue_def ClosedDialogue_def split: if_splits option.splits list.splits\<close>)

lemma mgr_run_inv:
  assumes "documented_fsm emit" "mgr_run emit m0 m" "mgr_inv m0"
  shows "mgr_inv m"
  using assms(2,3) by (induction rule: mgr_run.induct) (use mgr_turn_inv [OF assms(1)] in auto)

section \<open>What is closed stays closed\<close>

definition ctx_kept :: "dialogue \<Rightarrow> dialogue \<Rightarrow> bool" where
  "ctx_kept d d' \<longleftrightarrow> (d_ctxDone d \<longrightarrow> d_ctxDone d')"

definition closing_kept :: "dialogueMgr \<Rightarrow> dialogueMgr \<Rightarrow> bool" where
  "closing_kept m m' \<longleftrightarrow> (m_ok m' \<longrightarrow> m_ok m) \<and> length (m_store m) \<le> length (m_store m')
     \<and> (\<forall>a < length (m_store m). ctx_kept (m_store m ! a) (m_store m' ! a))"

lemma ctx_kept_fini: "ctx_kept d (d_fini d)" "ctx_kept d (d_handlePkt_end d)" "ctx_kept d (d_closeIO d)"
  by (simp_all add: ctx_kept_def d_fini_def d_handlePkt_end_def d_closeIO_def d_effect_def)

lemma dsame_ctx: "dsame d d' \<Longrightarrow> ctx_kept d d'"
  by (simp add: dsame_def dkept_def ctx_kept_def)

lemma turn_ctx_kept:
  assumes "dlg_turn emit op d = HRet () d'"
  shows "ctx_kept d d'"
proof -
  show ?thesis
  proof (cases op)
    case (DHandleIn t)
    then show ?thesis using assms handleIn_dsame [of emit t]
      by (auto simp: d_turn_in_def d_finish_def ctx_kept_def dsame_def dkept_def d_handlePkt_end_def d_fini_def d_effect_def
          split: if_splits list.splits gres.splits)
  next
    case (DHandleOut t)
    then show ?thesis using assms d_handleOut_kept [of emit t]
      by (auto simp: d_turn_out_def d_finish_def ctx_kept_def dkept_def d_handlePkt_end_def d_fini_def d_effect_def
          split: if_splits list.splits gres.splits)
  qed (use assms in \<open>auto simp: forget_HRet of_outcome_HRet d_deliver_def d_turn_done_def d_turn_write_def d_dowritePkt_def
      d_sendToWriteIn_def d_Write_def d_Read_def closewait_event_def d_closeIO_def d_fail_def ctx_kept_def d_drain_eq d_handlePkt_end_def
      d_fini_def d_effect_def dest!: dsame_Close dsame_CloseWait simp: dsame_def dkept_def
      split: if_splits list.splits option.splits selected.splits nat.splits prod.splits\<close>)
qed

lemma closing_refl [simp]: "closing_kept m m"
  by (simp add: closing_kept_def ctx_kept_def)

lemma closing_trans: "closing_kept a b \<Longrightarrow> closing_kept b c \<Longrightarrow> closing_kept a c"
  unfolding closing_kept_def ctx_kept_def by (meson le_trans less_le_trans)

lemma closing_same: "m_ok m' = m_ok m \<Longrightarrow> m_store m' = m_store m \<Longrightarrow> closing_kept m m'"
  by (simp add: closing_kept_def ctx_kept_def)

lemma closing_with:
  assumes "with_dialogue a f m = HRet r m'" "\<And>d d'. f d = HRet r d' \<Longrightarrow> ctx_kept d d'"
  shows "closing_kept m m'"
proof (rule with_dialogue_HRet [OF assms(1)])
  fix d
  assume "a < length (m_store m)" "f ((m_store m ! a)\<lparr>d_pf := m_pf m\<rparr>) = HRet r d" "m' = m\<lparr>m_store := (m_store m)[a := d], m_pf := d_pf d\<rparr>"
  then show ?thesis using assms(2) [of "(m_store m ! a)\<lparr>d_pf := m_pf m\<rparr>" d]
    by (auto simp: closing_kept_def ctx_kept_def nth_list_update)
qed

lemma closing_new: "new_negotiating now x y m = Ret (r, m') \<Longrightarrow> closing_kept m m'"
  by (auto simp: new_negotiating_def obind_Ret_iff Let_def closing_kept_def ctx_kept_def nth_append split: option.splits)

lemma closing_deliver: "deliver_to a pick p m = HRet () m' \<Longrightarrow> closing_kept m m'"
  unfolding deliver_to_def forget_HRet
  by (elim exE closing_with) (auto simp: d_deliver_def ctx_kept_def split: selected.splits)

lemma closing_offline: "mgr_DialogueOffline a m = HRet r m' \<Longrightarrow> closing_kept m m'"
  by (auto simp: mgr_DialogueOffline_def Let_def m_call_def intro!: closing_same split: if_splits option.splits send_result.splits)

lemma closing_handlePkt:
  assumes "mgr_handlePkt pick now p m = HRet () m'"
  shows "closing_kept m m'"
  using assms by (cases rule: handlePkt_cases) (use closing_deliver closing_new closing_trans in \<open>blast | simp\<close>)+

lemma closing_fini: "closing_kept m (mgr_fini m)"
  using closeIO_all [where T = "m_dialogues m @ m_negotiating m" and st = "m_store m"]
  by (auto simp: closing_kept_def mgr_fini_def ctx_kept_def d_closeIO_def)

lemma closing_dialogue:
  assumes "mgr_dialogue emit a op m = HRet () m'"
  shows "closing_kept m m'"
proof (rule mgr_dialogue_cases [OF assms])
  fix m1 op' m2
  assume w: "with_dialogue a (dlg_turn emit op') m1 = HRet () m2" and e: "m' = m2 \<or> (\<exists>e. mgr_DialogueOffline a m2 = HRet e m')"
    and o: "m1 = m \<and> op' = op \<or> (\<exists>t p ps err. op = DHandleOut t \<and> buf (d_writeIn (m_store m ! a)) = PSessionAck p # ps
       \<and> mgr_DialogueOnline a m = HRet err m1 \<and> op' = DHandleOut (t\<lparr>dt_online := Some (map_option mux_text err)\<rparr>))"
  have "closing_kept m m1" using o mgr_online_HRet [of a m] by (fastforce intro: closing_same)
  moreover have "closing_kept m1 m2" by (rule closing_with [OF w]) (rule turn_ctx_kept)
  ultimately have "closing_kept m m2" by (rule closing_trans)
  then show ?thesis using e closing_offline closing_trans by blast
qed

lemma closing_turn:
  assumes "mgr_turn emit op m = HRet () m'"
  shows "closing_kept m m'"
proof (cases op)
  case (MOpenStart n now)
  then obtain x y r m1 a k m2 where s: "new_negotiating now x y m = Ret (r, m1)"
    "with_dialogue a (\<lambda>d. case d_open now d of Ret (k, d') \<Rightarrow> HRet k d' | Fail _ \<Rightarrow> HBlock | Panic p \<Rightarrow> HPanic p) m1 = HRet k m2"
    "m_store m' = m_store m2" "m_ok m' = m_ok m2"
    using assms by (auto simp: OpenDialogue_start_def split: if_splits opener.splits outcome.splits gres.splits)
  have "closing_kept m1 m2"
    by (rule closing_with [OF s(2)]) (auto simp: d_open_def obind_Ret_iff d_spawn_def ctx_kept_def split: outcome.splits)
  then show ?thesis using closing_new [OF s(1)] closing_same [OF s(4,3)] closing_trans by blast
next
  case (MOpenEnd n err)
  have "d_ctxDone (m_store m ! a) \<Longrightarrow> d_ctxDone ((m_store m)[b := d_fini (m_store m ! b)] ! a)" for a b
    using ctx_kept_fini(1) by (cases "a = b"; cases "b < length (m_store m)") (auto simp: ctx_kept_def list_update_beyond)
  then show ?thesis using assms MOpenEnd
    by (auto simp: OpenDialogue_end_def forget_HRet Let_def closing_kept_def ctx_kept_def
        split: if_splits opener.splits option.splits)
next
  case (MCloseStart c i now)
  then obtain a m1 where w: "with_dialogue a (\<lambda>d. of_outcome (d_CloseWait now d)) m = HRet () m1" "m_store m' = m_store m1" "m_ok m' = m_ok m1"
    using assms by (auto simp: Close_start_def Let_def split: if_splits gres.splits)
  have "closing_kept m m1" by (rule closing_with [OF w(1)]) (auto simp: of_outcome_HRet dest: dsame_CloseWait dsame_ctx)
  then show ?thesis using closing_same [OF w(3,2)] closing_trans by blast
next
  case (MCloseReturn c i err)
  then obtain a m1 where w: "with_dialogue a (\<lambda>d. HRet () (closewait_event err d)) m = HRet () m1" "m_store m' = m_store m1" "m_ok m' = m_ok m1"
    using assms by (auto simp: Close_return_def split: if_splits gres.splits)
  have "closing_kept m m1"
    by (rule closing_with [OF w(1)]) (auto simp: closewait_event_def ctx_kept_def d_closeIO_def)
  then show ?thesis using closing_same [OF w(3,2)] closing_trans by blast
next
  case MReadDone
  then show ?thesis using assms closing_fini by (auto split: if_splits)
next
  case MCloseSeen
  then show ?thesis using assms closing_fini by (auto split: if_splits)
qed (use assms closing_handlePkt closing_dialogue in
    \<open>auto simp: OpenDialogue_check_def mgr_Close_def Close_end_def forget_HRet AcceptDialogue_def ClosedDialogue_def
      intro!: closing_same split: if_splits option.splits list.splits\<close>)

lemma closing_run: "mgr_run emit m0 m \<Longrightarrow> closing_kept m0 m"
  by (induction rule: mgr_run.induct) (use closing_turn closing_trans in \<open>blast | simp\<close>)+

section \<open>Properties\<close>



section \<open>Examples\<close>

definition example_opts :: mux_opts where
  "example_opts = \<lparr>o_dlgt = False, o_acceptCh = Some 32, o_acceptFn = False, o_closedCh = None, o_closedFn = False,
     o_readSize = -1, o_writeSize = -1\<rparr>"

definition example_mgr :: "side \<Rightarrow> dialogueMgr outcome" where
  "example_mgr sd = NewDialogueMgr sd 7 [] (NewPacketFactory (NewIDCounter Even (Some (0, 0, 0, 0)))) example_opts (Some (0, 0, 0, 0))"

definition example_mgr_ops :: "mgr_op list" where
  "example_mgr_ops = [MOpenCheck [] [], MOpenCheck [1] [], MOpenStart 0 0, MDialogue 1 (DSender True 0),
     MDialogue 0 (DUserWrite True (example_app 1 1)), MDialogue 1 (DHandleOut example_dturn)]"

definition example_reached :: "dialogueMgr option" where
  "example_reached =
     (case example_mgr RecipientSide of
        Ret m \<Rightarrow> map_option snd (turns (mgr_turn table_next) example_mgr_ops m)
      | _ \<Rightarrow> None)"

lemma example_mgr_run:
  "\<exists>m0 m. example_mgr RecipientSide = Ret m0 \<and> mgr_run table_next m0 m \<and> map_of (m_dialogues m) 1 = Some 0 \<and> map_of (m_negotiating m) 2 = Some 1
     \<and> m_openers m = [Waiting 1 2 2, Checked [1] []] \<and> (\<exists>m'. mgr_handlePkt True 0 (example_app 1 3) m = HRet () m')
     \<and> m_dialogues m = [(1, 0)] \<and> m_negotiating m = [(2, 1)] \<and> length (m_store m) = 2"
proof -
  have e: "map_option (\<lambda>m. (m_dialogues m, m_negotiating m, length (m_store m), m_openers m,
      case mgr_handlePkt True 0 (example_app 1 3) m of HRet _ _ \<Rightarrow> True | _ \<Rightarrow> False)) example_reached
    = Some ([(1, 0)], [(2, 1)], 2, [Waiting 1 2 2, Checked [1] []], True)" by code_simp
  then obtain m where m: "example_reached = Some m" "m_dialogues m = [(1, 0)]" "m_negotiating m = [(2, 1)]" "length (m_store m) = 2"
    "m_openers m = [Waiting 1 2 2, Checked [1] []]" "case mgr_handlePkt True 0 (example_app 1 3) m of HRet _ _ \<Rightarrow> True | _ \<Rightarrow> False"
    by auto
  obtain m0 rs where m0: "example_mgr RecipientSide = Ret m0" "turns (mgr_turn table_next) example_mgr_ops m0 = Some (rs, m)"
    using m(1) by (auto simp: example_reached_def split: outcome.splits)
  have "list_all no_ack example_mgr_ops" by (simp add: example_mgr_ops_def no_ack_def)
  then have "mgr_run table_next m0 m" using turns_run [OF m0(2)] mgr_run.mstart by blast
  then show ?thesis using m0(1) m(2-) by (auto split: gres.splits)
qed



end
