(* ===== verification/Dialogue_Exchange.thy ===== *)
theory Dialogue_Exchange
  imports Dialogue_Registry "HOL-Library.Monad_Syntax"
begin

text \<open>
  Opening a dialogue from one manager to the other over the wire, step by step: the session packet
  is built, handled out and written by the opener, crosses the wire, is routed and answered by the
  peer, and the acknowledgement goes the same way back.
\<close>

section \<open>The exchange\<close>

definition open_exchange ::
  "(dlg_state, dlg_event) emitter \<Rightarrow> dturn \<Rightarrow> int \<Rightarrow> bytes \<Rightarrow> bytes \<Rightarrow> dialogueMgr \<Rightarrow> dialogueMgr \<Rightarrow> (dialogueMgr \<times> dialogueMgr) option" where
  "open_exchange emit t now meta peer A B =
     (let n = length (m_openers A); a = length (m_store A); b = length (m_store B) in do {
        A1 \<leftarrow> map_option snd (turns (mgr_turn emit)
               [MOpenCheck meta peer, MOpenStart n now, MDialogue a (DSender True 0), MDialogue a (DHandleOut t), MDialogue a (DWriter None)] A);
        p \<leftarrow> the_one (d_down (m_store A1 ! a));
        q \<leftarrow> over_wire p;
        B1 \<leftarrow> map_option snd (turns (mgr_turn emit)
               [MPacket True now q, MDialogue b (DHandleIn t), MDialogue b (DSender True 0), MDialogue b (DHandleOut t), MDialogue b (DWriter None)] B);
        r \<leftarrow> the_one (d_down (m_store B1 ! b));
        s \<leftarrow> over_wire r;
        A2 \<leftarrow> map_option snd (turns (mgr_turn emit) [MPacket True now s, MDialogue a (DHandleIn t)] A1);
        Some (A2, B1)})"

text \<open>The notification of a new dialogue does not block.\<close>

definition can_accept :: "dialogueMgr \<Rightarrow> bool" where
  "can_accept m \<longleftrightarrow> o_acceptFn (m_opts m) \<or>
     (case m_accept m of None \<Rightarrow> True | Some ch \<Rightarrow> \<not> is_closed ch \<and> length (buf ch) < cap ch)"

section \<open>The dialogues' part\<close>

lemma emit_from:
  assumes "documented_fsm emit"
  shows "emit dlg_events DG_INIT ET_SESSIONSENT = Some SESSION_SENT" "emit dlg_events SESSION_SENT ET_SESSIONACK = Some SESSIONED"
    "emit dlg_events DG_INIT ET_SESSIONRECV = Some SESSION_RECV" "emit dlg_events SESSION_RECV ET_SESSIONACK = Some SESSIONED"
  using emit_table [OF assms single_valued_dlg] by (simp_all add: dlg_table)

definition fresh_dlg :: "packetFactory \<Rightarrow> u64 \<Rightarrow> bool \<Rightarrow> bytes \<Rightarrow> bytes \<Rightarrow> dialogue" where
  "fresh_dlg pf i acq meta peer = NewDialogue pf DG_INIT i acq meta peer 32 32"

lemma fresh_sel [simp]:
  "d_fsm (fresh_dlg pf i acq meta peer) = Some DG_INIT" "d_sends (fresh_dlg pf i acq meta peer) = []" "d_ctxDone (fresh_dlg pf i acq meta peer) = False"
  "d_writeIn (fresh_dlg pf i acq meta peer) = make_chan 32" "d_writeOut (fresh_dlg pf i acq meta peer) = make_chan 32"
  "d_readIn (fresh_dlg pf i acq meta peer) = make_chan 32" "d_down (fresh_dlg pf i acq meta peer) = []" "d_handling (fresh_dlg pf i acq meta peer)"
  "d_writing (fresh_dlg pf i acq meta peer)" "d_effects (fresh_dlg pf i acq meta peer) = []" "d_negotiatingID (fresh_dlg pf i acq meta peer) = i"
  "d_peersCall (fresh_dlg pf i acq meta peer) = acq" "d_meta (fresh_dlg pf i acq meta peer) = meta" "d_peer (fresh_dlg pf i acq meta peer) = peer"
  "d_pf (fresh_dlg pf i acq meta peer) = pf"
  by (simp_all add: fresh_dlg_def NewDialogue_def)

lemma select_fresh: "select_chan True False (make_chan 32) x = SelSent ((make_chan 32)\<lparr>buf := [x]\<rparr>)"
  by (simp add: select_chan_room)

lemma chan_empty [simp]: "(make_chan n)\<lparr>buf := []\<rparr> = make_chan n"
  by (simp add: make_chan_def)

lemmas dlg_step_defs = d_turn_in_def d_turn_out_def d_turn_write_def d_dowritePkt_def d_finish_def d_handleIn_def d_handleOut_def
  d_emit_def d_sendToWriteIn_def d_sendToWriteOut_def after_send_def forget_def d_spawn_def d_effect_def select_fresh

lemma sender_turn:
  "d_ctxDone d = False \<Longrightarrow> d_writeIn d = make_chan 32 \<Longrightarrow> d_sends d = [] \<Longrightarrow>
    dlg_turn emit (DSender True 0) (d_spawn p d) = HRet () (d\<lparr>d_writeIn := (make_chan 32)\<lparr>buf := [p]\<rparr>\<rparr>)"
  by (simp add: dlg_step_defs)

text \<open>The opener sends its session packet.\<close>

definition asked :: "SessionPacket \<Rightarrow> dialogue \<Rightarrow> dialogue" where
  "asked p d = d\<lparr>d_fsm := Some SESSION_SENT, d_down := [PSession p]\<rparr>"

lemma opener_out:
  assumes "documented_fsm emit" "d = (fresh_dlg pf i acq meta peer)\<lparr>d_writeIn := (make_chan 32)\<lparr>buf := [PSession p]\<rparr>\<rparr>"
  shows "dlg_turn emit (DHandleOut t) d = HRet () ((fresh_dlg pf i acq meta peer)\<lparr>d_fsm := Some SESSION_SENT,
    d_writeOut := (make_chan 32)\<lparr>buf := [PSession p]\<rparr>\<rparr>)"
  using assms(2) by (simp add: dlg_step_defs d_handleOutSessionPacket_def emit_from [OF assms(1)] select_chan_room
      fresh_dlg_def NewDialogue_def)

lemma opener_write:
  "dlg_turn emit (DWriter None) ((fresh_dlg pf i acq meta peer)\<lparr>d_fsm := Some SESSION_SENT,
    d_writeOut := (make_chan 32)\<lparr>buf := [PSession p]\<rparr>\<rparr>) = HRet () (asked p (fresh_dlg pf i acq meta peer))"
  by (simp add: dlg_step_defs asked_def fresh_dlg_def NewDialogue_def)

lemma opener_in:
  assumes "documented_fsm emit" "sa_SessionData s = Some x"
  shows "dlg_turn emit (DHandleIn t) ((asked p (fresh_dlg pf i acq meta peer))\<lparr>d_readIn := (make_chan 32)\<lparr>buf := [PSessionAck s]\<rparr>\<rparr>) =
    HRet () ((asked p (fresh_dlg pf i acq meta peer))\<lparr>d_fsm := Some SESSIONED, d_dialogueID := sa_sessionID s, d_meta := sd_Meta x,
      d_effects := [DSyncDone (PacketID (sa_hdr s))], d_onlined := True\<rparr>)"
  using assms(2) by (simp add: dlg_step_defs d_handleInSessionAckPacket_def emit_from [OF assms(1)] asked_def fresh_dlg_def NewDialogue_def)

text \<open>The acceptor answers.\<close>

definition answer :: "SessionPacket \<Rightarrow> u64 \<Rightarrow> SessionAckPacket" where
  "answer q j = NewSessionAckPacket (PacketID (sp_hdr q)) (sp_negotiateID q)
     (if sessionIDAcquire (sp_flags q) then j else sp_negotiateID q) None"

definition answering :: "SessionPacket \<Rightarrow> SessionData \<Rightarrow> dialogue \<Rightarrow> dialogue" where
  "answering q x d = d\<lparr>d_fsm := Some SESSION_RECV, d_peerNegotiatingID := sp_negotiateID q, d_meta := sd_Meta x,
     d_dialogueID := sa_sessionID (answer q (d_negotiatingID d))\<rparr>"

lemma acceptor_in:
  assumes "documented_fsm emit" "sp_SessionData q = Some x"
  shows "dlg_turn emit (DHandleIn t) ((fresh_dlg pf j acq meta peer)\<lparr>d_readIn := (make_chan 32)\<lparr>buf := [PSession q]\<rparr>\<rparr>) =
    HRet () (d_spawn (PSessionAck (answer q j)) (answering q x (fresh_dlg pf j acq meta peer)))"
  using assms(2) by (simp add: dlg_step_defs d_handleInSessionPacket_def emit_from [OF assms(1)] answering_def answer_def
      NewSessionAckPacket_def fresh_dlg_def NewDialogue_def Let_def)

lemma acceptor_out:
  assumes "documented_fsm emit" "dt_online t = Some None"
  shows "dlg_turn emit (DHandleOut t) ((answering q x (fresh_dlg pf j acq meta peer))\<lparr>d_writeIn := (make_chan 32)\<lparr>buf := [PSessionAck r]\<rparr>\<rparr>) =
    HRet () ((answering q x (fresh_dlg pf j acq meta peer))\<lparr>d_fsm := Some SESSIONED, d_onlined := True,
      d_writeOut := (make_chan 32)\<lparr>buf := [PSessionAck r]\<rparr>\<rparr>)"
  using assms(2) by (simp add: dlg_step_defs d_handleOutSessionAckPacket_def emit_from [OF assms(1)] answering_def
      select_chan_room fresh_dlg_def NewDialogue_def)

lemma acceptor_write:
  "dlg_turn emit (DWriter None) ((answering q x (fresh_dlg pf j acq meta peer))\<lparr>d_fsm := Some SESSIONED, d_onlined := True,
      d_writeOut := (make_chan 32)\<lparr>buf := [PSessionAck r]\<rparr>\<rparr>) =
    HRet () ((answering q x (fresh_dlg pf j acq meta peer))\<lparr>d_fsm := Some SESSIONED, d_onlined := True, d_down := [PSessionAck r]\<rparr>)"
  by (simp add: dlg_step_defs answering_def fresh_dlg_def NewDialogue_def)

section \<open>The managers' part\<close>

lemma fresh_pf [simp]: "(fresh_dlg pf i acq meta peer)\<lparr>d_pf := pf'\<rparr> = fresh_dlg pf' i acq meta peer"
  by (simp add: fresh_dlg_def NewDialogue_def)

lemma mgr_dialogue_plain:
  assumes "m_store m = st @ [d]" "d_pf d = m_pf m" "dialogue_op op" "dlg_turn emit op d = HRet () d'" "d_handling d'"
    "\<not> (\<exists>t p ps. op = DHandleOut t \<and> buf (d_writeIn d) = PSessionAck p # ps)"
  shows "mgr_turn emit (MDialogue (length st) op) m = HRet () (m\<lparr>m_store := st @ [d'], m_pf := d_pf d'\<rparr>)"
proof -
  have d: "d\<lparr>d_pf := m_pf m\<rparr> = d" using assms(2) [symmetric] by simp
  have "mgr_dialogue emit (length st) op m = then_offline (length st) (d_handling d) (with_dialogue (length st) (dlg_turn emit op) m)"
    using assms(1,6) by (auto simp: mgr_dialogue_def Let_def split: dlg_op.splits list.splits Packet.splits)
  then show ?thesis using assms d by (simp add: with_dialogue_def then_offline_def)
qed

lemma opener_turns:
  assumes "documented_fsm emit" "m_ok A" "m_ids A = Some ca" "GetID now ca = Ret (i, ca')"
    "NewSessionPacket now i (m_side A = InitiatorSide) meta peer (m_pf A) = Ret (p, pf')"
  shows "turns (mgr_turn emit) [MOpenCheck meta peer, MOpenStart (length (m_openers A)) now, MDialogue (length (m_store A)) (DSender True 0),
      MDialogue (length (m_store A)) (DHandleOut t), MDialogue (length (m_store A)) (DWriter None)] A =
    Some (replicate 5 (), A\<lparr>m_ids := Some ca', m_store := m_store A @ [asked p (fresh_dlg pf' i (m_side A = InitiatorSide) meta peer)],
      m_negotiating := AList.update i (length (m_store A)) (m_negotiating A),
      m_openers := m_openers A @ [Waiting (length (m_store A)) i (PacketID (sp_hdr p))], m_pf := pf'\<rparr>)"
proof -
  let ?acq = "m_side A = InitiatorSide" and ?a = "length (m_store A)"
  let ?d = "fresh_dlg pf' i ?acq meta peer"
  let ?m = "\<lambda>d. A\<lparr>m_ids := Some ca', m_store := m_store A @ [d], m_negotiating := AList.update i ?a (m_negotiating A),
      m_openers := m_openers A @ [Waiting ?a i (PacketID (sp_hdr p))], m_pf := pf'\<rparr>"
  have o: "d_open now (fresh_dlg (m_pf A) i ?acq meta peer) = Ret (PacketID (sp_hdr p), d_spawn (PSession p) ?d)"
    using assms(5) by (simp add: d_open_def)
  have s1: "mgr_turn emit (MOpenStart (length (m_openers A)) now) (A\<lparr>m_openers := m_openers A @ [Checked meta peer]\<rparr>) = HRet () (?m (d_spawn (PSession p) ?d))"
    using assms(3,4) o by (simp add: OpenDialogue_start_def new_negotiating_def with_dialogue_def fresh_dlg_def [symmetric] Let_def d_spawn_def)
  have st: "m_store (?m d) = m_store A @ [d]" "m_pf (?m d) = pf'" "(?m d)\<lparr>m_store := m_store A @ [x], m_pf := pf'\<rparr> = ?m x" for d x by simp_all
  have s2: "mgr_turn emit (MDialogue ?a (DSender True 0)) (?m (d_spawn (PSession p) ?d)) = HRet () (?m (?d\<lparr>d_writeIn := (make_chan 32)\<lparr>buf := [PSession p]\<rparr>\<rparr>))"
    using mgr_dialogue_plain [OF st(1) _ _ sender_turn] by (simp add: d_spawn_def st)
  have s3: "mgr_turn emit (MDialogue ?a (DHandleOut t)) (?m (?d\<lparr>d_writeIn := (make_chan 32)\<lparr>buf := [PSession p]\<rparr>\<rparr>)) =
      HRet () (?m (?d\<lparr>d_fsm := Some SESSION_SENT, d_writeOut := (make_chan 32)\<lparr>buf := [PSession p]\<rparr>\<rparr>))"
    using mgr_dialogue_plain [OF st(1) _ _ opener_out [OF assms(1) refl]] by (simp add: st)
  have s4: "mgr_turn emit (MDialogue ?a (DWriter None)) (?m (?d\<lparr>d_fsm := Some SESSION_SENT, d_writeOut := (make_chan 32)\<lparr>buf := [PSession p]\<rparr>\<rparr>)) =
      HRet () (?m (asked p ?d))"
    using mgr_dialogue_plain [OF st(1) _ _ opener_write] by (simp add: st asked_def)
  show ?thesis using s1 s2 s3 s4 assms(2) by (simp add: OpenDialogue_check_def numeral_eq_Suc del: mgr_turn.simps(2-))
qed

lemma online_ok:
  assumes "m_ok m" "can_accept m"
  shows "\<exists>m1. mgr_DialogueOnline a m = HRet None m1"
  using assms by (auto simp: mgr_DialogueOnline_def can_accept_def ch_send_def Let_def split: option.splits)

lemma acceptor_online:
  assumes "documented_fsm emit" "m_ok m" "can_accept m" "m_store m = st @ [d]" "d_pf d = m_pf m"
    "d = (answering q x (fresh_dlg pf j acq meta peer))\<lparr>d_writeIn := (make_chan 32)\<lparr>buf := [PSessionAck r]\<rparr>\<rparr>"
  shows "\<exists>m2. mgr_turn emit (MDialogue (length st) (DHandleOut t)) m = HRet () m2
    \<and> m_store m2 = st @ [(answering q x (fresh_dlg pf j acq meta peer))\<lparr>d_fsm := Some SESSIONED, d_onlined := True,
        d_writeOut := (make_chan 32)\<lparr>buf := [PSessionAck r]\<rparr>\<rparr>]
    \<and> m_pf m2 = m_pf m \<and> m_dialogues m2 = AList.update (d_dialogueID d) (length st) (m_dialogues m)
    \<and> m_negotiating m2 = AList.delete j (m_negotiating m)"
proof -
  obtain m1 where o: "mgr_DialogueOnline (length st) m = HRet None m1" using online_ok [OF assms(2,3)] by blast
  have k: "m_store m1 = st @ [d]" "m_pf m1 = m_pf m" "m_dialogues m1 = AList.update (d_dialogueID d) (length st) (m_dialogues m)"
    "m_negotiating m1 = AList.delete (d_negotiatingID d) (m_negotiating m)"
    using mgr_online_HRet [OF o] assms(2,4) by auto
  let ?d' = "(answering q x (fresh_dlg pf j acq meta peer))\<lparr>d_fsm := Some SESSIONED, d_onlined := True,
        d_writeOut := (make_chan 32)\<lparr>buf := [PSessionAck r]\<rparr>\<rparr>"
  have pf: "d\<lparr>d_pf := m_pf m\<rparr> = d" "d_pf ?d' = m_pf m" "d_handling ?d'" "d_handling d" "d_negotiatingID d = j"
    using assms(5,6) by (simp_all add: assms(5) [symmetric] answering_def)
  have "dlg_turn emit (DHandleOut (t\<lparr>dt_online := Some None\<rparr>)) d = HRet () ?d'"
    using acceptor_out [OF assms(1), of "t\<lparr>dt_online := Some None\<rparr>"] assms(6) by simp
  then have w: "with_dialogue (length st) (dlg_turn emit (DHandleOut (t\<lparr>dt_online := Some None\<rparr>))) m1 = HRet () (m1\<lparr>m_store := st @ [?d'], m_pf := m_pf m\<rparr>)"
    using k pf by (simp add: with_dialogue_def del: dlg_turn.simps)
  have "buf (d_writeIn d) = [PSessionAck r]" using assms(6) by simp
  then have "mgr_turn emit (MDialogue (length st) (DHandleOut t)) m = HRet () (m1\<lparr>m_store := st @ [?d'], m_pf := m_pf m\<rparr>)"
    using o w assms(4) pf(3,4) by (simp add: mgr_dialogue_def then_offline_def Let_def del: dlg_turn.simps)
  then show ?thesis using k pf(5) by simp
qed

lemma acceptor_turns:
  assumes "documented_fsm emit" "m_ok B" "m_reading B" "can_accept B" "m_ids B = Some cb" "GetID now cb = Ret (j, cb')" "sp_SessionData q = Some x"
  shows "\<exists>B1. turns (mgr_turn emit) [MPacket True now (PSession q), MDialogue (length (m_store B)) (DHandleIn t), MDialogue (length (m_store B)) (DSender True 0),
      MDialogue (length (m_store B)) (DHandleOut t), MDialogue (length (m_store B)) (DWriter None)] B = Some (replicate 5 (), B1)
    \<and> m_store B1 = m_store B @ [(answering q x (fresh_dlg (m_pf B) j (m_side B = InitiatorSide) (sd_Meta x) (sd_Peer x)))
        \<lparr>d_fsm := Some SESSIONED, d_onlined := True, d_down := [PSessionAck (answer q j)]\<rparr>]
    \<and> m_dialogues B1 = AList.update (sa_sessionID (answer q j)) (length (m_store B)) (m_dialogues B)
    \<and> m_negotiating B1 = AList.delete j (AList.update j (length (m_store B)) (m_negotiating B))"
proof -
  let ?b = "length (m_store B)"
  let ?d = "fresh_dlg (m_pf B) j (m_side B = InitiatorSide) (sd_Meta x) (sd_Peer x)"
  let ?m = "\<lambda>d. B\<lparr>m_ids := Some cb', m_store := m_store B @ [d], m_negotiating := AList.update j ?b (m_negotiating B), m_pf := m_pf B\<rparr>"
  have st: "m_store (?m d) = m_store B @ [d]" "m_pf (?m d) = m_pf B" "(?m d)\<lparr>m_store := m_store B @ [y], m_pf := m_pf B\<rparr> = ?m y" for d y by simp_all
  have s1: "mgr_turn emit (MPacket True now (PSession q)) B = HRet () (?m (?d\<lparr>d_readIn := (make_chan 32)\<lparr>buf := [PSession q]\<rparr>\<rparr>))"
    using assms(3,5-7) by (simp add: mgr_handlePkt_def new_negotiating_def deliver_to_def with_dialogue_def d_deliver_def select_fresh forget_def
        fresh_dlg_def [symmetric] Let_def)
  have s2: "mgr_turn emit (MDialogue ?b (DHandleIn t)) (?m (?d\<lparr>d_readIn := (make_chan 32)\<lparr>buf := [PSession q]\<rparr>\<rparr>)) =
      HRet () (?m (d_spawn (PSessionAck (answer q j)) (answering q x ?d)))"
    using mgr_dialogue_plain [OF st(1) _ _ acceptor_in [OF assms(1,7)]] by (simp add: st d_spawn_def answering_def)
  have s3: "mgr_turn emit (MDialogue ?b (DSender True 0)) (?m (d_spawn (PSessionAck (answer q j)) (answering q x ?d))) =
      HRet () (?m ((answering q x ?d)\<lparr>d_writeIn := (make_chan 32)\<lparr>buf := [PSessionAck (answer q j)]\<rparr>\<rparr>))"
    using mgr_dialogue_plain [OF st(1) _ _ sender_turn] by (simp add: d_spawn_def st answering_def)
  have c: "can_accept (?m d)" "m_ok (?m d)" for d using assms(2,4) by (simp_all add: can_accept_def)
  have i: "d_dialogueID (answering q x ?d) = sa_sessionID (answer q j)" "d_pf (answering q x ?d) = m_pf B" "d_handling (answering q x ?d)"
    by (simp_all add: answering_def)
  obtain m2 where m2: "mgr_turn emit (MDialogue ?b (DHandleOut t)) (?m ((answering q x ?d)\<lparr>d_writeIn := (make_chan 32)\<lparr>buf := [PSessionAck (answer q j)]\<rparr>\<rparr>)) = HRet () m2"
    "m_store m2 = m_store B @ [(answering q x ?d)\<lparr>d_fsm := Some SESSIONED, d_onlined := True, d_writeOut := (make_chan 32)\<lparr>buf := [PSessionAck (answer q j)]\<rparr>\<rparr>]"
    "m_pf m2 = m_pf B" "m_dialogues m2 = AList.update (sa_sessionID (answer q j)) ?b (m_dialogues B)"
    "m_negotiating m2 = AList.delete j (AList.update j ?b (m_negotiating B))"
    using acceptor_online [where t = t and q = q and x = x and pf = "m_pf B" and j = j and acq = "m_side B = InitiatorSide"
        and meta = "sd_Meta x" and peer = "sd_Peer x" and r = "answer q j", OF assms(1) c(2,1) st(1) _ refl] i
    by (auto simp del: mgr_turn.simps)
  have "mgr_turn emit (MDialogue ?b (DWriter None)) m2 = HRet () (m2\<lparr>m_store := m_store B @ [(answering q x ?d)
      \<lparr>d_fsm := Some SESSIONED, d_onlined := True, d_down := [PSessionAck (answer q j)]\<rparr>], m_pf := m_pf B\<rparr>)"
    using mgr_dialogue_plain [OF m2(2) _ _ acceptor_write] m2(3) i by simp
  then show ?thesis using s1 s2 s3 m2 by (simp add: numeral_eq_Suc del: mgr_turn.simps)
qed

lemma opener_finishes:
  assumes "documented_fsm emit" "m_reading m" "m_store m = st @ [asked p (fresh_dlg (m_pf m) i acq meta peer)]"
    "map_of (m_negotiating m) i = Some (length st)" "sa_negotiateID s = i" "sa_SessionData s = Some x"
  shows "turns (mgr_turn emit) [MPacket True now (PSessionAck s), MDialogue (length st) (DHandleIn t)] m =
    Some (replicate 2 (), m\<lparr>m_store := st @ [(asked p (fresh_dlg (m_pf m) i acq meta peer))\<lparr>d_fsm := Some SESSIONED, d_dialogueID := sa_sessionID s,
      d_meta := sd_Meta x, d_effects := [DSyncDone (PacketID (sa_hdr s))], d_onlined := True\<rparr>]\<rparr>)"
proof -
  let ?d = "asked p (fresh_dlg (m_pf m) i acq meta peer)"
  have sel: "d_ctxDone ?d = False" "d_readIn ?d = make_chan 32" "d_pf ?d = m_pf m" "?d\<lparr>d_pf := m_pf m\<rparr> = ?d" "d_handling ?d"
    by (simp_all add: asked_def)
  have s1: "mgr_turn emit (MPacket True now (PSessionAck s)) m = HRet () (m\<lparr>m_store := st @ [?d\<lparr>d_readIn := (make_chan 32)\<lparr>buf := [PSessionAck s]\<rparr>\<rparr>], m_pf := m_pf m\<rparr>)"
    using assms(2-5) sel by (simp add: mgr_handlePkt_def deliver_to_def with_dialogue_def d_deliver_def select_fresh forget_def)
  have "mgr_turn emit (MDialogue (length st) (DHandleIn t)) (m\<lparr>m_store := st @ [?d\<lparr>d_readIn := (make_chan 32)\<lparr>buf := [PSessionAck s]\<rparr>\<rparr>], m_pf := m_pf m\<rparr>) =
    HRet () (m\<lparr>m_store := st @ [?d\<lparr>d_fsm := Some SESSIONED, d_dialogueID := sa_sessionID s,
      d_meta := sd_Meta x, d_effects := [DSyncDone (PacketID (sa_hdr s))], d_onlined := True\<rparr>]\<rparr>)"
    using mgr_dialogue_plain [OF _ _ _ opener_in [OF assms(1,6)], of "m\<lparr>m_store := st @ [?d\<lparr>d_readIn := (make_chan 32)\<lparr>buf := [PSessionAck s]\<rparr>\<rparr>], m_pf := m_pf m\<rparr>" st] sel
    by simp
  then show ?thesis using s1 by (simp add: numeral_eq_Suc del: mgr_turn.simps)
qed

section \<open>Properties\<close>

lemma sendable_answer: "sendable (PSessionAck (answer q j))"
proof -
  have m: "marshal_SessionData (Some (empty_SessionData\<lparr>sd_Error := []\<rparr>)) = Ret (case marshal_SessionData (Some (empty_SessionData\<lparr>sd_Error := []\<rparr>)) of Ret b \<Rightarrow> b | _ \<Rightarrow> [])"
    "length (case marshal_SessionData (Some (empty_SessionData\<lparr>sd_Error := []\<rparr>)) of Ret b \<Rightarrow> b | _ \<Rightarrow> []) \<le> 100" by code_simp+
  then obtain b where b: "marshal_SessionData (Some (empty_SessionData\<lparr>sd_Error := []\<rparr>)) = Ret b" "length b \<le> 100" by metis
  have "ok_Packet (PSessionAck (answer q j))"
    by (simp add: answer_def NewSessionAckPacket_def mk_header_def ok_SessionData_def empty_SessionData_def err_text_def)
  then show ?thesis using b
    by (simp add: sendable_def answer_def NewSessionAckPacket_def SessionAckPacket_Encode_def err_text_def MaxDecodablePacketLen_def)
qed

text \<open>The exchange reaches two established dialogues with one id.\<close>

lemma exchange_result:
  assumes "documented_fsm emit" "m_ok A" "m_reading A" "m_ok B" "m_reading B" "m_side A \<noteq> m_side B" "can_accept B"
    "m_ids A = Some ca" "GetID now ca = Ret (i, ca')" "m_ids B = Some cb" "GetID now cb = Ret (j, cb')"
    "NewSessionPacket now i (m_side A = InitiatorSide) meta peer (m_pf A) = Ret (p, pf')" "sendable (PSession p)"
    "k = (if m_side A = RecipientSide then i else j)" "a = length (m_store A)" "b = length (m_store B)"
  shows "\<exists>A2 B1 dA dB. open_exchange emit t now meta peer A B = Some (A2, B1)
    \<and> m_store A2 = m_store A @ [dA] \<and> m_store B1 = m_store B @ [dB]
    \<and> d_fsm dA = Some SESSIONED \<and> d_fsm dB = Some SESSIONED \<and> d_dialogueID dA = k \<and> d_dialogueID dB = k
    \<and> d_meta dB = meta \<and> d_peer dB = peer \<and> d_meta dA = [] \<and> d_readIn dA = make_chan 32 \<and> \<not> d_ctxDone dA
    \<and> m_dialogues A2 = m_dialogues A \<and> m_negotiating A2 = AList.update i a (m_negotiating A) \<and> m_ok A2
    \<and> m_openers A2 = m_openers A @ [Waiting a i (PacketID (sp_hdr p))] \<and> DSyncDone (PacketID (sp_hdr p)) \<in> set (d_effects dA)
    \<and> m_dialogues B1 = AList.update k b (m_dialogues B) \<and> m_negotiating B1 = AList.delete j (AList.update j b (m_negotiating B))"
proof -
  let ?acq = "m_side A = InitiatorSide"
  let ?A1 = "A\<lparr>m_ids := Some ca', m_store := m_store A @ [asked p (fresh_dlg pf' i ?acq meta peer)],
      m_negotiating := AList.update i a (m_negotiating A), m_openers := m_openers A @ [Waiting a i (PacketID (sp_hdr p))], m_pf := pf'\<rparr>"
  have A1: "turns (mgr_turn emit) [MOpenCheck meta peer, MOpenStart (length (m_openers A)) now, MDialogue a (DSender True 0),
      MDialogue a (DHandleOut t), MDialogue a (DWriter None)] A = Some (replicate 5 (), ?A1)"
    using opener_turns [OF assms(1,2,8,9,12)] assms(15) by simp
  have p: "sp_negotiateID p = i" "sessionIDAcquire (sp_flags p) = ?acq" "sp_SessionData p = Some (empty_SessionData\<lparr>sd_Meta := meta, sd_Peer := peer\<rparr>)"
    using assms(12) by (auto simp: NewSessionPacket_def with_id_def obind_Ret_iff)
  obtain bs where q: "over_wire (PSession p) = Some (sent (PSession p) bs)" using over_wire_sent [OF assms(13)] by blast
  let ?q = "wire_SessionPacket (wire_header (sp_hdr p) (drop 14 bs)) p"
  let ?x = "empty_SessionData\<lparr>sd_Meta := meta, sd_Peer := peer\<rparr>"
  have qf: "sent (PSession p) bs = PSession ?q" "sp_SessionData ?q = Some ?x" "sp_negotiateID ?q = i" "sessionIDAcquire (sp_flags ?q) = ?acq"
    "PacketID (sp_hdr ?q) = PacketID (sp_hdr p)"
    using p by (simp_all add: sent_def wire_SessionPacket_def got_SessionData_def wire_header_def)
  let ?dB = "(answering ?q ?x (fresh_dlg (m_pf B) j (m_side B = InitiatorSide) meta peer))
        \<lparr>d_fsm := Some SESSIONED, d_onlined := True, d_down := [PSessionAck (answer ?q j)]\<rparr>"
  obtain B1 where B1: "turns (mgr_turn emit) [MPacket True now (PSession ?q), MDialogue b (DHandleIn t), MDialogue b (DSender True 0),
      MDialogue b (DHandleOut t), MDialogue b (DWriter None)] B = Some (replicate 5 (), B1)" "m_store B1 = m_store B @ [?dB]"
    "m_dialogues B1 = AList.update (sa_sessionID (answer ?q j)) b (m_dialogues B)"
    "m_negotiating B1 = AList.delete j (AList.update j b (m_negotiating B))"
    using acceptor_turns [OF assms(1,4,5,7,10,11) qf(2), of t] assms(16) by auto
  obtain as where r: "over_wire (PSessionAck (answer ?q j)) = Some (sent (PSessionAck (answer ?q j)) as)"
    using over_wire_sent [OF sendable_answer] by blast
  let ?s = "wire_SessionAckPacket (wire_header (sa_hdr (answer ?q j)) (drop 14 as)) (answer ?q j)"
  have sf: "sent (PSessionAck (answer ?q j)) as = PSessionAck ?s" "sa_negotiateID ?s = i" "sa_sessionID ?s = k" "sa_sessionID (answer ?q j) = k"
    "sa_SessionData ?s = Some (empty_SessionData\<lparr>sd_Error := []\<rparr>)" "PacketID (sa_hdr ?s) = PacketID (sp_hdr p)"
    using qf assms(6,14) by (cases "m_side A"; simp add: sent_def wire_SessionAckPacket_def got_SessionData_def wire_header_def answer_def NewSessionAckPacket_def
        mk_header_def err_text_def)+
  let ?dA = "(asked p (fresh_dlg pf' i ?acq meta peer))\<lparr>d_fsm := Some SESSIONED, d_dialogueID := k, d_meta := [],
      d_effects := [DSyncDone (PacketID (sp_hdr p))], d_onlined := True\<rparr>"
  have A2: "turns (mgr_turn emit) [MPacket True now (PSessionAck ?s), MDialogue a (DHandleIn t)] ?A1 = Some (replicate 2 (), ?A1\<lparr>m_store := m_store A @ [?dA]\<rparr>)"
    using opener_finishes [OF assms(1) _ _ _ sf(2,5), of ?A1 "m_store A" p ?acq meta peer now t] assms(3,15) sf(3,6)
    by (simp add: update_conv' empty_SessionData_def del: mgr_turn.simps turns.simps)
  have "open_exchange emit t now meta peer A B = Some (?A1\<lparr>m_store := m_store A @ [?dA]\<rparr>, B1)"
    using A1 A2 B1(1,2) q qf(1) r sf(1) assms(15,16)
    by (simp add: open_exchange_def Let_def the_one_def asked_def del: mgr_turn.simps turns.simps)
  then show ?thesis using B1(2-4) sf(4) assms(2) p by (simp add: asked_def answering_def)
qed


text \<open>
  C39. Between the acknowledgement and the end of \<open>OpenDialogue\<close> the new dialogue is established but
  not yet registered. A packet for it that arrives in this window is delivered when the opener is
  the recipient side, which finds it under its negotiating id; on the initiator side, whose
  negotiating id differs, the packet is dropped.
\<close>

theorem early_packet:
  assumes "documented_fsm emit" "m_ok A" "m_reading A" "m_ok B" "m_reading B" "m_side A \<noteq> m_side B" "can_accept B"
    "m_ids A = Some ca" "GetID now ca = Ret (i, ca')" "m_ids B = Some cb" "GetID now cb = Ret (j, cb')"
    "NewSessionPacket now i (m_side A = InitiatorSide) meta peer (m_pf A) = Ret (p, pf')" "sendable (PSession p)"
    "k = (if m_side A = RecipientSide then i else j)" "a = length (m_store A)" "b = length (m_store B)"
    "is_app x" "Packet_SessionID x = Some k" "map_of (m_dialogues A) k = None" "map_of (m_negotiating A) k = None" "i \<noteq> j"
  shows "\<exists>A2 B1. open_exchange emit t now meta peer A B = Some (A2, B1)
    \<and> d_fsm (m_store A2 ! a) = Some SESSIONED \<and> d_dialogueID (m_store A2 ! a) = k
    \<and> (m_side A = InitiatorSide \<longrightarrow> mgr_handlePkt True now' x A2 = HRet () A2)
    \<and> (m_side A = RecipientSide \<longrightarrow> (\<exists>A3. mgr_handlePkt True now' x A2 = HRet () A3 \<and> buf (d_readIn (m_store A3 ! a)) = [x]))"
proof -
  obtain A2 B1 dA where e: "open_exchange emit t now meta peer A B = Some (A2, B1)" "m_store A2 = m_store A @ [dA]"
    "d_fsm dA = Some SESSIONED" "d_dialogueID dA = k" "d_readIn dA = make_chan 32" "\<not> d_ctxDone dA"
    "m_dialogues A2 = m_dialogues A" "m_negotiating A2 = AList.update i a (m_negotiating A)"
    using exchange_result [OF assms(1-16), of t] by blast
  have h: "mgr_handlePkt True now' x A2 = (case map_of (m_negotiating A2) k of None \<Rightarrow> HRet () A2 | Some a \<Rightarrow> deliver_to a True x A2)"
    using assms(17-19) e(7) by (cases x) (simp_all add: mgr_handlePkt_def is_app_def split: option.split)
  have "m_side A = InitiatorSide \<Longrightarrow> map_of (m_negotiating A2) k = None" "m_side A = RecipientSide \<Longrightarrow> map_of (m_negotiating A2) k = Some a"
    using assms(14,20,21) e(8) by (simp_all add: update_conv')
  then show ?thesis using e(1-6) h assms(15)
    by (auto simp: deliver_to_def with_dialogue_def d_deliver_def select_fresh forget_def)
qed

section \<open>Examples\<close>

definition the_mgr :: "side \<Rightarrow> dialogueMgr" where
  "the_mgr sd = (case example_mgr sd of Ret m \<Rightarrow> m)"

definition example_session :: "u64 \<Rightarrow> bool \<Rightarrow> SessionPacket" where
  "example_session i acq = \<lparr>sp_hdr = mk_header TypeSessionPacket 2 CnssAtLeastOnce, sp_flags = new_SessionFlags\<lparr>sessionIDAcquire := acq\<rparr>,
     sp_negotiateID = i, sp_SessionData = Some (empty_SessionData\<lparr>sd_Meta := [7], sd_Peer := []\<rparr>), sp_clientID = 0\<rparr>"

lemma sendable_example: "sendable (PSession (example_session i acq))"
proof -
  let ?x = "empty_SessionData\<lparr>sd_Meta := [7], sd_Peer := []\<rparr>"
  have m: "marshal_SessionData (Some ?x) = Ret (case marshal_SessionData (Some ?x) of Ret b \<Rightarrow> b | _ \<Rightarrow> [])"
    "length (case marshal_SessionData (Some ?x) of Ret b \<Rightarrow> b | _ \<Rightarrow> []) \<le> 100" by code_simp+
  then obtain b where b: "marshal_SessionData (Some ?x) = Ret b" "length b \<le> 100" by metis
  have "ok_Packet (PSession (example_session i acq))"
    by (simp add: example_session_def mk_header_def ok_SessionData_def empty_SessionData_def)
  then show ?thesis using b
    by (simp add: sendable_def example_session_def SessionPacket_Encode_def MaxDecodablePacketLen_def)
qed

lemma example_mgrs:
  "m_ok (the_mgr sd)" "m_reading (the_mgr sd)" "m_side (the_mgr sd) = sd" "can_accept (the_mgr sd)" "length (m_store (the_mgr sd)) = 1"
  "m_dialogues (the_mgr sd) = [(1, 0)]" "m_negotiating (the_mgr sd) = []"
  "\<exists>c c'. m_ids (the_mgr sd) = Some c \<and> GetID 0 c = Ret (if sd = RecipientSide then 2 else 3, c')"
  "\<exists>pf'. NewSessionPacket 0 i acq [7] [] (m_pf (the_mgr sd)) = Ret (example_session i acq, pf')"
  by (cases sd; simp add: the_mgr_def example_mgr_def NewDialogueMgr_def NewIDCounter_def randomUint32_def ReserveID_def example_opts_def
      can_accept_def GetID_def time_part_def SessionID1_def Let_def NewSessionPacket_def with_id_def NewPacketID_def NewPacketFactory_def
      example_session_def)+


theorem early_packet_witness:
  "\<exists>A2 B1. open_exchange table_next example_dturn 0 [7] [] (the_mgr InitiatorSide) (the_mgr RecipientSide) = Some (A2, B1)
     \<and> d_dialogueID (m_store A2 ! 1) = 2 \<and> mgr_handlePkt True 0 (example_app 2 9) A2 = HRet () A2"
proof -
  let ?A = "the_mgr InitiatorSide" and ?B = "the_mgr RecipientSide"
  obtain ca ca' where a: "m_ids ?A = Some ca" "GetID 0 ca = Ret (3, ca')" using example_mgrs(8) [of InitiatorSide] by auto
  obtain cb cb' where b: "m_ids ?B = Some cb" "GetID 0 cb = Ret (2, cb')" using example_mgrs(8) [of RecipientSide] by auto
  obtain pf' where p: "NewSessionPacket 0 3 (m_side ?A = InitiatorSide) [7] [] (m_pf ?A) = Ret (example_session 3 True, pf')"
    using example_mgrs(9) [of 3 True InitiatorSide] by (auto simp: example_mgrs(3))
  have x: "is_app (example_app 2 9)" "Packet_SessionID (example_app 2 9) = Some 2" by (simp_all add: example_app_def is_app_def)
  from early_packet [OF table_next_documented _ _ _ _ _ _ a b p sendable_example _ _ _ x, of 1 1 example_dturn 0] example_mgrs
  show ?thesis by auto
qed

end
