(* ===== verification/Dialogue_Hub.thy ===== *)
theory Dialogue_Hub
  imports Dialogue_Exchange Go_Text
begin

text \<open>
  The multiplexer's options, the registries as instances of one contract, the dialogue hub
  (\<open>multiplexer/dialogue_hub.go\<close>), and what managers and hubs do not guarantee: dialogues that
  outlive their manager, a second \<open>Close\<close>, acknowledgements nobody asked for, and a hub that
  cannot be constructed.
\<close>

section \<open>Registries\<close>

text \<open>
  A registry keeps dialogues under keys built from ids. All that routing needs of the key is that
  different ids have different keys.
\<close>

locale dialogue_registry =
  fixes key :: "'id \<Rightarrow> 'k"
  assumes key_inj: "key i = key j \<longleftrightarrow> i = j"
begin

definition find_dialogue :: "('k \<times> addr) list \<Rightarrow> 'id \<Rightarrow> addr option" where
  "find_dialogue T i = map_of T (key i)"

lemma find_after_update: "find_dialogue (AList.update (key i) a T) j = (if j = i then Some a else find_dialogue T j)"
  by (simp add: find_dialogue_def update_conv' key_inj)

lemma find_after_delete: "find_dialogue (AList.delete (key i) T) j = (if j = i then None else find_dialogue T j)"
  by (simp add: find_dialogue_def delete_conv' key_inj)

text \<open>A dialogue that goes online under one id leaves every other id's dialogue in place.\<close>

lemma online_elsewhere: "j \<noteq> i \<Longrightarrow> find_dialogue (AList.update (key i) a T) j = find_dialogue T j"
  by (simp add: find_after_update)

end

text \<open>The hub serves many connections: its keys join the client id and the dialogue id.\<close>

definition dialogueKey :: "u64 \<Rightarrow> u64 \<Rightarrow> bytes" where
  "dialogueKey clientID dialogueID = decimal (unat clientID) @ lit ''-'' @ decimal (unat dialogueID)"

lemma decimal_inj: "decimal m = decimal n \<longleftrightarrow> m = n"
  using digits_val_decimal by metis

lemma minus_no_digit: "lit ''-'' = [0x2D]" "\<not> is_digit 0x2D"
  by (simp_all add: lit_def is_digit_def cont_in_def)

lemma split_at_minus:
  assumes "list_all is_digit ds" "list_all is_digit es" "ds @ [0x2D] @ xs = es @ [0x2D] @ ys"
  shows "ds = es \<and> xs = ys"
  using assms
proof (induction ds arbitrary: es)
  case Nil
  then show ?case using minus_no_digit(2) by (cases es) auto
next
  case (Cons d ds)
  then show ?case using minus_no_digit(2) by (cases es) auto
qed

lemma dialogueKey_inj: "dialogueKey c d = dialogueKey c' d' \<longleftrightarrow> c = c' \<and> d = d'"
proof
  assume "dialogueKey c d = dialogueKey c' d'"
  then have "decimal (unat c) @ [0x2D] @ decimal (unat d) = decimal (unat c') @ [0x2D] @ decimal (unat d')"
    by (simp add: dialogueKey_def minus_no_digit(1))
  from split_at_minus [OF decimal_digits(1) decimal_digits(1) this]
  show "c = c' \<and> d = d'" by (simp add: decimal_inj word_eq_iff_unsigned [where 'a = nat])
qed simp

interpretation mgr_registry: dialogue_registry "\<lambda>i :: u64. i"
  by unfold_locales simp

interpretation hub_registry: dialogue_registry "\<lambda>(c, d). dialogueKey c d"
  by unfold_locales (auto simp: dialogueKey_inj)

section \<open>Options\<close>

record opts =
  op_tmr :: bool
  op_pf :: "packetFactory option"
  op_log :: bool
  op_dlgt :: bool

record multiplexerOpts =
  mo_opts :: "opts option"
  mo_acceptCh :: "nat option"
  mo_acceptFn :: bool
  mo_closedCh :: "nat option"
  mo_closedFn :: bool
  mo_readBufferSize :: int
  mo_writeBufferSize :: int

datatype MultiplexerOption = OptionMultiplexerAcceptDialogue | OptionMultiplexerClosedDialogue | OptionMultiplexerAcceptFunc
  | OptionMultiplexerClosedFunc | OptionDelegate | OptionPacketFactory packetFactory | OptionLogger | OptionTimer | OptionBufferSize int int

text \<open>The fields of the embedded \<open>opts\<close> are written through its pointer.\<close>

definition upd_opts :: "(opts \<Rightarrow> opts) \<Rightarrow> multiplexerOpts \<Rightarrow> multiplexerOpts outcome" where
  "upd_opts f mo = (case mo_opts mo of None \<Rightarrow> Panic NilDereference | Some b \<Rightarrow> Ret (mo\<lparr>mo_opts := Some (f b)\<rparr>))"

fun apply_option :: "MultiplexerOption \<Rightarrow> multiplexerOpts \<Rightarrow> multiplexerOpts outcome" where
  "apply_option OptionMultiplexerAcceptDialogue mo = Ret (mo\<lparr>mo_acceptCh := Some 32\<rparr>)"
| "apply_option OptionMultiplexerClosedDialogue mo = Ret (mo\<lparr>mo_closedCh := Some 32\<rparr>)"
| "apply_option OptionMultiplexerAcceptFunc mo = Ret (mo\<lparr>mo_acceptFn := True\<rparr>)"
| "apply_option OptionMultiplexerClosedFunc mo = Ret (mo\<lparr>mo_closedFn := True\<rparr>)"
| "apply_option OptionDelegate mo = upd_opts (\<lambda>b. b\<lparr>op_dlgt := True\<rparr>) mo"
| "apply_option (OptionPacketFactory pf) mo = upd_opts (\<lambda>b. b\<lparr>op_pf := Some pf\<rparr>) mo"
| "apply_option OptionLogger mo = upd_opts (\<lambda>b. b\<lparr>op_log := True\<rparr>) mo"
| "apply_option OptionTimer mo = upd_opts (\<lambda>b. b\<lparr>op_tmr := True\<rparr>) mo"
| "apply_option (OptionBufferSize r w) mo =
     Ret (mo\<lparr>mo_readBufferSize := (if r > 0 then r else mo_readBufferSize mo),
             mo_writeBufferSize := (if w > 0 then w else mo_writeBufferSize mo)\<rparr>)"

fun apply_options :: "MultiplexerOption list \<Rightarrow> multiplexerOpts \<Rightarrow> multiplexerOpts outcome" where
  "apply_options [] mo = Ret mo"
| "apply_options (o' # os) mo = obind (apply_option o' mo) (apply_options os)"

text \<open>What the manager's constructor starts from, and what it passes on.\<close>

definition mgr_default_opts :: multiplexerOpts where
  "mgr_default_opts = \<lparr>mo_opts = Some \<lparr>op_tmr = False, op_pf = None, op_log = False, op_dlgt = False\<rparr>, mo_acceptCh = None, mo_acceptFn = False,
     mo_closedCh = None, mo_closedFn = False, mo_readBufferSize = -1, mo_writeBufferSize = -1\<rparr>"

definition mgr_opts :: "MultiplexerOption list \<Rightarrow> mux_opts outcome" where
  "mgr_opts os =
     obind (apply_options os mgr_default_opts) (\<lambda>mo.
     case mo_opts mo of
       None \<Rightarrow> Panic NilDereference
     | Some b \<Rightarrow> Ret \<lparr>o_dlgt = op_dlgt b, o_acceptCh = mo_acceptCh mo, o_acceptFn = mo_acceptFn mo, o_closedCh = mo_closedCh mo,
         o_closedFn = mo_closedFn mo, o_readSize = mo_readBufferSize mo, o_writeSize = mo_writeBufferSize mo\<rparr>)"

lemma upd_opts_Some: "mo_opts mo = Some b \<Longrightarrow> upd_opts f mo = Ret (mo\<lparr>mo_opts := Some (f b)\<rparr>)"
  by (simp add: upd_opts_def)

text \<open>The manager's options always apply.\<close>

lemma apply_options_Some: "mo_opts mo \<noteq> None \<Longrightarrow> \<exists>mo'. apply_options os mo = Ret mo' \<and> mo_opts mo' \<noteq> None"
proof (induction os arbitrary: mo)
  case (Cons x os)
  have "\<exists>mo'. apply_option x mo = Ret mo' \<and> mo_opts mo' \<noteq> None" using Cons.prems by (cases x) (auto simp: upd_opts_Some)
  then show ?case using Cons.IH by auto
qed simp

section \<open>The hub\<close>

text \<open>A read-write mutex: releasing a read lock that is not held is a fatal error.\<close>

record rwmutex =
  rw_writer :: bool
  rw_readers :: nat

definition rw_Lock :: "rwmutex \<Rightarrow> rwmutex option" where
  "rw_Lock l = (if rw_writer l \<or> rw_readers l > 0 then None else Some (l\<lparr>rw_writer := True\<rparr>))"

definition rw_RUnlock :: "rwmutex \<Rightarrow> rwmutex outcome" where
  "rw_RUnlock l = (if rw_readers l = 0 then Panic UnlockOfUnlocked else Ret (l\<lparr>rw_readers := rw_readers l - 1\<rparr>))"

record dialogueHub =
  h_mtx :: rwmutex
  h_ok :: bool
  h_dialogues :: "(bytes \<times> addr) list"
  h_negotiating :: "(bytes \<times> addr) list"
  h_accept :: "addr chan option"
  h_dlgt :: bool
  h_store :: "(u64 \<times> dialogue) list"
  h_closing :: "addr list"
  h_calls :: "mgr_call list"

text \<open>
  The constructor leaves the embedded \<open>opts\<close> nil; the test of \<open>dh.tmr\<close> that follows the options
  reads through it.
\<close>

definition NewDialogueHub :: "MultiplexerOption list \<Rightarrow> dialogueHub outcome" where
  "NewDialogueHub os =
     obind (apply_options os \<lparr>mo_opts = None, mo_acceptCh = None, mo_acceptFn = False, mo_closedCh = None, mo_closedFn = False,
         mo_readBufferSize = 0, mo_writeBufferSize = 0\<rparr>) (\<lambda>mo.
     case mo_opts mo of
       None \<Rightarrow> Panic NilDereference
     | Some b \<Rightarrow> Ret \<lparr>h_mtx = \<lparr>rw_writer = False, rw_readers = 0\<rparr>, h_ok = True, h_dialogues = [], h_negotiating = [],
         h_accept = map_option make_chan (mo_acceptCh mo), h_dlgt = op_dlgt b, h_store = [], h_closing = [], h_calls = []\<rparr>)"

definition hub_DialogueOnline :: "addr \<Rightarrow> dialogueHub \<Rightarrow> (mux_error option, dialogueHub) gres" where
  "hub_DialogueOnline a h =
     (if \<not> h_ok h then HRet (Some ErrOperationOnClosedMultiplexer) h
      else
        let (c, d) = h_store h ! a;
            h1 = h\<lparr>h_negotiating := AList.delete (dialogueKey c (d_negotiatingID d)) (h_negotiating h),
                   h_dialogues := AList.update (dialogueKey c (d_dialogueID d)) a (h_dialogues h)\<rparr>;
            h2 = (if h_dlgt h then h1\<lparr>h_calls := h_calls h @ [DlgtOnline a]\<rparr> else h1)
        in case h_accept h of
             None \<Rightarrow> HRet None h2
           | Some ch \<Rightarrow>
               (case ch_send ch a of
                  Sent ch' \<Rightarrow> HRet None (h2\<lparr>h_accept := Some ch'\<rparr>)
                | Full \<Rightarrow> HBlock
                | OnClosed \<Rightarrow> HSendOnClosed))"

definition hub_DialogueOffline :: "addr \<Rightarrow> dialogueHub \<Rightarrow> mux_error option \<times> dialogueHub" where
  "hub_DialogueOffline a h =
     (let (c, d) = h_store h ! a; k = dialogueKey c (d_dialogueID d) in
      case map_of (h_dialogues h) k of
        None \<Rightarrow> (Some ErrDialogueNotFound, h)
      | Some b \<Rightarrow>
          (let h1 = h\<lparr>h_dialogues := AList.delete k (h_dialogues h)\<rparr>
           in (None, if h_dlgt h then h1\<lparr>h_calls := h_calls h @ [DlgtOffline b]\<rparr> else h1)))"

text \<open>\<open>Close\<close> up to its wait: a write lock, released as a read lock.\<close>

definition hub_Close :: "dialogueHub \<Rightarrow> dialogueHub outcome option" where
  "hub_Close h =
     (case rw_Lock (h_mtx h) of
        None \<Rightarrow> None
      | Some l \<Rightarrow>
          Some (obind (rw_RUnlock l) (\<lambda>l'. Ret (h\<lparr>h_mtx := l', h_closing := h_closing h @ map snd (h_dialogues h @ h_negotiating h)\<rparr>))))"

section \<open>Properties\<close>

text \<open>
  A dialogue of one client that goes online or offline at the hub is afterwards found, or not
  found, under its own client and dialogue id, and the dialogues of all other pairs of ids are
  where they were: no two pairs share a key.
\<close>

theorem hub_clients_apart:
  assumes "h_ok h" "h_store h ! a = (c, d)" "hub_DialogueOnline a h = HRet r h1" "hub_DialogueOffline a h1 = (e, h2)"
  shows "r = None \<and> map_of (h_dialogues h1) (dialogueKey c (d_dialogueID d)) = Some a
    \<and> e = None \<and> map_of (h_dialogues h2) (dialogueKey c (d_dialogueID d)) = None
    \<and> (\<forall>c' i'. (c', i') \<noteq> (c, d_dialogueID d) \<longrightarrow>
         map_of (h_dialogues h1) (dialogueKey c' i') = map_of (h_dialogues h) (dialogueKey c' i')
       \<and> map_of (h_dialogues h2) (dialogueKey c' i') = map_of (h_dialogues h) (dialogueKey c' i'))"
proof -
  have h1: "r = None" "h_dialogues h1 = AList.update (dialogueKey c (d_dialogueID d)) a (h_dialogues h)" "h_store h1 = h_store h"
    using assms(1-3) by (auto simp: hub_DialogueOnline_def Let_def split: option.splits send_result.splits if_splits)
  have h2: "e = None" "h_dialogues h2 = AList.delete (dialogueKey c (d_dialogueID d)) (h_dialogues h1)"
    using assms(2,4) h1 by (auto simp: hub_DialogueOffline_def Let_def update_conv' split: if_splits)
  show ?thesis using h1 h2
    hub_registry.find_after_update [of "(c, d_dialogueID d)" a "h_dialogues h"] hub_registry.find_after_delete [of "(c, d_dialogueID d)" "h_dialogues h1"]
    by (auto simp: hub_registry.find_dialogue_def)
qed

text \<open>The constructor panics whatever its options, and \<open>Close\<close> releases a lock it does not hold.\<close>

lemma NewDialogueHub_panics: "NewDialogueHub os = Panic NilDereference"
proof -
  have "apply_options os mo = Panic NilDereference \<or> (\<exists>mo'. apply_options os mo = Ret mo' \<and> mo_opts mo' = None)" if "mo_opts mo = None" for mo
    using that
  proof (induction os arbitrary: mo)
    case (Cons x os)
    have "apply_option x mo = Panic NilDereference \<or> (\<exists>mo'. apply_option x mo = Ret mo' \<and> mo_opts mo' = None)"
      using Cons.prems by (cases x) (auto simp: upd_opts_def)
    then show ?case
    proof
      assume "\<exists>mo'. apply_option x mo = Ret mo' \<and> mo_opts mo' = None"
      then obtain mo' where "apply_option x mo = Ret mo'" "mo_opts mo' = None" by blast
      then show ?thesis using Cons.IH [of mo'] by simp
    qed simp
  qed simp
  from this [of "\<lparr>mo_opts = None, mo_acceptCh = None, mo_acceptFn = False, mo_closedCh = None, mo_closedFn = False,
         mo_readBufferSize = 0, mo_writeBufferSize = 0\<rparr>"] show ?thesis by (auto simp: NewDialogueHub_def)
qed

lemma hub_Close_panics: "rw_Lock (h_mtx h) = Some l \<Longrightarrow> hub_Close h = Some (Panic UnlockOfUnlocked)"
  by (auto simp: hub_Close_def rw_Lock_def rw_RUnlock_def split: if_splits)

text \<open>
  A dialogue whose opening failed is in no table any more; nobody cancels it, not even the
  manager's \<open>fini\<close>, and its goroutines go on.
\<close>

theorem failed_open_leaks:
  assumes "OpenDialogue_end n (Some e) m = HRet r m1" "m_openers m ! n = Waiting a i k" "a < length (m_store m)"
    "a \<notin> snd ` set (m_dialogues m)" "\<forall>j. (j, a) \<in> set (m_negotiating m) \<longrightarrow> j = i"
  shows "r = Inl (MuxSync e) \<and> m_store (mgr_fini m1) ! a = m_store m ! a"
proof -
  have m1: "r = Inl (MuxSync e)" "m_store m1 = m_store m" "m_dialogues m1 = m_dialogues m" "m_negotiating m1 = AList.delete i (m_negotiating m)"
    using assms(1,2) by (auto simp: OpenDialogue_end_def Let_def split: if_splits)
  have "a \<notin> snd ` set (m_dialogues m1 @ m_negotiating m1)"
    using assms(4,5) m1(3,4) by (auto simp: AList.delete_eq)
  then show ?thesis
    using closeIO_all(2) [where T = "m_dialogues m1 @ m_negotiating m1" and st = "m_store m1" and b = a] assms(3) m1 by (simp add: mgr_fini_def)
qed

text \<open>
  A second \<open>Close\<close> between the end of the first and the reader's \<open>fini\<close> closes the channel again.
\<close>

lemma second_Close_panics:
  assumes "m_ok m" "m_closeCh m" "m_dialogues m = []" "m_negotiating m = []"
  shows "Close_end (length (m_closes m)) (mgr_Close m) = HPanic CloseOfClosed"
  using assms by (simp add: mgr_Close_def Close_end_def)

text \<open>
  C40. Two acknowledgements for a session packet that has not left yet: since \<open>ET_SESSIONACK\<close> is
  \<open>ET_SESSIONRECV\<close>, the first takes the dialogue to \<open>SESSION_RECV\<close> and completes \<open>open\<close>, the second
  changes the id of a dialogue that is registered by then.
\<close>

definition unsolicited :: "u64 \<Rightarrow> Packet" where
  "unsolicited i = PSessionAck (NewSessionAckPacket 2 2 i None)"


theorem hub_clients_apart_witness:
  "\<exists>h h1 h2. hub_DialogueOnline 1 h = HRet None h1 \<and> hub_DialogueOffline 1 h1 = (None, h2)
     \<and> map_of (h_dialogues h2) (dialogueKey 4 8) = Some 0 \<and> map_of (h_dialogues h2) (dialogueKey 48 0) = None"
proof -
  let ?h = "\<lparr>h_mtx = \<lparr>rw_writer = False, rw_readers = 0\<rparr>, h_ok = True, h_dialogues = [(dialogueKey 4 8, 0)], h_negotiating = [],
      h_accept = None, h_dlgt = False, h_store = [(4, example_dialogue\<lparr>d_dialogueID := 8\<rparr>), (48, example_dialogue\<lparr>d_dialogueID := 0\<rparr>)],
      h_closing = [], h_calls = []\<rparr>"
  obtain r h1 where o: "hub_DialogueOnline 1 ?h = HRet r h1" by (simp add: hub_DialogueOnline_def)
  obtain e h2 where f: "hub_DialogueOffline 1 h1 = (e, h2)" by fastforce
  have s: "h_ok ?h" "h_store ?h ! 1 = (48, example_dialogue\<lparr>d_dialogueID := 0\<rparr>)" by simp_all
  from hub_clients_apart [OF s o f]
  have "r = None" "e = None" "map_of (h_dialogues h2) (dialogueKey 48 0) = None"
    "map_of (h_dialogues h2) (dialogueKey 4 8) = map_of (h_dialogues ?h) (dialogueKey 4 8)" by auto
  then show ?thesis using o f by auto
qed

theorem failed_open_leaks_witness:
  "\<exists>m0 m m1. example_mgr RecipientSide = Ret m0 \<and> mgr_run table_next m0 m
     \<and> OpenDialogue_end 0 (Some ErrSyncTimeout) m = HRet (Inl (MuxSync ErrSyncTimeout)) m1 \<and> m_store (mgr_fini m1) ! 1 = m_store m ! 1"
proof -
  obtain m0 m where m: "example_mgr RecipientSide = Ret m0" "mgr_run table_next m0 m" "m_dialogues m = [(1, 0)]" "m_negotiating m = [(2, 1)]"
    "m_openers m = [Waiting 1 2 2, Checked [1] []]" "length (m_store m) = 2" using example_mgr_run by blast
  have "\<exists>r m1. OpenDialogue_end 0 (Some ErrSyncTimeout) m = HRet r m1" using m(5) by (simp add: OpenDialogue_end_def Let_def)
  then obtain r m1 where e: "OpenDialogue_end 0 (Some ErrSyncTimeout) m = HRet r m1" by blast
  have h: "m_openers m ! 0 = Waiting 1 2 2" "1 < length (m_store m)" "1 \<notin> snd ` set (m_dialogues m)"
    "\<forall>j. (j, 1) \<in> set (m_negotiating m) \<longrightarrow> j = 2" using m(3-6) by simp_all
  have "r = Inl (MuxSync ErrSyncTimeout) \<and> m_store (mgr_fini m1) ! 1 = m_store m ! 1" by (rule failed_open_leaks [OF e h])
  then show ?thesis using m(1,2) e by metis
qed

end
