(* ===== verification/App_Options.thy ===== *)
theory App_Options
  imports Go_Runtime
begin

text \<open>
  The options a caller may give to calls, messages, hijackers and streams (\<open>options/*.go\<close>), and how
  several of them merge: nil entries are skipped and the last setting of a field counts. A nil
  pointer or slice is \<open>None\<close>.
\<close>

section \<open>Calls and requests\<close>

record CallOptions =
  co_Timeout :: "int option"

definition Call_SetTimeout :: "int \<Rightarrow> CallOptions \<Rightarrow> CallOptions" where
  "Call_SetTimeout timeout opt = opt\<lparr>co_Timeout := Some timeout\<rparr>"

definition options_Call :: CallOptions where
  "options_Call = \<lparr>co_Timeout = None\<rparr>"

text \<open>The body of the merging loops: a nil entry changes nothing, a set field overwrites.\<close>

definition overwrite :: "'a option \<Rightarrow> 'a option \<Rightarrow> 'a option" where
  "overwrite new old = (case new of None \<Rightarrow> old | Some x \<Rightarrow> new)"

definition merge_with :: "('o \<Rightarrow> 'o \<Rightarrow> 'o) \<Rightarrow> 'o \<Rightarrow> 'o option list \<Rightarrow> 'o" where
  "merge_with step zero opts = foldl (\<lambda>acc opt. case opt of None \<Rightarrow> acc | Some x \<Rightarrow> step acc x) zero opts"

definition MergeCallOptions :: "CallOptions option list \<Rightarrow> CallOptions" where
  "MergeCallOptions = merge_with (\<lambda>co opt. co\<lparr>co_Timeout := overwrite (co_Timeout opt) (co_Timeout co)\<rparr>) options_Call"

record NewRequestOptions =
  nr_Custom :: "bytes option"

definition NewRequest_SetCustom :: "bytes option \<Rightarrow> NewRequestOptions \<Rightarrow> NewRequestOptions" where
  "NewRequest_SetCustom data opt = opt\<lparr>nr_Custom := data\<rparr>"

definition options_NewRequest :: NewRequestOptions where
  "options_NewRequest = \<lparr>nr_Custom = None\<rparr>"

definition MergeNewRequestOptions :: "NewRequestOptions option list \<Rightarrow> NewRequestOptions" where
  "MergeNewRequestOptions = merge_with (\<lambda>no opt. no\<lparr>nr_Custom := overwrite (nr_Custom opt) (nr_Custom no)\<rparr>) options_NewRequest"

section \<open>Messages\<close>

definition app_CnssAtMostOnce :: byte where
  "app_CnssAtMostOnce = 1"

definition app_CnssAtLeastOnce :: byte where
  "app_CnssAtLeastOnce = 2"

record PublishOptions =
  po_Timeout :: "int option"

definition Publish_SetTimeout :: "int \<Rightarrow> PublishOptions \<Rightarrow> PublishOptions" where
  "Publish_SetTimeout timeout opt = opt\<lparr>po_Timeout := Some timeout\<rparr>"

definition options_Publish :: PublishOptions where
  "options_Publish = \<lparr>po_Timeout = None\<rparr>"

definition MergePublishOptions :: "PublishOptions option list \<Rightarrow> PublishOptions" where
  "MergePublishOptions = merge_with (\<lambda>po opt. po\<lparr>po_Timeout := overwrite (po_Timeout opt) (po_Timeout po)\<rparr>) options_Publish"

record NewMessageOptions =
  nm_Custom :: "bytes option"
  nm_Cnss :: "byte option"
  nm_Topic :: "bytes option"

definition NewMessage_SetCustom :: "bytes option \<Rightarrow> NewMessageOptions \<Rightarrow> NewMessageOptions" where
  "NewMessage_SetCustom data opt = opt\<lparr>nm_Custom := data\<rparr>"

definition NewMessage_SetCnss :: "byte \<Rightarrow> NewMessageOptions \<Rightarrow> NewMessageOptions" where
  "NewMessage_SetCnss cnss opt = opt\<lparr>nm_Cnss := Some cnss\<rparr>"

definition NewMessage_SetTopic :: "bytes \<Rightarrow> NewMessageOptions \<Rightarrow> NewMessageOptions" where
  "NewMessage_SetTopic topic opt = opt\<lparr>nm_Topic := Some topic\<rparr>"

definition options_NewMessage :: NewMessageOptions where
  "options_NewMessage = \<lparr>nm_Custom = None, nm_Cnss = None, nm_Topic = None\<rparr>"

definition MergeNewMessageOptions :: "NewMessageOptions option list \<Rightarrow> NewMessageOptions" where
  "MergeNewMessageOptions =
     merge_with (\<lambda>no opt.
        no\<lparr>nm_Custom := overwrite (nm_Custom opt) (nm_Custom no), nm_Cnss := overwrite (nm_Cnss opt) (nm_Cnss no),
           nm_Topic := overwrite (nm_Topic opt) (nm_Topic no)\<rparr>) options_NewMessage"

section \<open>Hijackers and streams\<close>

record HijackOptions =
  ho_Match :: "bool option"
  ho_Pattern :: "bytes option"

definition SetMatch :: "bool \<Rightarrow> bytes \<Rightarrow> HijackOptions \<Rightarrow> HijackOptions" where
  "SetMatch match pattern opt = opt\<lparr>ho_Match := Some match, ho_Pattern := Some pattern\<rparr>"

definition options_Hijack :: HijackOptions where
  "options_Hijack = \<lparr>ho_Match = None, ho_Pattern = None\<rparr>"

definition MergeHijackOptions :: "HijackOptions option list \<Rightarrow> HijackOptions" where
  "MergeHijackOptions =
     merge_with (\<lambda>ho opt.
        ho\<lparr>ho_Match := overwrite (ho_Match opt) (ho_Match ho), ho_Pattern := overwrite (ho_Pattern opt) (ho_Pattern ho)\<rparr>) options_Hijack"

record OpenStreamOptions =
  os_Meta :: "bytes option"
  os_Peer :: "bytes option"

definition OpenStream_SetMeta :: "bytes option \<Rightarrow> OpenStreamOptions \<Rightarrow> OpenStreamOptions" where
  "OpenStream_SetMeta meta opt = opt\<lparr>os_Meta := meta\<rparr>"

definition OpenStream_SetPeer :: "bytes \<Rightarrow> OpenStreamOptions \<Rightarrow> OpenStreamOptions" where
  "OpenStream_SetPeer peer opt = opt\<lparr>os_Peer := Some peer\<rparr>"

definition options_OpenStream :: OpenStreamOptions where
  "options_OpenStream = \<lparr>os_Meta = None, os_Peer = None\<rparr>"

definition MergeOpenStreamOptions :: "OpenStreamOptions option list \<Rightarrow> OpenStreamOptions" where
  "MergeOpenStreamOptions =
     merge_with (\<lambda>o' opt.
        o'\<lparr>os_Meta := overwrite (os_Meta opt) (os_Meta o'), os_Peer := overwrite (os_Peer opt) (os_Peer o')\<rparr>) options_OpenStream"

section \<open>The last setting counts\<close>

text \<open>The last entry of a list that is set, seen through one field.\<close>

definition last_set :: "('o \<Rightarrow> 'a option) \<Rightarrow> 'o option list \<Rightarrow> 'a option" where
  "last_set f opts = foldr (\<lambda>opt later. overwrite later (Option.bind opt f)) opts None"

locale merging =
  fixes step :: "'o \<Rightarrow> 'o \<Rightarrow> 'o" and zero :: 'o and field :: "'o \<Rightarrow> 'a option"
  assumes field_zero: "field zero = None"
    and field_step: "field (step acc x) = overwrite (field x) (field acc)"
begin

lemma fold_field:
  "field (foldl (\<lambda>acc opt. case opt of None \<Rightarrow> acc | Some x \<Rightarrow> step acc x) acc opts) = overwrite (last_set field opts) (field acc)"
  by (induction opts arbitrary: acc) (auto simp: last_set_def overwrite_def field_step split: option.splits)

lemma merged_field: "field (merge_with step zero opts) = last_set field opts"
  by (simp add: merge_with_def fold_field field_zero overwrite_def split: option.splits)

end

interpretation call_timeout: merging "\<lambda>co opt. co\<lparr>co_Timeout := overwrite (co_Timeout opt) (co_Timeout co)\<rparr>" options_Call co_Timeout
  by unfold_locales (simp_all add: options_Call_def)

interpretation publish_timeout: merging "\<lambda>po opt. po\<lparr>po_Timeout := overwrite (po_Timeout opt) (po_Timeout po)\<rparr>" options_Publish po_Timeout
  by unfold_locales (simp_all add: options_Publish_def)

interpretation request_custom: merging "\<lambda>no opt. no\<lparr>nr_Custom := overwrite (nr_Custom opt) (nr_Custom no)\<rparr>" options_NewRequest nr_Custom
  by unfold_locales (simp_all add: options_NewRequest_def)

interpretation message_cnss: merging "\<lambda>no opt. no\<lparr>nm_Custom := overwrite (nm_Custom opt) (nm_Custom no), nm_Cnss := overwrite (nm_Cnss opt) (nm_Cnss no),
    nm_Topic := overwrite (nm_Topic opt) (nm_Topic no)\<rparr>" options_NewMessage nm_Cnss
  by unfold_locales (simp_all add: options_NewMessage_def)

interpretation hijack_pattern: merging "\<lambda>ho opt. ho\<lparr>ho_Match := overwrite (ho_Match opt) (ho_Match ho), ho_Pattern := overwrite (ho_Pattern opt) (ho_Pattern ho)\<rparr>"
  options_Hijack ho_Pattern
  by unfold_locales (simp_all add: options_Hijack_def)

interpretation stream_peer: merging "\<lambda>o' opt. o'\<lparr>os_Meta := overwrite (os_Meta opt) (os_Meta o'), os_Peer := overwrite (os_Peer opt) (os_Peer o')\<rparr>"
  options_OpenStream os_Peer
  by unfold_locales (simp_all add: options_OpenStream_def)

lemma merged_options:
  "co_Timeout (MergeCallOptions cs) = last_set co_Timeout cs"
  "po_Timeout (MergePublishOptions ps) = last_set po_Timeout ps"
  "nr_Custom (MergeNewRequestOptions rs) = last_set nr_Custom rs"
  "nm_Cnss (MergeNewMessageOptions ms) = last_set nm_Cnss ms"
  "ho_Pattern (MergeHijackOptions hs) = last_set ho_Pattern hs"
  "os_Peer (MergeOpenStreamOptions ss) = last_set os_Peer ss"
  by (simp_all add: MergeCallOptions_def MergePublishOptions_def MergeNewRequestOptions_def MergeNewMessageOptions_def
      MergeHijackOptions_def MergeOpenStreamOptions_def call_timeout.merged_field publish_timeout.merged_field
      request_custom.merged_field message_cnss.merged_field hijack_pattern.merged_field stream_peer.merged_field)

end
