(* ===== verification/App_Types.thy ===== *)
theory App_Types
  imports Packet_Factory App_Options
begin

text \<open>
  What an application stream keeps (\<open>application/types.go\<close>, \<open>application/stream.go\<close>): requests,
  responses, messages, handlers of calls, and the state of a stream. The dialogue below is seen
  through what its \<open>Write\<close> is handed (\<open>s_down\<close>) and what it answers; the hub of pending calls, the
  end above and the delegate through what is asked of them.
\<close>

section \<open>Time\<close>

text \<open>The instant of a time in nanoseconds, which \<open>Before\<close> and \<open>After\<close> compare.\<close>

definition days_before_year :: "int \<Rightarrow> int" where
  "days_before_year y = 365 * (y - 1) + (y - 1) div 4 - (y - 1) div 100 + (y - 1) div 400"

definition instant :: "go_time \<Rightarrow> int" where
  "instant t =
     (let days = days_before_year (t_year t) + int (sum_list (map (\<lambda>mo. days_in mo (t_year t)) [1..<t_month t])) + int (t_day t) - 1
      in (((days * 24 + int (t_hour t)) * 60 + int (t_min t)) * 60 + int (t_sec t) - t_off t) * 10 ^ 9 + int (t_nsec t))"

definition IsZero :: "go_time \<Rightarrow> bool" where
  "IsZero t \<longleftrightarrow> instant t = instant zero_time"

definition Before :: "go_time \<Rightarrow> go_time \<Rightarrow> bool" where
  "Before t u \<longleftrightarrow> instant t < instant u"

section \<open>Requests, responses and messages\<close>

record request =
  rq_method :: bytes
  rq_data :: bytes
  rq_custom :: bytes
  rq_id :: u64
  rq_clientID :: u64
  rq_streamID :: u64
  rq_timeout :: int

record response =
  rs_err :: "bytes option"
  rs_method :: bytes
  rs_data :: bytes
  rs_custom :: bytes
  rs_requestID :: u64
  rs_clientID :: u64
  rs_streamID :: u64

record message =
  ms_data :: bytes
  ms_custom :: bytes
  ms_id :: u64
  ms_clientID :: u64
  ms_streamID :: u64
  ms_topic :: bytes
  ms_timeout :: int
  ms_cnss :: byte
  ms_sm :: bool

text \<open>
  A handler of a call leaves data and maybe an error in the response, or panics after it has left
  data there; it may look at whether its context is cancelled.
\<close>

datatype rpc_result = Returned bytes "bytes option" | Panicked bytes bytes

type_synonym rpc = "request \<Rightarrow> bool \<Rightarrow> rpc_result"

text \<open>A hijacker with its pattern, if any, as the set of methods the pattern matches.\<close>

record patternRPC =
  hj_match :: bool
  hj_pattern :: "(bytes \<Rightarrow> bool) option"
  hj_rpc :: rpc

datatype dg_error = DgEOF | DgShortBuffer | DgOther bytes

datatype app_error = AppEOF | ErrMismatchStreamID | ErrMismatchClientID | ErrRemoteRPCUnregistered | AppPacketTooLarge
  | ErrShortBuffer | ErrClosedPipe | AppDeadlineExceeded | AppCanceled | RemoteError bytes | DialogueError dg_error | RegexpError
  | ErrNilStream

text \<open>What is asked of the synchronisation hub.\<close>

datatype hub_op = HubNew u64 "int option" | HubAddDeadline bool int | HubCancelDeadline bool | HubAck u64 "response option" | HubError u64 app_error | HubDone u64 | HubDoneSub bytes | HubCancel u64 | HubClose

text \<open>What a stream asks of its end when it finishes.\<close>

datatype end_op = EndFini | EndDelStream u64

section \<open>The stream\<close>

text \<open>
  A caller of \<open>Read\<close> or \<open>Write\<close> that has to wait first checks the deadline, then enters its channel
  into the list of waiters; the deadline closes the channels of the list.
\<close>

datatype waiting = Checked | Listed | Fired

record running =
  ru_req :: request
  ru_rpc :: rpc

record stream =
  s_clientID :: u64
  s_dialogueID :: u64
  s_pf :: packetFactory
  s_remoteCheck :: bool
  s_dlgt :: bool
  s_cancels :: "(u64 \<times> go_time option) list"
  s_canceled :: "u64 list"
  s_localRPCs :: "(bytes \<times> rpc) list"
  s_remoteRPCs :: "bytes list"
  s_hijack :: "patternRPC option"
  s_ok :: bool
  s_closeOnce :: bool
  s_finiOnce :: bool
  s_closeWrite :: bool
  s_dgClosed :: bool
  s_monitorStop :: bool
  s_lockWait :: bool
  s_cache :: bytes
  s_messageCh :: "MessagePacket chan"
  s_streamCh :: "StreamPacket chan"
  s_writeIn :: "Packet chan"
  s_dlRead :: go_time
  s_dlWrite :: go_time
  s_dlReadSync :: "bool option"
  s_dlWriteSync :: "bool option"
  s_readers :: "waiting list"
  s_writers :: "(waiting \<times> StreamPacket) list"
  s_down :: "Packet list"
  s_hub :: "hub_op list"
  s_end :: "end_op list"
  s_registered :: "bytes list"
  s_running :: "running list"
  s_senders :: "Packet list"
  s_leaked :: nat
  s_handling :: bool
  s_reading :: bool

type_synonym 'a sres = "('a, stream) gres"

definition stream_size :: "int \<Rightarrow> nat" where
  "stream_size n = (if n > 0 then nat n else 32)"

definition newStream :: "u64 \<Rightarrow> u64 \<Rightarrow> packetFactory \<Rightarrow> bool \<Rightarrow> bool \<Rightarrow> int \<Rightarrow> int \<Rightarrow> stream" where
  "newStream clientID dialogueID pf remoteCheck dlgt readBufferSize writeBufferSize =
     \<lparr>s_clientID = clientID, s_dialogueID = dialogueID, s_pf = pf, s_remoteCheck = remoteCheck, s_dlgt = dlgt, s_cancels = [], s_canceled = [],
      s_localRPCs = [], s_remoteRPCs = [], s_hijack = None, s_ok = True, s_closeOnce = False, s_finiOnce = False, s_closeWrite = False,
      s_dgClosed = False, s_monitorStop = False, s_lockWait = False, s_cache = [], s_messageCh = make_chan (stream_size readBufferSize),
      s_streamCh = make_chan (stream_size readBufferSize), s_writeIn = make_chan (stream_size writeBufferSize), s_dlRead = zero_time,
      s_dlWrite = zero_time, s_dlReadSync = None, s_dlWriteSync = None, s_readers = [], s_writers = [], s_down = [], s_hub = [], s_end = [], s_registered = [], s_running = [], s_senders = [], s_leaked = 0, s_handling = True,
      s_reading = True\<rparr>"

definition hub :: "hub_op \<Rightarrow> stream \<Rightarrow> stream" where
  "hub x s = s\<lparr>s_hub := s_hub s @ [x]\<rparr>"

text \<open>\<open>Write\<close> of the dialogue, which sets the session id; \<open>werr\<close> is its answer.\<close>

definition dg_Write :: "dg_error option \<Rightarrow> Packet \<Rightarrow> stream \<Rightarrow> stream" where
  "dg_Write werr pkt s = (case werr of None \<Rightarrow> s\<lparr>s_down := s_down s @ [Packet_SetSessionID (s_dialogueID s) pkt]\<rparr> | Some _ \<Rightarrow> s)"

end
