(* ===== verification/App_Stream.thy ===== *)
theory App_Stream
  imports App_Types
begin

text \<open>
  The two goroutines of an application stream and their handlers (\<open>application/stream.go\<close>): packets
  that come from the dialogue, packets that go down to it, handlers of calls in goroutines of their
  own, and the end of a stream. A caller that sends holds the stream's read lock from its check to
  its send, and \<open>fini\<close> needs the write lock.
\<close>

section \<open>Incoming packets\<close>

definition handleInMessagePacket :: "MessagePacket \<Rightarrow> stream \<Rightarrow> IORet sres" where
  "handleInMessagePacket pkt s =
     (case ch_send (s_messageCh s) pkt of
        Sent ch \<Rightarrow> HRet IOSuccess (s\<lparr>s_messageCh := ch\<rparr>)
      | Full \<Rightarrow> HBlock
      | OnClosed \<Rightarrow> HSendOnClosed)"

definition handleInMessageAckPacket :: "MessageAckPacket \<Rightarrow> stream \<Rightarrow> IORet sres" where
  "handleInMessageAckPacket pkt s =
     (case ma_Data pkt of
        None \<Rightarrow> HPanic NilDereference
      | Some x \<Rightarrow>
          HRet IOSuccess (hub (if md_Error x \<noteq> [] then HubError (PacketID (ma_hdr pkt)) (RemoteError (md_Error x))
                               else HubAck (PacketID (ma_hdr pkt)) None) s))"

text \<open>The deadline of the handler's context: none, or one of the two the packet carries.\<close>

definition request_deadline :: "MessageData \<Rightarrow> go_time option" where
  "request_deadline x =
     (if \<not> IsZero (md_Deadline x) \<or> \<not> IsZero (md_ContextDeadline x) then
        (let deadline = md_Deadline x in
         Some (if IsZero deadline \<or> (\<not> IsZero deadline \<and> \<not> IsZero (md_ContextDeadline x) \<and> Before (md_ContextDeadline x) deadline)
               then md_ContextDeadline x else deadline))
      else None)"

text \<open>\<open>delete(rpcCancels, id); cancel()\<close>.\<close>

definition cancel_rpc :: "u64 \<Rightarrow> stream \<Rightarrow> stream" where
  "cancel_rpc i s =
     (if map_of (s_cancels s) i = None then s
      else s\<lparr>s_cancels := filter (\<lambda>(j, _). j \<noteq> i) (s_cancels s), s_canceled := s_canceled s @ [i]\<rparr>)"

definition put_cancel :: "u64 \<Rightarrow> go_time option \<Rightarrow> stream \<Rightarrow> stream" where
  "put_cancel i dl s = s\<lparr>s_cancels := (i, dl) # filter (\<lambda>(j, _). j \<noteq> i) (s_cancels s)\<rparr>"

text \<open>\<open>doRPC\<close> starts the handler in a goroutine of its own.\<close>

definition doRPC :: "rpc \<Rightarrow> request \<Rightarrow> stream \<Rightarrow> stream" where
  "doRPC f req s = s\<lparr>s_running := s_running s @ [\<lparr>ru_req = req, ru_rpc = f\<rparr>]\<rparr>"

definition hijacks :: "patternRPC option \<Rightarrow> bytes \<Rightarrow> rpc option" where
  "hijacks h method =
     (case h of
        None \<Rightarrow> None
      | Some p \<Rightarrow>
          (case hj_pattern p of
             None \<Rightarrow> Some (hj_rpc p)
           | Some r \<Rightarrow> (if (hj_match p \<and> r method) \<or> (\<not> hj_match p \<and> \<not> r method) then Some (hj_rpc p) else None)))"

definition handleInRequestPacket :: "dg_error option \<Rightarrow> MessagePacket \<Rightarrow> stream \<Rightarrow> IORet sres" where
  "handleInRequestPacket werr pkt s =
     (case mp_Data pkt of
        None \<Rightarrow> HPanic NilDereference
      | Some x \<Rightarrow>
          (let i = PacketID (mp_hdr pkt);
               method = md_Key x;
               req = \<lparr>rq_method = method, rq_data = md_Value x, rq_custom = md_Custom x, rq_id = i, rq_clientID = s_clientID s,
                      rq_streamID = s_dialogueID s, rq_timeout = 0\<rparr>;
               s1 = put_cancel i (request_deadline x) s
           in case hijacks (s_hijack s) method of
                Some f \<Rightarrow> HRet IOSuccess (doRPC f req s1)
              | None \<Rightarrow>
                  (case map_of (s_localRPCs s) method of
                     Some f \<Rightarrow> HRet IOSuccess (doRPC f req s1)
                   | None \<Rightarrow>
                       (let s2 = cancel_rpc i s1;
                            rspPkt = NewResponsePacket i method [] (Some (lit ''no such rpc: '' @ method))
                        in HRet (if werr = None then IOSuccess else IOErr) (dg_Write werr (PResponse (Some rspPkt)) s2)))))"

definition handleInRequestCancelPacket :: "RequestCancelPacket \<Rightarrow> stream \<Rightarrow> IORet sres" where
  "handleInRequestCancelPacket pkt s = HRet IOSuccess (cancel_rpc (PacketID (rc_hdr pkt)) s)"

definition handleInResponsePacket :: "MessageAckPacket \<Rightarrow> stream \<Rightarrow> IORet sres" where
  "handleInResponsePacket pkt s =
     (case ma_Data pkt of
        None \<Rightarrow> HPanic NilDereference
      | Some x \<Rightarrow>
          (if md_Error x \<noteq> [] then HRet IOSuccess (hub (HubError (PacketID (ma_hdr pkt)) (RemoteError (md_Error x))) s)
           else
             (let rsp = \<lparr>rs_err = None, rs_method = [], rs_data = md_Value x, rs_custom = [], rs_requestID = PacketID (ma_hdr pkt),
                         rs_clientID = s_clientID s, rs_streamID = s_dialogueID s\<rparr>
              in HRet IOSuccess (hub (HubAck (PacketID (ma_hdr pkt)) (Some rsp)) s))))"

definition handleInRegisterPacket :: "dg_error option \<Rightarrow> RegisterPacket \<Rightarrow> stream \<Rightarrow> IORet sres" where
  "handleInRegisterPacket werr pkt s =
     (let method = rp_method pkt;
          s1 = dg_Write werr (PRegisterAck (NewRegisterAckPacket (PacketID (rp_hdr pkt)) None)) s
      in if werr \<noteq> None then HRet IOErr s1
         else
           (let s2 = hub (HubDoneSub method) (s1\<lparr>s_remoteRPCs := List.insert method (s_remoteRPCs s1)\<rparr>)
            in HRet IOSuccess (if s_dlgt s then s2\<lparr>s_registered := s_registered s2 @ [method]\<rparr> else s2)))"

definition handleInRegisterAckPacket :: "RegisterAckPacket \<Rightarrow> stream \<Rightarrow> IORet sres" where
  "handleInRegisterAckPacket pkt s = HRet IOSuccess (hub (HubDone (PacketID (ra_hdr pkt))) s)"

text \<open>A first attempt that does not block, then a wait for room or for the end of the dialogue.\<close>

definition handleInStreamPacket :: "bool \<Rightarrow> bool \<Rightarrow> StreamPacket \<Rightarrow> stream \<Rightarrow> IORet sres" where
  "handleInStreamPacket pick dgDone pkt s =
     (case ch_send (s_streamCh s) pkt of
        Sent ch \<Rightarrow> HRet IOSuccess (s\<lparr>s_streamCh := ch\<rparr>)
      | OnClosed \<Rightarrow> HSendOnClosed
      | Full \<Rightarrow>
          (case select_chan pick dgDone (s_streamCh s) pkt of
             SelSent ch \<Rightarrow> HRet IOSuccess (s\<lparr>s_streamCh := ch\<rparr>)
           | SelDone \<Rightarrow> HRet IODiscard s
           | SelBlock \<Rightarrow> HBlock
           | SelPanic \<Rightarrow> HSendOnClosed))"

text \<open>What the environment answers during a turn: the dialogue's \<open>Write\<close>, its \<open>Done\<close>, the choice of a \<open>select\<close>.\<close>

record sturn =
  st_werr :: "dg_error option"
  st_dgDone :: bool
  st_pick :: bool

definition sm_handleIn :: "sturn \<Rightarrow> Packet \<Rightarrow> stream \<Rightarrow> IORet sres" where
  "sm_handleIn t pkt s =
     (case pkt of
        PMessage p \<Rightarrow> handleInMessagePacket p s
      | PMessageAck p \<Rightarrow> handleInMessageAckPacket p s
      | PRequest (Some p) \<Rightarrow> handleInRequestPacket (st_werr t) p s
      | PRequest None \<Rightarrow> HPanic NilDereference
      | PRequestCancel p \<Rightarrow> handleInRequestCancelPacket p s
      | PResponse (Some p) \<Rightarrow> handleInResponsePacket p s
      | PResponse None \<Rightarrow> HPanic NilDereference
      | PRegister p \<Rightarrow> handleInRegisterPacket (st_werr t) p s
      | PRegisterAck p \<Rightarrow> handleInRegisterAckPacket p s
      | PStream p \<Rightarrow> handleInStreamPacket (st_pick t) (st_dgDone t) p s
      | _ \<Rightarrow> HRet IOErr s)"

section \<open>Outgoing packets\<close>

text \<open>The data handlers tell a full buffer of the dialogue from its other errors; messages and requests report the latter to the waiting caller.\<close>

definition handleOutMessagePacket :: "dg_error option \<Rightarrow> MessagePacket \<Rightarrow> stream \<Rightarrow> IORet sres" where
  "handleOutMessagePacket werr pkt s =
     (case werr of
        None \<Rightarrow> HRet IOSuccess (dg_Write werr (PMessage pkt) s)
      | Some e \<Rightarrow>
          (if e = DgShortBuffer then HRet IODiscard s
           else HRet IOErr (hub (HubError (PacketID (mp_hdr pkt)) (DialogueError e)) s)))"

definition handleOutMessageAckPacket :: "dg_error option \<Rightarrow> MessageAckPacket \<Rightarrow> stream \<Rightarrow> IORet sres" where
  "handleOutMessageAckPacket werr pkt s =
     HRet (if werr = None then IOSuccess else IOErr) (dg_Write werr (PMessageAck pkt) s)"

definition handleOutRequestPacket :: "dg_error option \<Rightarrow> MessagePacket \<Rightarrow> stream \<Rightarrow> IORet sres" where
  "handleOutRequestPacket werr pkt s =
     (case werr of
        None \<Rightarrow> HRet IOSuccess (dg_Write werr (PRequest (Some pkt)) s)
      | Some e \<Rightarrow>
          (if e = DgShortBuffer then HRet IODiscard s
           else HRet IOErr (hub (HubError (PacketID (mp_hdr pkt)) (DialogueError e)) s)))"

definition handleOutRequestCancelPacket :: "dg_error option \<Rightarrow> RequestCancelPacket \<Rightarrow> stream \<Rightarrow> IORet sres" where
  "handleOutRequestCancelPacket werr pkt s =
     (case werr of
        None \<Rightarrow> HRet IOSuccess (dg_Write werr (PRequestCancel pkt) s)
      | Some e \<Rightarrow> HRet (if e = DgShortBuffer then IODiscard else IOErr) s)"

definition handleOutRegisterPacket :: "dg_error option \<Rightarrow> RegisterPacket \<Rightarrow> stream \<Rightarrow> IORet sres" where
  "handleOutRegisterPacket werr pkt s =
     (case werr of
        None \<Rightarrow> HRet IOSuccess (dg_Write werr (PRegister pkt) s)
      | Some e \<Rightarrow> HRet (if e = DgShortBuffer then IODiscard else IOErr) s)"

definition handleOutStreamPacket :: "dg_error option \<Rightarrow> StreamPacket \<Rightarrow> stream \<Rightarrow> IORet sres" where
  "handleOutStreamPacket werr pkt s =
     (case werr of
        None \<Rightarrow> HRet IOSuccess (dg_Write werr (PStream pkt) s)
      | Some e \<Rightarrow> HRet (if e = DgShortBuffer then IODiscard else IOErr) s)"

definition sm_handleOut :: "sturn \<Rightarrow> Packet \<Rightarrow> stream \<Rightarrow> IORet sres" where
  "sm_handleOut t pkt s =
     (case pkt of
        PMessage p \<Rightarrow> handleOutMessagePacket (st_werr t) p s
      | PMessageAck p \<Rightarrow> handleOutMessageAckPacket (st_werr t) p s
      | PRequest (Some p) \<Rightarrow> handleOutRequestPacket (st_werr t) p s
      | PRequest None \<Rightarrow> HPanic NilDereference
      | PRequestCancel p \<Rightarrow> handleOutRequestCancelPacket (st_werr t) p s
      | PStream p \<Rightarrow> handleOutStreamPacket (st_werr t) p s
      | PRegister p \<Rightarrow> handleOutRegisterPacket (st_werr t) p s
      | _ \<Rightarrow> HRet IOSuccess s)"

section \<open>The end of a stream\<close>

text \<open>
  \<open>finiOnce.Do(fini)\<close> from a goroutine that ends: the first one closes \<open>monitorStop\<close>; a later one
  returns at once.
\<close>

definition start_fini :: "stream \<Rightarrow> stream" where
  "start_fini s = (if s_finiOnce s then s else s\<lparr>s_finiOnce := True, s_monitorStop := True\<rparr>)"

text \<open>Then it asks for the write lock, and no new read lock is granted until it has had it.\<close>

definition fini_wait :: "stream \<Rightarrow> unit sres" where
  "fini_wait s = (if s_finiOnce s \<and> s_ok s \<and> \<not> s_lockWait s then HRet () (s\<lparr>s_lockWait := True\<rparr>) else HBlock)"

definition can_RLock :: "stream \<Rightarrow> bool" where
  "can_RLock s \<longleftrightarrow> \<not> (s_lockWait s \<and> s_ok s)"

definition packet_id :: "Packet \<Rightarrow> u64" where
  "packet_id p = (case Packet_ID p of Ret i \<Rightarrow> i | _ \<Rightarrow> 0)"

text \<open>The rest of \<open>fini\<close>, under the write lock, which needs every read lock released.\<close>

definition sm_fini :: "stream \<Rightarrow> unit sres" where
  "sm_fini s =
     (if s_lockWait s \<and> s_ok s \<and> s_senders s = [] \<and> s_writers s = [] \<and> s_leaked s = 0 then
        (let s1 = s\<lparr>s_ok := False, s_writeIn := ch_close ((s_writeIn s)\<lparr>buf := []\<rparr>)\<rparr>;
             s2 = s1\<lparr>s_hub := s_hub s1 @ map (\<lambda>p. HubError (packet_id p) ErrClosedPipe) (buf (s_writeIn s)) @ [HubClose]\<rparr>;
             s3 = s2\<lparr>s_messageCh := ch_close (s_messageCh s2), s_streamCh := ch_close (s_streamCh s2)\<rparr>
         in HRet () (s3\<lparr>s_end := s_end s3 @ (if s_dialogueID s = 1 then [EndFini] else []) @ [EndDelStream (s_dialogueID s)]\<rparr>))
      else HBlock)"

section \<open>The goroutines\<close>

text \<open>\<open>handlePkt\<close>: a packet from \<open>writeInCh\<close>; the drain loop after \<open>Close\<close> handles packets the same way.\<close>

definition sm_finish_out :: "Packet \<Rightarrow> IORet sres \<Rightarrow> unit sres" where
  "sm_finish_out pkt r =
     (case r of
        HRet ret s \<Rightarrow>
          (if ret = IODiscard then HRet () (hub (HubError (packet_id pkt) ErrShortBuffer) s)
           else if ret = IOErr then HRet () ((start_fini s)\<lparr>s_handling := False\<rparr>)
           else HRet () s)
      | HBlock \<Rightarrow> HBlock | HPanic p \<Rightarrow> HPanic p | HSendOnClosed \<Rightarrow> HSendOnClosed)"

definition handlePkt_out :: "sturn \<Rightarrow> stream \<Rightarrow> unit sres" where
  "handlePkt_out t s =
     (case buf (s_writeIn s) of
        p # ps \<Rightarrow> sm_finish_out p (sm_handleOut t p (s\<lparr>s_writeIn := (s_writeIn s)\<lparr>buf := ps\<rparr>\<rparr>))
      | [] \<Rightarrow> (if is_closed (s_writeIn s) then HRet () ((start_fini s)\<lparr>s_handling := False\<rparr>) else HBlock))"

text \<open>After \<open>Close\<close>, once nothing is buffered, the dialogue is dismissed.\<close>

definition handlePkt_drained :: "stream \<Rightarrow> unit sres" where
  "handlePkt_drained s =
     (if s_closeWrite s \<and> \<not> s_dgClosed s \<and> buf (s_writeIn s) = [] \<and> \<not> is_closed (s_writeIn s) then HRet () (s\<lparr>s_dgClosed := True\<rparr>) else HBlock)"

text \<open>\<open>readPkt\<close>: a packet from the dialogue, or the end of its channel.\<close>

definition readPkt_in :: "sturn \<Rightarrow> Packet \<Rightarrow> stream \<Rightarrow> unit sres" where
  "readPkt_in t pkt s =
     (case sm_handleIn t pkt s of
        HRet ret s' \<Rightarrow> (if ret = IOErr then HRet () ((start_fini s')\<lparr>s_reading := False\<rparr>) else HRet () s')
      | HBlock \<Rightarrow> HBlock | HPanic p \<Rightarrow> HPanic p | HSendOnClosed \<Rightarrow> HSendOnClosed)"

definition readPkt_end :: "stream \<Rightarrow> stream" where
  "readPkt_end s = (start_fini s)\<lparr>s_reading := False\<rparr>"

text \<open>The goroutine of a handler ends: the context is released and the response written.\<close>

definition rpc_response :: "bool \<Rightarrow> running \<Rightarrow> MessageAckPacket" where
  "rpc_response canceled r =
     (case ru_rpc r (ru_req r) canceled of
        Returned data err \<Rightarrow> NewResponsePacket (rq_id (ru_req r)) (rq_method (ru_req r)) data err
      | Panicked data x \<Rightarrow> NewResponsePacket (rq_id (ru_req r)) (rq_method (ru_req r)) data (Some (lit ''rpc handler panic: '' @ x)))"

text \<open>The context is done when it was cancelled or its deadline has passed.\<close>

definition ctx_done :: "go_time \<Rightarrow> u64 \<Rightarrow> stream \<Rightarrow> bool" where
  "ctx_done now i s =
     (case map_of (s_cancels s) i of None \<Rightarrow> True | Some None \<Rightarrow> False | Some (Some d) \<Rightarrow> \<not> Before now d)"

definition remove_at :: "nat \<Rightarrow> 'a list \<Rightarrow> 'a list" where
  "remove_at i xs = take i xs @ drop (Suc i) xs"

definition prog :: "dg_error option \<Rightarrow> go_time \<Rightarrow> nat \<Rightarrow> stream \<Rightarrow> unit sres" where
  "prog werr now n s =
     (if n < length (s_running s) then
        (let r = s_running s ! n;
             i = rq_id (ru_req r);
             s1 = cancel_rpc i (s\<lparr>s_running := remove_at n (s_running s)\<rparr>)
         in HRet () (dg_Write werr (PResponse (Some (rpc_response (ctx_done now i s) r))) s1))
      else HBlock)"

end
