(* ===== verification/App_Api.thy ===== *)
theory App_Api
  imports App_Stream
begin

text \<open>
  What callers do with an application stream (\<open>application/rpc.go\<close>, \<open>message.go\<close>, \<open>raw.go\<close>): register
  and call procedures, publish and receive messages, read and write raw bytes under deadlines, and
  close. \<open>now\<close> is the clock's reading, \<open>later\<close> the instant \<open>time.Now().Add(timeout)\<close>, \<open>ctx\<close> the deadline
  of the caller's context. A send that may block is a step of its own.
\<close>

section \<open>Senders, Close and registration\<close>

text \<open>The send of a caller that holds the read lock, and its release.\<close>

definition sender_step :: "nat \<Rightarrow> stream \<Rightarrow> unit sres" where
  "sender_step n s =
     (if n < length (s_senders s) then
        (case ch_send (s_writeIn s) (s_senders s ! n) of
           Sent ch \<Rightarrow> HRet () (s\<lparr>s_writeIn := ch, s_senders := remove_at n (s_senders s)\<rparr>)
         | Full \<Rightarrow> HBlock
         | OnClosed \<Rightarrow> HSendOnClosed)
      else HBlock)"

definition sending :: "Packet \<Rightarrow> stream \<Rightarrow> stream" where
  "sending pkt s = s\<lparr>s_senders := s_senders s @ [pkt]\<rparr>"

definition sm_Close :: "stream \<Rightarrow> unit sres" where
  "sm_Close s =
     (if s_closeOnce s then HRet () s
      else if \<not> can_RLock s then HBlock
      else if \<not> s_ok s then HRet () (s\<lparr>s_closeOnce := True\<rparr>)
      else HRet () (s\<lparr>s_closeOnce := True, s_closeWrite := True\<rparr>))"

definition the_default :: "'a \<Rightarrow> 'a option \<Rightarrow> 'a" where
  "the_default d x = (case x of None \<Rightarrow> d | Some y \<Rightarrow> y)"

definition NewRequest :: "int \<Rightarrow> bytes \<Rightarrow> NewRequestOptions option list \<Rightarrow> stream \<Rightarrow> (request \<times> stream) outcome" where
  "NewRequest now data opts s =
     obind (NewPacketID now (s_pf s)) (\<lambda>(i, pf).
     Ret (\<lparr>rq_method = [], rq_data = data, rq_custom = the_default [] (nr_Custom (MergeNewRequestOptions opts)), rq_id = i,
           rq_clientID = s_clientID s, rq_streamID = s_dialogueID s, rq_timeout = 0\<rparr>, s\<lparr>s_pf := pf\<rparr>))"

definition addLocalRPC :: "bytes \<Rightarrow> rpc \<Rightarrow> stream \<Rightarrow> stream" where
  "addLocalRPC method f s = s\<lparr>s_localRPCs := (method, f) # filter (\<lambda>(k, _). k \<noteq> method) (s_localRPCs s)\<rparr>"

definition delLocalRPC :: "bytes \<Rightarrow> stream \<Rightarrow> stream" where
  "delLocalRPC method s = s\<lparr>s_localRPCs := filter (\<lambda>(k, _). k \<noteq> method) (s_localRPCs s)\<rparr>"

text \<open>\<open>Register\<close> up to its wait, and after it with the error of the wait or of the context.\<close>

definition Register_start :: "int \<Rightarrow> bytes \<Rightarrow> rpc \<Rightarrow> stream \<Rightarrow> (app_error + u64) sres" where
  "Register_start now method f s =
     (if \<not> can_RLock s then HBlock
      else if \<not> s_ok s then HRet (Inl AppEOF) s
      else
        let s1 = addLocalRPC method f s
        in case NewRegisterPacketWithSessionID now (s_dialogueID s) method (s_pf s) of
             Ret (pkt, pf) \<Rightarrow>
               HRet (Inr (PacketID (rp_hdr pkt))) (sending (PRegister pkt) (hub (HubNew (PacketID (rp_hdr pkt)) None) (s1\<lparr>s_pf := pf\<rparr>)))
           | Fail e \<Rightarrow> HBlock
           | Panic p \<Rightarrow> HPanic p)"

definition Register_end :: "bytes \<Rightarrow> app_error option \<Rightarrow> stream \<Rightarrow> app_error option \<times> stream" where
  "Register_end method err s = (case err of None \<Rightarrow> (None, s) | Some e \<Rightarrow> (Some e, delLocalRPC method s))"

text \<open>\<open>compile\<close> is \<open>regexp.Compile\<close>, with a compiled pattern as the set of methods it matches.\<close>

definition Hijack :: "(bytes \<Rightarrow> (bytes \<Rightarrow> bool) option) \<Rightarrow> rpc \<Rightarrow> HijackOptions option list \<Rightarrow> stream \<Rightarrow> app_error option \<times> stream" where
  "Hijack compile f opts s =
     (let fo = MergeHijackOptions opts;
          p = \<lparr>hj_match = the_default True (ho_Match fo), hj_pattern = None, hj_rpc = f\<rparr>
      in case ho_Pattern fo of
           None \<Rightarrow> (None, s\<lparr>s_hijack := Some p\<rparr>)
         | Some pattern \<Rightarrow>
             (case compile pattern of
                None \<Rightarrow> (Some RegexpError, s)
              | Some reg \<Rightarrow> (None, s\<lparr>s_hijack := Some (p\<lparr>hj_pattern := Some reg\<rparr>)\<rparr>)))"

section \<open>Calls\<close>

definition app_MaxPacketSize :: int where
  "app_MaxPacketSize = 10 * 1024 * 1024"

definition too_large :: "Packet \<Rightarrow> bool" where
  "too_large p = (case Packet_Length p of Ret n \<Rightarrow> int n > app_MaxPacketSize | _ \<Rightarrow> False)"

text \<open>
  The packet of a call or message: \<open>later\<close> is \<open>time.Now().Add(timeout)\<close>, \<open>ctx\<close> the deadline of the
  caller's context.
\<close>

definition with_deadlines :: "int \<Rightarrow> go_time \<Rightarrow> go_time option \<Rightarrow> MessagePacket \<Rightarrow> MessagePacket" where
  "with_deadlines timeout later ctx pkt =
     pkt\<lparr>mp_Data := map_option (\<lambda>x.
        x\<lparr>md_Deadline := (if timeout \<noteq> 0 then later else md_Deadline x),
          md_ContextDeadline := (case ctx of Some d \<Rightarrow> d | None \<Rightarrow> md_ContextDeadline x)\<rparr>) (mp_Data pkt)\<rparr>"

definition sync_timeout :: "int \<Rightarrow> int option" where
  "sync_timeout d = (if d \<noteq> 0 then Some d else None)"

definition set_custom :: "bytes \<Rightarrow> MessagePacket \<Rightarrow> MessagePacket" where
  "set_custom custom pkt = pkt\<lparr>mp_Data := map_option (\<lambda>x. x\<lparr>md_Custom := custom\<rparr>) (mp_Data pkt)\<rparr>"

definition set_topic :: "bytes \<Rightarrow> MessagePacket \<Rightarrow> MessagePacket" where
  "set_topic topic pkt = pkt\<lparr>mp_Data := map_option (\<lambda>x. x\<lparr>md_Topic := topic\<rparr>) (mp_Data pkt)\<rparr>"

text \<open>\<open>Call\<close> up to its wait. The early return for an unregistered method keeps the read lock.\<close>

definition Call_start ::
  "int \<Rightarrow> go_time \<Rightarrow> go_time option \<Rightarrow> CallOptions option list \<Rightarrow> bytes \<Rightarrow> request \<Rightarrow> stream \<Rightarrow> (app_error + u64) sres" where
  "Call_start now later ctx opts method req s =
     (if rq_clientID req \<noteq> s_clientID s then HRet (Inl ErrMismatchClientID) s
      else if rq_streamID req \<noteq> s_dialogueID s then HRet (Inl ErrMismatchStreamID) s
      else
        let tmo = the_default (rq_timeout req) (co_Timeout (MergeCallOptions opts))
        in if \<not> can_RLock s then HBlock
           else if \<not> s_ok s then HRet (Inl AppEOF) s
           else if s_remoteCheck s \<and> method \<notin> set (s_remoteRPCs s) then HRet (Inl ErrRemoteRPCUnregistered) (s\<lparr>s_leaked := Suc (s_leaked s)\<rparr>)
           else case NewRequestPacketWithIDAndSessionID now (rq_id req) (s_dialogueID s) method (rq_data req) (s_pf s) of
                  Ret (pkt0, pf) \<Rightarrow>
                    (let pkt = set_custom (rq_custom req) (with_deadlines tmo later ctx pkt0);
                         s1 = s\<lparr>s_pf := pf\<rparr>
                     in if too_large (PRequest (Some pkt)) then HRet (Inl AppPacketTooLarge) s1
                        else HRet (Inr (rq_id req)) (sending (PRequest (Some pkt)) (hub (HubNew (rq_id req) (sync_timeout tmo)) s1)))
                | Fail e \<Rightarrow> HBlock
                | Panic p \<Rightarrow> HPanic p)"

text \<open>The wait ends with the hub's event, or with the caller's context.\<close>

datatype sync_result = SyncAck "response option" | SyncErr app_error

definition Call_event :: "sync_result \<Rightarrow> (app_error + response) outcome" where
  "Call_event ev =
     (case ev of
        SyncErr e \<Rightarrow> Ret (Inl e)
      | SyncAck (Some rsp) \<Rightarrow> Ret (Inr rsp)
      | SyncAck None \<Rightarrow> Panic TypeAssertion)"

definition RequestCancelTypeCanceled :: u16 where
  "RequestCancelTypeCanceled = 1"

definition Call_ctx_done :: "bool \<Rightarrow> u64 \<Rightarrow> stream \<Rightarrow> app_error sres" where
  "Call_ctx_done deadlineExceeded i s =
     (let s1 = hub (HubCancel i) s in
      if deadlineExceeded then HRet AppDeadlineExceeded s1
      else if \<not> can_RLock s then HBlock
      else if \<not> s_ok s then HRet AppEOF s1
      else HRet AppCanceled (sending (PRequestCancel (NewRequestCancelPacketWithIDAndSessionID i (s_dialogueID s) RequestCancelTypeCanceled)) s1))"

record async_call =
  cl_method :: bytes
  cl_request :: request
  cl_response :: "response option"
  cl_error :: "app_error option"

text \<open>\<open>CallAsync\<close> does not look at its options.\<close>

definition CallAsync_start ::
  "int \<Rightarrow> go_time \<Rightarrow> go_time option \<Rightarrow> CallOptions option list \<Rightarrow> bytes \<Rightarrow> request \<Rightarrow> stream \<Rightarrow> (app_error + async_call) sres" where
  "CallAsync_start now later ctx opts method req s =
     (if rq_clientID req \<noteq> s_clientID s then HRet (Inl ErrMismatchClientID) s
      else if rq_streamID req \<noteq> s_dialogueID s then HRet (Inl ErrMismatchStreamID) s
      else if \<not> can_RLock s then HBlock
      else if \<not> s_ok s then HRet (Inl AppEOF) s
      else case NewRequestPacketWithIDAndSessionID now (rq_id req) (s_dialogueID s) method (rq_data req) (s_pf s) of
             Ret (pkt0, pf) \<Rightarrow>
               (let pkt = set_custom (rq_custom req) (with_deadlines (rq_timeout req) later ctx pkt0);
                    s1 = s\<lparr>s_pf := pf\<rparr>
                in if too_large (PRequest (Some pkt)) then HRet (Inl AppPacketTooLarge) s1
                   else HRet (Inr \<lparr>cl_method = method, cl_request = req, cl_response = None, cl_error = None\<rparr>)
                          (sending (PRequest (Some pkt)) (hub (HubNew (rq_id req) (sync_timeout (rq_timeout req))) s1)))
           | Fail e \<Rightarrow> HBlock
           | Panic p \<Rightarrow> HPanic p)"

text \<open>The callback puts the error into the call; a response is not stored.\<close>

definition CallAsync_callback :: "sync_result \<Rightarrow> async_call \<Rightarrow> async_call" where
  "CallAsync_callback ev c = (case ev of SyncErr e \<Rightarrow> c\<lparr>cl_error := Some e\<rparr> | SyncAck _ \<Rightarrow> c)"

section \<open>Messages\<close>

definition NewMessage :: "int \<Rightarrow> bytes \<Rightarrow> NewMessageOptions option list \<Rightarrow> stream \<Rightarrow> (message \<times> stream) outcome" where
  "NewMessage now data opts s =
     obind (NewPacketID now (s_pf s)) (\<lambda>(i, pf).
       let opt = MergeNewMessageOptions opts
       in Ret (\<lparr>ms_data = data, ms_custom = the_default [] (nm_Custom opt), ms_id = i, ms_clientID = s_clientID s,
                ms_streamID = s_dialogueID s, ms_topic = the_default [] (nm_Topic opt), ms_timeout = 0,
                ms_cnss = the_default 0 (nm_Cnss opt), ms_sm = True\<rparr>, s\<lparr>s_pf := pf\<rparr>))"

definition ackMessage :: "u64 \<Rightarrow> bytes option \<Rightarrow> stream \<Rightarrow> app_error option sres" where
  "ackMessage i err s =
     (if \<not> can_RLock s then HBlock
      else if \<not> s_ok s then HRet (Some AppEOF) s
      else HRet None (sending (PMessageAck (NewMessageAckPacketWithSessionID (s_dialogueID s) i err)) s))"

text \<open>\<open>Error\<close> and \<open>Done\<close> of a message.\<close>

definition message_Error :: "bytes option \<Rightarrow> message \<Rightarrow> stream \<Rightarrow> app_error option sres" where
  "message_Error err msg s = (if \<not> ms_sm msg then HRet (Some ErrNilStream) s else ackMessage (ms_id msg) err s)"

definition message_Done :: "message \<Rightarrow> stream \<Rightarrow> app_error option sres" where
  "message_Done msg s = (if \<not> ms_sm msg then HRet (Some ErrNilStream) s else ackMessage (ms_id msg) None s)"

text \<open>\<open>Publish\<close> and \<open>PublishAsync\<close> up to their waits; \<open>Inr None\<close> is a message nobody waits for.\<close>

definition Publish_start ::
  "int \<Rightarrow> go_time \<Rightarrow> go_time option \<Rightarrow> PublishOptions option list \<Rightarrow> message \<Rightarrow> stream \<Rightarrow> (app_error + u64 option) sres" where
  "Publish_start now later ctx opts msg s =
     (if ms_clientID msg \<noteq> s_clientID s then HRet (Inl ErrMismatchClientID) s
      else if ms_streamID msg \<noteq> s_dialogueID s then HRet (Inl ErrMismatchStreamID) s
      else if \<not> can_RLock s then HBlock
      else if \<not> s_ok s then HRet (Inl AppEOF) s
      else
        let tmo = the_default (ms_timeout msg) (po_Timeout (MergePublishOptions opts))
        in case NewMessagePacketWithIDAndSessionID now (ms_id msg) (s_dialogueID s) [] (ms_data msg) (s_pf s) of
             Ret (pkt0, pf) \<Rightarrow>
               (let pkt = set_custom (ms_custom msg) (set_topic (ms_topic msg) (with_deadlines tmo later ctx pkt0));
                    s1 = s\<lparr>s_pf := pf\<rparr>
                in if too_large (PMessage pkt) then HRet (Inl AppPacketTooLarge) s1
                   else if ms_cnss msg = app_CnssAtMostOnce then HRet (Inr None) (sending (PMessage pkt) s1)
                   else HRet (Inr (Some (ms_id msg))) (sending (PMessage pkt) (hub (HubNew (ms_id msg) (sync_timeout tmo)) s1)))
           | Fail e \<Rightarrow> HBlock
           | Panic p \<Rightarrow> HPanic p)"

record async_publish =
  pb_message :: message
  pb_error :: "app_error option"

definition PublishAsync_start ::
  "int \<Rightarrow> go_time \<Rightarrow> go_time option \<Rightarrow> PublishOptions option list \<Rightarrow> message \<Rightarrow> stream \<Rightarrow> (app_error + async_publish option) sres" where
  "PublishAsync_start now later ctx opts msg s =
     (if ms_clientID msg \<noteq> s_clientID s then HRet (Inl ErrMismatchClientID) s
      else if ms_streamID msg \<noteq> s_dialogueID s then HRet (Inl ErrMismatchStreamID) s
      else if \<not> can_RLock s then HBlock
      else if \<not> s_ok s then HRet (Inl AppEOF) s
      else
        let tmo = the_default (ms_timeout msg) (po_Timeout (MergePublishOptions opts))
        in case NewMessagePacketWithIDAndSessionID now (ms_id msg) (s_dialogueID s) [] (ms_data msg) (s_pf s) of
             Ret (pkt0, pf) \<Rightarrow>
               (let pkt = set_custom (ms_custom msg) (set_topic (ms_topic msg) (with_deadlines tmo later ctx pkt0));
                    s1 = s\<lparr>s_pf := pf\<rparr>
                in if too_large (PMessage pkt) then HRet (Inl AppPacketTooLarge) s1
                   else if ms_cnss msg = app_CnssAtMostOnce then HRet (Inr None) (sending (PMessage pkt) s1)
                   else HRet (Inr (Some \<lparr>pb_message = msg, pb_error = None\<rparr>)) (sending (PMessage pkt) (hub (HubNew (ms_id msg) (sync_timeout tmo)) s1)))
           | Fail e \<Rightarrow> HBlock
           | Panic p \<Rightarrow> HPanic p)"

definition PublishAsync_callback :: "sync_result \<Rightarrow> async_publish \<Rightarrow> async_publish" where
  "PublishAsync_callback ev c = (case ev of SyncErr e \<Rightarrow> c\<lparr>pb_error := Some e\<rparr> | SyncAck _ \<Rightarrow> c)"

text \<open>The case of \<open>messageCh\<close>; the other one is the caller's context.\<close>

definition Receive :: "stream \<Rightarrow> (app_error + message) sres" where
  "Receive s =
     (case buf (s_messageCh s) of
        pkt # ps \<Rightarrow>
          (case mp_Data pkt of
             None \<Rightarrow> HPanic NilDereference
           | Some x \<Rightarrow>
               HRet (Inr \<lparr>ms_data = md_Value x, ms_custom = md_Custom x, ms_id = PacketID (mp_hdr pkt), ms_clientID = s_clientID s,
                          ms_streamID = s_dialogueID s, ms_topic = md_Topic x, ms_timeout = md_Timeout x, ms_cnss = Cnss (mp_hdr pkt), ms_sm = True\<rparr>)
                 (s\<lparr>s_messageCh := (s_messageCh s)\<lparr>buf := ps\<rparr>\<rparr>))
      | [] \<Rightarrow> (if is_closed (s_messageCh s) then HRet (Inl AppEOF) s else HBlock))"

section \<open>Raw bytes\<close>

definition readDeadlineExceeded :: "go_time \<Rightarrow> stream \<Rightarrow> bool" where
  "readDeadlineExceeded now s \<longleftrightarrow> \<not> IsZero (s_dlRead s) \<and> Before (s_dlRead s) now"

definition writeDeadlineExceeded :: "go_time \<Rightarrow> stream \<Rightarrow> bool" where
  "writeDeadlineExceeded now s \<longleftrightarrow> \<not> IsZero (s_dlWrite s) \<and> Before (s_dlWrite s) now"

text \<open>The receive of \<open>Read\<close>; \<open>n\<close> is the length of the caller's slice, the bytes copied into it are returned.\<close>

definition recv_raw :: "nat \<Rightarrow> stream \<Rightarrow> (app_error + bytes) sres" where
  "recv_raw n s =
     (case buf (s_streamCh s) of
        pkt # ps \<Rightarrow>
          HRet (Inr (take n (st_Data pkt))) (s\<lparr>s_streamCh := (s_streamCh s)\<lparr>buf := ps\<rparr>, s_cache := drop n (st_Data pkt)\<rparr>)
      | [] \<Rightarrow> (if is_closed (s_streamCh s) then HRet (Inl AppEOF) s else HBlock))"

text \<open>
  \<open>Read\<close> in three steps: the cache and a deadline that has passed answer at once (\<open>Some\<close>), otherwise
  the caller enters the list of waiters and waits for a packet or for the deadline.
\<close>

definition Read_start :: "go_time \<Rightarrow> nat \<Rightarrow> stream \<Rightarrow> (app_error + bytes) option sres" where
  "Read_start now n s =
     (if s_cache s \<noteq> [] then HRet (Some (Inr (take n (s_cache s)))) (s\<lparr>s_cache := drop n (s_cache s)\<rparr>)
      else if readDeadlineExceeded now s then
        (case recv_raw n s of
           HRet r s' \<Rightarrow> HRet (Some r) s'
         | _ \<Rightarrow> HRet (Some (Inl AppDeadlineExceeded)) s)
      else HRet None (s\<lparr>s_readers := s_readers s @ [Checked]\<rparr>))"

definition Read_list :: "nat \<Rightarrow> stream \<Rightarrow> unit sres" where
  "Read_list i s =
     (if i < length (s_readers s) \<and> s_readers s ! i = Checked then HRet () (s\<lparr>s_readers := (s_readers s)[i := Listed]\<rparr>) else HBlock)"

definition Read_wait :: "bool \<Rightarrow> nat \<Rightarrow> nat \<Rightarrow> stream \<Rightarrow> (app_error + bytes) sres" where
  "Read_wait deadline n i s =
     (if i < length (s_readers s) \<and> s_readers s ! i \<noteq> Checked then
        (let s1 = s\<lparr>s_readers := remove_at i (s_readers s)\<rparr> in
         if deadline then (if s_readers s ! i = Fired then HRet (Inl AppDeadlineExceeded) s1 else HBlock)
         else recv_raw n s1)
      else HBlock)"

text \<open>\<open>Write\<close> in the same three steps; it holds the read lock until it returns.\<close>

definition Write_start :: "int \<Rightarrow> go_time \<Rightarrow> bytes \<Rightarrow> stream \<Rightarrow> (app_error + nat) option sres" where
  "Write_start clock now b s =
     (if \<not> can_RLock s then HBlock
      else if \<not> s_ok s then HRet (Some (Inl AppEOF)) s
      else case NewStreamPacketWithSessionID clock (s_dialogueID s) b (s_pf s) of
             Ret (pkt, pf) \<Rightarrow>
               (let s1 = s\<lparr>s_pf := pf\<rparr> in
                if too_large (PStream pkt) then HRet (Some (Inl AppPacketTooLarge)) s1
                else if writeDeadlineExceeded now s then
                  (case ch_send (s_writeIn s) (PStream pkt) of
                     Sent ch \<Rightarrow> HRet (Some (Inr (length b))) (s1\<lparr>s_writeIn := ch\<rparr>)
                   | Full \<Rightarrow> HRet (Some (Inl AppDeadlineExceeded)) s1
                   | OnClosed \<Rightarrow> HSendOnClosed)
                else HRet None (s1\<lparr>s_writers := s_writers s1 @ [(Checked, pkt)]\<rparr>))
           | Fail e \<Rightarrow> HBlock
           | Panic p \<Rightarrow> HPanic p)"

definition Write_list :: "nat \<Rightarrow> stream \<Rightarrow> unit sres" where
  "Write_list i s =
     (if i < length (s_writers s) \<and> fst (s_writers s ! i) = Checked
      then HRet () (s\<lparr>s_writers := (s_writers s)[i := (Listed, snd (s_writers s ! i))]\<rparr>) else HBlock)"

datatype write_case = WriteSend | WriteDeadline | WriteStop

definition Write_wait :: "write_case \<Rightarrow> nat \<Rightarrow> stream \<Rightarrow> (app_error + nat) sres" where
  "Write_wait c i s =
     (if i < length (s_writers s) \<and> fst (s_writers s ! i) \<noteq> Checked then
        (let pkt = snd (s_writers s ! i);
             s1 = s\<lparr>s_writers := remove_at i (s_writers s)\<rparr>
         in case c of
              WriteSend \<Rightarrow>
                (case ch_send (s_writeIn s) (PStream pkt) of
                   Sent ch \<Rightarrow> HRet (Inr (length (st_Data pkt))) (s1\<lparr>s_writeIn := ch\<rparr>)
                 | Full \<Rightarrow> HBlock
                 | OnClosed \<Rightarrow> HSendOnClosed)
            | WriteDeadline \<Rightarrow> (if fst (s_writers s ! i) = Fired then HRet (Inl AppDeadlineExceeded) s1 else HBlock)
            | WriteStop \<Rightarrow> (if s_monitorStop s then HRet (Inl AppEOF) s1 else HBlock))
      else HBlock)"

section \<open>Deadlines\<close>

text \<open>\<open>time.Until\<close>, which saturates at the range of a duration.\<close>

definition Until :: "go_time \<Rightarrow> go_time \<Rightarrow> int" where
  "Until now t = max (- (2 ^ 63)) (min (2 ^ 63 - 1) (instant t - instant now))"

text \<open>A pending timer of the previous deadline is cancelled; a deadline in the future starts a new one.\<close>

definition SetReadDeadline :: "go_time \<Rightarrow> go_time \<Rightarrow> stream \<Rightarrow> stream" where
  "SetReadDeadline now t s =
     (let s1 = (if s_dlReadSync s \<noteq> None then hub (HubCancelDeadline True) (s\<lparr>s_dlReadSync := None\<rparr>) else s);
          s2 = (if Until now t > 0 then hub (HubAddDeadline True (Until now t)) (s1\<lparr>s_dlReadSync := Some True\<rparr>) else s1)
      in s2\<lparr>s_dlRead := t\<rparr>)"

definition SetWriteDeadline :: "go_time \<Rightarrow> go_time \<Rightarrow> stream \<Rightarrow> stream" where
  "SetWriteDeadline now t s =
     (let s1 = (if s_dlWriteSync s \<noteq> None then hub (HubCancelDeadline False) (s\<lparr>s_dlWriteSync := None\<rparr>) else s);
          s2 = (if Until now t > 0 then hub (HubAddDeadline False (Until now t)) (s1\<lparr>s_dlWriteSync := Some True\<rparr>) else s1)
      in s2\<lparr>s_dlWrite := t\<rparr>)"

definition SetDeadline :: "go_time \<Rightarrow> go_time \<Rightarrow> stream \<Rightarrow> stream" where
  "SetDeadline now t s = SetWriteDeadline now t (SetReadDeadline now t s)"

text \<open>The callbacks of the timers close the channel of every listed waiter.\<close>

definition fire :: "waiting \<Rightarrow> waiting" where
  "fire w = (if w = Listed then Fired else w)"

definition read_deadline_fires :: "stream \<Rightarrow> unit sres" where
  "read_deadline_fires s =
     (if s_dlReadSync s = Some True then HRet () (s\<lparr>s_dlReadSync := Some False, s_readers := map fire (s_readers s)\<rparr>) else HBlock)"

definition write_deadline_fires :: "stream \<Rightarrow> unit sres" where
  "write_deadline_fires s =
     (if s_dlWriteSync s = Some True
      then HRet () (s\<lparr>s_dlWriteSync := Some False, s_writers := map (\<lambda>(w, pkt). (fire w, pkt)) (s_writers s)\<rparr>) else HBlock)"

end
