(* ===== verification/App_System.thy ===== *)
theory App_System
  imports App_Api "HOL-Library.Sublist" "HOL-Library.Multiset"
begin

text \<open>
  A stream as a whole: every turn of its goroutines, of the handlers of calls, of its timers and of
  its callers is an operation, and a history records what was delivered, read, written and handled.
  This theory shows which fields each operation can touch, and the invariant of locks and channels.
\<close>

section \<open>Turns\<close>

datatype app_op =
    AIn sturn Packet
  | AInEnd
  | AOut sturn
  | ADrained
  | AFiniWait
  | AFini
  | AProg "dg_error option" go_time nat
  | ASender nat
  | AReadStart go_time nat
  | AReadList nat
  | AReadWait bool nat nat
  | AWriteStart int go_time bytes
  | AWriteList nat
  | AWriteWait write_case nat
  | AReadFires
  | AWriteFires
  | ASetReadDeadline go_time go_time
  | ASetWriteDeadline go_time go_time
  | AClose
  | ARegister int bytes rpc
  | ARegisterEnd bytes "app_error option"
  | AHijack "bytes \<Rightarrow> (bytes \<Rightarrow> bool) option" rpc "HijackOptions option list"
  | ACall int go_time "go_time option" "CallOptions option list" bytes request
  | ACallCtx bool u64
  | ACallAsync int go_time "go_time option" "CallOptions option list" bytes request
  | APublish int go_time "go_time option" "PublishOptions option list" message
  | APublishAsync int go_time "go_time option" "PublishOptions option list" message
  | AAck u64 "bytes option"
  | AReceive
  | ANewID int

fun app_turn :: "app_op \<Rightarrow> stream \<Rightarrow> unit sres" where
  "app_turn (AIn t pkt) s = (if s_reading s then readPkt_in t pkt s else HBlock)"
| "app_turn AInEnd s = (if s_reading s then HRet () (readPkt_end s) else HBlock)"
| "app_turn (AOut t) s = (if s_handling s then handlePkt_out t s else HBlock)"
| "app_turn ADrained s = (if s_handling s then handlePkt_drained s else HBlock)"
| "app_turn AFiniWait s = fini_wait s"
| "app_turn AFini s = sm_fini s"
| "app_turn (AProg werr now n) s = prog werr now n s"
| "app_turn (ASender n) s = sender_step n s"
| "app_turn (AReadStart now n) s = forget (Read_start now n s)"
| "app_turn (AReadList i) s = Read_list i s"
| "app_turn (AReadWait dl n i) s = forget (Read_wait dl n i s)"
| "app_turn (AWriteStart clock now b) s = forget (Write_start clock now b s)"
| "app_turn (AWriteList i) s = Write_list i s"
| "app_turn (AWriteWait c i) s = forget (Write_wait c i s)"
| "app_turn AReadFires s = read_deadline_fires s"
| "app_turn AWriteFires s = write_deadline_fires s"
| "app_turn (ASetReadDeadline now t) s = HRet () (SetReadDeadline now t s)"
| "app_turn (ASetWriteDeadline now t) s = HRet () (SetWriteDeadline now t s)"
| "app_turn AClose s = sm_Close s"
| "app_turn (ARegister now method f) s = forget (Register_start now method f s)"
| "app_turn (ARegisterEnd method err) s = HRet () (snd (Register_end method err s))"
| "app_turn (AHijack compile f opts) s = HRet () (snd (Hijack compile f opts s))"
| "app_turn (ACall now later ctx opts method req) s = forget (Call_start now later ctx opts method req s)"
| "app_turn (ACallCtx dl i) s = forget (Call_ctx_done dl i s)"
| "app_turn (ACallAsync now later ctx opts method req) s = forget (CallAsync_start now later ctx opts method req s)"
| "app_turn (APublish now later ctx opts msg) s = forget (Publish_start now later ctx opts msg s)"
| "app_turn (APublishAsync now later ctx opts msg) s = forget (PublishAsync_start now later ctx opts msg s)"
| "app_turn (AAck i err) s = forget (ackMessage i err s)"
| "app_turn AReceive s = forget (Receive s)"
| "app_turn (ANewID now) s = of_outcome (obind (NewPacketID now (s_pf s)) (\<lambda>(i, pf). Ret (s\<lparr>s_pf := pf\<rparr>)))"

section \<open>What the operations touch\<close>

text \<open>
  The callers' requests only draw ids, talk to the hub, change the tables of procedures or the
  deadlines, and may queue one packet of their own as senders, which needs the stream to be up and
  no writer waiting for its lock.
\<close>

definition own_packet :: "Packet \<Rightarrow> bool" where
  "own_packet p = (case p of PStream _ \<Rightarrow> False | PResponse _ \<Rightarrow> False | _ \<Rightarrow> True)"

definition same_core :: "stream \<Rightarrow> stream \<Rightarrow> bool" where
  "same_core s s' \<longleftrightarrow>
     s_cache s' = s_cache s \<and> s_streamCh s' = s_streamCh s \<and> s_messageCh s' = s_messageCh s \<and> s_writeIn s' = s_writeIn s
     \<and> s_down s' = s_down s \<and> s_running s' = s_running s \<and> s_readers s' = s_readers s \<and> s_writers s' = s_writers s
     \<and> s_ok s' = s_ok s \<and> s_finiOnce s' = s_finiOnce s \<and> s_lockWait s' = s_lockWait s \<and> s_monitorStop s' = s_monitorStop s
     \<and> s_handling s' = s_handling s \<and> s_reading s' = s_reading s \<and> s_dialogueID s' = s_dialogueID s \<and> s_dgClosed s' = s_dgClosed s \<and> s_end s' = s_end s"

definition asks :: "stream \<Rightarrow> stream \<Rightarrow> bool" where
  "asks s s' \<longleftrightarrow> same_core s s'
     \<and> (s_senders s' = s_senders s \<or> (\<exists>p. s_senders s' = s_senders s @ [p] \<and> own_packet p \<and> s_ok s \<and> can_RLock s))
     \<and> (s_leaked s' = s_leaked s \<or> s_ok s \<and> can_RLock s)"

fun caller :: "app_op \<Rightarrow> bool" where
  "caller (ASetReadDeadline now t) = True"
| "caller (ASetWriteDeadline now t) = True"
| "caller AClose = True"
| "caller (ARegister now method f) = True"
| "caller (ARegisterEnd method err) = True"
| "caller (AHijack compile f opts) = True"
| "caller (ACall now later ctx opts method req) = True"
| "caller (ACallCtx dl i) = True"
| "caller (ACallAsync now later ctx opts method req) = True"
| "caller (APublish now later ctx opts msg) = True"
| "caller (APublishAsync now later ctx opts msg) = True"
| "caller (AAck i err) = True"
| "caller (ANewID now) = True"
| "caller _ = False"

lemmas asks_defs = asks_def same_core_def hub_def sending_def own_packet_def

lemma asks_deadlines: "asks s (SetReadDeadline now t s)" "asks s (SetWriteDeadline now t s)"
  by (simp_all add: SetReadDeadline_def SetWriteDeadline_def Let_def asks_defs)

lemma asks_Close: "sm_Close s = HRet () s' \<Longrightarrow> asks s s'"
  by (auto simp: sm_Close_def asks_defs split: if_splits)

lemma asks_Register: "Register_start now method f s = HRet x s' \<Longrightarrow> asks s s'"
  by (auto simp: Register_start_def addLocalRPC_def asks_defs split: if_splits outcome.splits)

lemma asks_Register_end: "asks s (snd (Register_end method err s))"
  by (simp add: Register_end_def delLocalRPC_def asks_defs split: option.splits)

lemma asks_Hijack: "asks s (snd (Hijack compile f opts s))"
  by (simp add: Hijack_def asks_defs Let_def split: option.splits)

lemma asks_Call: "Call_start now later ctx opts method req s = HRet x s' \<Longrightarrow> asks s s'"
  by (auto simp: Call_start_def asks_defs Let_def split: if_splits outcome.splits)

lemma asks_Call_ctx: "Call_ctx_done dl i s = HRet x s' \<Longrightarrow> asks s s'"
  by (auto simp: Call_ctx_done_def asks_defs Let_def split: if_splits)

lemma asks_CallAsync: "CallAsync_start now later ctx opts method req s = HRet x s' \<Longrightarrow> asks s s'"
  by (auto simp: CallAsync_start_def asks_defs Let_def split: if_splits outcome.splits)

lemma asks_Publish: "Publish_start now later ctx opts msg s = HRet x s' \<Longrightarrow> asks s s'"
  by (auto simp: Publish_start_def asks_defs Let_def split: if_splits outcome.splits)

lemma asks_PublishAsync: "PublishAsync_start now later ctx opts msg s = HRet x s' \<Longrightarrow> asks s s'"
  by (auto simp: PublishAsync_start_def asks_defs Let_def split: if_splits outcome.splits)

lemma asks_ack: "ackMessage i err s = HRet x s' \<Longrightarrow> asks s s'"
  by (auto simp: ackMessage_def asks_defs split: if_splits)

lemma asks_NewID: "of_outcome (obind (NewPacketID now (s_pf s)) (\<lambda>(i, pf). Ret (s\<lparr>s_pf := pf\<rparr>))) = HRet () s' \<Longrightarrow> asks s s'"
  by (auto simp: of_outcome_HRet obind_Ret_iff asks_defs)

lemma caller_asks: "caller op \<Longrightarrow> app_turn op s = HRet () s' \<Longrightarrow> asks s s'"
  by (cases op) (auto simp: forget_HRet asks_deadlines asks_Close asks_Register asks_Register_end asks_Hijack asks_Call asks_Call_ctx
      asks_CallAsync asks_Publish asks_PublishAsync asks_ack asks_NewID)

text \<open>A packet from the dialogue: what it adds to the channels, to the running handlers and to what is written down.\<close>

definition raw_data :: "Packet list \<Rightarrow> bytes list" where
  "raw_data ps = concat (map (\<lambda>p. case p of PStream q \<Rightarrow> [st_Data q] | _ \<Rightarrow> []) ps)"

lemma raw_data_simps [simp]: "raw_data [] = []" "raw_data (ps @ qs) = raw_data ps @ raw_data qs"
  "raw_data (p # ps) = (case p of PStream q \<Rightarrow> [st_Data q] | _ \<Rightarrow> []) @ raw_data ps"
  by (simp_all add: raw_data_def)

definition stream_packet :: "Packet \<Rightarrow> StreamPacket list" where
  "stream_packet p = (case p of PStream q \<Rightarrow> [q] | _ \<Rightarrow> [])"

definition receives :: "StreamPacket list \<Rightarrow> stream \<Rightarrow> stream \<Rightarrow> bool" where
  "receives qs s s' \<longleftrightarrow>
     s_cache s' = s_cache s \<and> s_writeIn s' = s_writeIn s \<and> s_readers s' = s_readers s \<and> s_writers s' = s_writers s
     \<and> s_senders s' = s_senders s \<and> s_leaked s' = s_leaked s \<and> s_ok s' = s_ok s \<and> s_finiOnce s' = s_finiOnce s
     \<and> s_lockWait s' = s_lockWait s \<and> s_monitorStop s' = s_monitorStop s \<and> s_handling s' = s_handling s
     \<and> s_reading s' = s_reading s \<and> s_dialogueID s' = s_dialogueID s \<and> s_dgClosed s' = s_dgClosed s \<and> s_end s' = s_end s
     \<and> evolves (s_messageCh s) (s_messageCh s') \<and> evolves (s_streamCh s) (s_streamCh s')
     \<and> buf (s_streamCh s') = buf (s_streamCh s) @ qs \<and> raw_data (s_down s') = raw_data (s_down s)"

lemma receives_refl [simp]: "receives [] s s"
  by (simp add: receives_def)

lemma SetSessionID_raw [simp]:
  "(case Packet_SetSessionID d p of PStream q \<Rightarrow> [st_Data q] | _ \<Rightarrow> []) = (case p of PStream q \<Rightarrow> [st_Data q] | _ \<Rightarrow> [])"
  by (cases "(d, p)" rule: Packet_SetSessionID.cases) simp_all

lemma receives_hub [simp]: "receives qs s (hub x s') = receives qs s s'"
  by (simp add: hub_def receives_def)

lemma receives_cancels [simp]:
  "receives qs s (cancel_rpc i s') = receives qs s s'" "receives qs s (put_cancel i dl s') = receives qs s s'"
  "receives qs s (doRPC f req s') = receives qs s s'"
  by (simp_all add: cancel_rpc_def put_cancel_def doRPC_def receives_def)

lemma receives_Write:
  "raw_data [p] = [] \<Longrightarrow> receives qs s (dg_Write werr p s') = receives qs s s'"
  by (cases werr) (auto simp: dg_Write_def receives_def)

lemma receives_remote [simp]:
  "receives qs s (s'\<lparr>s_remoteRPCs := r\<rparr>) = receives qs s s'" "receives qs s (s'\<lparr>s_registered := g\<rparr>) = receives qs s s'"
  by (simp_all add: receives_def)

lemma receives_Message: "handleInMessagePacket p s = HRet ret s' \<Longrightarrow> receives [] s s'"
  by (auto simp: handleInMessagePacket_def receives_def dest: evolves_send split: send_result.splits)

lemma receives_Request: "handleInRequestPacket werr p s = HRet ret s' \<Longrightarrow> receives [] s s'"
  by (auto simp: handleInRequestPacket_def Let_def receives_Write split: option.splits)

lemma receives_Register: "handleInRegisterPacket werr p s = HRet ret s' \<Longrightarrow> receives [] s s'"
  by (auto simp: handleInRegisterPacket_def Let_def receives_Write split: if_splits)

lemma receives_Stream:
  "handleInStreamPacket pick dgDone p s = HRet ret s' \<Longrightarrow> receives (if ret = IOSuccess then [p] else []) s s'"
  by (auto simp: handleInStreamPacket_def receives_def dest: evolves_send select_chan_sent split: send_result.splits selected.splits)

lemma handleIn_receives:
  "sm_handleIn t pkt s = HRet ret s' \<Longrightarrow> receives (if ret = IOSuccess then stream_packet pkt else []) s s'"
  by (cases pkt) (auto simp: sm_handleIn_def stream_packet_def handleInMessageAckPacket_def handleInRequestCancelPacket_def
      handleInResponsePacket_def handleInRegisterAckPacket_def Let_def
      dest: receives_Message receives_Request receives_Register receives_Stream split: option.splits if_splits)

text \<open>A packet that goes down: the hub and what is written.\<close>

definition passes :: "Packet list \<Rightarrow> stream \<Rightarrow> stream \<Rightarrow> bool" where
  "passes ps s s' \<longleftrightarrow>
     s_cache s' = s_cache s \<and> s_streamCh s' = s_streamCh s \<and> s_messageCh s' = s_messageCh s \<and> s_writeIn s' = s_writeIn s
     \<and> s_running s' = s_running s \<and> s_readers s' = s_readers s \<and> s_writers s' = s_writers s \<and> s_senders s' = s_senders s
     \<and> s_leaked s' = s_leaked s \<and> s_ok s' = s_ok s \<and> s_finiOnce s' = s_finiOnce s \<and> s_lockWait s' = s_lockWait s
     \<and> s_monitorStop s' = s_monitorStop s \<and> s_handling s' = s_handling s \<and> s_reading s' = s_reading s
     \<and> s_dialogueID s' = s_dialogueID s \<and> s_dgClosed s' = s_dgClosed s \<and> s_end s' = s_end s
     \<and> s_down s' = s_down s @ map (Packet_SetSessionID (s_dialogueID s)) ps"

lemma passes_here [simp]: "passes [] s s" "passes [] s (hub x s)" "passes [p] s (dg_Write None p s)"
  by (simp_all add: passes_def hub_def dg_Write_def)

definition goes_down :: "Packet \<Rightarrow> bool" where
  "goes_down p = (case p of PMessage _ \<Rightarrow> True | PMessageAck _ \<Rightarrow> True | PRequest _ \<Rightarrow> True | PRequestCancel _ \<Rightarrow> True | PStream _ \<Rightarrow> True
      | PRegister _ \<Rightarrow> True | _ \<Rightarrow> False)"

text \<open>What a handler answers: it passes the packet on, or drops it and reports a full buffer or an error.\<close>

definition out_result :: "dg_error option \<Rightarrow> Packet \<Rightarrow> IORet" where
  "out_result werr p =
     (case werr of
        None \<Rightarrow> IOSuccess
      | Some e \<Rightarrow> if \<not> goes_down p then IOSuccess
          else if e = DgShortBuffer \<and> (case p of PMessageAck _ \<Rightarrow> False | _ \<Rightarrow> True) then IODiscard else IOErr)"

lemmas out_handler_defs = handleOutMessagePacket_def handleOutMessageAckPacket_def handleOutRequestPacket_def
  handleOutRequestCancelPacket_def handleOutRegisterPacket_def handleOutStreamPacket_def

lemma handleOut_result:
  "sm_handleOut t p s = HRet ret s' \<Longrightarrow> ret = out_result (st_werr t) p"
  by (cases p; cases "st_werr t") (simp_all add: sm_handleOut_def goes_down_def out_result_def out_handler_defs split: option.splits if_splits)

lemma handleOut_passes:
  "sm_handleOut t p s = HRet ret s' \<Longrightarrow> passes (if st_werr t = None \<and> goes_down p then [p] else []) s s'"
  by (cases p; cases "st_werr t") (auto simp: sm_handleOut_def goes_down_def out_handler_defs dg_Write_def [of "Some _"]
      split: option.splits if_splits)

section \<open>Locks and channels\<close>

text \<open>
  The well-formedness of a stream: no channel holds more than its capacity, the three channels close
  together with the stream and nobody who may send is left then, and the end of a stream has begun
  exactly when one of its goroutines has stopped.
\<close>

definition stream_inv :: "stream \<Rightarrow> bool" where
  "stream_inv s \<longleftrightarrow>
     is_closed (s_writeIn s) = (\<not> s_ok s) \<and> is_closed (s_messageCh s) = (\<not> s_ok s) \<and> is_closed (s_streamCh s) = (\<not> s_ok s)
     \<and> chan_ok (s_writeIn s) \<and> chan_ok (s_messageCh s) \<and> chan_ok (s_streamCh s)
     \<and> (\<not> s_ok s \<longrightarrow> s_lockWait s \<and> s_senders s = [] \<and> s_writers s = [] \<and> buf (s_writeIn s) = [])
     \<and> (s_lockWait s \<longrightarrow> s_finiOnce s) \<and> (s_finiOnce s \<longrightarrow> s_monitorStop s)
     \<and> (s_finiOnce s \<longleftrightarrow> \<not> s_handling s \<or> \<not> s_reading s)"

lemma inv_newStream: "stream_inv (newStream c d pf chk dlgt r w)"
  by (simp add: stream_inv_def newStream_def)

lemma inv_asks: "stream_inv s \<Longrightarrow> asks s s' \<Longrightarrow> stream_inv s'"
  by (auto simp: stream_inv_def asks_def same_core_def)

lemma inv_receives: "stream_inv s \<Longrightarrow> receives qs s s' \<Longrightarrow> stream_inv s'"
  by (auto simp: stream_inv_def receives_def evolves_def)

lemma inv_passes: "stream_inv s \<Longrightarrow> passes ps s s' \<Longrightarrow> stream_inv s'"
  by (auto simp: stream_inv_def passes_def)

lemma chan_ok_pop: "chan_ok a \<Longrightarrow> buf a = x # xs \<Longrightarrow> chan_ok (a\<lparr>buf := xs\<rparr>)"
  by (simp add: chan_ok_def)

lemma inv_stops:
  "stream_inv s \<Longrightarrow> stream_inv ((start_fini s)\<lparr>s_handling := False\<rparr>)" "stream_inv s \<Longrightarrow> stream_inv ((start_fini s)\<lparr>s_reading := False\<rparr>)"
  by (auto simp: stream_inv_def start_fini_def)

lemma inv_out_taken: "stream_inv s \<Longrightarrow> buf (s_writeIn s) = p # ps \<Longrightarrow> stream_inv (s\<lparr>s_writeIn := (s_writeIn s)\<lparr>buf := ps\<rparr>\<rparr>)"
  by (auto simp: stream_inv_def intro: chan_ok_pop)

lemma inv_hub [simp]: "stream_inv (hub x s) = stream_inv s"
  by (simp add: stream_inv_def hub_def)

text \<open>What a packet from \<open>writeInCh\<close> leads to, by the result of its handler.\<close>

definition after_out :: "Packet \<Rightarrow> IORet \<Rightarrow> stream \<Rightarrow> stream" where
  "after_out p ret s =
     (if ret = IODiscard then hub (HubError (packet_id p) ErrShortBuffer) s
      else if ret = IOErr then (start_fini s)\<lparr>s_handling := False\<rparr> else s)"

lemma handlePkt_out_cases:
  assumes "handlePkt_out t s = HRet () s'"
  obtains (packet) p ps s1 where "buf (s_writeIn s) = p # ps"
    "passes (if st_werr t = None \<and> goes_down p then [p] else []) (s\<lparr>s_writeIn := (s_writeIn s)\<lparr>buf := ps\<rparr>\<rparr>) s1"
    "s' = after_out p (out_result (st_werr t) p) s1"
  | (closed) "buf (s_writeIn s) = []" "is_closed (s_writeIn s)" "s' = (start_fini s)\<lparr>s_handling := False\<rparr>"
proof (cases "buf (s_writeIn s)")
  case (Cons p ps)
  let ?s = "s\<lparr>s_writeIn := (s_writeIn s)\<lparr>buf := ps\<rparr>\<rparr>"
  obtain ret s1 where r: "sm_handleOut t p ?s = HRet ret s1"
    using assms Cons by (auto simp: handlePkt_out_def sm_finish_out_def split: gres.splits)
  then have "s' = after_out p ret s1" using assms Cons by (simp add: handlePkt_out_def sm_finish_out_def after_out_def split: if_splits)
  then show ?thesis using packet [OF Cons handleOut_passes [OF r]] handleOut_result [OF r] by simp
next
  case Nil
  then show ?thesis using assms closed by (simp add: handlePkt_out_def split: if_splits)
qed

lemma inv_after_out: "stream_inv s \<Longrightarrow> stream_inv (after_out p ret s)"
  by (simp add: after_out_def inv_stops)

lemma inv_out: "stream_inv s \<Longrightarrow> handlePkt_out t s = HRet () s' \<Longrightarrow> stream_inv s'"
  by (erule handlePkt_out_cases) (simp_all add: inv_stops inv_after_out inv_passes [OF inv_out_taken])

lemma inv_in: "stream_inv s \<Longrightarrow> readPkt_in t pkt s = HRet () s' \<Longrightarrow> stream_inv s'"
  by (auto simp: readPkt_in_def dest: inv_receives [OF _ handleIn_receives] intro: inv_stops split: gres.splits if_splits)

lemma inv_fini: "stream_inv s \<Longrightarrow> sm_fini s = HRet () s' \<Longrightarrow> stream_inv s'"
  by (auto simp: sm_fini_def Let_def stream_inv_def split: if_splits)

lemma prog_receives: "prog werr now n s = HRet () s' \<Longrightarrow> receives [] s s'"
  by (auto simp: prog_def Let_def receives_Write split: if_splits) (simp add: receives_def)

lemma recv_raw_cases:
  assumes "recv_raw n s = HRet r s'"
  obtains p ps where "buf (s_streamCh s) = p # ps" "r = Inr (take n (st_Data p))"
    "s' = s\<lparr>s_streamCh := (s_streamCh s)\<lparr>buf := ps\<rparr>, s_cache := drop n (st_Data p)\<rparr>"
  | "buf (s_streamCh s) = []" "is_closed (s_streamCh s)" "r = Inl AppEOF" "s' = s"
  using assms by (auto simp: recv_raw_def split: list.splits if_splits)

lemma inv_recv_raw: "stream_inv s \<Longrightarrow> recv_raw n s = HRet r s' \<Longrightarrow> stream_inv s'"
  by (erule recv_raw_cases) (auto simp: stream_inv_def intro: chan_ok_pop)

lemma inv_readers [simp]: "stream_inv (s\<lparr>s_readers := rs\<rparr>) = stream_inv s" "stream_inv (s\<lparr>s_cache := c\<rparr>) = stream_inv s"
  "stream_inv (s\<lparr>s_dgClosed := g\<rparr>) = stream_inv s"
  by (simp_all add: stream_inv_def)

lemma inv_raw_Read:
  "stream_inv s \<Longrightarrow> Read_start now n s = HRet r s' \<Longrightarrow> stream_inv s'"
  "stream_inv s \<Longrightarrow> Read_wait dl n i s = HRet x s' \<Longrightarrow> stream_inv s'"
  by (auto simp: Read_start_def Read_wait_def Let_def intro: inv_recv_raw [of s] inv_recv_raw [of "s\<lparr>s_readers := rs\<rparr>" for rs]
      split: if_splits gres.splits)

text \<open>A writer hands its chunk over, leaves with an error, or goes on to wait.\<close>

lemma Write_start_cases:
  assumes "Write_start clock now b s = HRet r s'"
  obtains pf e where "r = Some (Inl e)" "s' = s\<lparr>s_pf := pf\<rparr>"
  | pkt pf ch where "can_RLock s" "s_ok s" "st_Data pkt = b" "ch_send (s_writeIn s) (PStream pkt) = Sent ch" "r = Some (Inr (length b))"
    "s' = s\<lparr>s_pf := pf, s_writeIn := ch\<rparr>"
  | pkt pf where "can_RLock s" "s_ok s" "st_Data pkt = b" "r = None" "s' = s\<lparr>s_pf := pf, s_writers := s_writers s @ [(Checked, pkt)]\<rparr>"
proof -
  have eof: "s = s\<lparr>s_pf := s_pf s\<rparr>" by simp
  show ?thesis
  proof (cases "can_RLock s \<and> s_ok s")
    case True
    then obtain pkt pf where p: "NewStreamPacketWithSessionID clock (s_dialogueID s) b (s_pf s) = Ret (pkt, pf)"
      using assms by (auto simp: Write_start_def split: outcome.splits)
    then have d: "st_Data pkt = b" by (auto simp: factory_defs with_id_Ret obind_Ret_iff)
    let ?s1 = "s\<lparr>s_pf := pf\<rparr>"
    have r: "Write_start clock now b s = (if too_large (PStream pkt) then HRet (Some (Inl AppPacketTooLarge)) ?s1
        else if writeDeadlineExceeded now s then
          (case ch_send (s_writeIn s) (PStream pkt) of
             Sent ch \<Rightarrow> HRet (Some (Inr (length b))) (?s1\<lparr>s_writeIn := ch\<rparr>)
           | Full \<Rightarrow> HRet (Some (Inl AppDeadlineExceeded)) ?s1
           | OnClosed \<Rightarrow> HSendOnClosed)
        else HRet None (?s1\<lparr>s_writers := s_writers s @ [(Checked, pkt)]\<rparr>))"
      using True p by (simp add: Write_start_def Let_def cong: if_cong)
    show ?thesis
      by (cases "too_large (PStream pkt)"; cases "writeDeadlineExceeded now s"; cases "ch_send (s_writeIn s) (PStream pkt)")
        (use r [unfolded assms] True d in \<open>simp_all add: that\<close>)
  next
    case False
    then have "r = Some (Inl AppEOF)" "s' = s" using assms by (auto simp: Write_start_def split: if_splits)
    then show ?thesis using that(1) [of AppEOF "s_pf s"] eof by simp
  qed
qed

lemma Write_wait_cases:
  assumes "Write_wait c i s = HRet r s'"
  obtains ch where "i < length (s_writers s)" "ch_send (s_writeIn s) (PStream (snd (s_writers s ! i))) = Sent ch"
    "r = Inr (length (st_Data (snd (s_writers s ! i))))" "s' = s\<lparr>s_writers := remove_at i (s_writers s), s_writeIn := ch\<rparr>"
  | e where "i < length (s_writers s)" "r = Inl e" "s' = s\<lparr>s_writers := remove_at i (s_writers s)\<rparr>"
  using assms by (auto simp: Write_wait_def Let_def split: if_splits write_case.splits send_result.splits)

lemma inv_sent:
  assumes "stream_inv s" "ch_send (s_writeIn s) p = Sent ch"
  shows "stream_inv (s\<lparr>s_writeIn := ch\<rparr>)"
  using assms by (auto simp: stream_inv_def evolves_def dest!: evolves_send)

lemma sender_cases:
  assumes "sender_step n s = HRet () s'"
  obtains ch where "n < length (s_senders s)" "ch_send (s_writeIn s) (s_senders s ! n) = Sent ch"
    "s' = s\<lparr>s_writeIn := ch, s_senders := remove_at n (s_senders s)\<rparr>"
  using assms by (auto simp: sender_step_def split: if_splits send_result.splits)

lemma inv_fields [simp]: "stream_inv (s\<lparr>s_pf := pf\<rparr>) = stream_inv s"
  by (simp add: stream_inv_def)

lemma remove_at_Nil [simp]: "remove_at i [] = []"
  by (simp add: remove_at_def)

lemma inv_writers: "stream_inv s \<Longrightarrow> stream_inv (s\<lparr>s_writers := remove_at i (s_writers s)\<rparr>)"
  "stream_inv s \<Longrightarrow> s_ok s \<Longrightarrow> stream_inv (s\<lparr>s_writers := ws\<rparr>)"
  by (auto simp: stream_inv_def)

lemma inv_senders: "stream_inv s \<Longrightarrow> stream_inv (s\<lparr>s_senders := remove_at i (s_senders s)\<rparr>)"
  by (auto simp: stream_inv_def)

lemma inv_sender: "stream_inv s \<Longrightarrow> sender_step n s = HRet () s' \<Longrightarrow> stream_inv s'"
  by (erule sender_cases) (use inv_senders [OF inv_sent] in force)

lemma inv_Write_start:
  assumes "stream_inv s" "Write_start clock now b s = HRet r s'"
  shows "stream_inv s'"
proof -
  have i: "stream_inv (s\<lparr>s_pf := pf\<rparr>)" for pf using assms(1) by simp
  show ?thesis
    using assms(2)
  proof (cases rule: Write_start_cases)
    case (2 pkt pf ch)
    then show ?thesis using inv_sent [OF i [of pf], of "PStream pkt" ch] by simp
  next
    case (3 pkt pf)
    then show ?thesis using inv_writers(2) [OF i [of pf], of "s_writers s @ [(Checked, pkt)]"] by simp
  qed (use i in simp)
qed

lemma inv_Write_wait:
  assumes "stream_inv s" "Write_wait c i s = HRet r s'"
  shows "stream_inv s'"
  using assms(2)
proof (cases rule: Write_wait_cases)
  case (1 ch)
  then show ?thesis using inv_sent [OF inv_writers(1) [OF assms(1), of i], of "PStream (snd (s_writers s ! i))" ch] by simp
qed (use inv_writers assms(1) in simp)

lemma inv_Receive: "stream_inv s \<Longrightarrow> Receive s = HRet r s' \<Longrightarrow> stream_inv s'"
  by (auto simp: Receive_def stream_inv_def intro: chan_ok_pop split: list.splits option.splits if_splits)

lemma inv_lockWait: "stream_inv s \<Longrightarrow> s_finiOnce s \<Longrightarrow> stream_inv (s\<lparr>s_lockWait := True\<rparr>)"
  by (simp add: stream_inv_def)

lemma inv_writers_map: "stream_inv s \<Longrightarrow> length ws = length (s_writers s) \<Longrightarrow> stream_inv (s\<lparr>s_writers := ws\<rparr>)"
  by (cases "s_ok s") (auto simp: stream_inv_def)

lemma inv_syncs [simp]: "stream_inv (s\<lparr>s_dlWriteSync := y\<rparr>) = stream_inv s" "stream_inv (s\<lparr>s_dlReadSync := y\<rparr>) = stream_inv s"
  by (simp_all add: stream_inv_def)

lemma inv_waiters:
  "stream_inv s \<Longrightarrow> handlePkt_drained s = HRet () s' \<Longrightarrow> stream_inv s'"
  "stream_inv s \<Longrightarrow> fini_wait s = HRet () s' \<Longrightarrow> stream_inv s'"
  "stream_inv s \<Longrightarrow> Read_list i s = HRet () s' \<Longrightarrow> stream_inv s'"
  "stream_inv s \<Longrightarrow> Write_list i s = HRet () s' \<Longrightarrow> stream_inv s'"
  "stream_inv s \<Longrightarrow> read_deadline_fires s = HRet () s' \<Longrightarrow> stream_inv s'"
  "stream_inv s \<Longrightarrow> write_deadline_fires s = HRet () s' \<Longrightarrow> stream_inv s'"
  by (auto simp: handlePkt_drained_def fini_wait_def Read_list_def Write_list_def read_deadline_fires_def write_deadline_fires_def
      inv_lockWait inv_writers_map split: if_splits)

lemma stream_turn_inv:
  assumes "stream_inv s" "app_turn op s = HRet () s'"
  shows "stream_inv s'"
proof (cases "caller op")
  case False
  then show ?thesis using assms
    by (cases op) (auto simp: forget_HRet readPkt_end_def inv_stops
        dest: inv_waiters inv_in inv_out inv_fini inv_sender inv_raw_Read inv_Write_start inv_Write_wait inv_Receive inv_receives [OF _ prog_receives]
        split: if_splits)
qed (blast intro: inv_asks caller_asks assms)

text \<open>Only \<open>fini\<close> ends a stream and talks to its end.\<close>

definition same_end :: "stream \<Rightarrow> stream \<Rightarrow> bool" where
  "same_end s s' \<longleftrightarrow> s_dialogueID s' = s_dialogueID s \<and> s_ok s' = s_ok s \<and> s_end s' = s_end s"

lemma same_end_out: "handlePkt_out t s = HRet () s' \<Longrightarrow> same_end s s'"
  by (erule handlePkt_out_cases) (simp_all add: after_out_def passes_def same_end_def hub_def start_fini_def)

lemma same_end_in: "readPkt_in t pkt s = HRet () s' \<Longrightarrow> same_end s s'"
  by (auto simp: readPkt_in_def same_end_def start_fini_def receives_def dest!: handleIn_receives split: gres.splits if_splits)

lemma same_end_raw:
  "Read_start now n s = HRet r s' \<Longrightarrow> same_end s s'" "Read_wait dl n i s = HRet x s' \<Longrightarrow> same_end s s'"
  "Write_start clock now b s = HRet u s' \<Longrightarrow> same_end s s'" "Write_wait c i s = HRet v s' \<Longrightarrow> same_end s s'"
  by (auto simp: Read_start_def Read_wait_def Let_def same_end_def elim!: recv_raw_cases Write_start_cases Write_wait_cases split: if_splits gres.splits)

lemma same_end_waiters:
  "handlePkt_drained s = HRet () s' \<Longrightarrow> same_end s s'" "fini_wait s = HRet () s' \<Longrightarrow> same_end s s'"
  "Write_list i s = HRet () s' \<Longrightarrow> same_end s s'" "write_deadline_fires s = HRet () s' \<Longrightarrow> same_end s s'"
  "Read_list i s = HRet () s' \<Longrightarrow> same_end s s'" "read_deadline_fires s = HRet () s' \<Longrightarrow> same_end s s'"
  "Receive s = HRet y s' \<Longrightarrow> same_end s s'" "sender_step n s = HRet () s' \<Longrightarrow> same_end s s'"
  by (auto simp: handlePkt_drained_def fini_wait_def Write_list_def write_deadline_fires_def Read_list_def read_deadline_fires_def
      Receive_def sender_step_def same_end_def split: if_splits list.splits option.splits send_result.splits)

lemma same_end_turn:
  assumes "op \<noteq> AFini" "app_turn op s = HRet () s'"
  shows "same_end s s'"
proof (cases "caller op")
  case True
  then show ?thesis using caller_asks [OF True assms(2)] by (simp add: asks_def same_core_def same_end_def)
next
  case False
  then show ?thesis using assms
    by (cases op) (auto simp: forget_HRet readPkt_end_def same_end_def [of s "_\<lparr>s_reading := _\<rparr>"] start_fini_def receives_def same_end_def [of s s']
        dest: same_end_out same_end_in same_end_raw same_end_waiters dest!: prog_receives split: if_splits)
qed

lemma fini_end:
  "app_turn AFini s = HRet () s' \<Longrightarrow> s_dialogueID s' = s_dialogueID s \<and> s_ok s \<and> \<not> s_ok s'
     \<and> s_end s' = s_end s @ (if s_dialogueID s = 1 then [EndFini] else []) @ [EndDelStream (s_dialogueID s)]"
  by (auto simp: sm_fini_def Let_def split: if_splits)

section \<open>Runs and histories\<close>

text \<open>What the reader's side of a stream shows: bytes that are delivered, read, and the end.\<close>

datatype pipe_event = Deliver bytes | Got bytes | GotEOF | Finished | Quiet

fun read_event :: "(app_error + bytes) option \<Rightarrow> pipe_event" where
  "read_event (Some (Inr bs)) = Got bs"
| "read_event (Some (Inl AppEOF)) = GotEOF"
| "read_event _ = Quiet"

fun observe :: "app_op \<Rightarrow> stream \<Rightarrow> pipe_event" where
  "observe (AIn t (PStream p)) s =
     (case sm_handleIn t (PStream p) s of HRet ret _ \<Rightarrow> (if ret = IOSuccess then Deliver (st_Data p) else Quiet) | _ \<Rightarrow> Quiet)"
| "observe (AReadStart now n) s = (case Read_start now n s of HRet r _ \<Rightarrow> read_event r | _ \<Rightarrow> Quiet)"
| "observe (AReadWait dl n i) s = (case Read_wait dl n i s of HRet r _ \<Rightarrow> read_event (Some r) | _ \<Rightarrow> Quiet)"
| "observe AFini s = Finished"
| "observe op s = Quiet"

text \<open>The chunks that \<open>Write\<close> has accepted with this operation.\<close>

fun accepted :: "app_op \<Rightarrow> stream \<Rightarrow> bytes list" where
  "accepted (AWriteStart clock now b) s = (case Write_start clock now b s of HRet (Some (Inr _)) _ \<Rightarrow> [b] | _ \<Rightarrow> [])"
| "accepted (AWriteWait c i) s = (case Write_wait c i s of HRet (Inr _) _ \<Rightarrow> [st_Data (snd (s_writers s ! i))] | _ \<Rightarrow> [])"
| "accepted op s = []"

text \<open>The requests that were taken in, and those whose answer the dialogue refused.\<close>

fun requested :: "app_op \<Rightarrow> stream \<Rightarrow> u64 list" where
  "requested (AIn t (PRequest (Some p))) s = (case sm_handleIn t (PRequest (Some p)) s of HRet ret _ \<Rightarrow> [PacketID (mp_hdr p)] | _ \<Rightarrow> [])"
| "requested op s = []"

fun refused :: "app_op \<Rightarrow> stream \<Rightarrow> u64 list" where
  "refused (AIn t (PRequest (Some p))) s =
     (case sm_handleIn t (PRequest (Some p)) s of HRet ret _ \<Rightarrow> (if ret = IOErr then [PacketID (mp_hdr p)] else []) | _ \<Rightarrow> [])"
| "refused (AProg werr now n) s = (if n < length (s_running s) \<and> werr \<noteq> None then [rq_id (ru_req (s_running s ! n))] else [])"
| "refused op s = []"

record hist =
  g_events :: "pipe_event list"
  g_written :: "bytes list"
  g_requested :: "u64 list"
  g_refused :: "u64 list"

definition no_hist :: hist where
  "no_hist = \<lparr>g_events = [], g_written = [], g_requested = [], g_refused = []\<rparr>"

definition hist_step :: "app_op \<Rightarrow> stream \<Rightarrow> hist \<Rightarrow> hist" where
  "hist_step op s h =
     \<lparr>g_events = g_events h @ [observe op s], g_written = g_written h @ accepted op s, g_requested = g_requested h @ requested op s,
      g_refused = g_refused h @ refused op s\<rparr>"

text \<open>Runs in which every operation satisfies a policy in the state where it is taken.\<close>

inductive app_run :: "(app_op \<Rightarrow> stream \<Rightarrow> bool) \<Rightarrow> stream \<Rightarrow> hist \<Rightarrow> stream \<Rightarrow> bool" for P s0 where
  astart: "app_run P s0 no_hist s0"
| aturn: "app_run P s0 h s \<Longrightarrow> P op s \<Longrightarrow> app_turn op s = HRet () s' \<Longrightarrow> app_run P s0 (hist_step op s h) s'"

text \<open>The same as a function of the list of operations.\<close>

fun app_exec :: "(app_op \<Rightarrow> stream \<Rightarrow> bool) \<Rightarrow> app_op list \<Rightarrow> hist \<Rightarrow> stream \<Rightarrow> (hist \<times> stream) option" where
  "app_exec P [] h s = Some (h, s)"
| "app_exec P (op # ops) h s =
     (if P op s then (case app_turn op s of HRet _ s' \<Rightarrow> app_exec P ops (hist_step op s h) s' | _ \<Rightarrow> None) else None)"

definition any_policy :: "app_op \<Rightarrow> stream \<Rightarrow> bool" where
  "any_policy op s = True"

lemma exec_run: "app_exec P ops h s = Some (h', s') \<Longrightarrow> app_run P s0 h s \<Longrightarrow> app_run P s0 h' s'"
proof (induction ops arbitrary: h s)
  case (Cons op ops)
  then obtain s1 where "P op s" "app_turn op s = HRet () s1" "app_exec P ops (hist_step op s h) s1 = Some (h', s')"
    by (auto split: if_splits gres.splits)
  then show ?case using Cons.IH app_run.aturn [OF Cons.prems(2)] by blast
qed simp

lemma exec_runs: "app_exec P ops no_hist s0 = Some (h, s) \<Longrightarrow> app_run P s0 h s"
  by (rule exec_run [OF _ app_run.astart])

lemma run_mono: "app_run P s0 h s \<Longrightarrow> (\<And>op s. P op s \<Longrightarrow> Q op s) \<Longrightarrow> app_run Q s0 h s"
  by (induction rule: app_run.induct) (auto intro: app_run.intros)

lemma run_inv: "app_run P s0 h s \<Longrightarrow> stream_inv s0 \<Longrightarrow> stream_inv s"
  by (induction rule: app_run.induct) (auto intro: stream_turn_inv)

end
