(* ===== verification/App_Pipe.thy ===== *)
theory App_Pipe
  imports App_System
begin

text \<open>
  The reading side of a stream against its specification, a pipe of bytes: what is delivered comes
  out in order and complete, also after the stream has finished, and the end is reported only then.
  The stream refines the pipe as long as one caller reads at a time; with two of them bytes can get
  lost.
\<close>

section \<open>The specification\<close>

record pipe =
  pp_bytes :: bytes
  pp_closed :: bool

fun pipe_step :: "pipe_event \<Rightarrow> pipe \<Rightarrow> pipe option" where
  "pipe_step (Deliver bs) p = (if pp_closed p then None else Some (p\<lparr>pp_bytes := pp_bytes p @ bs\<rparr>))"
| "pipe_step (Got bs) p = (if prefix bs (pp_bytes p) then Some (p\<lparr>pp_bytes := drop (length bs) (pp_bytes p)\<rparr>) else None)"
| "pipe_step GotEOF p = (if pp_bytes p = [] \<and> pp_closed p then Some p else None)"
| "pipe_step Finished p = Some (p\<lparr>pp_closed := True\<rparr>)"
| "pipe_step Quiet p = Some p"

fun pipe_exec :: "pipe_event list \<Rightarrow> pipe \<Rightarrow> pipe option" where
  "pipe_exec [] p = Some p"
| "pipe_exec (ev # evs) p = Option.bind (pipe_step ev p) (pipe_exec evs)"

lemma pipe_exec_snoc: "pipe_exec (evs @ [ev]) p = Option.bind (pipe_exec evs p) (pipe_step ev)"
  by (induction evs arbitrary: p) (simp_all add: Option.bind_assoc comp_def split: Option.bind_split)

definition empty_pipe :: pipe where
  "empty_pipe = \<lparr>pp_bytes = [], pp_closed = False\<rparr>"

definition delivered :: "pipe_event list \<Rightarrow> bytes" where
  "delivered evs = concat (map (\<lambda>ev. case ev of Deliver bs \<Rightarrow> bs | _ \<Rightarrow> []) evs)"

definition got :: "pipe_event list \<Rightarrow> bytes" where
  "got evs = concat (map (\<lambda>ev. case ev of Got bs \<Rightarrow> bs | _ \<Rightarrow> []) evs)"

text \<open>What the specification promises: reading yields a prefix of what was delivered, and all of it before the end.\<close>

lemma pipe_exec_order: "pipe_exec evs p = Some q \<Longrightarrow> got evs @ pp_bytes q = pp_bytes p @ delivered evs"
proof (induction evs arbitrary: p)
  case (Cons ev evs)
  then obtain p' where p': "pipe_step ev p = Some p'" "pipe_exec evs p' = Some q" by (auto simp: bind_eq_Some_conv)
  have "got evs @ pp_bytes q = pp_bytes p' @ delivered evs" using Cons.IH [OF p'(2)] .
  then show ?case using p'(1) by (cases ev) (auto simp: got_def delivered_def prefix_def split: if_splits)
qed (simp add: got_def delivered_def)

text \<open>What a stream has to satisfy to be such a pipe.\<close>

locale pipe_refinement =
  fixes policy :: "app_op \<Rightarrow> stream \<Rightarrow> bool" and inv :: "stream \<Rightarrow> bool" and view :: "stream \<Rightarrow> pipe"
  assumes step_inv: "inv s \<Longrightarrow> policy op s \<Longrightarrow> app_turn op s = HRet () s' \<Longrightarrow> inv s'"
    and simulates: "inv s \<Longrightarrow> policy op s \<Longrightarrow> app_turn op s = HRet () s' \<Longrightarrow> pipe_step (observe op s) (view s) = Some (view s')"
begin

lemma run_refines: "app_run policy s0 h s \<Longrightarrow> inv s0 \<Longrightarrow> inv s \<and> pipe_exec (g_events h) (view s0) = Some (view s)"
proof (induction rule: app_run.induct)
  case (aturn h s op s')
  then have i: "inv s" "pipe_exec (g_events h) (view s0) = Some (view s)" by simp_all
  then show ?case using step_inv [OF i(1) aturn.hyps(2,3)] simulates [OF i(1) aturn.hyps(2,3)]
    by (simp add: hist_step_def pipe_exec_snoc)
qed (simp add: no_hist_def)

end

section \<open>One reader\<close>

definition unread :: "stream \<Rightarrow> bytes" where
  "unread s = s_cache s @ concat (map st_Data (buf (s_streamCh s)))"

definition read_view :: "stream \<Rightarrow> pipe" where
  "read_view s = \<lparr>pp_bytes = unread s, pp_closed = (\<not> s_ok s)\<rparr>"

definition one_reader :: "app_op \<Rightarrow> stream \<Rightarrow> bool" where
  "one_reader op s = (case op of AReadStart now n \<Rightarrow> s_readers s = [] | _ \<Rightarrow> True)"

definition reader_inv :: "stream \<Rightarrow> bool" where
  "reader_inv s \<longleftrightarrow> stream_inv s \<and> length (s_readers s) \<le> 1 \<and> (s_readers s \<noteq> [] \<longrightarrow> s_cache s = [])"

text \<open>Most operations leave the reading side alone.\<close>

definition same_read :: "stream \<Rightarrow> stream \<Rightarrow> bool" where
  "same_read s s' \<longleftrightarrow> s_cache s' = s_cache s \<and> buf (s_streamCh s') = buf (s_streamCh s) \<and> s_readers s' = s_readers s \<and> s_ok s' = s_ok s"

lemma same_read_view: "same_read s s' \<Longrightarrow> read_view s' = read_view s"
  by (simp add: same_read_def read_view_def unread_def)

lemma same_read_asks: "asks s s' \<Longrightarrow> same_read s s'"
  by (simp add: asks_def same_core_def same_read_def)

lemma same_read_receives: "receives [] s s' \<Longrightarrow> same_read s s'"
  by (simp add: receives_def same_read_def)

lemma same_read_passes: "passes ps s s' \<Longrightarrow> same_read s s'"
  by (simp add: passes_def same_read_def)

lemma start_fini_read [simp]:
  "s_cache (start_fini s) = s_cache s" "s_streamCh (start_fini s) = s_streamCh s" "s_readers (start_fini s) = s_readers s"
  "s_ok (start_fini s) = s_ok s"
  by (simp_all add: start_fini_def)

lemma same_read_out: "handlePkt_out t s = HRet () s' \<Longrightarrow> same_read s s'"
  by (erule handlePkt_out_cases) (simp_all add: after_out_def passes_def same_read_def hub_def)

lemma same_read_Write: "Write_start clock now b s = HRet r s' \<Longrightarrow> same_read s s'" "Write_wait c i s = HRet x s' \<Longrightarrow> same_read s s'"
  by (erule Write_start_cases, simp_all add: same_read_def) (erule Write_wait_cases, simp_all)

lemma same_read_waiters:
  "handlePkt_drained s = HRet () s' \<Longrightarrow> same_read s s'" "fini_wait s = HRet () s' \<Longrightarrow> same_read s s'"
  "Write_list i s = HRet () s' \<Longrightarrow> same_read s s'" "write_deadline_fires s = HRet () s' \<Longrightarrow> same_read s s'"
  "sender_step n s = HRet () s' \<Longrightarrow> same_read s s'" "Receive s = HRet x s' \<Longrightarrow> same_read s s'"
  by (auto simp: handlePkt_drained_def fini_wait_def Write_list_def write_deadline_fires_def sender_step_def Receive_def same_read_def
      split: if_splits send_result.splits list.splits option.splits)

fun reading_op :: "app_op \<Rightarrow> bool" where
  "reading_op (AIn t pkt) = True"
| "reading_op (AReadStart now n) = True"
| "reading_op (AReadList i) = True"
| "reading_op (AReadWait dl n i) = True"
| "reading_op AReadFires = True"
| "reading_op AFini = True"
| "reading_op _ = False"

lemma other_op:
  assumes "\<not> reading_op op" "app_turn op s = HRet () s'"
  shows "same_read s s' \<and> observe op s = Quiet"
proof (cases "caller op")
  case True
  then show ?thesis using same_read_asks [OF caller_asks [OF True assms(2)]] assms(1) by (cases op) simp_all
next
  case False
  then show ?thesis using assms
    by (cases op) (auto simp: forget_HRet readPkt_end_def same_read_def [of s "_\<lparr>s_reading := _\<rparr>"]
        dest: same_read_out same_read_Write same_read_waiters same_read_receives [OF prog_receives] split: if_splits)
qed

lemma handleInStream_open: "sm_handleIn t (PStream p) s = HRet IOSuccess s' \<Longrightarrow> \<not> is_closed (s_streamCh s)"
  by (auto simp: sm_handleIn_def handleInStreamPacket_def ch_send_def split: send_result.splits selected.splits if_splits)

lemma in_simulates:
  assumes "stream_inv s" "readPkt_in t pkt s = HRet () s'"
  shows "pipe_step (observe (AIn t pkt) s) (read_view s) = Some (read_view s')" "s_readers s' = s_readers s" "s_cache s' = s_cache s"
proof -
  obtain ret s1 where r: "sm_handleIn t pkt s = HRet ret s1" and s': "s' = s1 \<or> s' = (start_fini s1)\<lparr>s_reading := False\<rparr>"
    using assms(2) by (auto simp: readPkt_in_def split: gres.splits if_splits)
  have k: "receives (if ret = IOSuccess then stream_packet pkt else []) s s1" using handleIn_receives [OF r] .
  have v: "same_read s1 s'" using s' by (auto simp: same_read_def)
  then show "s_readers s' = s_readers s" "s_cache s' = s_cache s" using k by (simp_all add: receives_def same_read_def)
  have u: "read_view s' = (read_view s)\<lparr>pp_bytes := unread s @ concat (map st_Data (if ret = IOSuccess then stream_packet pkt else []))\<rparr>"
    using k same_read_view [OF v] by (simp add: receives_def read_view_def unread_def)
  show "pipe_step (observe (AIn t pkt) s) (read_view s) = Some (read_view s')"
  proof (cases "\<exists>p. pkt = PStream p \<and> ret = IOSuccess")
    case True
    then obtain p where p: "pkt = PStream p" "ret = IOSuccess" by blast
    have "s_ok s" using handleInStream_open r p assms(1) by (simp add: stream_inv_def)
    then show ?thesis using u r p by (simp add: stream_packet_def read_view_def)
  next
    case False
    then have "observe (AIn t pkt) s = Quiet" using r by (cases pkt) auto
    then show ?thesis using u False by (cases pkt) (auto simp: stream_packet_def read_view_def)
  qed
qed

lemma view_readers [simp]: "read_view (s\<lparr>s_readers := rs\<rparr>) = read_view s" "unread (s\<lparr>s_readers := rs\<rparr>) = unread s"
  by (simp_all add: read_view_def unread_def)

lemma pipe_got: "pp_bytes p = xs @ ys \<Longrightarrow> pipe_step (Got (take n xs)) p = Some (p\<lparr>pp_bytes := drop n xs @ ys\<rparr>)"
proof -
  assume p: "pp_bytes p = xs @ ys"
  have "xs @ ys = take n xs @ drop n xs @ ys" by simp
  then have "prefix (take n xs) (xs @ ys)" unfolding prefix_def by blast
  moreover have "drop (length (take n xs)) (xs @ ys) = drop n xs @ ys" by (cases "n \<le> length xs") simp_all
  ultimately show ?thesis using p by simp
qed

lemma recv_simulates:
  assumes "stream_inv s" "s_cache s = []" "recv_raw n s = HRet r s'"
  shows "pipe_step (read_event (Some r)) (read_view s) = Some (read_view s')"
  using assms(3)
proof (cases rule: recv_raw_cases)
  case (1 p ps)
  then show ?thesis using assms(2) pipe_got [of "read_view s" "st_Data p" "concat (map st_Data ps)" n]
    by (simp add: read_view_def unread_def)
next
  case 2
  then show ?thesis using assms(1,2) by (simp add: read_view_def unread_def stream_inv_def)
qed

lemma read_start_simulates:
  assumes "stream_inv s" "Read_start now n s = HRet r s'"
  shows "pipe_step (read_event r) (read_view s) = Some (read_view s')"
proof (cases "s_cache s = []")
  case True
  then show ?thesis using assms recv_simulates [OF assms(1) True]
    by (auto simp: Read_start_def split: if_splits gres.splits)
next
  case False
  then show ?thesis using assms(2) pipe_got [of "read_view s" "s_cache s" "concat (map st_Data (buf (s_streamCh s)))" n]
    by (auto simp: Read_start_def read_view_def unread_def)
qed

lemma read_wait_simulates:
  assumes "stream_inv s" "s_readers s \<noteq> [] \<longrightarrow> s_cache s = []" "Read_wait dl n i s = HRet r s'"
  shows "pipe_step (read_event (Some r)) (read_view s) = Some (read_view s')"
  using assms recv_simulates [of "s\<lparr>s_readers := remove_at i (s_readers s)\<rparr>" n r s']
  by (auto simp: Read_wait_def Let_def split: if_splits)

lemma fini_simulates: "stream_inv s \<Longrightarrow> sm_fini s = HRet () s' \<Longrightarrow> read_view s' = (read_view s)\<lparr>pp_closed := True\<rparr>"
  by (auto simp: sm_fini_def Let_def read_view_def unread_def split: if_splits)

lemma reader_inv_kept:
  assumes "reader_inv s" "one_reader op s" "app_turn op s = HRet () s'"
  shows "length (s_readers s') \<le> 1 \<and> (s_readers s' \<noteq> [] \<longrightarrow> s_cache s' = [])"
proof (cases "reading_op op")
  case True
  have i: "stream_inv s" "length (s_readers s) \<le> 1" "s_readers s \<noteq> [] \<longrightarrow> s_cache s = []" using assms(1) by (simp_all add: reader_inv_def)
  show ?thesis
  proof (cases op)
    case (AIn t pkt)
    then show ?thesis using assms(3) i in_simulates [OF i(1)] by (auto split: if_splits)
  next
    case (AReadStart now n)
    then show ?thesis using assms(2,3) i
      by (auto simp: forget_HRet one_reader_def Read_start_def elim!: recv_raw_cases split: if_splits gres.splits)
  next
    case (AReadWait dl n j)
    have "length (remove_at j (s_readers s)) = 0" if "j < length (s_readers s)" using that i(2) by (simp add: remove_at_def)
    then show ?thesis using assms(3) i(3) AReadWait
      by (auto simp: forget_HRet Read_wait_def Let_def elim!: recv_raw_cases split: if_splits)
  qed (use assms(3) i True in \<open>auto simp: Read_list_def read_deadline_fires_def sm_fini_def Let_def split: if_splits\<close>)
next
  case False
  then show ?thesis using other_op [OF False assms(3)] assms(1) by (simp add: same_read_def reader_inv_def)
qed

lemma reader_simulates:
  assumes "reader_inv s" "app_turn op s = HRet () s'"
  shows "pipe_step (observe op s) (read_view s) = Some (read_view s')"
proof (cases "reading_op op")
  case True
  have i: "stream_inv s" "s_readers s \<noteq> [] \<longrightarrow> s_cache s = []" using assms(1) by (simp_all add: reader_inv_def)
  show ?thesis
  proof (cases op)
    case (AIn t pkt)
    then show ?thesis using assms(2) in_simulates(1) [OF i(1)] by (simp split: if_splits)
  next
    case (AReadStart now n)
    then obtain r where "Read_start now n s = HRet r s'" using assms(2) by (auto simp: forget_HRet)
    then show ?thesis using read_start_simulates [OF i(1)] AReadStart by simp
  next
    case (AReadWait dl n j)
    then obtain r where "Read_wait dl n j s = HRet r s'" using assms(2) by (auto simp: forget_HRet)
    then show ?thesis using read_wait_simulates [OF i] AReadWait by simp
  next
    case AFini
    then show ?thesis using assms(2) fini_simulates [OF i(1)] by simp
  qed (use assms(2) True in \<open>auto simp: Read_list_def read_deadline_fires_def read_view_def unread_def split: if_splits\<close>)
next
  case False
  then show ?thesis using other_op [OF False assms(2)] same_read_view [of s s'] by simp
qed

interpretation stream_pipe: pipe_refinement one_reader reader_inv read_view
proof
  fix s op s' assume a: "reader_inv s" "one_reader op s" "app_turn op s = HRet () s'"
  show "reader_inv s'" using reader_inv_kept [OF a] a(1) stream_turn_inv [OF _ a(3)] by (simp add: reader_inv_def)
  show "pipe_step (observe op s) (read_view s) = Some (read_view s')" using reader_simulates [OF a(1,3)] .
qed

lemma reader_newStream: "reader_inv (newStream c d pf chk dlgt r w)" "read_view (newStream c d pf chk dlgt r w) = empty_pipe"
  using inv_newStream [of c d pf chk dlgt r w]
  by (simp_all add: reader_inv_def newStream_def read_view_def unread_def empty_pipe_def)

section \<open>Properties\<close>

text \<open>
  C3. As long as one caller reads at a time, the reading side of a stream refines a pipe of bytes:
  whatever its goroutines, its timers and its other callers do, the bytes that \<open>Read\<close> returns are
  those that the peer's packets delivered, in their order, without loss or repetition; what is not
  read yet stays readable, also after the stream has finished, and the end of file is reported only
  when the stream has finished and every delivered byte has been read.
\<close>

theorem raw_read_refines_pipe:
  assumes "app_run one_reader (newStream c d pf chk dlgt r w) h s"
  shows "pipe_exec (g_events h) empty_pipe = Some (read_view s) \<and> got (g_events h) @ unread s = delivered (g_events h)"
proof -
  have p: "pipe_exec (g_events h) empty_pipe = Some (read_view s)"
    using stream_pipe.run_refines [OF assms reader_newStream(1)] reader_newStream(2) by metis
  then show ?thesis using pipe_exec_order [OF p] by (simp add: read_view_def empty_pipe_def)
qed

text \<open>
  With two callers in \<open>Read\<close> bytes get lost: both wait, the first takes a packet that is longer
  than its slice and leaves the rest in the cache, and the second overwrites the cache with the rest
  of its own packet. What the first left is neither returned nor readable any more.
\<close>

theorem concurrent_reads_lose_bytes:
  assumes "s_readers s = [Listed, Listed]" "buf (s_streamCh s) = p1 # p2 # ps"
  shows "\<exists>s1 s2. Read_wait False n 0 s = HRet (Inr (take n (st_Data p1))) s1
    \<and> Read_wait False m 0 s1 = HRet (Inr (take m (st_Data p2))) s2
    \<and> unread s1 = drop n (st_Data p1) @ st_Data p2 @ concat (map st_Data ps)
    \<and> unread s2 = drop m (st_Data p2) @ concat (map st_Data ps)"
  using assms by (simp add: Read_wait_def recv_raw_def remove_at_def unread_def)

text \<open>
  A deadline that is set to a moment already past does not wake a caller that waits in
  \<open>Read\<close>: no timer is started, its channel stays open and only a packet or the end of the stream can
  end the wait, although the documentation of \<open>SetReadDeadline\<close> promises that the deadline applies to
  any currently blocked call.
\<close>

theorem past_deadline_keeps_waiting:
  assumes "Until now t \<le> 0" "s_readers s ! i = Listed"
  shows "read_deadline_fires (SetReadDeadline now t s) = HBlock \<and> s_readers (SetReadDeadline now t s) = s_readers s
    \<and> Read_wait True n i (SetReadDeadline now t s) = HBlock"
  using assms by (simp add: SetReadDeadline_def read_deadline_fires_def Read_wait_def Let_def hub_def)

text \<open>The deadline can also fire between the check and the entry into the list: the caller then waits on a timer that is spent.\<close>

lemma deadline_missed:
  assumes "s_readers s = [Checked]" "s_dlReadSync s = Some True"
  shows "\<exists>s1 s2. read_deadline_fires s = HRet () s1 \<and> Read_list 0 s1 = HRet () s2 \<and> s_readers s2 = [Listed]
    \<and> read_deadline_fires s2 = HBlock \<and> Read_wait True n 0 s2 = HBlock"
  using assms by (simp add: read_deadline_fires_def Read_list_def Read_wait_def fire_def)

section \<open>Witnesses\<close>

definition example_pf :: packetFactory where
  "example_pf = NewPacketFactory (NewIDCounter Odd (Some (6, 0, 0, 0)))"

definition example_stream :: stream where
  "example_stream = newStream 5 1 example_pf False False 4 1"

definition quiet_turn :: sturn where
  "quiet_turn = \<lparr>st_werr = None, st_dgDone = False, st_pick = True\<rparr>"

definition example_chunk :: "bytes \<Rightarrow> Packet" where
  "example_chunk bs = PStream \<lparr>st_hdr = mk_header TypeStreamPacket 3 CnssAtLeastOnce, st_sessionID = 1, st_Data = bs, st_clientID = 5\<rparr>"

text \<open>Two chunks arrive, the stream finishes, and all of it is read in pieces of two bytes before the end of file.\<close>

definition read_ops :: "app_op list" where
  "read_ops = [AReadStart zero_time 2, AIn quiet_turn (example_chunk [1, 2, 3]), AReadList 0, AReadWait False 2 0,
     AIn quiet_turn (example_chunk [4]), AInEnd, AFiniWait, AFini, AReadStart zero_time 2, AReadStart zero_time 2, AReadList 0,
     AReadWait False 2 0, AReadStart zero_time 2, AReadList 0, AReadWait False 2 0]"

lemmas example_defs = example_stream_def example_pf_def quiet_turn_def example_chunk_def read_ops_def

lemma example_reads:
  "map_option (\<lambda>(h, s). (g_events h, unread s)) (app_exec one_reader read_ops no_hist example_stream) =
     Some ([Quiet, Deliver [1, 2, 3], Quiet, Got [1, 2], Deliver [4], Quiet, Quiet, Finished, Got [3], Quiet, Quiet, Got [4],
       Quiet, Quiet, GotEOF], [])"
  by code_simp

theorem raw_read_refines_pipe_witness:
  "\<exists>h s. app_run one_reader example_stream h s \<and> GotEOF \<in> set (g_events h) \<and> got (g_events h) = [1, 2, 3, 4]
     \<and> pipe_exec (g_events h) empty_pipe = Some (read_view s)"
proof -
  obtain h s where e: "app_exec one_reader read_ops no_hist example_stream = Some (h, s)"
    and g: "g_events h = [Quiet, Deliver [1, 2, 3], Quiet, Got [1, 2], Deliver [4], Quiet, Quiet, Finished, Got [3], Quiet, Quiet, Got [4],
       Quiet, Quiet, GotEOF]"
    using example_reads by auto
  have r: "app_run one_reader example_stream h s" using e by (rule exec_runs)
  have "pipe_exec (g_events h) empty_pipe = Some (read_view s)"
    using raw_read_refines_pipe [OF r [unfolded example_stream_def]] by simp
  then show ?thesis using r g by (intro exI [of _ h] exI [of _ s]) (simp add: got_def)
qed

text \<open>Two readers, two chunks of three bytes, slices of one byte: the bytes 2 and 3 are lost.\<close>

definition two_readers_ops :: "app_op list" where
  "two_readers_ops = [AReadStart zero_time 1, AReadStart zero_time 1, AReadList 0, AReadList 1, AIn quiet_turn (example_chunk [1, 2, 3]),
     AIn quiet_turn (example_chunk [4, 5, 6])]"

lemma example_two_readers:
  "map_option (\<lambda>(h, s). (s_readers s, map st_Data (buf (s_streamCh s)))) (app_exec any_policy two_readers_ops no_hist example_stream) =
     Some ([Listed, Listed], [[1, 2, 3], [4, 5, 6]])"
  by code_simp

theorem concurrent_reads_lose_bytes_witness:
  "\<exists>h s s1 s2. app_run any_policy example_stream h s \<and> Read_wait False 1 0 s = HRet (Inr [1]) s1
     \<and> Read_wait False 1 0 s1 = HRet (Inr [4]) s2 \<and> unread s2 = [5, 6]"
proof -
  obtain h s where e: "app_exec any_policy two_readers_ops no_hist example_stream = Some (h, s)"
    and s: "s_readers s = [Listed, Listed]" "map st_Data (buf (s_streamCh s)) = [[1, 2, 3], [4, 5, 6]]"
    using example_two_readers by auto
  then obtain p1 p2 where p: "buf (s_streamCh s) = [p1, p2]" "st_Data p1 = [1, 2, 3]" "st_Data p2 = [4, 5, 6]"
    by (auto simp: map_eq_Cons_conv)
  show ?thesis using concurrent_reads_lose_bytes [OF s(1) p(1), of 1 1] exec_runs [OF e] p by auto
qed

theorem past_deadline_keeps_waiting_witness:
  "Read_wait True 1 0 (SetReadDeadline zero_time zero_time (example_stream\<lparr>s_readers := [Listed]\<rparr>)) = HBlock"
  using past_deadline_keeps_waiting [of zero_time zero_time "example_stream\<lparr>s_readers := [Listed]\<rparr>" 0 1] by (simp add: Until_def)

end
