(* ===== verification/App_Output.thy ===== *)
theory App_Output
  imports App_Pipe
begin

text \<open>
  The writing side of a stream: raw chunks go down in the order in which \<open>Write\<close> accepted them, the
  dialogue is dismissed only after them, and every request is answered exactly once, whatever its
  handler does.
\<close>

section \<open>Chunks go down in order\<close>

text \<open>\<open>Write\<close> of a dialogue fails with \<open>io.EOF\<close> only, never with a short buffer.\<close>

definition dialogue_contract :: "app_op \<Rightarrow> stream \<Rightarrow> bool" where
  "dialogue_contract op s = (case op of AOut t \<Rightarrow> st_werr t \<noteq> Some DgShortBuffer | _ \<Rightarrow> True)"

definition out_inv :: "hist \<Rightarrow> stream \<Rightarrow> bool" where
  "out_inv h s \<longleftrightarrow> prefix (raw_data (s_down s)) (g_written h)
     \<and> (s_handling s \<and> s_ok s \<longrightarrow> raw_data (s_down s) @ raw_data (buf (s_writeIn s)) = g_written h)
     \<and> list_all own_packet (s_senders s)"

lemma raw_own [simp]: "own_packet p \<Longrightarrow> raw_data [p] = []"
  by (auto simp: own_packet_def split: Packet.splits)

lemma raw_SetSessionID [simp]: "raw_data (map (Packet_SetSessionID d) ps) = raw_data ps"
  by (induction ps) simp_all

text \<open>The state the invariant looks at, unchanged but for senders.\<close>

definition same_out :: "stream \<Rightarrow> stream \<Rightarrow> bool" where
  "same_out s s' \<longleftrightarrow> raw_data (s_down s') = raw_data (s_down s) \<and> (s_handling s' \<longrightarrow> s_handling s) \<and> (s_ok s' \<longrightarrow> s_ok s)
     \<and> (s_ok s' \<longrightarrow> buf (s_writeIn s') = buf (s_writeIn s)) \<and> (list_all own_packet (s_senders s) \<longrightarrow> list_all own_packet (s_senders s'))"

lemma out_same: "out_inv h s \<Longrightarrow> same_out s s' \<Longrightarrow> g_written h' = g_written h \<Longrightarrow> out_inv h' s'"
  by (auto simp: out_inv_def same_out_def)

lemma same_out_asks: "asks s s' \<Longrightarrow> same_out s s'"
  by (auto simp: asks_def same_core_def same_out_def)

lemma same_out_receives: "receives qs s s' \<Longrightarrow> same_out s s'"
  by (simp add: receives_def same_out_def)

lemma same_out_in: "readPkt_in t pkt s = HRet () s' \<Longrightarrow> same_out s s'"
  by (auto simp: readPkt_in_def same_out_def start_fini_def dest!: handleIn_receives same_out_receives split: gres.splits if_splits)

lemma same_out_Read: "Read_start now n s = HRet r s' \<Longrightarrow> same_out s s'" "Read_wait dl n i s = HRet x s' \<Longrightarrow> same_out s s'"
  by (auto simp: Read_start_def Read_wait_def Let_def same_out_def elim!: recv_raw_cases split: if_splits gres.splits)

lemma same_out_waiters:
  "handlePkt_drained s = HRet () s' \<Longrightarrow> same_out s s'" "fini_wait s = HRet () s' \<Longrightarrow> same_out s s'"
  "Write_list i s = HRet () s' \<Longrightarrow> same_out s s'" "write_deadline_fires s = HRet () s' \<Longrightarrow> same_out s s'"
  "Read_list i s = HRet () s' \<Longrightarrow> same_out s s'" "read_deadline_fires s = HRet () s' \<Longrightarrow> same_out s s'"
  "Receive s = HRet y s' \<Longrightarrow> same_out s s'" "sm_fini s = HRet () s' \<Longrightarrow> same_out s s'"
  by (auto simp: handlePkt_drained_def fini_wait_def Write_list_def write_deadline_fires_def Read_list_def read_deadline_fires_def
      Receive_def sm_fini_def Let_def same_out_def split: if_splits list.splits option.splits)

fun writing_op :: "app_op \<Rightarrow> bool" where
  "writing_op (AOut t) = True"
| "writing_op (ASender n) = True"
| "writing_op (AWriteStart clock now b) = True"
| "writing_op (AWriteWait c i) = True"
| "writing_op _ = False"

lemma other_out:
  assumes "\<not> writing_op op" "app_turn op s = HRet () s'"
  shows "same_out s s' \<and> accepted op s = []"
proof (cases "caller op")
  case True
  then show ?thesis using same_out_asks [OF caller_asks [OF True assms(2)]] assms(1) by (cases op) simp_all
next
  case False
  then show ?thesis using assms
    by (cases op) (auto simp: forget_HRet readPkt_end_def same_out_def [of s "_\<lparr>s_reading := _\<rparr>"] start_fini_def
        dest: same_out_in same_out_Read same_out_waiters same_out_receives [OF prog_receives] split: if_splits)
qed

lemma remove_at_all: "list_all P xs \<Longrightarrow> list_all P (remove_at i xs)"
  unfolding remove_at_def list_all_append by (metis append_take_drop_id list_all_append)

lemma out_sent:
  assumes "out_inv h s" "ch_send (s_writeIn s) p = Sent ch" "raw_data [p] = ws" "g_written h' = g_written h @ ws"
    "raw_data (s_down s') = raw_data (s_down s)" "s_handling s' = s_handling s" "s_ok s' = s_ok s" "s_writeIn s' = ch"
    "list_all own_packet (s_senders s')"
  shows "out_inv h' s'"
  using assms evolves_send [OF assms(2)] by (auto simp: out_inv_def)

lemma sender_own: "out_inv h s \<Longrightarrow> n < length (s_senders s) \<Longrightarrow> own_packet (s_senders s ! n)"
  by (simp add: out_inv_def list_all_length)

lemma out_senders: "out_inv h s \<Longrightarrow> list_all own_packet (s_senders s)"
  by (simp add: out_inv_def)

lemma after_out_sel:
  "raw_data (s_down (after_out p ret s)) = raw_data (s_down s)" "s_ok (after_out p ret s) = s_ok s" "s_writeIn (after_out p ret s) = s_writeIn s"
  "s_senders (after_out p ret s) = s_senders s" "s_handling (after_out p ret s) \<longleftrightarrow> s_handling s \<and> ret \<noteq> IOErr"
  by (simp_all add: after_out_def hub_def start_fini_def)

text \<open>Without a short buffer, a chunk either goes down or ends the goroutine.\<close>

lemma chunk_fate:
  "werr \<noteq> Some DgShortBuffer \<Longrightarrow>
     raw_data (if werr = None \<and> goes_down p then [p] else []) = raw_data [p]
     \<or> out_result werr p = IOErr \<and> raw_data (if werr = None \<and> goes_down p then [p] else []) = []"
  by (cases p; cases werr) (simp_all add: goes_down_def out_result_def)

lemma out_out:
  assumes "out_inv h s" "stream_inv s" "handlePkt_out t s = HRet () s'" "s_handling s" "st_werr t \<noteq> Some DgShortBuffer" "g_written h' = g_written h"
  shows "out_inv h' s'"
  using assms(3)
proof (cases rule: handlePkt_out_cases)
  case (packet p ps s1)
  let ?down = "if st_werr t = None \<and> goes_down p then [p] else []"
  have ok: "s_ok s" using assms(2) packet(1) by (auto simp: stream_inv_def)
  then have w: "raw_data (s_down s) @ raw_data [p] @ raw_data ps = g_written h" using assms(1,4) packet(1) by (simp add: out_inv_def)
  have s1: "raw_data (s_down s1) = raw_data (s_down s) @ raw_data ?down" "s_ok s1 = s_ok s" "buf (s_writeIn s1) = ps"
    "s_handling s1 = s_handling s" "s_senders s1 = s_senders s"
    using packet(2) by (simp_all add: passes_def del: raw_data_simps(3))
  show ?thesis using chunk_fate [OF assms(5), of p]
  proof
    assume "raw_data ?down = raw_data [p]"
    then show ?thesis using s1 w out_senders [OF assms(1)] assms(6) unfolding packet(3) out_inv_def after_out_sel
      by (simp del: raw_data_simps(3)) (metis append.assoc prefixI)
  next
    assume "out_result (st_werr t) p = IOErr \<and> raw_data ?down = []"
    then show ?thesis using s1 out_senders [OF assms(1)] assms(1,6) unfolding packet(3) out_inv_def after_out_sel
      by (simp del: raw_data_simps(3))
  qed
qed (use assms in \<open>auto simp: out_inv_def start_fini_def\<close>)

lemma out_turn:
  assumes "out_inv h s" "stream_inv s" "dialogue_contract op s" "app_turn op s = HRet () s'"
  shows "out_inv (hist_step op s h) s'"
proof (cases "writing_op op")
  case True
  show ?thesis
  proof (cases op)
    case (AOut t)
    then show ?thesis using assms out_out [OF assms(1,2), of t s' "hist_step op s h"]
      by (auto simp: hist_step_def dialogue_contract_def split: if_splits)
  next
    case (ASender n)
    then have "sender_step n s = HRet () s'" using assms(4) by simp
    then show ?thesis
    proof (cases rule: sender_cases)
      case (1 ch)
      show ?thesis using 1(3) ASender out_senders [OF assms(1)]
        by (intro out_sent [OF assms(1) 1(2), of "[]"]) (simp_all add: hist_step_def remove_at_all raw_own [OF sender_own [OF assms(1) 1(1)]] del: raw_data_simps(3))
    qed
  next
    case (AWriteStart clock now b)
    then obtain r where r: "Write_start clock now b s = HRet r s'" using assms(4) by (auto simp: forget_HRet)
    then show ?thesis
    proof (cases rule: Write_start_cases)
      case (2 pkt pf ch)
      show ?thesis using 2 AWriteStart out_senders [OF assms(1)] r
        by (intro out_sent [OF assms(1) 2(4), of "[b]"]) (simp_all add: hist_step_def)
    qed (use assms(1) r AWriteStart in \<open>simp_all add: hist_step_def out_inv_def\<close>)
  next
    case (AWriteWait c i)
    then obtain r where r: "Write_wait c i s = HRet r s'" using assms(4) by (auto simp: forget_HRet)
    then show ?thesis
    proof (cases rule: Write_wait_cases)
      case (1 ch)
      show ?thesis using 1 AWriteWait out_senders [OF assms(1)] r
        by (intro out_sent [OF assms(1) 1(2), of "[st_Data (snd (s_writers s ! i))]"]) (simp_all add: hist_step_def)
    qed (use assms(1) r AWriteWait in \<open>simp_all add: hist_step_def out_inv_def\<close>)
  qed (use True in simp_all)
next
  case False
  then show ?thesis using out_same [OF assms(1)] other_out [OF False assms(4)] by (simp add: hist_step_def)
qed

lemma out_run:
  "app_run dialogue_contract s0 h s \<Longrightarrow> stream_inv s0 \<Longrightarrow> out_inv no_hist s0 \<Longrightarrow> out_inv h s \<and> stream_inv s"
  by (induction rule: app_run.induct) (auto intro: out_turn stream_turn_inv)

section \<open>Every request is answered once\<close>

definition response_ids :: "Packet list \<Rightarrow> u64 list" where
  "response_ids ps = concat (map (\<lambda>p. case p of PResponse (Some q) \<Rightarrow> [PacketID (ma_hdr q)] | _ \<Rightarrow> []) ps)"

lemma response_ids_simps [simp]: "response_ids [] = []" "response_ids (ps @ qs) = response_ids ps @ response_ids qs"
  "response_ids (p # ps) = (case p of PResponse (Some q) \<Rightarrow> [PacketID (ma_hdr q)] | _ \<Rightarrow> []) @ response_ids ps"
  by (simp_all add: response_ids_def)

lemma SetSessionID_response [simp]:
  "(case Packet_SetSessionID d p of PResponse (Some q) \<Rightarrow> [PacketID (ma_hdr q)] | _ \<Rightarrow> []) =
     (case p of PResponse (Some q) \<Rightarrow> [PacketID (ma_hdr q)] | _ \<Rightarrow> [])"
  by (cases "(d, p)" rule: Packet_SetSessionID.cases) simp_all

text \<open>The requests in the hands of a stream: answered, or with their handler still running.\<close>

definition taken :: "stream \<Rightarrow> u64 multiset" where
  "taken s = mset (response_ids (s_down s)) + mset (map (\<lambda>r. rq_id (ru_req r)) (s_running s))"

lemma taken_upd [simp]:
  "taken (hub x s) = taken s" "taken (cancel_rpc i s) = taken s" "taken (put_cancel i dl s) = taken s"
  "taken (doRPC f req s) = add_mset (rq_id req) (taken s)" "taken ((start_fini s)\<lparr>s_reading := b\<rparr>) = taken s"
  "taken ((start_fini s)\<lparr>s_handling := b\<rparr>) = taken s" "taken (s\<lparr>s_messageCh := mc\<rparr>) = taken s" "taken (s\<lparr>s_streamCh := sc\<rparr>) = taken s"
  "taken (s\<lparr>s_remoteRPCs := rr\<rparr>) = taken s" "taken (s\<lparr>s_registered := rg\<rparr>) = taken s" "taken (s\<lparr>s_writeIn := wi\<rparr>) = taken s"
  "taken (s\<lparr>s_senders := sn\<rparr>) = taken s" "taken (s\<lparr>s_readers := rd\<rparr>) = taken s" "taken (s\<lparr>s_writers := wr\<rparr>) = taken s"
  "taken (s\<lparr>s_pf := pf\<rparr>) = taken s" "taken (s\<lparr>s_cache := ca\<rparr>) = taken s" "taken (s\<lparr>s_lockWait := lw\<rparr>) = taken s"
  "taken (s\<lparr>s_dgClosed := dg\<rparr>) = taken s" "taken (s\<lparr>s_dlReadSync := rs\<rparr>) = taken s" "taken (s\<lparr>s_dlWriteSync := ws\<rparr>) = taken s"
  by (simp_all add: taken_def hub_def cancel_rpc_def put_cancel_def doRPC_def start_fini_def)

lemma taken_Write: "taken (dg_Write werr p s) = taken s + (if werr = None then mset (response_ids [p]) else {#})"
  by (cases werr) (simp_all add: taken_def dg_Write_def)

lemma handleInRequest_taken:
  "handleInRequestPacket werr p s = HRet ret s' \<Longrightarrow>
     taken s' + (if ret = IOErr then {#PacketID (mp_hdr p)#} else {#}) = add_mset (PacketID (mp_hdr p)) (taken s)"
  by (auto simp: handleInRequestPacket_def Let_def taken_Write NewResponsePacket_def mk_header_def split: option.splits if_splits)

lemma handleIn_taken:
  assumes "sm_handleIn t pkt s = HRet ret s'"
  shows "taken s' + mset (refused (AIn t pkt) s) = taken s + mset (requested (AIn t pkt) s)"
proof (cases "\<exists>p. pkt = PRequest (Some p)")
  case True
  then obtain p where p: "pkt = PRequest (Some p)" by blast
  then show ?thesis using assms handleInRequest_taken [of "st_werr t" p s ret s'] by (auto simp: sm_handleIn_def)
next
  case False
  then have "refused (AIn t pkt) s = []" "requested (AIn t pkt) s = []"
    by (cases pkt; simp split: option.splits)+
  moreover have "taken s' = taken s"
    using assms False by (cases pkt) (auto simp: sm_handleIn_def handleInMessagePacket_def handleInMessageAckPacket_def Let_def
        handleInRequestCancelPacket_def handleInResponsePacket_def handleInRegisterPacket_def handleInRegisterAckPacket_def
        handleInStreamPacket_def taken_Write split: option.splits if_splits send_result.splits selected.splits)
  ultimately show ?thesis by simp
qed

lemma mset_remove_at: "n < length xs \<Longrightarrow> mset (map f xs) = add_mset (f (xs ! n)) (mset (map f (remove_at n xs)))"
  by (subst id_take_nth_drop [of n xs]) (simp_all add: remove_at_def)

lemma prog_taken:
  assumes "prog werr now n s = HRet () s'"
  shows "taken s' + mset (refused (AProg werr now n) s) = taken s"
proof -
  have n: "n < length (s_running s)" using assms by (simp add: prog_def split: if_splits)
  let ?s = "s\<lparr>s_running := remove_at n (s_running s)\<rparr>" and ?i = "rq_id (ru_req (s_running s ! n))"
  have t: "taken s = add_mset ?i (taken ?s)"
    using mset_remove_at [OF n, of "\<lambda>r. rq_id (ru_req r)"] by (simp add: taken_def)
  have "response_ids [PResponse (Some (rpc_response c (s_running s ! n)))] = [?i]" for c
    by (simp add: rpc_response_def NewResponsePacket_def mk_header_def split: rpc_result.splits)
  then have "taken s' = taken ?s + (if werr = None then {#?i#} else {#})"
    using assms n by (auto simp: prog_def Let_def taken_Write)
  then show ?thesis using t n by simp
qed

lemma passes_taken: "passes ps s s' \<Longrightarrow> list_all goes_down ps \<Longrightarrow> taken s' = taken s"
proof -
  assume a: "passes ps s s'" "list_all goes_down ps"
  have "response_ids (map (Packet_SetSessionID d) ps) = []" for d
    using a(2) by (induction ps) (auto simp: goes_down_def split: Packet.splits)
  then show ?thesis using a(1) by (simp add: passes_def taken_def)
qed

lemma out_taken: "handlePkt_out t s = HRet () s' \<Longrightarrow> taken s' = taken s"
  by (erule handlePkt_out_cases) (auto simp: after_out_def dest!: passes_taken)

lemma waiters_taken:
  "handlePkt_drained s = HRet () s' \<Longrightarrow> taken s' = taken s" "fini_wait s = HRet () s' \<Longrightarrow> taken s' = taken s"
  "Write_list i s = HRet () s' \<Longrightarrow> taken s' = taken s" "write_deadline_fires s = HRet () s' \<Longrightarrow> taken s' = taken s"
  "Read_list i s = HRet () s' \<Longrightarrow> taken s' = taken s" "read_deadline_fires s = HRet () s' \<Longrightarrow> taken s' = taken s"
  "Receive s = HRet y s' \<Longrightarrow> taken s' = taken s" "sender_step n s = HRet () s' \<Longrightarrow> taken s' = taken s"
  by (auto simp: handlePkt_drained_def fini_wait_def Write_list_def write_deadline_fires_def Read_list_def read_deadline_fires_def
      Receive_def sender_step_def split: if_splits list.splits option.splits send_result.splits)

lemma fini_taken: "sm_fini s = HRet () s' \<Longrightarrow> taken s' = taken s"
  by (auto simp: sm_fini_def Let_def taken_def split: if_splits)

lemma raw_taken:
  "Read_start now n s = HRet r s' \<Longrightarrow> taken s' = taken s" "Read_wait dl n i s = HRet x s' \<Longrightarrow> taken s' = taken s"
  "Write_start clock now b s = HRet u s' \<Longrightarrow> taken s' = taken s" "Write_wait c i s = HRet v s' \<Longrightarrow> taken s' = taken s"
  by (auto simp: Read_start_def Read_wait_def Let_def elim!: recv_raw_cases Write_start_cases Write_wait_cases split: if_splits gres.splits)

lemma in_taken:
  "readPkt_in t pkt s = HRet () s' \<Longrightarrow> taken s' + mset (refused (AIn t pkt) s) = taken s + mset (requested (AIn t pkt) s)"
  by (auto simp: readPkt_in_def dest!: handleIn_taken split: gres.splits if_splits)

lemma turn_taken:
  assumes "app_turn op s = HRet () s'"
  shows "taken s' + mset (refused op s) = taken s + mset (requested op s)"
proof (cases "caller op")
  case True
  then have "taken s' = taken s" using caller_asks [OF True assms] by (simp add: asks_def same_core_def taken_def)
  moreover have "refused op s = [] \<and> requested op s = []" using True by (cases op) simp_all
  ultimately show ?thesis by simp
next
  case False
  show ?thesis
  proof (cases op)
    case (AIn t pkt)
    then show ?thesis using assms in_taken by (simp split: if_splits)
  next
    case (AProg werr now n)
    then show ?thesis using assms prog_taken by (simp del: refused.simps)
  qed (use False assms in \<open>auto simp: forget_HRet readPkt_end_def dest: out_taken waiters_taken fini_taken raw_taken split: if_splits\<close>)
qed

lemma run_taken: "app_run P s0 h s \<Longrightarrow> taken s + mset (g_refused h) = taken s0 + mset (g_requested h)"
proof (induction rule: app_run.induct)
  case (aturn h s op s')
  have "taken s' + (mset (g_refused h) + mset (refused op s)) = (taken s' + mset (refused op s)) + mset (g_refused h)" by (simp only: ac_simps)
  also have "\<dots> = (taken s + mset (g_refused h)) + mset (requested op s)" using turn_taken [OF aturn.hyps(3)] by (simp only: ac_simps)
  also have "\<dots> = taken s0 + (mset (g_requested h) + mset (requested op s))" using aturn.IH by (simp only: ac_simps)
  finally show ?case by (simp add: hist_step_def)
qed (simp add: no_hist_def)

section \<open>Properties\<close>

lemma out_newStream: "out_inv no_hist (newStream c d pf chk dlgt r w)"
  by (simp add: out_inv_def newStream_def no_hist_def)

text \<open>
  C7. The raw chunks that a stream has handed to its dialogue are, in order, the first ones that
  \<open>Write\<close> accepted; and when \<open>handlePkt\<close> dismisses the dialogue after \<open>Close\<close>, every chunk accepted
  until then has been handed over. (\<open>Write\<close> of a dialogue never reports a short buffer.)
\<close>

theorem raw_written_in_order:
  assumes "app_run dialogue_contract (newStream c d pf chk dlgt r w) h s"
  shows "prefix (raw_data (s_down s)) (g_written h)
    \<and> (\<forall>s'. app_turn ADrained s = HRet () s' \<longrightarrow> s_dgClosed s' \<and> raw_data (s_down s') = g_written h)"
proof -
  have i: "out_inv h s" "stream_inv s" using out_run [OF assms inv_newStream out_newStream] by simp_all
  have "s_dgClosed s' \<and> raw_data (s_down s') = g_written h" if "app_turn ADrained s = HRet () s'" for s'
    using that i by (auto simp: handlePkt_drained_def stream_inv_def out_inv_def split: if_splits)
  then show ?thesis using i(1) by (simp add: out_inv_def)
qed

text \<open>
  C4. Every request a stream takes in is answered exactly once: the ids of the requests are, as
  multisets, those of the responses handed to the dialogue, of the handlers still running and of
  the answers the dialogue refused. It holds whether a handler returns, fails or panics, for
  hijacked and unregistered methods, and whatever else happens on the stream.
\<close>

theorem one_response_per_request:
  assumes "app_run any_policy (newStream c d pf chk dlgt r w) h s"
  shows "mset (g_requested h)
    = mset (response_ids (s_down s)) + mset (map (\<lambda>r. rq_id (ru_req r)) (s_running s)) + mset (g_refused h)"
  using run_taken [OF assms] by (simp add: taken_def newStream_def)

section \<open>Witnesses\<close>

text \<open>Two chunks through a buffer of one packet, then \<open>Close\<close>.\<close>

definition write_ops :: "app_op list" where
  "write_ops = [AWriteStart 7 zero_time [1, 2], AWriteList 0, AWriteStart 7 zero_time [3], AWriteList 1, AWriteWait WriteSend 0, AClose,
     AOut quiet_turn, AWriteWait WriteSend 0, AOut quiet_turn]"

lemma example_writes:
  "map_option (\<lambda>(h, s). (g_written h, raw_data (s_down s), map_option (\<lambda>_. ()) (case app_turn ADrained s of HRet _ s' \<Rightarrow> Some s' | _ \<Rightarrow> None)))
     (app_exec dialogue_contract write_ops no_hist example_stream) = Some ([[1, 2], [3]], [[1, 2], [3]], Some ())"
  by code_simp

theorem raw_written_in_order_witness:
  "\<exists>h s s'. app_run dialogue_contract example_stream h s \<and> g_written h = [[1, 2], [3]] \<and> app_turn ADrained s = HRet () s'
     \<and> raw_data (s_down s') = [[1, 2], [3]]"
proof -
  obtain h s where e: "app_exec dialogue_contract write_ops no_hist example_stream = Some (h, s)" and w: "g_written h = [[1, 2], [3]]"
    and d: "map_option (\<lambda>_. ()) (case app_turn ADrained s of HRet _ s' \<Rightarrow> Some s' | _ \<Rightarrow> None) = Some ()"
    using example_writes by auto
  from d obtain s' where d: "app_turn ADrained s = HRet () s'" by (auto split: gres.splits)
  have r: "app_run dialogue_contract example_stream h s" using e by (rule exec_runs)
  show ?thesis using raw_written_in_order [OF r [unfolded example_stream_def]] r d w by metis
qed

text \<open>A handler that panics, one that returns, and a method nobody registered.\<close>

definition example_rpc :: rpc where
  "example_rpc req canceled = (if rq_data req = [] then Panicked [] [1] else Returned (rev (rq_data req)) None)"

definition example_request :: "u64 \<Rightarrow> bytes \<Rightarrow> bytes \<Rightarrow> Packet" where
  "example_request i method data = PRequest (Some (mk_MessagePacket TypeRequestPacket 1 method data i))"

definition rpc_ops :: "app_op list" where
  "rpc_ops = [ARegister 7 [9] example_rpc, AIn quiet_turn (example_request 2 [9] []), AIn quiet_turn (example_request 4 [9] [1, 2]),
     AIn quiet_turn (example_request 6 [8] []), AProg None zero_time 1, AProg None zero_time 0, AIn quiet_turn (example_request 8 [9] [])]"

lemma example_rpcs:
  "map_option (\<lambda>(h, s). (g_requested h, response_ids (s_down s), map (\<lambda>r. rq_id (ru_req r)) (s_running s)))
     (app_exec any_policy rpc_ops no_hist example_stream) = Some ([2, 4, 6, 8], [6, 4, 2], [8])"
  by code_simp

theorem one_response_per_request_witness:
  "\<exists>h s. app_run any_policy example_stream h s \<and> response_ids (s_down s) = [6, 4, 2]
     \<and> mset (g_requested h) = mset [6, 4, 2] + mset [8] + mset (g_refused h)"
proof -
  obtain h s where e: "app_exec any_policy rpc_ops no_hist example_stream = Some (h, s)"
    and s: "response_ids (s_down s) = [6, 4, 2]" "map (\<lambda>r. rq_id (ru_req r)) (s_running s) = [8]"
    using example_rpcs by auto
  have r: "app_run any_policy example_stream h s" using e by (rule exec_runs)
  show ?thesis using one_response_per_request [OF r [unfolded example_stream_def]] r s by metis
qed

end
