(* ===== verification/App_Locks.thy ===== *)
theory App_Locks
  imports App_Output
begin

text \<open>
  Locks at the end of a stream: nobody sends on a closed \<open>writeInCh\<close>, a stalled \<open>Write\<close> always lets
  \<open>fini\<close> through, and a stalled call, message or registration never does.
\<close>

section \<open>Sends on closed channels\<close>

lemma send_open: "stream_inv s \<Longrightarrow> s_ok s \<Longrightarrow> ch_send (s_writeIn s) p \<noteq> OnClosed"
  by (simp add: stream_inv_def ch_send_open)

lemma out_open: "handlePkt_out t s \<noteq> HSendOnClosed"
  by (auto simp: handlePkt_out_def sm_finish_out_def sm_handleOut_def out_handler_defs split: list.splits gres.splits option.splits Packet.splits)

lemma forget_open [simp]: "forget r = HSendOnClosed \<longleftrightarrow> r = HSendOnClosed"
  by (cases r) (simp_all add: forget_def)

lemma caller_open: "caller op \<Longrightarrow> app_turn op s \<noteq> HSendOnClosed"
  by (cases op) (auto simp: sm_Close_def Register_start_def Call_start_def Call_ctx_done_def CallAsync_start_def Publish_start_def
      PublishAsync_start_def ackMessage_def Let_def split: outcome.splits)

lemma Write_open:
  assumes "stream_inv s"
  shows "Write_start clock now b s \<noteq> HSendOnClosed" "Write_wait c i s \<noteq> HSendOnClosed"
proof -
  show "Write_start clock now b s \<noteq> HSendOnClosed"
    using send_open [OF assms] by (auto simp: Write_start_def Let_def split: outcome.splits send_result.splits)
  show "Write_wait c i s \<noteq> HSendOnClosed"
  proof (cases "s_ok s")
    case False
    then have "s_writers s = []" using assms by (simp add: stream_inv_def)
    then show ?thesis by (simp add: Write_wait_def)
  qed (use send_open [OF assms] in \<open>auto simp: Write_wait_def Let_def split: write_case.splits send_result.splits\<close>)
qed

lemma sender_open: "stream_inv s \<Longrightarrow> sender_step n s \<noteq> HSendOnClosed"
  using send_open [of s] by (cases "s_ok s") (auto simp: sender_step_def stream_inv_def split: send_result.splits)

lemma recv_raw_open: "recv_raw n s \<noteq> HSendOnClosed"
  by (simp add: recv_raw_def split: list.splits)

lemma readPkt_open: "stream_inv s \<Longrightarrow> s_ok s \<Longrightarrow> readPkt_in t pkt s \<noteq> HSendOnClosed"
  by (cases pkt) (auto simp: readPkt_in_def sm_handleIn_def handleInMessagePacket_def handleInMessageAckPacket_def handleInRequestPacket_def
      handleInRequestCancelPacket_def handleInResponsePacket_def handleInRegisterPacket_def handleInRegisterAckPacket_def
      handleInStreamPacket_def Let_def stream_inv_def ch_send_open select_chan_open
      split: option.splits send_result.splits selected.splits gres.splits)

lemma readPkt_closed_kind:
  "readPkt_in t pkt s = HSendOnClosed \<Longrightarrow> (\<exists>p. pkt = PMessage p) \<or> (\<exists>p. pkt = PStream p)"
  by (cases pkt) (auto simp: readPkt_in_def sm_handleIn_def handleInMessageAckPacket_def handleInRequestPacket_def
      handleInRequestCancelPacket_def handleInResponsePacket_def handleInRegisterPacket_def handleInRegisterAckPacket_def Let_def
      split: option.splits gres.splits if_splits)

lemma turn_open:
  assumes "stream_inv s" "app_turn op s = HSendOnClosed"
  shows "\<exists>t pkt. op = AIn t pkt \<and> \<not> s_ok s \<and> ((\<exists>p. pkt = PMessage p) \<or> (\<exists>p. pkt = PStream p))"
proof (cases "caller op")
  case True
  then show ?thesis using caller_open assms(2) by blast
next
  case False
  show ?thesis
  proof (cases op)
    case (AIn t pkt)
    then show ?thesis using assms readPkt_open [OF assms(1)] readPkt_closed_kind by (auto split: if_splits)
  qed (use assms False in \<open>auto simp: out_open sender_open Write_open recv_raw_open handlePkt_drained_def fini_wait_def sm_fini_def prog_def
        Read_start_def Read_list_def Read_wait_def Write_list_def read_deadline_fires_def write_deadline_fires_def Receive_def Let_def
        split: if_splits gres.splits list.splits option.splits\<close>)
qed

section \<open>Writers let the stream finish\<close>

text \<open>Every waiting writer takes its turn: it enters the list if it has not, and leaves by the closed \<open>monitorStop\<close>.\<close>

definition leave_ops :: "waiting \<Rightarrow> app_op list" where
  "leave_ops w = (if w = Checked then [AWriteList 0] else []) @ [AWriteWait WriteStop 0]"

definition finish_ops :: "stream \<Rightarrow> app_op list" where
  "finish_ops s = concat (map (\<lambda>(w, _). leave_ops w) (s_writers s)) @ (if s_lockWait s then [] else [AFiniWait]) @ [AFini]"

lemma writer_leaves:
  assumes "s_writers s = (w, pkt) # ws" "s_monitorStop s"
  shows "turns app_turn (leave_ops w) s = Some (replicate (length (leave_ops w)) (), s\<lparr>s_writers := ws\<rparr>)"
  using assms by (simp add: leave_ops_def Write_list_def Write_wait_def remove_at_def forget_def)

lemma turns_append:
  "turns f xs s = Some (rs, s1) \<Longrightarrow> turns f (xs @ ys) s = map_option (\<lambda>(qs, s2). (rs @ qs, s2)) (turns f ys s1)"
  by (induction xs arbitrary: s rs) (auto simp: option.map_comp comp_def case_prod_unfold option.map_ident split: gres.splits)

lemma writers_leave:
  assumes "s_monitorStop s"
  shows "\<exists>rs. turns app_turn (concat (map (\<lambda>(w, _). leave_ops w) (s_writers s))) s = Some (rs, s\<lparr>s_writers := []\<rparr>)"
  using assms
proof (induction "s_writers s" arbitrary: s)
  case Nil
  then have "s\<lparr>s_writers := []\<rparr> = s" by simp
  then show ?case using Nil by simp
next
  case (Cons x ws)
  obtain w pkt where x: "x = (w, pkt)" by fastforce
  let ?s = "s\<lparr>s_writers := ws\<rparr>"
  obtain rs where "turns app_turn (concat (map (\<lambda>(w, _). leave_ops w) ws)) ?s = Some (rs, ?s\<lparr>s_writers := []\<rparr>)"
    using Cons.hyps(1) [of ?s] Cons.prems by auto
  then show ?case using turns_append [OF writer_leaves [of s w pkt ws]] Cons.hyps(2) [symmetric] Cons.prems x by simp
qed

section \<open>Callers that cannot\<close>

text \<open>
  The read lock of a caller is held while it is blocked on a full \<open>writeInCh\<close>, nothing drains the
  channel any more, and the end of the stream waits for the lock.
\<close>

definition stuck :: "stream \<Rightarrow> bool" where
  "stuck s \<longleftrightarrow> s_ok s \<and> s_lockWait s \<and> \<not> s_handling s \<and> \<not> is_closed (s_writeIn s) \<and> cap (s_writeIn s) \<le> length (buf (s_writeIn s))
     \<and> s_senders s \<noteq> []"

lemma stuck_send: "stuck s \<Longrightarrow> ch_send (s_writeIn s) p = Full"
  by (simp add: stuck_def ch_send_def)

lemma stuck_asks: "stuck s \<Longrightarrow> asks s s' \<Longrightarrow> stuck s'"
  by (auto simp: stuck_def asks_def same_core_def can_RLock_def)

lemma stuck_receives: "stuck s \<Longrightarrow> receives qs s s' \<Longrightarrow> stuck s'"
  by (simp add: stuck_def receives_def)

lemma stuck_in: "stuck s \<Longrightarrow> readPkt_in t pkt s = HRet () s' \<Longrightarrow> stuck s'"
  by (auto simp: readPkt_in_def stuck_def start_fini_def dest!: handleIn_receives stuck_receives [rotated] split: gres.splits if_splits)

lemma stuck_Read: "stuck s \<Longrightarrow> Read_start now n s = HRet r s' \<Longrightarrow> stuck s'" "stuck s \<Longrightarrow> Read_wait dl n i s = HRet x s' \<Longrightarrow> stuck s'"
  by (auto simp: Read_start_def Read_wait_def Let_def stuck_def elim!: recv_raw_cases split: if_splits gres.splits)

lemma stuck_upd [simp]:
  "stuck (s\<lparr>s_writers := ws\<rparr>) = stuck s" "stuck (s\<lparr>s_readers := rs\<rparr>) = stuck s" "stuck (s\<lparr>s_dlReadSync := dr\<rparr>) = stuck s"
  "stuck (s\<lparr>s_dlWriteSync := dw\<rparr>) = stuck s" "stuck (s\<lparr>s_messageCh := mc\<rparr>) = stuck s" "stuck (s\<lparr>s_reading := b\<rparr>) = stuck s"
  "stuck (start_fini s) = stuck s"
  by (simp_all add: stuck_def start_fini_def)

lemma stuck_no_fini: "stuck s \<Longrightarrow> sm_fini s = HBlock" "stuck s \<Longrightarrow> fini_wait s = HBlock" "stuck s \<Longrightarrow> \<not> s_handling s"
  by (simp_all add: stuck_def sm_fini_def fini_wait_def)

lemma stuck_waiters:
  "stuck s \<Longrightarrow> Write_list i s = HRet () s' \<Longrightarrow> stuck s'" "stuck s \<Longrightarrow> write_deadline_fires s = HRet () s' \<Longrightarrow> stuck s'"
  "stuck s \<Longrightarrow> Read_list i s = HRet () s' \<Longrightarrow> stuck s'" "stuck s \<Longrightarrow> read_deadline_fires s = HRet () s' \<Longrightarrow> stuck s'"
  "stuck s \<Longrightarrow> Receive s = HRet y s' \<Longrightarrow> stuck s'" "stuck s \<Longrightarrow> sender_step n s = HRet () s' \<Longrightarrow> stuck s'"
  by (auto simp: Write_list_def write_deadline_fires_def Read_list_def read_deadline_fires_def Receive_def sender_step_def
      stuck_send split: if_splits list.splits option.splits)

lemma stuck_Write: "stuck s \<Longrightarrow> Write_start clock now b s = HRet r s' \<Longrightarrow> stuck s'" "stuck s \<Longrightarrow> Write_wait c i s = HRet x s' \<Longrightarrow> stuck s'"
  by (erule Write_start_cases, simp_all add: stuck_def ch_send_def) (erule Write_wait_cases, simp_all add: ch_send_def)

lemma stuck_turn:
  assumes "stuck s" "app_turn op s = HRet () s'"
  shows "stuck s'"
proof (cases "caller op")
  case False
  then show ?thesis using assms
    by (cases op) (auto simp: forget_HRet stuck_no_fini readPkt_end_def
        dest: stuck_in stuck_Read stuck_waiters stuck_Write stuck_receives [OF _ prog_receives] split: if_splits)
qed (use assms stuck_asks caller_asks in blast)

lemma stuck_run: "app_run P s0 h s \<Longrightarrow> stuck s0 \<Longrightarrow> stuck s"
  by (induction rule: app_run.induct) (auto intro: stuck_turn)

section \<open>Properties\<close>


text \<open>
  C22. No caller and no goroutine that writes ever sends on a closed channel; the one exception is
  \<open>readPkt\<close> with a message or a raw chunk after the stream has finished, which happens when
  \<open>handlePkt\<close> was the first to end and ran \<open>fini\<close>.
\<close>

theorem only_readPkt_sends_on_closed:
  assumes "app_run any_policy (newStream c d pf chk dlgt r w) h s" "app_turn op s = HSendOnClosed"
  shows "\<exists>t pkt. op = AIn t pkt \<and> \<not> s_ok s \<and> ((\<exists>p. pkt = PMessage p) \<or> (\<exists>p. pkt = PStream p))"
  using turn_open [OF run_inv [OF assms(1) inv_newStream] assms(2)] .


text \<open>
  C23. A call, a message or a registration that is blocked on a full \<open>writeInCh\<close> keeps its stream from
  ever finishing once \<open>handlePkt\<close> has stopped: it holds the read lock \<open>fini\<close> waits for, nothing
  empties the channel, and no sequence of further operations changes that.
\<close>

theorem blocked_call_stops_fini:
  assumes "stuck s0" "app_run any_policy s0 h s"
  shows "s_ok s \<and> s_senders s \<noteq> [] \<and> sm_fini s = HBlock"
  using stuck_run [OF assms(2,1)] stuck_no_fini by (simp add: stuck_def)

section \<open>Witnesses\<close>

definition example_message :: "u64 \<Rightarrow> message" where
  "example_message i = \<lparr>ms_data = [1], ms_custom = [], ms_id = i, ms_clientID = 5, ms_streamID = 1, ms_topic = [], ms_timeout = 0,
     ms_cnss = 0, ms_sm = True\<rparr>"

definition failing_turn :: sturn where
  "failing_turn = quiet_turn\<lparr>st_werr := Some DgEOF\<rparr>"


text \<open>The dialogue refuses a chunk, \<open>handlePkt\<close> ends the stream, and another chunk arrives.\<close>

definition closed_ops :: "app_op list" where
  "closed_ops = [AWriteStart 7 zero_time [1], AWriteList 0, AWriteWait WriteSend 0, AOut failing_turn, AFiniWait, AFini]"

definition on_closed :: "('a, 's) gres \<Rightarrow> bool" where
  "on_closed r = (case r of HSendOnClosed \<Rightarrow> True | _ \<Rightarrow> False)"

lemma on_closed_iff: "on_closed r \<longleftrightarrow> r = HSendOnClosed"
  by (cases r) (simp_all add: on_closed_def)

lemma example_closed:
  "map_option (\<lambda>(h, s). on_closed (app_turn (AIn quiet_turn (example_chunk [1])) s))
     (app_exec any_policy closed_ops no_hist example_stream) = Some True"
  by code_simp

theorem only_readPkt_sends_on_closed_witness:
  "\<exists>h s. app_run any_policy example_stream h s \<and> app_turn (AIn quiet_turn (example_chunk [1])) s = HSendOnClosed \<and> \<not> s_ok s"
proof -
  obtain h s where e: "app_exec any_policy closed_ops no_hist example_stream = Some (h, s)"
    and c: "app_turn (AIn quiet_turn (example_chunk [1])) s = HSendOnClosed"
    using example_closed by (auto simp: on_closed_iff simp del: app_turn.simps)
  then show ?thesis using only_readPkt_sends_on_closed [OF exec_runs [OF e, unfolded example_stream_def] c] exec_runs [OF e] by blast
qed

text \<open>Two stalled writers and the end of the dialogue.\<close>

definition stalled_ops :: "app_op list" where
  "stalled_ops = [AWriteStart 7 zero_time [1], AWriteList 0, AWriteStart 7 zero_time [2], AInEnd]"

lemma example_stalled:
  "map_option (\<lambda>(h, s). (s_finiOnce s, s_ok s, s_senders s = [], s_leaked s, length (s_writers s)))
     (app_exec any_policy stalled_ops no_hist example_stream) = Some (True, True, True, 0, 2)"
  by code_simp


text \<open>Three messages through a buffer of one packet; the dialogue has ended.\<close>

definition stuck_ops :: "app_op list" where
  "stuck_ops = [APublish 7 zero_time None [] (example_message 1), ASender 0, APublish 7 zero_time None [] (example_message 3),
     AOut failing_turn, ASender 0, APublish 7 zero_time None [] (example_message 5), AFiniWait]"

lemma example_stuck: "map_option (\<lambda>(h, s). stuck s) (app_exec any_policy stuck_ops no_hist example_stream) = Some True"
  by code_simp

theorem blocked_call_stops_fini_witness:
  "\<exists>h s. app_run any_policy example_stream h s \<and> stuck s \<and> s_ok s \<and> sm_fini s = HBlock"
proof -
  obtain h s where e: "app_exec any_policy stuck_ops no_hist example_stream = Some (h, s)" and s: "stuck s" using example_stuck by auto
  then show ?thesis using blocked_call_stops_fini [OF s app_run.astart] exec_runs [OF e] by blast
qed

end
