(* ===== verification/App_Calls.thy ===== *)
theory App_Calls
  imports App_Locks
begin

text \<open>
  Two streams over the wire: a call from \<open>Call\<close> at one end through the handler at the other and back
  to the waiting caller, and a message from \<open>Publish\<close> through \<open>Receive\<close> and its acknowledgement.
\<close>

section \<open>A packet from a caller to the wire\<close>

text \<open>A stream whose goroutines run and whose buffer is empty.\<close>

definition ready :: "stream \<Rightarrow> bool" where
  "ready s \<longleftrightarrow> s_ok s \<and> \<not> s_lockWait s \<and> s_handling s \<and> s_reading s \<and> s_senders s = [] \<and> buf (s_writeIn s) = []
     \<and> \<not> is_closed (s_writeIn s) \<and> 0 < cap (s_writeIn s)"

text \<open>The turns that bring the packet of a caller down, and the packet the peer then reads.\<close>

definition flush :: "stream \<Rightarrow> (Packet \<times> stream) option" where
  "flush s = Option.bind (turns app_turn [ASender 0, AOut quiet_turn] s) (\<lambda>(_, s').
     Option.bind (over_wire (last (s_down s'))) (\<lambda>q. Some (q, s')))"

definition flushed :: "Packet \<Rightarrow> stream \<Rightarrow> stream" where
  "flushed p s = s\<lparr>s_senders := [], s_writeIn := (s_writeIn s)\<lparr>buf := []\<rparr>, s_down := s_down s @ [p]\<rparr>"

lemma sender_turn_ok:
  assumes "ready s"
  shows "app_turn (ASender 0) (sending p s) = HRet () (s\<lparr>s_senders := [], s_writeIn := (s_writeIn s)\<lparr>buf := [p]\<rparr>\<rparr>)"
  using assms by (simp add: sender_step_def sending_def ready_def ch_send_def remove_at_def)

lemma out_turn_ok:
  assumes "s_handling s" "buf (s_writeIn s) = [p]" "goes_down p" "p \<noteq> PRequest None"
  shows "app_turn (AOut quiet_turn) s = HRet () (s\<lparr>s_writeIn := (s_writeIn s)\<lparr>buf := []\<rparr>, s_down := s_down s @ [Packet_SetSessionID (s_dialogueID s) p]\<rparr>)"
  using assms
  by (cases p) (auto simp: handlePkt_out_def sm_finish_out_def sm_handleOut_def out_handler_defs dg_Write_def quiet_turn_def goes_down_def
      split: option.splits)

lemma flush_ok:
  assumes "ready s" "goes_down p" "p \<noteq> PRequest None" "over_wire (Packet_SetSessionID (s_dialogueID s) p) = Some q"
  shows "flush (sending p s) = Some (q, flushed (Packet_SetSessionID (s_dialogueID s) p) s)"
proof -
  let ?s = "s\<lparr>s_senders := [], s_writeIn := (s_writeIn s)\<lparr>buf := [p]\<rparr>\<rparr>"
  have "app_turn (AOut quiet_turn) ?s = HRet () (flushed (Packet_SetSessionID (s_dialogueID s) p) s)"
    using assms(1) out_turn_ok [of ?s p, OF _ _ assms(2,3)] by (simp add: ready_def flushed_def)
  then show ?thesis using sender_turn_ok [OF assms(1), of p] assms(4)
    by (simp add: flush_def flushed_def del: app_turn.simps)
qed

section \<open>Calls\<close>

text \<open>The packet of a call, and what the callee's procedures answer to it.\<close>

definition call_packet :: "go_time \<Rightarrow> go_time option \<Rightarrow> CallOptions option list \<Rightarrow> bytes \<Rightarrow> request \<Rightarrow> u64 \<Rightarrow> MessagePacket" where
  "call_packet later ctx opts method req sid =
     set_custom (rq_custom req)
       (with_deadlines (the_default (rq_timeout req) (co_Timeout (MergeCallOptions opts))) later ctx
          (mk_MessagePacket TypeRequestPacket sid method (rq_data req) (rq_id req)))"

definition call_data :: "go_time \<Rightarrow> go_time option \<Rightarrow> CallOptions option list \<Rightarrow> bytes \<Rightarrow> request \<Rightarrow> MessageData" where
  "call_data later ctx opts method req = the (mp_Data (call_packet later ctx opts method req 0))"

lemma call_packet_sel [simp]:
  "mp_Data (call_packet later ctx opts method req sid) = Some (call_data later ctx opts method req)"
  "mp_hdr (call_packet later ctx opts method req sid) = mk_header TypeRequestPacket (rq_id req) CnssAtLeastOnce"
  "(call_packet later ctx opts method req sid)\<lparr>mp_sessionID := sid'\<rparr> = call_packet later ctx opts method req sid'"
  "md_Key (call_data later ctx opts method req) = method" "md_Value (call_data later ctx opts method req) = rq_data req"
  "md_Custom (call_data later ctx opts method req) = rq_custom req"
  by (simp_all add: call_packet_def call_data_def set_custom_def with_deadlines_def mk_MessagePacket_def)

definition lookup_rpc :: "bytes \<Rightarrow> stream \<Rightarrow> rpc option" where
  "lookup_rpc method s = (case hijacks (s_hijack s) method of Some f \<Rightarrow> Some f | None \<Rightarrow> map_of (s_localRPCs s) method)"

text \<open>The request a handler is given: the caller's, under the ids of the callee's stream.\<close>

definition request_at :: "stream \<Rightarrow> bytes \<Rightarrow> request \<Rightarrow> request" where
  "request_at s method req =
     \<lparr>rq_method = method, rq_data = rq_data req, rq_custom = rq_custom req, rq_id = rq_id req, rq_clientID = s_clientID s,
      rq_streamID = s_dialogueID s, rq_timeout = 0\<rparr>"

definition expired :: "go_time \<Rightarrow> MessageData \<Rightarrow> bool" where
  "expired now x = (case request_deadline x of None \<Rightarrow> False | Some d \<Rightarrow> \<not> Before now d)"

definition answer :: "go_time \<Rightarrow> MessageData \<Rightarrow> bytes \<Rightarrow> request \<Rightarrow> stream \<Rightarrow> bytes \<times> bytes option" where
  "answer now x method req s =
     (case lookup_rpc method s of
        None \<Rightarrow> ([], Some (lit ''no such rpc: '' @ method))
      | Some f \<Rightarrow>
          (case f (request_at s method req) (expired now x) of
             Returned data err \<Rightarrow> (data, err)
           | Panicked data e \<Rightarrow> (data, Some (lit ''rpc handler panic: '' @ e))))"

text \<open>The callee takes the request in and, when a handler was started, lets it end.\<close>

definition serve :: "go_time \<Rightarrow> Packet \<Rightarrow> stream \<Rightarrow> (Packet \<times> stream) option" where
  "serve now q s = Option.bind (turns app_turn [AIn quiet_turn q] s) (\<lambda>(_, s1).
     Option.bind (if length (s_running s1) = length (s_running s) then Some s1
        else map_option snd (turns app_turn [AProg None now (length (s_running s))] s1)) (\<lambda>s2.
     Option.bind (over_wire (last (s_down s2))) (\<lambda>r. Some (r, s2))))"

text \<open>A whole call: what the caller's hub is told at the end.\<close>

definition call_exchange ::
  "int \<Rightarrow> go_time \<Rightarrow> go_time option \<Rightarrow> CallOptions option list \<Rightarrow> bytes \<Rightarrow> request \<Rightarrow> go_time \<Rightarrow> stream \<Rightarrow> stream
     \<Rightarrow> (hub_op \<times> stream \<times> stream) option" where
  "call_exchange clock later ctx opts method req now a b =
     (case Call_start clock later ctx opts method req a of
        HRet (Inr i) a1 \<Rightarrow>
          Option.bind (flush a1) (\<lambda>(q, a2).
          Option.bind (serve now q b) (\<lambda>(r, b1).
          Option.bind (turns app_turn [AIn quiet_turn r] a2) (\<lambda>(_, a3). Some (last (s_hub a3), a3, b1))))
      | _ \<Rightarrow> None)"

lemma Call_start_ok:
  assumes "ready a" "rq_clientID req = s_clientID a" "rq_streamID req = s_dialogueID a" "s_remoteCheck a \<longrightarrow> method \<in> set (s_remoteRPCs a)"
    "counting (mode (packetIDs (s_pf a)))"
  shows "\<exists>pf. Call_start clock later ctx opts method req a =
    HRet (Inr (rq_id req)) (sending (PRequest (Some (call_packet later ctx opts method req (s_dialogueID a))))
      (hub (HubNew (rq_id req) (sync_timeout (the_default (rq_timeout req) (co_Timeout (MergeCallOptions opts))))) (a\<lparr>s_pf := pf\<rparr>)))"
proof -
  obtain i c where g: "GetID clock (packetIDs (s_pf a)) = Ret (i, c)" using GetID_counting [OF assms(5)] by metis
  have p: "NewRequestPacketWithIDAndSessionID clock (rq_id req) (s_dialogueID a) method (rq_data req) (s_pf a) =
      Ret (mk_MessagePacket TypeRequestPacket (s_dialogueID a) method (rq_data req) (rq_id req), (s_pf a)\<lparr>packetIDs := c\<rparr>)"
    using g by (simp add: NewRequestPacketWithIDAndSessionID_def NewRequestPacket_def with_id_def NewPacketID_def mk_MessagePacket_def mk_header_def)
  have "\<not> too_large (PRequest (Some (call_packet later ctx opts method req (s_dialogueID a))))"
    by (simp add: too_large_def app_MaxPacketSize_def PacketHeader_Length_def mk_header_def)
  then show ?thesis using assms p by (auto simp: Call_start_def ready_def can_RLock_def Let_def call_packet_def)
qed

lemma over_wire_request:
  assumes "sendable (PRequest (Some p))" "mp_Data p = Some x"
  obtains h where "over_wire (PRequest (Some p)) = Some (PRequest (Some (p\<lparr>mp_hdr := h, mp_clientID := 0\<rparr>)))" "PacketID h = PacketID (mp_hdr p)"
  using over_wire_sent [OF assms(1)] assms(2)
  by (cases p) (auto simp: sent_def wire_MessagePacket_def got_MessageData_def wire_header_def)

lemma over_wire_response:
  assumes "sendable (PResponse (Some p))" "ma_Data p = Some x"
  obtains h where "over_wire (PResponse (Some p)) = Some (PResponse (Some (p\<lparr>ma_hdr := h, ma_clientID := 0\<rparr>)))" "PacketID h = PacketID (ma_hdr p)"
  using over_wire_sent [OF assms(1)] assms(2)
  by (cases p) (auto simp: sent_def wire_MessageAckPacket_def got_MessageData_def wire_header_def)

definition answer_packet :: "u64 \<Rightarrow> bytes \<Rightarrow> bytes \<times> bytes option \<Rightarrow> MessageAckPacket" where
  "answer_packet i method ans = NewResponsePacket i method (fst ans) (snd ans)"

lemma answer_in:
  assumes "s_reading b" "mp_Data p = Some x" "md_Key x = method" "lookup_rpc method b = None"
  shows "\<exists>b1. app_turn (AIn quiet_turn (PRequest (Some p))) b = HRet () b1 \<and> s_running b1 = s_running b
    \<and> s_down b1 = s_down b @ [Packet_SetSessionID (s_dialogueID b)
        (PResponse (Some (answer_packet (PacketID (mp_hdr p)) method ([], Some (lit ''no such rpc: '' @ method)))))]"
proof -
  have n: "hijacks (s_hijack b) method = None" "map_of (s_localRPCs b) method = None"
    using assms(4) by (simp_all add: lookup_rpc_def split: option.splits)
  show ?thesis using assms(1-3) n
    by (simp add: readPkt_in_def sm_handleIn_def handleInRequestPacket_def quiet_turn_def dg_Write_def answer_packet_def
        cancel_rpc_def put_cancel_def Let_def)
qed

lemma handler_started:
  assumes "s_reading b" "mp_Data p = Some x" "md_Key x = method" "lookup_rpc method b = Some f"
  shows "app_turn (AIn quiet_turn (PRequest (Some p))) b =
    HRet () (doRPC f \<lparr>rq_method = method, rq_data = md_Value x, rq_custom = md_Custom x, rq_id = PacketID (mp_hdr p),
      rq_clientID = s_clientID b, rq_streamID = s_dialogueID b, rq_timeout = 0\<rparr> (put_cancel (PacketID (mp_hdr p)) (request_deadline x) b))"
  using assms by (auto simp: readPkt_in_def sm_handleIn_def handleInRequestPacket_def lookup_rpc_def Let_def split: option.splits)

lemma handler_ends:
  assumes "s_running s = rs @ [\<lparr>ru_req = rq, ru_rpc = f\<rparr>]"
  shows "\<exists>s'. app_turn (AProg None now (length rs)) s = HRet () s'
    \<and> s_down s' = s_down s @ [Packet_SetSessionID (s_dialogueID s) (PResponse (Some (rpc_response (ctx_done now (rq_id rq) s) \<lparr>ru_req = rq, ru_rpc = f\<rparr>)))]"
  using assms by (simp add: prog_def Let_def dg_Write_def cancel_rpc_def)

lemma serve_ok:
  assumes "s_reading b" "p = (call_packet later ctx opts method req sid)\<lparr>mp_hdr := h, mp_clientID := 0\<rparr>" "PacketID h = rq_id req"
    "ans = answer now (call_data later ctx opts method req) method req b"
    "over_wire (Packet_SetSessionID (s_dialogueID b) (PResponse (Some (answer_packet (rq_id req) method ans)))) = Some r"
  shows "\<exists>b'. serve now (PRequest (Some p)) b = Some (r, b')"
proof -
  let ?x = "call_data later ctx opts method req"
  have x: "mp_Data p = Some ?x" "md_Key ?x = method" "PacketID (mp_hdr p) = rq_id req" using assms(2,3) by simp_all
  show ?thesis
  proof (cases "lookup_rpc method b")
    case None
    then show ?thesis using answer_in [OF assms(1) x(1,2) None] assms(4,5) x(3)
      by (auto simp: serve_def answer_def simp del: app_turn.simps)
  next
    case (Some f)
    let ?b1 = "doRPC f (request_at b method req) (put_cancel (rq_id req) (request_deadline ?x) b)"
    have i: "app_turn (AIn quiet_turn (PRequest (Some p))) b = HRet () ?b1"
      using handler_started [OF assms(1) x(1,2) Some] x by (simp add: request_at_def)
    have run: "s_running ?b1 = s_running b @ [\<lparr>ru_req = request_at b method req, ru_rpc = f\<rparr>]" "s_dialogueID ?b1 = s_dialogueID b"
      by (simp_all add: doRPC_def put_cancel_def)
    have c: "ctx_done now (rq_id req) ?b1 = expired now ?x"
      by (simp add: ctx_done_def expired_def doRPC_def put_cancel_def split: option.splits)
    have a: "rpc_response (expired now ?x) \<lparr>ru_req = request_at b method req, ru_rpc = f\<rparr> = answer_packet (rq_id req) method ans"
      using assms(4) Some by (simp add: rpc_response_def answer_packet_def answer_def request_at_def split: rpc_result.splits)
    have q: "rq_id (request_at b method req) = rq_id req" by (simp add: request_at_def)
    obtain b2 where b2: "app_turn (AProg None now (length (s_running b))) ?b1 = HRet () b2"
      "s_down b2 = s_down ?b1 @ [Packet_SetSessionID (s_dialogueID b) (PResponse (Some (answer_packet (rq_id req) method ans)))]"
      using handler_ends [OF run(1), of now] unfolding q c a run(2) by blast
    then show ?thesis using i run(1) assms(5) by (simp add: serve_def del: app_turn.simps)
  qed
qed

text \<open>What the caller is told: the data, or the error when its text is not empty.\<close>

definition call_result :: "u64 \<Rightarrow> stream \<Rightarrow> bytes \<times> bytes option \<Rightarrow> hub_op" where
  "call_result i a ans =
     (if err_text (snd ans) \<noteq> [] then HubError i (RemoteError (err_text (snd ans)))
      else HubAck i (Some \<lparr>rs_err = None, rs_method = [], rs_data = fst ans, rs_custom = [], rs_requestID = i, rs_clientID = s_clientID a,
        rs_streamID = s_dialogueID a\<rparr>))"

lemma response_in:
  assumes "s_reading s" "p = (answer_packet i method ans)\<lparr>ma_sessionID := d, ma_hdr := h, ma_clientID := 0\<rparr>" "PacketID h = i"
  shows "\<exists>s'. app_turn (AIn quiet_turn (PResponse (Some p))) s = HRet () s' \<and> last (s_hub s') = call_result i s ans"
  using assms by (simp add: readPkt_in_def sm_handleIn_def handleInResponsePacket_def answer_packet_def NewResponsePacket_def
      call_result_def hub_def empty_MessageData_def Let_def)

section \<open>Messages\<close>

definition message_packet :: "go_time \<Rightarrow> go_time option \<Rightarrow> PublishOptions option list \<Rightarrow> message \<Rightarrow> u64 \<Rightarrow> MessagePacket" where
  "message_packet later ctx opts msg sid =
     set_custom (ms_custom msg) (set_topic (ms_topic msg)
       (with_deadlines (the_default (ms_timeout msg) (po_Timeout (MergePublishOptions opts))) later ctx
          (mk_MessagePacket TypeMessagePacket sid [] (ms_data msg) (ms_id msg))))"

lemma message_packet_sel:
  obtains x where "mp_Data (message_packet later ctx opts msg sid) = Some x" "md_Value x = ms_data msg" "md_Custom x = ms_custom msg"
    "md_Topic x = ms_topic msg" "md_Timeout x = 0"
  by (simp add: message_packet_def set_custom_def set_topic_def with_deadlines_def mk_MessagePacket_def empty_MessageData_def)

lemma message_packet_hdr [simp]:
  "mp_hdr (message_packet later ctx opts msg sid) = mk_header TypeMessagePacket (ms_id msg) CnssAtLeastOnce"
  "(message_packet later ctx opts msg sid)\<lparr>mp_sessionID := sid'\<rparr> = message_packet later ctx opts msg sid'"
  by (simp_all add: message_packet_def set_custom_def set_topic_def with_deadlines_def mk_MessagePacket_def)

text \<open>The message the peer receives: its consistency is not carried.\<close>

definition message_at :: "stream \<Rightarrow> message \<Rightarrow> message" where
  "message_at s msg =
     \<lparr>ms_data = ms_data msg, ms_custom = ms_custom msg, ms_id = ms_id msg, ms_clientID = s_clientID s, ms_streamID = s_dialogueID s,
      ms_topic = ms_topic msg, ms_timeout = 0, ms_cnss = 0, ms_sm = True\<rparr>"

text \<open>A whole publication; the receiver acknowledges with \<open>Done\<close> or, for \<open>Some e\<close>, with \<open>Error\<close>.\<close>

definition acknowledge :: "bytes option \<Rightarrow> message \<Rightarrow> stream \<Rightarrow> app_error option sres" where
  "acknowledge err msg s = (case err of None \<Rightarrow> message_Done msg s | Some e \<Rightarrow> message_Error (Some e) msg s)"

definition publish_exchange ::
  "int \<Rightarrow> go_time \<Rightarrow> go_time option \<Rightarrow> PublishOptions option list \<Rightarrow> message \<Rightarrow> bytes option \<Rightarrow> stream \<Rightarrow> stream
     \<Rightarrow> (message \<times> hub_op \<times> stream \<times> stream) option" where
  "publish_exchange clock later ctx opts msg err a b =
     (case Publish_start clock later ctx opts msg a of
        HRet (Inr (Some i)) a1 \<Rightarrow>
          Option.bind (flush a1) (\<lambda>(q, a2).
          Option.bind (turns app_turn [AIn quiet_turn q] b) (\<lambda>(_, b1).
          (case Receive b1 of
             HRet (Inr m) b2 \<Rightarrow>
               (case acknowledge err m b2 of
                  HRet None b3 \<Rightarrow>
                    Option.bind (flush b3) (\<lambda>(r, b4).
                    Option.bind (turns app_turn [AIn quiet_turn r] a2) (\<lambda>(_, a3). Some (m, last (s_hub a3), a3, b4)))
                | _ \<Rightarrow> None)
           | _ \<Rightarrow> None)))
      | _ \<Rightarrow> None)"

lemma Publish_start_ok:
  assumes "ready a" "ms_clientID msg = s_clientID a" "ms_streamID msg = s_dialogueID a" "ms_cnss msg \<noteq> app_CnssAtMostOnce"
    "counting (mode (packetIDs (s_pf a)))"
  shows "\<exists>pf x. Publish_start clock later ctx opts msg a =
    HRet (Inr (Some (ms_id msg))) (sending (PMessage (message_packet later ctx opts msg (s_dialogueID a))) (hub x (a\<lparr>s_pf := pf\<rparr>)))"
proof -
  obtain i c where g: "GetID clock (packetIDs (s_pf a)) = Ret (i, c)" using GetID_counting [OF assms(5)] by metis
  have p: "NewMessagePacketWithIDAndSessionID clock (ms_id msg) (s_dialogueID a) [] (ms_data msg) (s_pf a) =
      Ret (mk_MessagePacket TypeMessagePacket (s_dialogueID a) [] (ms_data msg) (ms_id msg), (s_pf a)\<lparr>packetIDs := c\<rparr>)"
    using g by (simp add: NewMessagePacketWithIDAndSessionID_def NewMessagePacket_def with_id_def NewPacketID_def mk_MessagePacket_def mk_header_def)
  have "\<not> too_large (PMessage (message_packet later ctx opts msg (s_dialogueID a)))"
    by (simp add: too_large_def app_MaxPacketSize_def PacketHeader_Length_def mk_header_def)
  then show ?thesis using assms p by (auto simp: Publish_start_def ready_def can_RLock_def Let_def message_packet_def)
qed

lemma over_wire_message:
  assumes "sendable (PMessage p)" "mp_Data p = Some x"
  obtains h where "over_wire (PMessage p) = Some (PMessage (p\<lparr>mp_hdr := h, mp_clientID := 0\<rparr>))" "PacketID h = PacketID (mp_hdr p)" "Cnss h = 0"
  using over_wire_sent [OF assms(1)] assms(2)
  by (cases p) (auto simp: sent_def wire_MessagePacket_def got_MessageData_def wire_header_def)

lemma over_wire_message_ack:
  assumes "sendable (PMessageAck p)" "ma_Data p = Some x"
  obtains h where "over_wire (PMessageAck p) = Some (PMessageAck (p\<lparr>ma_hdr := h, ma_clientID := 0\<rparr>))" "PacketID h = PacketID (ma_hdr p)"
  using over_wire_sent [OF assms(1)] assms(2)
  by (cases p) (auto simp: sent_def wire_MessageAckPacket_def got_MessageData_def wire_header_def)

text \<open>The receiver's messages: none waiting, and room for one.\<close>

definition inbox_free :: "stream \<Rightarrow> bool" where
  "inbox_free s \<longleftrightarrow> buf (s_messageCh s) = [] \<and> \<not> is_closed (s_messageCh s) \<and> 0 < cap (s_messageCh s)"

lemma message_received:
  assumes "ready b" "inbox_free b" "mp_Data p = Some x" "PacketID (mp_hdr p) = ms_id msg" "Cnss (mp_hdr p) = 0" "md_Value x = ms_data msg"
    "md_Custom x = ms_custom msg" "md_Topic x = ms_topic msg" "md_Timeout x = 0"
  shows "\<exists>b1 b2. app_turn (AIn quiet_turn (PMessage p)) b = HRet () b1 \<and> Receive b1 = HRet (Inr (message_at b msg)) b2
    \<and> ready b2 \<and> s_dialogueID b2 = s_dialogueID b"
  using assms by (simp add: ready_def inbox_free_def readPkt_in_def sm_handleIn_def handleInMessagePacket_def ch_send_def Receive_def message_at_def)

lemma acknowledge_ok:
  "ready s \<Longrightarrow> acknowledge err (message_at b msg) s =
     HRet None (sending (PMessageAck (NewMessageAckPacketWithSessionID (s_dialogueID s) (ms_id msg) err)) s)"
  by (auto simp: acknowledge_def message_Done_def message_Error_def message_at_def ackMessage_def ready_def can_RLock_def split: option.splits)

definition publish_result :: "u64 \<Rightarrow> bytes option \<Rightarrow> hub_op" where
  "publish_result i err = (if err_text err \<noteq> [] then HubError i (RemoteError (err_text err)) else HubAck i None)"

lemma ack_in:
  assumes "s_reading s" "p = (NewMessageAckPacketWithSessionID d i err)\<lparr>ma_hdr := h, ma_clientID := 0\<rparr>" "PacketID h = i"
  shows "\<exists>s'. app_turn (AIn quiet_turn (PMessageAck p)) s = HRet () s' \<and> last (s_hub s') = publish_result i err"
  using assms by (simp add: readPkt_in_def sm_handleIn_def handleInMessageAckPacket_def NewMessageAckPacketWithSessionID_def
      NewMessageAckPacket_def publish_result_def hub_def empty_MessageData_def)

section \<open>Properties\<close>

text \<open>
  C1. A call returns what the procedure answers. Over a wire that carries the two packets, from any
  two streams that are up, the handler that the callee has for the method, a hijacker first, is run
  once with exactly the method, data, custom bytes and id of the caller's request and with a context
  that is done exactly when the earlier of the caller's deadlines has passed; and the caller's wait
  ends with the handler's data, or with the text of its error, of its panic, or of the missing
  registration. (An error whose text is empty arrives as a success.)
\<close>

theorem call_returns_answer:
  assumes "ready a" "rq_clientID req = s_clientID a" "rq_streamID req = s_dialogueID a" "s_remoteCheck a \<longrightarrow> method \<in> set (s_remoteRPCs a)"
    "counting (mode (packetIDs (s_pf a)))" "s_reading b"
    and "ans = answer now (call_data later ctx opts method req) method req b"
    and "sendable (PRequest (Some (call_packet later ctx opts method req (s_dialogueID a))))"
    and "sendable (PResponse (Some ((answer_packet (rq_id req) method ans)\<lparr>ma_sessionID := s_dialogueID b\<rparr>)))"
  shows "\<exists>a' b'. call_exchange clock later ctx opts method req now a b = Some (call_result (rq_id req) a ans, a', b')"
proof -
  let ?p = "call_packet later ctx opts method req (s_dialogueID a)"
  obtain pf x where c: "Call_start clock later ctx opts method req a = HRet (Inr (rq_id req)) (sending (PRequest (Some ?p)) (hub x (a\<lparr>s_pf := pf\<rparr>)))"
    using Call_start_ok [OF assms(1-5)] by blast
  let ?a = "hub x (a\<lparr>s_pf := pf\<rparr>)" and ?r = "(answer_packet (rq_id req) method ans)\<lparr>ma_sessionID := s_dialogueID b\<rparr>"
  obtain h where h: "over_wire (PRequest (Some ?p)) = Some (PRequest (Some (?p\<lparr>mp_hdr := h, mp_clientID := 0\<rparr>)))" "PacketID h = rq_id req"
    using over_wire_request [OF assms(8) call_packet_sel(1)] by (metis call_packet_sel(2) mk_header_def PacketHeader.select_convs(3))
  have ra: "ready ?a" using assms(1) by (simp add: ready_def hub_def)
  have sid: "Packet_SetSessionID (s_dialogueID ?a) (PRequest (Some ?p)) = PRequest (Some ?p)" by (simp add: hub_def)
  have f: "flush (sending (PRequest (Some ?p)) ?a) = Some (PRequest (Some (?p\<lparr>mp_hdr := h, mp_clientID := 0\<rparr>)), flushed (PRequest (Some ?p)) ?a)"
    using flush_ok [OF ra, of "PRequest (Some ?p)"] h(1) unfolding sid by (simp add: goes_down_def)
  obtain y where y: "ma_Data ?r = Some y" by (simp add: answer_packet_def NewResponsePacket_def)
  obtain g where g: "over_wire (PResponse (Some ?r)) = Some (PResponse (Some (?r\<lparr>ma_hdr := g, ma_clientID := 0\<rparr>)))" "PacketID g = PacketID (ma_hdr ?r)"
    using over_wire_response [OF assms(9) y] by blast
  then have gi: "PacketID g = rq_id req" by (simp add: answer_packet_def NewResponsePacket_def mk_header_def)
  obtain b' where b': "serve now (PRequest (Some (?p\<lparr>mp_hdr := h, mp_clientID := 0\<rparr>))) b = Some (PResponse (Some (?r\<lparr>ma_hdr := g, ma_clientID := 0\<rparr>)), b')"
    using serve_ok [OF assms(6) refl h(2) assms(7)] g(1) by auto
  have "s_reading (flushed (PRequest (Some ?p)) ?a)" "call_result i (flushed (PRequest (Some ?p)) ?a) ans = call_result i a ans" for i
    using assms(1) by (simp_all add: flushed_def hub_def ready_def call_result_def)
  then obtain a' where "app_turn (AIn quiet_turn (PResponse (Some (?r\<lparr>ma_hdr := g, ma_clientID := 0\<rparr>)))) (flushed (PRequest (Some ?p)) ?a) = HRet () a'"
    "last (s_hub a') = call_result (rq_id req) a ans"
    using response_in [OF _ refl gi] by metis
  then show ?thesis using c f b' by (simp add: call_exchange_def del: app_turn.simps)
qed


section \<open>Witnesses\<close>

text \<open>Caller and callee: the callee has registered \<open>example_rpc\<close> under the method \<open>[9]\<close>.\<close>

definition example_callee :: stream where
  "example_callee = addLocalRPC [9] example_rpc (newStream 5 1 example_pf False False 4 1)"

definition example_req :: request where
  "example_req = \<lparr>rq_method = [], rq_data = [1, 2], rq_custom = [7], rq_id = 11, rq_clientID = 5, rq_streamID = 1, rq_timeout = 0\<rparr>"

lemma small_sendable: "ok_Packet p \<Longrightarrow> (case Encode p of Ret bs \<Rightarrow> int (length bs) \<le> 4000 | _ \<Rightarrow> False) \<Longrightarrow> sendable p"
  by (simp add: sendable_def MaxDecodablePacketLen_def split: outcome.splits)

lemma example_ends:
  "ready example_stream" "ready example_callee" "inbox_free example_callee" "counting (mode (packetIDs (s_pf example_stream)))"
  "s_clientID example_stream = 5" "s_dialogueID example_stream = 1" "\<not> s_remoteCheck example_stream" "s_reading example_callee"
  "s_dialogueID example_callee = 1"
  by (simp_all add: example_stream_def example_callee_def addLocalRPC_def newStream_def ready_def inbox_free_def stream_size_def example_pf_def
      NewPacketFactory_def NewIDCounter_def counting_def)

lemma example_answer:
  "answer zero_time (call_data zero_time None [] [9] example_req) [9] example_req example_callee = ([2, 1], None)"
  by code_simp

lemma example_call_sendable:
  "sendable (PRequest (Some (call_packet zero_time None [] [9] example_req 1)))"
  "sendable (PResponse (Some ((answer_packet 11 [9] ([2, 1], None))\<lparr>ma_sessionID := 1\<rparr>)))"
proof -
  have "call_packet zero_time None [] [9] example_req 1 =
      (mk_MessagePacket TypeRequestPacket 1 [9] [1, 2] 11)\<lparr>mp_Data := Some (empty_MessageData\<lparr>md_Key := [9], md_Value := [1, 2], md_Custom := [7]\<rparr>)\<rparr>"
    by code_simp
  then have "ok_Packet (PRequest (Some (call_packet zero_time None [] [9] example_req 1)))"
    by (simp add: mk_MessagePacket_def mk_header_def ok_MessageData_def empty_MessageData_def)
  then show "sendable (PRequest (Some (call_packet zero_time None [] [9] example_req 1)))" by (rule small_sendable) code_simp
  have "ok_Packet (PResponse (Some ((answer_packet 11 [9] ([2, 1], None))\<lparr>ma_sessionID := 1\<rparr>)))"
    by (simp add: answer_packet_def NewResponsePacket_def mk_header_def err_text_def)
  then show "sendable (PResponse (Some ((answer_packet 11 [9] ([2, 1], None))\<lparr>ma_sessionID := 1\<rparr>)))" by (rule small_sendable) code_simp
qed

theorem call_returns_answer_witness:
  "\<exists>a' b'. call_exchange 7 zero_time None [] [9] example_req zero_time example_stream example_callee =
     Some (HubAck 11 (Some \<lparr>rs_err = None, rs_method = [], rs_data = [2, 1], rs_custom = [], rs_requestID = 11, rs_clientID = 5, rs_streamID = 1\<rparr>), a', b')"
proof -
  have "call_result 11 example_stream ([2, 1], None) =
      HubAck 11 (Some \<lparr>rs_err = None, rs_method = [], rs_data = [2, 1], rs_custom = [], rs_requestID = 11, rs_clientID = 5, rs_streamID = 1\<rparr>)"
    by (simp add: call_result_def err_text_def example_ends)
  moreover have "rq_id example_req = 11" "rq_clientID example_req = 5" "rq_streamID example_req = 1" by (simp_all add: example_req_def)
  ultimately show ?thesis
    using call_returns_answer [OF example_ends(1) _ _ _ example_ends(4,8), of example_req "[9]" "([2, 1], None)" zero_time zero_time None "[]" 7]
      example_call_sendable example_answer by (simp add: example_ends)
qed

lemma example_publish_sendable:
  "sendable (PMessage (message_packet zero_time None [] (example_message 13) 1))"
  "sendable (PMessageAck (NewMessageAckPacketWithSessionID 1 13 (Some [98])))"
proof -
  have "message_packet zero_time None [] (example_message 13) 1 =
      (mk_MessagePacket TypeMessagePacket 1 [] [1] 13)\<lparr>mp_Data := Some (empty_MessageData\<lparr>md_Value := [1]\<rparr>)\<rparr>" by code_simp
  then have "ok_Packet (PMessage (message_packet zero_time None [] (example_message 13) 1))"
    by (simp add: mk_MessagePacket_def mk_header_def ok_MessageData_def empty_MessageData_def)
  then show "sendable (PMessage (message_packet zero_time None [] (example_message 13) 1))" by (rule small_sendable) code_simp
  have "ok_Packet (PMessageAck (NewMessageAckPacketWithSessionID 1 13 (Some [98])))"
    by (simp add: NewMessageAckPacketWithSessionID_def NewMessageAckPacket_def mk_header_def err_text_def)
  then show "sendable (PMessageAck (NewMessageAckPacketWithSessionID 1 13 (Some [98])))" by (rule small_sendable) code_simp
qed


end
