(* ===== verification/App_Values.thy ===== *)
theory App_Values
  imports App_Api
begin

text \<open>
  The setters of requests, responses and messages (\<open>application/types.go\<close>), and what they are
  needed for: a request or message carries the ids of the stream that made it, and another stream
  refuses it until both ids are set anew. The getters are the selectors of the records.
\<close>

section \<open>Setters\<close>

definition request_SetTimeout :: "int \<Rightarrow> request \<Rightarrow> request" where
  "request_SetTimeout timeout req = req\<lparr>rq_timeout := timeout\<rparr>"

definition request_SetCustom :: "bytes \<Rightarrow> request \<Rightarrow> request" where
  "request_SetCustom custom req = req\<lparr>rq_custom := custom\<rparr>"

definition request_SetClientID :: "u64 \<Rightarrow> request \<Rightarrow> request" where
  "request_SetClientID clientID req = req\<lparr>rq_clientID := clientID\<rparr>"

definition request_SetStreamID :: "u64 \<Rightarrow> request \<Rightarrow> request" where
  "request_SetStreamID streamID req = req\<lparr>rq_streamID := streamID\<rparr>"

definition response_SetError :: "bytes option \<Rightarrow> response \<Rightarrow> response" where
  "response_SetError err rsp = rsp\<lparr>rs_err := err\<rparr>"

definition response_SetData :: "bytes \<Rightarrow> response \<Rightarrow> response" where
  "response_SetData data rsp = rsp\<lparr>rs_data := data\<rparr>"

definition response_SetCustom :: "bytes \<Rightarrow> response \<Rightarrow> response" where
  "response_SetCustom data rsp = rsp\<lparr>rs_custom := data\<rparr>"

definition response_SetClientID :: "u64 \<Rightarrow> response \<Rightarrow> response" where
  "response_SetClientID clientID rsp = rsp\<lparr>rs_clientID := clientID\<rparr>"

definition response_SetStreamID :: "u64 \<Rightarrow> response \<Rightarrow> response" where
  "response_SetStreamID streamID rsp = rsp\<lparr>rs_streamID := streamID\<rparr>"

definition message_SetTimeout :: "int \<Rightarrow> message \<Rightarrow> message" where
  "message_SetTimeout timeout msg = msg\<lparr>ms_timeout := timeout\<rparr>"

definition message_SetCustom :: "bytes \<Rightarrow> message \<Rightarrow> message" where
  "message_SetCustom custom msg = msg\<lparr>ms_custom := custom\<rparr>"

definition message_SetTopic :: "bytes \<Rightarrow> message \<Rightarrow> message" where
  "message_SetTopic topic msg = msg\<lparr>ms_topic := topic\<rparr>"

definition message_SetClientID :: "u64 \<Rightarrow> message \<Rightarrow> message" where
  "message_SetClientID clientID msg = msg\<lparr>ms_clientID := clientID\<rparr>"

definition message_SetStreamID :: "u64 \<Rightarrow> message \<Rightarrow> message" where
  "message_SetStreamID streamID msg = msg\<lparr>ms_streamID := streamID\<rparr>"

section \<open>Requests and messages of another stream\<close>

text \<open>
  The retrying client repeats a call on its new end with the request that the caller made on the old
  one. When the server gave the new connection another client id, the repetition is refused.
\<close>

lemma NewRequest_ids:
  "NewRequest now data opts s = Ret (req, s') \<Longrightarrow> rq_clientID req = s_clientID s \<and> rq_streamID req = s_dialogueID s"
  by (auto simp: NewRequest_def obind_Ret_iff)

lemma NewMessage_ids:
  "NewMessage now data opts s = Ret (msg, s') \<Longrightarrow> ms_clientID msg = s_clientID s \<and> ms_streamID msg = s_dialogueID s"
  by (auto simp: NewMessage_def Let_def obind_Ret_iff)

theorem retried_request_refused:
  assumes "NewRequest now data opts old = Ret (req, old')" "s_clientID new \<noteq> s_clientID old"
  shows "Call_start now' later ctx copts name req new = HRet (Inl ErrMismatchClientID) new"
    and "CallAsync_start now' later ctx copts name req new = HRet (Inl ErrMismatchClientID) new"
  using assms(2) NewRequest_ids[OF assms(1)] by (simp_all add: Call_start_def CallAsync_start_def)

theorem retried_message_refused:
  assumes "NewMessage now data opts old = Ret (msg, old')" "s_clientID new \<noteq> s_clientID old"
  shows "Publish_start now' later ctx popts msg new = HRet (Inl ErrMismatchClientID) new"
    and "PublishAsync_start now' later ctx popts msg new = HRet (Inl ErrMismatchClientID) new"
  using assms(2) NewMessage_ids[OF assms(1)] by (simp_all add: Publish_start_def PublishAsync_start_def)

text \<open>With both ids set anew the other stream takes them; the errors that are left are its own.\<close>

definition readdressed :: "stream \<Rightarrow> request \<Rightarrow> request" where
  "readdressed s req = request_SetStreamID (s_dialogueID s) (request_SetClientID (s_clientID s) req)"

definition readdressed_message :: "stream \<Rightarrow> message \<Rightarrow> message" where
  "readdressed_message s msg = message_SetStreamID (s_dialogueID s) (message_SetClientID (s_clientID s) msg)"

lemmas readdressed_defs = readdressed_def readdressed_message_def request_SetStreamID_def request_SetClientID_def
  message_SetStreamID_def message_SetClientID_def

theorem readdressed_request_taken:
  assumes "Call_start now later ctx opts name (readdressed s req) s = HRet (Inl e) s'"
  shows "e = AppEOF \<and> \<not> s_ok s \<or> e = ErrRemoteRPCUnregistered \<and> s_remoteCheck s \<and> name \<notin> set (s_remoteRPCs s)
    \<or> e = AppPacketTooLarge"
  using assms by (auto simp: Call_start_def readdressed_defs Let_def split: if_splits outcome.splits)

theorem readdressed_message_taken:
  assumes "Publish_start now later ctx opts (readdressed_message s msg) s = HRet (Inl e) s'"
  shows "e = AppEOF \<and> \<not> s_ok s \<or> e = AppPacketTooLarge"
  using assms by (auto simp: Publish_start_def readdressed_defs Let_def split: if_splits outcome.splits)

end
