(* ===== verification/App_End.thy ===== *)
theory App_End
  imports App_Locks "HOL-Library.AList"
begin

text \<open>
  The application end (\<open>application/end.go\<close>): the options, the construction with its registrations and
  its wait for the peer's, and the table of streams. Streams live in a store and the table maps their
  ids to addresses; the packet factory is shared, so a stream's turn starts from the end's and leaves
  it to it. What the multiplexer answers is an input. A stream is started before it is stored in the
  table, in two steps.
\<close>

section \<open>Options\<close>

record end_opts =
  no_pf :: "packetFactory option"
  no_tmr :: bool
  no_tmrOwner :: bool
  no_dlgt :: bool
  no_remoteMethods :: "bytes list"
  no_remoteMethodCheck :: bool
  no_localMethods :: "(bytes \<times> rpc) list"
  no_acceptStreamFunc :: bool
  no_closedStreamFunc :: bool
  no_readBufferSize :: int
  no_writeBufferSize :: int

definition zero_opts :: end_opts where
  "zero_opts = \<lparr>no_pf = None, no_tmr = False, no_tmrOwner = False, no_dlgt = False, no_remoteMethods = [], no_remoteMethodCheck = False,
     no_localMethods = [], no_acceptStreamFunc = False, no_closedStreamFunc = False, no_readBufferSize = 0, no_writeBufferSize = 0\<rparr>"

datatype EndOption = OptionPacketFactory "packetFactory option" | OptionTimer bool | OptionDelegate bool | OptionWaitRemoteRPCs "bytes list"
  | OptionWithRemoteRPCCheck | OptionRegisterLocalRPCs "(bytes \<times> rpc) list" | OptionAcceptStreamFunc bool | OptionClosedStreamFunc bool
  | OptionBufferSize int int

fun apply_end_option :: "EndOption \<Rightarrow> end_opts \<Rightarrow> end_opts" where
  "apply_end_option (OptionPacketFactory pf) o' = o'\<lparr>no_pf := pf\<rparr>"
| "apply_end_option (OptionTimer tmr) o' = o'\<lparr>no_tmr := tmr, no_tmrOwner := False\<rparr>"
| "apply_end_option (OptionDelegate dlgt) o' = o'\<lparr>no_dlgt := dlgt\<rparr>"
| "apply_end_option (OptionWaitRemoteRPCs methods) o' = o'\<lparr>no_remoteMethods := methods\<rparr>"
| "apply_end_option OptionWithRemoteRPCCheck o' = o'\<lparr>no_remoteMethodCheck := True\<rparr>"
| "apply_end_option (OptionRegisterLocalRPCs methodRPCs) o' = o'\<lparr>no_localMethods := methodRPCs\<rparr>"
| "apply_end_option (OptionAcceptStreamFunc fn) o' = o'\<lparr>no_acceptStreamFunc := fn\<rparr>"
| "apply_end_option (OptionClosedStreamFunc fn) o' = o'\<lparr>no_closedStreamFunc := fn\<rparr>"
| "apply_end_option (OptionBufferSize r w) o' = o'\<lparr>no_readBufferSize := r, no_writeBufferSize := w\<rparr>"

section \<open>State\<close>

text \<open>How far \<open>NewEnd\<close> has come.\<close>

datatype end_phase = Registering "(bytes \<times> rpc) list" | RegisterWait bytes u64 "(bytes \<times> rpc) list" | RemoteWait | EndUp
  | EndFailed app_error

datatype end_call = AcceptStreamFunc nat | ClosedStreamFunc nat

text \<open>A stream that is started and not yet in the table, with the callback that follows, if any.\<close>

record End =
  n_opts :: end_opts
  n_clientID :: u64
  n_pf :: packetFactory
  n_phase :: end_phase
  n_store :: "stream list"
  n_streams :: "(u64 \<times> nat) list"
  n_storing :: "(nat \<times> bool) list"
  n_tmrCloses :: nat
  n_onceClose :: bool
  n_muxClosed :: bool
  n_cnClosed :: bool
  n_calls :: "end_call list"

type_synonym 'a nres = "('a, End) gres"

definition end_stream :: "u64 \<Rightarrow> End \<Rightarrow> stream" where
  "end_stream i e = newStream (n_clientID e) i (n_pf e) (no_remoteMethodCheck (n_opts e)) (no_dlgt (n_opts e))
     (no_readBufferSize (n_opts e)) (no_writeBufferSize (n_opts e))"

text \<open>\<open>tmr.Close()\<close> when the end owns the timer.\<close>

definition close_timer :: "End \<Rightarrow> End" where
  "close_timer e = (if no_tmrOwner (n_opts e) then e\<lparr>n_tmrCloses := Suc (n_tmrCloses e)\<rparr> else e)"

definition end_fail :: "app_error \<Rightarrow> End \<Rightarrow> End" where
  "end_fail err e = (close_timer e)\<lparr>n_phase := EndFailed err\<rparr>"

text \<open>
  \<open>NewEnd\<close> up to the registrations: \<open>dg\<close> is what \<open>GetDialogue(clientID, 1)\<close> returns, the id of the
  dialogue or an error; \<open>src\<close> seeds the packet factory of its own.
\<close>

definition NewEnd :: "(byte \<times> byte \<times> byte \<times> byte) option \<Rightarrow> u64 \<Rightarrow> dg_error + u64 \<Rightarrow> EndOption list \<Rightarrow> End" where
  "NewEnd src clientID dg options =
     (let o1 = fold apply_end_option options zero_opts;
          pf = (case no_pf o1 of Some pf \<Rightarrow> pf | None \<Rightarrow> NewPacketFactory (NewIDCounter Odd src));
          o2 = (if no_tmr o1 then o1 else o1\<lparr>no_tmr := True, no_tmrOwner := True\<rparr>);
          e = \<lparr>n_opts = o2, n_clientID = clientID, n_pf = pf, n_phase = Registering (no_localMethods o2), n_store = [], n_streams = [],
               n_storing = [], n_tmrCloses = 0, n_onceClose = False, n_muxClosed = False, n_cnClosed = False, n_calls = []\<rparr>
      in case dg of
           Inl err \<Rightarrow> end_fail (DialogueError err) e
         | Inr i \<Rightarrow> e\<lparr>n_store := [end_stream i e], n_streams := [(i, 0)]\<rparr>)"

text \<open>A step of a stream of the end, which may ask the end to finish or to forget it.\<close>

definition do_end_op :: "end_op \<Rightarrow> End \<Rightarrow> End" where
  "do_end_op x e = (case x of EndFini \<Rightarrow> close_timer e | EndDelStream i \<Rightarrow> e\<lparr>n_streams := AList.delete i (n_streams e)\<rparr>)"

definition with_stream :: "nat \<Rightarrow> (stream \<Rightarrow> 'a sres) \<Rightarrow> End \<Rightarrow> 'a nres" where
  "with_stream a f e =
     (if a < length (n_store e) then
        (case f ((n_store e ! a)\<lparr>s_pf := n_pf e, s_end := []\<rparr>) of
           HRet x s \<Rightarrow> HRet x (fold do_end_op (s_end s) (e\<lparr>n_store := (n_store e)[a := s\<lparr>s_end := []\<rparr>], n_pf := s_pf s\<rparr>))
         | HBlock \<Rightarrow> HBlock | HPanic p \<Rightarrow> HPanic p | HSendOnClosed \<Rightarrow> HSendOnClosed)
      else HBlock)"

text \<open>The registrations of \<open>NewEnd\<close> on the default stream, one after the other, and the wait for the peer's.\<close>

definition NewEnd_register :: "int \<Rightarrow> End \<Rightarrow> unit nres" where
  "NewEnd_register now e =
     (case n_phase e of
        Registering ((method, f) # rest) \<Rightarrow>
          (case with_stream 0 (Register_start now method f) e of
             HRet (Inr i) e' \<Rightarrow> HRet () (e'\<lparr>n_phase := RegisterWait method i rest\<rparr>)
           | HRet (Inl err) e' \<Rightarrow> HRet () (end_fail err e')
           | HBlock \<Rightarrow> HBlock | HPanic p \<Rightarrow> HPanic p | HSendOnClosed \<Rightarrow> HSendOnClosed)
      | _ \<Rightarrow> HBlock)"

definition NewEnd_registered :: "app_error option \<Rightarrow> End \<Rightarrow> unit nres" where
  "NewEnd_registered res e =
     (case n_phase e of
        RegisterWait method i rest \<Rightarrow>
          (case with_stream 0 (\<lambda>s. HRet (fst (Register_end method res s)) (snd (Register_end method res s))) e of
             HRet None e' \<Rightarrow> HRet () (e'\<lparr>n_phase := Registering rest\<rparr>)
           | HRet (Some err) e' \<Rightarrow> HRet () (end_fail err e')
           | HBlock \<Rightarrow> HBlock | HPanic p \<Rightarrow> HPanic p | HSendOnClosed \<Rightarrow> HSendOnClosed)
      | _ \<Rightarrow> HBlock)"

definition tocheckMethods :: "End \<Rightarrow> bytes list" where
  "tocheckMethods e = filter (\<lambda>method. method \<notin> set (s_remoteRPCs (n_store e ! 0))) (no_remoteMethods (n_opts e))"

definition NewEnd_remote :: "End \<Rightarrow> unit nres" where
  "NewEnd_remote e =
     (case n_phase e of
        Registering [] \<Rightarrow> HRet () (e\<lparr>n_phase := (if tocheckMethods e = [] then EndUp else RemoteWait)\<rparr>)
      | _ \<Rightarrow> HBlock)"

definition NewEnd_remote_done :: "app_error option \<Rightarrow> End \<Rightarrow> unit nres" where
  "NewEnd_remote_done res e =
     (case n_phase e of
        RemoteWait \<Rightarrow> (case res of None \<Rightarrow> HRet () (e\<lparr>n_phase := EndUp\<rparr>) | Some err \<Rightarrow> HRet () (end_fail err e))
      | _ \<Rightarrow> HBlock)"

section \<open>Streams\<close>

text \<open>\<open>newStream\<close> starts the stream's goroutines; it is then stored.\<close>

definition start_stream :: "bool \<Rightarrow> u64 \<Rightarrow> End \<Rightarrow> End" where
  "start_stream fn i e = e\<lparr>n_store := n_store e @ [end_stream i e], n_storing := n_storing e @ [(length (n_store e), fn)]\<rparr>"

definition OpenStream :: "dg_error + u64 \<Rightarrow> End \<Rightarrow> dg_error option \<times> End" where
  "OpenStream dg e = (case dg of Inl err \<Rightarrow> (Some err, e) | Inr i \<Rightarrow> (None, start_stream False i e))"

definition AcceptStream :: "dg_error + u64 \<Rightarrow> End \<Rightarrow> dg_error option \<times> End" where
  "AcceptStream dg e = (case dg of Inl err \<Rightarrow> (Some err, e) | Inr i \<Rightarrow> (None, start_stream False i e))"

definition end_AcceptDialogue :: "u64 \<Rightarrow> End \<Rightarrow> End" where
  "end_AcceptDialogue i e = start_stream (no_acceptStreamFunc (n_opts e)) i e"

definition store_stream :: "nat \<Rightarrow> End \<Rightarrow> unit nres" where
  "store_stream n e =
     (if n < length (n_storing e) then
        (let (a, fn) = n_storing e ! n;
             e1 = e\<lparr>n_storing := remove_at n (n_storing e), n_streams := AList.update (s_dialogueID (n_store e ! a)) a (n_streams e)\<rparr>
         in HRet () (if fn then e1\<lparr>n_calls := n_calls e1 @ [AcceptStreamFunc a]\<rparr> else e1))
      else HBlock)"

definition ListStreams :: "End \<Rightarrow> stream list" where
  "ListStreams e = map (\<lambda>(i, a). n_store e ! a) (n_streams e)"

definition end_ClosedDialogue :: "u64 \<Rightarrow> End \<Rightarrow> End" where
  "end_ClosedDialogue i e =
     (case map_of (n_streams e) i of
        Some a \<Rightarrow> (if no_closedStreamFunc (n_opts e) then e\<lparr>n_calls := n_calls e @ [ClosedStreamFunc a]\<rparr> else e)
      | None \<Rightarrow> e)"

definition end_Close :: "End \<Rightarrow> End" where
  "end_Close e =
     (if n_onceClose e then e
      else close_timer (e\<lparr>n_onceClose := True, n_muxClosed := True, n_cnClosed := True\<rparr>))"

section \<open>Runs\<close>

datatype end_op' =
    NRegister int
  | NRegistered "app_error option"
  | NRemote
  | NRemoteDone "app_error option"
  | NOpen "dg_error + u64"
  | NAccept "dg_error + u64"
  | NAcceptDialogue u64
  | NStore nat
  | NStream nat app_op
  | NClosedDialogue u64
  | NClose

fun end_turn :: "end_op' \<Rightarrow> End \<Rightarrow> unit nres" where
  "end_turn (NRegister now) e = NewEnd_register now e"
| "end_turn (NRegistered res) e = NewEnd_registered res e"
| "end_turn NRemote e = NewEnd_remote e"
| "end_turn (NRemoteDone res) e = NewEnd_remote_done res e"
| "end_turn (NOpen dg) e = HRet () (snd (OpenStream dg e))"
| "end_turn (NAccept dg) e = HRet () (snd (AcceptStream dg e))"
| "end_turn (NAcceptDialogue i) e = HRet () (end_AcceptDialogue i e)"
| "end_turn (NStore n) e = store_stream n e"
| "end_turn (NStream a op) e = with_stream a (app_turn op) e"
| "end_turn (NClosedDialogue i) e = HRet () (end_ClosedDialogue i e)"
| "end_turn NClose e = HRet () (end_Close e)"

text \<open>The multiplexer gives every dialogue an id of its own, and a stream is stored before it ends.\<close>

definition fresh_id :: "u64 \<Rightarrow> End \<Rightarrow> bool" where
  "fresh_id i e \<longleftrightarrow> i \<notin> set (map s_dialogueID (n_store e))"

fun fresh_ids :: "end_op' \<Rightarrow> End \<Rightarrow> bool" where
  "fresh_ids (NOpen (Inr i)) e = fresh_id i e"
| "fresh_ids (NAccept (Inr i)) e = fresh_id i e"
| "fresh_ids (NAcceptDialogue i) e = fresh_id i e"
| "fresh_ids _ e = True"

fun stored_in_time :: "end_op' \<Rightarrow> End \<Rightarrow> bool" where
  "stored_in_time (NStore n) e = (n < length (n_storing e) \<longrightarrow> s_ok (n_store e ! fst (n_storing e ! n)))"
| "stored_in_time _ e = True"

inductive end_run :: "(end_op' \<Rightarrow> End \<Rightarrow> bool) \<Rightarrow> End \<Rightarrow> End \<Rightarrow> bool" for P e0 where
  nstart: "end_run P e0 e0"
| nturn: "end_run P e0 e \<Longrightarrow> P op e \<Longrightarrow> end_turn op e = HRet () e' \<Longrightarrow> end_run P e0 e'"

fun end_exec :: "(end_op' \<Rightarrow> End \<Rightarrow> bool) \<Rightarrow> end_op' list \<Rightarrow> End \<Rightarrow> End option" where
  "end_exec P [] e = Some e"
| "end_exec P (op # ops) e = (if P op e then (case end_turn op e of HRet _ e' \<Rightarrow> end_exec P ops e' | _ \<Rightarrow> None) else None)"

lemma end_exec_run: "end_exec P ops e = Some e' \<Longrightarrow> end_run P e0 e \<Longrightarrow> end_run P e0 e'"
proof (induction ops arbitrary: e)
  case (Cons op ops)
  then obtain e1 where "P op e" "end_turn op e = HRet () e1" "end_exec P ops e1 = Some e'"
    by (auto split: if_splits gres.splits)
  then show ?case using Cons.IH end_run.nturn [OF Cons.prems(2)] by blast
qed simp

section \<open>The table of streams\<close>

text \<open>
  Streams are well formed and have ids of their own; the table has one entry per id, for a stored
  stream with that id; every stored stream that is up is in it.
\<close>

definition table_ok :: "stream list \<Rightarrow> (u64 \<times> nat) list \<Rightarrow> (nat \<times> bool) list \<Rightarrow> bool" where
  "table_ok store streams storing \<longleftrightarrow>
     distinct (map s_dialogueID store) \<and> distinct (map fst streams) \<and> distinct (map fst storing)
     \<and> (\<forall>a \<in> fst ` set storing. a < length store)
     \<and> (\<forall>(i, a) \<in> set streams. a < length store \<and> s_dialogueID (store ! a) = i \<and> a \<notin> fst ` set storing)
     \<and> (\<forall>a < length store. s_ok (store ! a) \<longrightarrow> a \<notin> fst ` set storing \<longrightarrow> (s_dialogueID (store ! a), a) \<in> set streams)"

definition end_inv :: "End \<Rightarrow> bool" where
  "end_inv e \<longleftrightarrow> list_all stream_inv (n_store e) \<and> table_ok (n_store e) (n_streams e) (n_storing e)"

definition live_table :: "End \<Rightarrow> bool" where
  "live_table e \<longleftrightarrow> (\<forall>(i, a) \<in> set (n_streams e). s_ok (n_store e ! a))"

lemma delete_keys: "distinct (map fst xs) \<Longrightarrow> distinct (map fst (AList.delete k xs))"
  by (rule distinct_delete)

lemma in_delete: "p \<in> set (AList.delete k xs) \<longleftrightarrow> p \<in> set xs \<and> fst p \<noteq> k"
  by (cases p) (auto simp: AList.delete_eq)

lemma table_okI:
  assumes "distinct (map s_dialogueID store)" "distinct (map fst streams)" "distinct (map fst storing)"
    "\<And>a. a \<in> fst ` set storing \<Longrightarrow> a < length store"
    "\<And>i a. (i, a) \<in> set streams \<Longrightarrow> a < length store \<and> s_dialogueID (store ! a) = i \<and> a \<notin> fst ` set storing"
    "\<And>a. a < length store \<Longrightarrow> s_ok (store ! a) \<Longrightarrow> a \<notin> fst ` set storing \<Longrightarrow> (s_dialogueID (store ! a), a) \<in> set streams"
  shows "table_ok store streams storing"
  using assms unfolding table_ok_def by blast

lemma table_okD:
  assumes "table_ok store streams storing"
  shows "distinct (map s_dialogueID store)" "distinct (map fst streams)" "distinct (map fst storing)"
    "a \<in> fst ` set storing \<Longrightarrow> a < length store"
    "(i, b) \<in> set streams \<Longrightarrow> b < length store \<and> s_dialogueID (store ! b) = i \<and> b \<notin> fst ` set storing"
    "c < length store \<Longrightarrow> s_ok (store ! c) \<Longrightarrow> c \<notin> fst ` set storing \<Longrightarrow> (s_dialogueID (store ! c), c) \<in> set streams"
  using assms unfolding table_ok_def by blast+

lemma table_ids_apart:
  "table_ok store streams storing \<Longrightarrow> a < length store \<Longrightarrow> b < length store \<Longrightarrow> s_dialogueID (store ! b) = s_dialogueID (store ! a) \<Longrightarrow> b = a"
  using nth_eq_iff_index_eq [of "map s_dialogueID store" b a] by (simp add: table_ok_def)

lemma table_update_same:
  assumes t: "table_ok store streams storing" and a: "a < length store" and s: "s_dialogueID s = s_dialogueID (store ! a)" "s_ok s = s_ok (store ! a)"
  shows "table_ok (store[a := s]) streams storing"
proof (rule table_okI)
  have i: "s_dialogueID (store[a := s] ! b) = s_dialogueID (store ! b)" "s_ok (store[a := s] ! b) = s_ok (store ! b)" for b
    using a s by (cases "b = a", simp_all)+
  have "map s_dialogueID (store[a := s]) = map s_dialogueID store"
    using a s(1) by (simp add: list_eq_iff_nth_eq nth_list_update)
  then show "distinct (map s_dialogueID (store[a := s]))" using table_okD(1) [OF t] by simp
  show "b < length (store[a := s]) \<and> s_dialogueID (store[a := s] ! b) = j \<and> b \<notin> fst ` set storing" if "(j, b) \<in> set streams" for j b
    using table_okD(5) [OF t that] i by simp
  show "(s_dialogueID (store[a := s] ! b), b) \<in> set streams"
    if "b < length (store[a := s])" "s_ok (store[a := s] ! b)" "b \<notin> fst ` set storing" for b
    using that table_okD(6) [OF t, of b] i by simp
qed (use table_okD(2-4) [OF t] in auto)

lemma table_finish:
  assumes t: "table_ok store streams storing" and a: "a < length store" and s: "s_dialogueID s = s_dialogueID (store ! a)" "\<not> s_ok s"
  shows "table_ok (store[a := s]) (AList.delete (s_dialogueID s) streams) storing"
proof (rule table_okI)
  have m: "map s_dialogueID (store[a := s]) = map s_dialogueID store"
    using a s(1) by (simp add: list_eq_iff_nth_eq nth_list_update)
  then show "distinct (map s_dialogueID (store[a := s]))" using table_okD(1) [OF t] by simp
  have i: "s_dialogueID (store[a := s] ! b) = s_dialogueID (store ! b)" for b
    using a s(1) by (cases "b = a") simp_all
  show "b < length (store[a := s]) \<and> s_dialogueID (store[a := s] ! b) = i \<and> b \<notin> fst ` set storing"
    if "(i, b) \<in> set (AList.delete (s_dialogueID s) streams)" for i b
    using that table_okD(5) [OF t, of i b] i by (simp add: in_delete)
  show "(s_dialogueID (store[a := s] ! b), b) \<in> set (AList.delete (s_dialogueID s) streams)"
    if b: "b < length (store[a := s])" "s_ok (store[a := s] ! b)" "b \<notin> fst ` set storing" for b
  proof -
    have "b \<noteq> a" using b(2) a s(2) by auto
    then show ?thesis using b table_okD(6) [OF t, of b] table_ids_apart [OF t a, of b] i [of b] s(1) by (auto simp: in_delete)
  qed
qed (use table_okD [OF t] in \<open>auto simp: delete_keys\<close>)

lemma table_start:
  assumes t: "table_ok store streams storing" and s: "s_dialogueID s \<notin> set (map s_dialogueID store)"
  shows "table_ok (store @ [s]) streams (storing @ [(length store, fn)])"
proof (rule table_okI)
  show "b < length (store @ [s]) \<and> s_dialogueID ((store @ [s]) ! b) = i \<and> b \<notin> fst ` set (storing @ [(length store, fn)])"
    if "(i, b) \<in> set streams" for i b
    using table_okD(5) [OF t that] by (simp add: nth_append)
  show "(s_dialogueID ((store @ [s]) ! b), b) \<in> set streams"
    if "b < length (store @ [s])" "s_ok ((store @ [s]) ! b)" "b \<notin> fst ` set (storing @ [(length store, fn)])" for b
    using that table_okD(6) [OF t, of b] by (auto simp: nth_append)
  show "b < length (store @ [s])" if "b \<in> fst ` set (storing @ [(length store, fn)])" for b
    using that table_okD(4) [OF t, of b] by (force simp: less_Suc_eq)
  show "distinct (map fst (storing @ [(length store, fn)]))" using table_okD(3) [OF t] table_okD(4) [OF t, of "length store"] by auto
qed (use table_okD(1,2) [OF t] s in auto)

lemma table_store:
  assumes t: "table_ok store streams storing" and n: "n < length storing" and a: "fst (storing ! n) = a"
  shows "table_ok store (AList.update (s_dialogueID (store ! a)) a streams) (remove_at n storing)"
proof (rule table_okI)
  have sp: "storing = take n storing @ storing ! n # drop (Suc n) storing" using n by (rule id_take_nth_drop)
  have d: "distinct (map fst storing)" using table_okD(3) [OF t] .
  have r: "fst ` set (remove_at n storing) = fst ` set storing - {a}"
  proof -
    have "set (map fst storing) = insert a (set (map fst (remove_at n storing)))" by (subst sp) (simp add: remove_at_def a)
    moreover have "a \<notin> set (map fst (remove_at n storing))"
      using d unfolding remove_at_def by (subst (asm) sp) (simp add: a)
    ultimately show ?thesis by auto
  qed
  have al: "a < length store" "a \<in> fst ` set storing" using table_okD(4) [OF t, of a] n a nth_mem by (force, force)
  have i: "s_dialogueID (store ! a) \<notin> fst ` set streams"
  proof
    assume "s_dialogueID (store ! a) \<in> fst ` set streams"
    then obtain b where b: "(s_dialogueID (store ! a), b) \<in> set streams" by auto
    then have "b = a" using table_okD(5) [OF t b] table_ids_apart [OF t al(1)] by blast
    then show False using table_okD(5) [OF t b] al(2) by blast
  qed
  have u: "set (AList.update (s_dialogueID (store ! a)) a streams) = insert (s_dialogueID (store ! a), a) (set streams)"
    using i by (induction streams) auto
  show "distinct (map fst (remove_at n storing))" using d unfolding remove_at_def by (subst (asm) sp) auto
  show "b < length store \<and> s_dialogueID (store ! b) = j \<and> b \<notin> fst ` set (remove_at n storing)"
    if "(j, b) \<in> set (AList.update (s_dialogueID (store ! a)) a streams)" for j b
    using that table_okD(5) [OF t, of j b] al r unfolding u by auto
  show "(s_dialogueID (store ! b), b) \<in> set (AList.update (s_dialogueID (store ! a)) a streams)"
    if "b < length store" "s_ok (store ! b)" "b \<notin> fst ` set (remove_at n storing)" for b
    using that table_okD(6) [OF t, of b] r unfolding u by auto
  show "b < length store" if "b \<in> fst ` set (remove_at n storing)" for b using that table_okD(4) [OF t, of b] r by auto
qed (use table_okD(1,2) [OF t] in \<open>auto simp: distinct_update\<close>)

text \<open>What a stream may do to its end: nothing, or finish and ask to be forgotten.\<close>

definition end_shape :: "stream \<Rightarrow> stream \<Rightarrow> bool" where
  "end_shape s s' \<longleftrightarrow> s_dialogueID s' = s_dialogueID s
     \<and> (s_ok s' = s_ok s \<and> s_end s' = s_end s
        \<or> s_ok s \<and> \<not> s_ok s' \<and> s_end s' = s_end s @ (if s_dialogueID s = 1 then [EndFini] else []) @ [EndDelStream (s_dialogueID s)])"

lemma turn_shape: "app_turn op s = HRet () s' \<Longrightarrow> end_shape s s'"
  using same_end_turn [of op s s'] fini_end [of s s'] by (cases "op = AFini") (auto simp: end_shape_def same_end_def)

definition keeps :: "(stream \<Rightarrow> 'a sres) \<Rightarrow> bool" where
  "keeps f \<longleftrightarrow> (\<forall>s x s'. f s = HRet x s' \<longrightarrow> end_shape s s' \<and> (stream_inv s \<longrightarrow> stream_inv s'))"

lemma keeps_turn: "keeps (app_turn op)"
  by (auto simp: keeps_def turn_shape intro: stream_turn_inv)

lemma keeps_Register: "keeps (Register_start now method f)"
  unfolding keeps_def
proof (intro allI impI)
  fix s x s' assume "Register_start now method f s = HRet x s'"
  then have "app_turn (ARegister now method f) s = HRet () s'" by (simp add: forget_HRet)
  then show "end_shape s s' \<and> (stream_inv s \<longrightarrow> stream_inv s')" using turn_shape stream_turn_inv by blast
qed

lemma keeps_Register_end: "keeps (\<lambda>s. HRet (fst (Register_end method res s)) (snd (Register_end method res s)))"
  using keeps_turn [of "ARegisterEnd method res"] by (simp add: keeps_def)

lemma close_timer_fields [simp]:
  "n_store (close_timer e) = n_store e" "n_streams (close_timer e) = n_streams e" "n_storing (close_timer e) = n_storing e"
  by (simp_all add: close_timer_def)

lemma end_fail_fields [simp]:
  "n_store (end_fail err e) = n_store e" "n_streams (end_fail err e) = n_streams e" "n_storing (end_fail err e) = n_storing e"
  by (simp_all add: end_fail_def)

text \<open>A step of one stream: its place in the store changes, and it leaves the table when it has finished.\<close>

lemma inv_s_end [simp]: "stream_inv (s\<lparr>s_end := x\<rparr>) = stream_inv s"
  by (simp add: stream_inv_def)

lemma with_stream_cases:
  assumes "with_stream a f e = HRet x e'" "keeps f"
  obtains s where "a < length (n_store e)" "n_storing e' = n_storing e" "n_store e' = (n_store e)[a := s]"
    "s_dialogueID s = s_dialogueID (n_store e ! a)" "stream_inv (n_store e ! a) \<Longrightarrow> stream_inv s"
    "s_ok s = s_ok (n_store e ! a) \<and> n_streams e' = n_streams e
     \<or> s_ok (n_store e ! a) \<and> \<not> s_ok s \<and> n_streams e' = AList.delete (s_dialogueID s) (n_streams e)"
proof -
  let ?s0 = "(n_store e ! a)\<lparr>s_pf := n_pf e, s_end := []\<rparr>"
  obtain s where s: "a < length (n_store e)" "f ?s0 = HRet x s"
    "e' = fold do_end_op (s_end s) (e\<lparr>n_store := (n_store e)[a := s\<lparr>s_end := []\<rparr>], n_pf := s_pf s\<rparr>)"
    using assms(1) by (auto simp: with_stream_def split: if_splits gres.splits)
  have k: "end_shape ?s0 s" "stream_inv (n_store e ! a) \<Longrightarrow> stream_inv s" using assms(2) s(2) by (force simp: keeps_def)+
  have e: "n_storing e' = n_storing e" "n_store e' = (n_store e)[a := s\<lparr>s_end := []\<rparr>]"
    "n_streams e' = (if s_end s = [] then n_streams e else AList.delete (s_dialogueID s) (n_streams e))"
    using k(1) unfolding s(3) by (auto simp: end_shape_def do_end_op_def split: if_splits)
  show ?thesis
    by (rule that [OF s(1) e(1,2)]) (use k e(3) in \<open>auto simp: end_shape_def split: if_splits\<close>)
qed

lemma inv_with_stream:
  assumes "with_stream a f e = HRet x e'" "keeps f" "end_inv e"
  shows "end_inv e'"
  using assms(1,2)
proof (cases rule: with_stream_cases)
  case (1 s)
  have "list_all stream_inv ((n_store e)[a := s])"
    using 1(1,5) assms(3) by (auto simp: end_inv_def list_all_length nth_list_update)
  moreover have "table_ok (n_store e') (n_streams e') (n_storing e')"
    using 1(6)
  proof
    assume "s_ok s = s_ok (n_store e ! a) \<and> n_streams e' = n_streams e"
    then show ?thesis using table_update_same [OF _ 1(1) 1(4)] assms(3) 1(2,3) by (simp add: end_inv_def)
  next
    assume "s_ok (n_store e ! a) \<and> \<not> s_ok s \<and> n_streams e' = AList.delete (s_dialogueID s) (n_streams e)"
    then show ?thesis using table_finish [OF _ 1(1) 1(4)] assms(3) 1(2,3) by (simp add: end_inv_def)
  qed
  ultimately show ?thesis using 1(3) by (simp add: end_inv_def)
qed

lemma live_with_stream:
  assumes "with_stream a f e = HRet x e'" "keeps f" "end_inv e" "live_table e"
  shows "live_table e'"
  using assms(1,2)
proof (cases rule: with_stream_cases)
  case (1 s)
  have t: "b < length (n_store e) \<and> s_dialogueID (n_store e ! b) = i \<and> s_ok (n_store e ! b)" if "(i, b) \<in> set (n_streams e)" for i b
    using that table_okD(5) [of _ _ _ i b] assms(3,4) by (auto simp: end_inv_def live_table_def)
  have "s_ok (n_store e' ! b)" if b: "(i, b) \<in> set (n_streams e')" for i b
  proof (cases "b = a")
    case True
    have "(i, a) \<in> set (n_streams e)" using b True 1(6) by (auto simp: in_delete)
    then show ?thesis using True b t [of i a] 1(1,3,4,6) by (auto simp: in_delete)
  next
    case False
    have "(i, b) \<in> set (n_streams e)" using b 1(6) by (auto simp: in_delete)
    then show ?thesis using False t [of i b] 1(3) by simp
  qed
  then show ?thesis by (auto simp: live_table_def)
qed

definition gone :: "u64 \<Rightarrow> nat \<Rightarrow> End \<Rightarrow> bool" where
  "gone i a e \<longleftrightarrow> (i, a) \<in> set (n_streams e) \<and> \<not> s_ok (n_store e ! a)"

lemma gone_with_stream:
  assumes "with_stream b f e = HRet x e'" "keeps f" "end_inv e" "gone i a e"
  shows "gone i a e'"
  using assms(1,2)
proof (cases rule: with_stream_cases)
  case (1 s)
  have t: "table_ok (n_store e) (n_streams e) (n_storing e)" using assms(3) by (simp add: end_inv_def)
  have a: "a < length (n_store e)" "s_dialogueID (n_store e ! a) = i" using table_okD(5) [OF t, of i a] assms(4) by (auto simp: gone_def)
  have g: "(i, a) \<in> set (n_streams e)" "\<not> s_ok (n_store e ! a)" using assms(4) by (simp_all add: gone_def)
  have "(i, a) \<in> set (n_streams e')" using 1(6)
  proof
    assume x: "s_ok (n_store e ! b) \<and> \<not> s_ok s \<and> n_streams e' = AList.delete (s_dialogueID s) (n_streams e)"
    have "s_dialogueID s \<noteq> i" using x g(2) table_ids_apart [OF t a(1) 1(1)] 1(4) a(2) by metis
    then show ?thesis using x g(1) by (simp add: in_delete)
  qed (use g(1) in simp)
  moreover have "\<not> s_ok (n_store e' ! a)"
    using 1(1,3,6) g(2) by (cases "b = a") auto
  ultimately show ?thesis by (simp add: gone_def)
qed

lemma inv_start:
  assumes "end_inv e" "fresh_id i e"
  shows "end_inv (start_stream fn i e)"
proof -
  have "s_dialogueID (end_stream i e) = i" "stream_inv (end_stream i e)"
    using inv_newStream by (auto simp: end_stream_def newStream_def)
  then show ?thesis using assms table_start [of "n_store e" "n_streams e" "n_storing e" "end_stream i e" fn]
    by (simp add: end_inv_def start_stream_def fresh_id_def)
qed

lemma inv_store: "end_inv e \<Longrightarrow> store_stream n e = HRet x e' \<Longrightarrow> end_inv e'"
  using table_store [of "n_store e" "n_streams e" "n_storing e" n]
  by (auto simp: store_stream_def end_inv_def Let_def split: if_splits prod.splits)

lemma NewEnd_steps:
  "NewEnd_register now e = HRet () e' \<Longrightarrow> (\<exists>method f x e1. with_stream 0 (Register_start now method f) e = HRet x e1
     \<and> n_store e' = n_store e1 \<and> n_streams e' = n_streams e1 \<and> n_storing e' = n_storing e1)"
  "NewEnd_registered res e = HRet () e' \<Longrightarrow>
     (\<exists>method x e1. with_stream 0 (\<lambda>s. HRet (fst (Register_end method res s)) (snd (Register_end method res s))) e = HRet x e1
       \<and> n_store e' = n_store e1 \<and> n_streams e' = n_streams e1 \<and> n_storing e' = n_storing e1)"
  "NewEnd_remote e = HRet () e' \<Longrightarrow> n_store e' = n_store e \<and> n_streams e' = n_streams e \<and> n_storing e' = n_storing e"
  "NewEnd_remote_done res e = HRet () e' \<Longrightarrow> n_store e' = n_store e \<and> n_streams e' = n_streams e \<and> n_storing e' = n_storing e"
  by (fastforce simp: NewEnd_register_def NewEnd_registered_def NewEnd_remote_def NewEnd_remote_done_def
      split: end_phase.splits list.splits gres.splits sum.splits option.splits if_splits)+

text \<open>Every turn is a step of one stream, starts one, stores one, or leaves the streams and the table alone.\<close>

definition same_table :: "End \<Rightarrow> End \<Rightarrow> bool" where
  "same_table e e' \<longleftrightarrow> n_store e' = n_store e \<and> n_streams e' = n_streams e \<and> n_storing e' = n_storing e"

lemma same_tableD: "same_table e e' \<Longrightarrow> end_inv e' = end_inv e \<and> live_table e' = live_table e \<and> gone i a e' = gone i a e"
  by (simp add: same_table_def end_inv_def live_table_def gone_def)

lemma end_turn_cases:
  assumes "end_turn op e = HRet () e'" "fresh_ids op e"
  obtains (stream) a f x e1 where "with_stream a (f :: stream \<Rightarrow> (app_error + u64) sres) e = HRet x e1" "keeps f" "same_table e1 e'"
  | (ended) a f x e1 where "with_stream a (f :: stream \<Rightarrow> app_error option sres) e = HRet x e1" "keeps f" "same_table e1 e'"
  | (step) a f where "with_stream a (f :: stream \<Rightarrow> unit sres) e = HRet () e'" "keeps f"
  | (start) fn i where "fresh_id i e" "same_table (start_stream fn i e) e'"
  | (store) n where "op = NStore n" "store_stream n e = HRet () e'"
  | (none) "same_table e e'"
proof (cases op)
  case (NRegister now)
  then show ?thesis using assms NewEnd_steps(1) [of now e e'] keeps_Register stream by (auto simp: same_table_def)
next
  case (NRegistered res)
  then show ?thesis using assms NewEnd_steps(2) [of res e e'] keeps_Register_end ended by (auto simp: same_table_def)
next
  case (NOpen dg)
  then show ?thesis using assms start none by (cases dg) (auto simp: OpenStream_def same_table_def)
next
  case (NAccept dg)
  then show ?thesis using assms start none by (cases dg) (auto simp: AcceptStream_def same_table_def)
next
  case (NAcceptDialogue i)
  then show ?thesis using assms start by (auto simp: end_AcceptDialogue_def same_table_def)
next
  case (NStream a op')
  then show ?thesis using assms step keeps_turn by auto
qed (use assms NewEnd_steps(3,4) none store in \<open>auto simp: same_table_def end_ClosedDialogue_def end_Close_def split: option.splits if_splits\<close>)

lemma inv_end_turn:
  assumes "end_turn op e = HRet () e'" "fresh_ids op e" "end_inv e"
  shows "end_inv e'"
  using assms(1,2)
proof (cases rule: end_turn_cases)
  case (stream a f x e1)
  then show ?thesis using inv_with_stream assms(3) same_tableD by metis
next
  case (ended a f x e1)
  then show ?thesis using inv_with_stream assms(3) same_tableD by metis
next
  case (start fn i)
  then show ?thesis using inv_start [OF assms(3)] same_tableD by metis
qed (use assms(3) inv_with_stream inv_store same_tableD in metis)+

lemma live_start: "end_inv e \<Longrightarrow> live_table e \<Longrightarrow> live_table (start_stream fn i e)"
  using table_okD(5) by (fastforce simp: live_table_def start_stream_def end_inv_def nth_append)

lemma gone_start: "end_inv e \<Longrightarrow> gone i a e \<Longrightarrow> gone i a (start_stream fn j e)"
  using table_okD(5) by (fastforce simp: gone_def start_stream_def end_inv_def nth_append)

lemma in_update: "p \<in> set (AList.update k v xs) \<Longrightarrow> p = (k, v) \<or> p \<in> set xs"
  by (induction xs) (auto split: if_splits)

lemma kept_update: "(i, a) \<in> set xs \<Longrightarrow> i \<noteq> k \<Longrightarrow> (i, a) \<in> set (AList.update k v xs)"
  by (induction xs) auto

lemma live_store:
  assumes "live_table e" "store_stream n e = HRet () e'" "stored_in_time (NStore n) e"
  shows "live_table e'"
  using assms by (auto simp: store_stream_def live_table_def Let_def dest!: in_update split: if_splits prod.splits)

lemma gone_store:
  assumes inv: "end_inv e" and g: "gone i a e" and st: "store_stream n e = HRet () e'"
  shows "gone i a e'"
proof -
  have t: "table_ok (n_store e) (n_streams e) (n_storing e)" using inv by (simp add: end_inv_def)
  let ?b = "fst (n_storing e ! n)"
  have n: "n < length (n_storing e)" using st by (auto simp: store_stream_def split: if_splits)
  then have b: "?b \<in> fst ` set (n_storing e)" "?b < length (n_store e)" using table_okD(4) [OF t, of ?b] by auto
  have a: "(i, a) \<in> set (n_streams e)" "a < length (n_store e)" "s_dialogueID (n_store e ! a) = i" "a \<notin> fst ` set (n_storing e)"
    using g table_okD(5) [OF t, of i a] by (auto simp: gone_def)
  have "s_dialogueID (n_store e ! ?b) \<noteq> i" using table_ids_apart [OF t a(2) b(2)] a b by metis
  then have "(i, a) \<in> set (AList.update (s_dialogueID (n_store e ! ?b)) ?b (n_streams e))" using kept_update a(1) by metis
  then show ?thesis using st g n by (auto simp: store_stream_def gone_def Let_def split: prod.splits if_splits)
qed

lemma live_end_turn:
  assumes "end_turn op e = HRet () e'" "fresh_ids op e" "stored_in_time op e" "end_inv e" "live_table e"
  shows "live_table e'"
  using assms(1,2)
proof (cases rule: end_turn_cases)
  case (stream a f x e1)
  then show ?thesis using live_with_stream assms(4,5) same_tableD by metis
next
  case (ended a f x e1)
  then show ?thesis using live_with_stream assms(4,5) same_tableD by metis
next
  case (start fn i)
  then show ?thesis using live_start [OF assms(4,5)] same_tableD by metis
qed (use assms(3-5) live_with_stream live_store same_tableD in metis)+

lemma gone_end_turn:
  assumes "end_turn op e = HRet () e'" "fresh_ids op e" "end_inv e" "gone i a e"
  shows "gone i a e'"
  using assms(1,2)
proof (cases rule: end_turn_cases)
  case (stream b f x e1)
  then show ?thesis using gone_with_stream assms(3,4) same_tableD by metis
next
  case (ended b f x e1)
  then show ?thesis using gone_with_stream assms(3,4) same_tableD by metis
next
  case (start fn j)
  then show ?thesis using gone_start [OF assms(3,4)] same_tableD by metis
qed (use assms(3,4) gone_with_stream gone_store same_tableD in metis)+

lemma NewEnd_inv: "end_inv (NewEnd src c dg opts) \<and> live_table (NewEnd src c dg opts)"
  using inv_newStream
  by (auto simp: NewEnd_def Let_def end_inv_def table_ok_def live_table_def end_fail_def close_timer_def end_stream_def newStream_def
      split: sum.splits)

lemma run_end_inv: "end_run P e0 e \<Longrightarrow> (\<And>op e. P op e \<Longrightarrow> fresh_ids op e) \<Longrightarrow> end_inv e0 \<Longrightarrow> end_inv e"
  by (induction rule: end_run.induct) (auto intro: inv_end_turn)

definition timely :: "end_op' \<Rightarrow> End \<Rightarrow> bool" where
  "timely op e \<longleftrightarrow> fresh_ids op e \<and> stored_in_time op e"

lemma run_live: "end_run timely e0 e \<Longrightarrow> end_inv e0 \<Longrightarrow> live_table e0 \<Longrightarrow> live_table e"
proof (induction rule: end_run.induct)
  case (nturn e op e')
  moreover have "end_inv e" using run_end_inv [OF nturn.hyps(1)] nturn.prems(1) by (simp add: timely_def)
  ultimately show ?case using live_end_turn by (auto simp: timely_def)
qed simp

section \<open>Listing the streams\<close>

lemma listed_live:
  assumes "end_run timely e0 e" "end_inv e0" "live_table e0"
  shows "distinct (map s_dialogueID (ListStreams e))
    \<and> set (ListStreams e) = {n_store e ! a | a. a < length (n_store e) \<and> a \<notin> fst ` set (n_storing e) \<and> s_ok (n_store e ! a)}"
proof -
  have inv: "end_inv e" using run_end_inv [OF assms(1) _ assms(2)] by (simp add: timely_def)
  then have t: "table_ok (n_store e) (n_streams e) (n_storing e)" by (simp add: end_inv_def)
  have live: "live_table e" using run_live [OF assms] .
  have "map s_dialogueID (ListStreams e) = map fst (n_streams e)"
    using table_okD(5) [OF t] by (auto simp: ListStreams_def)
  moreover have "set (ListStreams e) = {n_store e ! a | a. a < length (n_store e) \<and> a \<notin> fst ` set (n_storing e) \<and> s_ok (n_store e ! a)}"
  proof (intro equalityI subsetI)
    fix s assume "s \<in> set (ListStreams e)"
    then obtain i a where "(i, a) \<in> set (n_streams e)" "s = n_store e ! a" by (auto simp: ListStreams_def)
    then show "s \<in> {n_store e ! a | a. a < length (n_store e) \<and> a \<notin> fst ` set (n_storing e) \<and> s_ok (n_store e ! a)}"
      using table_okD(5) [OF t, of i a] live by (auto simp: live_table_def)
  next
    fix s assume "s \<in> {n_store e ! a | a. a < length (n_store e) \<and> a \<notin> fst ` set (n_storing e) \<and> s_ok (n_store e ! a)}"
    then obtain a where "s = n_store e ! a" "(s_dialogueID (n_store e ! a), a) \<in> set (n_streams e)"
      using table_okD(6) [OF t] by blast
    then show "s \<in> set (ListStreams e)" by (force simp: ListStreams_def)
  qed
  ultimately show ?thesis using table_okD(2) [OF t] by simp
qed

text \<open>
  C17. When the multiplexer gives every dialogue an id of its own and every stream is stored before it ends, \<open>ListStreams\<close> lists
  exactly the streams that are stored and up, each once: whatever the end's calls, the streams' goroutines
  and their callers did in between.
\<close>

theorem listed_streams_are_live:
  assumes "end_run timely (NewEnd src c dg opts) e"
  shows "distinct (map s_dialogueID (ListStreams e))
    \<and> set (ListStreams e) = {n_store e ! a | a. a < length (n_store e) \<and> a \<notin> fst ` set (n_storing e) \<and> s_ok (n_store e ! a)}"
  using listed_live [OF assms] NewEnd_inv by blast

text \<open>
  C30. A stream that has finished and is in the table stays there: its goroutines are gone, so nothing deletes it,
  and every later \<open>ListStreams\<close> returns it. This happens to a stream whose dialogue ends between \<open>newStream\<close>,
  which starts its goroutines, and the \<open>Store\<close> that follows.
\<close>

theorem late_stream_stays_listed:
  assumes "end_run fresh_ids (NewEnd src c dg opts) e" "(i, a) \<in> set (n_streams e)" "\<not> s_ok (n_store e ! a)" "end_run fresh_ids e e'"
  shows "n_store e' ! a \<in> set (ListStreams e') \<and> \<not> s_ok (n_store e' ! a)"
proof -
  have inv: "end_inv e" using run_end_inv [OF assms(1)] NewEnd_inv by blast
  have "gone i a e'" using assms(4)
  proof (induction rule: end_run.induct)
    case (nturn e1 op e2)
    then show ?case using gone_end_turn run_end_inv [OF nturn.hyps(1) _ inv] by blast
  qed (use assms(2,3) in \<open>simp add: gone_def\<close>)
  then show ?thesis by (force simp: gone_def ListStreams_def)
qed

definition example_end :: End where
  "example_end = NewEnd None 7 (Inr 1) []"

definition early_ops :: "end_op' list" where
  "early_ops = [NRemote, NOpen (Inr 3), NStore 0, NAcceptDialogue 4, NStore 0, NStream 1 AInEnd, NStream 1 AFiniWait, NStream 1 AFini]"

definition late_ops :: "end_op' list" where
  "late_ops = [NRemote, NOpen (Inr 3), NStream 1 AInEnd, NStream 1 AFiniWait, NStream 1 AFini, NStore 0]"

lemma example_early:
  "map_option (\<lambda>e. (map s_dialogueID (ListStreams e), n_storing e)) (end_exec timely early_ops example_end) = Some ([1, 4], [])"
  by code_simp

lemma example_late:
  "map_option (\<lambda>e. (n_streams e, s_ok (n_store e ! 1))) (end_exec fresh_ids late_ops example_end) = Some ([(1, 0), (3, 1)], False)"
  by code_simp

lemma example_late_close:
  "map_option (\<lambda>e. (n_muxClosed e, map s_dialogueID (ListStreams e))) (end_exec fresh_ids (late_ops @ [NClose]) example_end) = Some (True, [1, 3])"
  by code_simp

theorem listed_streams_are_live_witness:
  "\<exists>e. end_run timely example_end e \<and> map s_dialogueID (ListStreams e) = [1, 4] \<and> distinct (map s_dialogueID (ListStreams e))
    \<and> set (ListStreams e) = {n_store e ! a | a. a < length (n_store e) \<and> a \<notin> fst ` set (n_storing e) \<and> s_ok (n_store e ! a)}"
proof -
  obtain e where e: "end_exec timely early_ops example_end = Some e" "map s_dialogueID (ListStreams e) = [1, 4]" using example_early by auto
  have "end_run timely example_end e" by (rule end_exec_run [OF e(1) end_run.nstart])
  then show ?thesis using e(2) listed_streams_are_live [of None 7 "Inr 1" "[]" e, folded example_end_def] by (intro exI [of _ e]) simp
qed

lemma end_exec_append: "end_exec P (xs @ ys) e = Option.bind (end_exec P xs e) (end_exec P ys)"
  by (induction xs arbitrary: e) (auto split: gres.splits)

theorem late_stream_stays_listed_witness:
  "\<exists>e'. end_run fresh_ids example_end e' \<and> n_muxClosed e' \<and> n_store e' ! 1 \<in> set (ListStreams e') \<and> \<not> s_ok (n_store e' ! 1)"
proof -
  obtain e where e: "end_exec fresh_ids late_ops example_end = Some e" "n_streams e = [(1, 0), (3, 1)]" "\<not> s_ok (n_store e ! 1)"
    using example_late by auto
  obtain e' where e': "end_exec fresh_ids [NClose] e = Some e'" "n_muxClosed e'"
    using example_late_close e(1) by (auto simp: end_exec_append)
  have r: "end_run fresh_ids example_end e" by (rule end_exec_run [OF e(1) end_run.nstart])
  have "end_run fresh_ids e e'" by (rule end_exec_run [OF e'(1) end_run.nstart])
  moreover have "end_run fresh_ids example_end e'" by (rule end_exec_run [OF e'(1) r])
  ultimately show ?thesis
    using late_stream_stays_listed [of None 7 "Inr 1" "[]" e 3 1 e', folded example_end_def, OF r] e e'(2) by auto
qed

end
