(* ===== verification/Ends.thy ===== *)
theory Ends
  imports App_End App_Output Dialogue_Hub
begin

text \<open>
  The client's and the server's ends (\<open>client/end.go\<close>, \<open>client/end_options.go\<close>, \<open>server/end.go\<close>,
  \<open>server/end_options.go\<close>, \<open>server/server.go\<close>): their options and how several merge, the options they hand
  to the connection, the multiplexer and the application, the assembly of the three layers with the
  callbacks the server installs, and the listener. Timers, loggers and delegates are handles.
\<close>

section \<open>Options of a client\<close>

record client_EndOptions =
  cl_Timer :: "nat option"
  cl_TimerOwner :: "nat option"
  cl_PacketFactory :: "packetFactory option"
  cl_Log :: "nat option"
  cl_Delegate :: "nat option"
  cl_userDelegate :: "nat option"
  cl_ClientID :: "u64 option"
  cl_Meta :: "bytes option"
  cl_RemoteMethods :: "bytes list option"
  cl_RemoteMethodCheck :: bool
  cl_LocalMethods :: "(bytes \<times> rpc) list option"
  cl_ReadBufferSize :: int
  cl_WriteBufferSize :: int

definition client_NewEndOptions :: client_EndOptions where
  "client_NewEndOptions = \<lparr>cl_Timer = None, cl_TimerOwner = None, cl_PacketFactory = None, cl_Log = None, cl_Delegate = None,
     cl_userDelegate = None, cl_ClientID = None, cl_Meta = None, cl_RemoteMethods = None, cl_RemoteMethodCheck = False,
     cl_LocalMethods = None, cl_ReadBufferSize = -1, cl_WriteBufferSize = -1\<rparr>"

definition client_SetTimer :: "nat option \<Rightarrow> client_EndOptions \<Rightarrow> client_EndOptions" where
  "client_SetTimer timer eo = eo\<lparr>cl_Timer := timer, cl_TimerOwner := None\<rparr>"

definition client_SetPacketFactory :: "packetFactory option \<Rightarrow> client_EndOptions \<Rightarrow> client_EndOptions" where
  "client_SetPacketFactory pf eo = eo\<lparr>cl_PacketFactory := pf\<rparr>"

definition client_SetLog :: "nat option \<Rightarrow> client_EndOptions \<Rightarrow> client_EndOptions" where
  "client_SetLog log eo = eo\<lparr>cl_Log := log\<rparr>"

definition client_SetDelegate :: "nat option \<Rightarrow> client_EndOptions \<Rightarrow> client_EndOptions" where
  "client_SetDelegate delegate eo = eo\<lparr>cl_Delegate := delegate\<rparr>"

definition client_SetClientID :: "u64 \<Rightarrow> client_EndOptions \<Rightarrow> client_EndOptions" where
  "client_SetClientID clientID eo = eo\<lparr>cl_ClientID := Some clientID\<rparr>"

definition client_SetMeta :: "bytes option \<Rightarrow> client_EndOptions \<Rightarrow> client_EndOptions" where
  "client_SetMeta meta eo = eo\<lparr>cl_Meta := meta\<rparr>"

text \<open>A variadic parameter without arguments is a nil slice.\<close>

definition variadic :: "'a list \<Rightarrow> 'a list option" where
  "variadic xs = (case xs of [] \<Rightarrow> None | _ # _ \<Rightarrow> Some xs)"

definition client_SetWaitRemoteRPCs :: "bytes list \<Rightarrow> client_EndOptions \<Rightarrow> client_EndOptions" where
  "client_SetWaitRemoteRPCs methods eo = eo\<lparr>cl_RemoteMethods := variadic methods\<rparr>"

definition client_SetBufferSize :: "int \<Rightarrow> int \<Rightarrow> client_EndOptions \<Rightarrow> client_EndOptions" where
  "client_SetBufferSize r w eo = eo\<lparr>cl_ReadBufferSize := r, cl_WriteBufferSize := w\<rparr>"

definition client_SetRemoteRPCCheck :: "client_EndOptions \<Rightarrow> client_EndOptions" where
  "client_SetRemoteRPCCheck eo = eo\<lparr>cl_RemoteMethodCheck := True\<rparr>"

definition client_SetRegisterLocalRPCs :: "(bytes \<times> rpc) list \<Rightarrow> client_EndOptions \<Rightarrow> client_EndOptions" where
  "client_SetRegisterLocalRPCs methodRPCs eo = eo\<lparr>cl_LocalMethods := variadic methodRPCs\<rparr>"

text \<open>The body of the merging loop: the check is taken from every entry, whether it was set or not.\<close>

definition client_merge :: "client_EndOptions \<Rightarrow> client_EndOptions \<Rightarrow> client_EndOptions" where
  "client_merge eo opt =
     eo\<lparr>cl_RemoteMethodCheck := cl_RemoteMethodCheck opt,
        cl_Timer := overwrite (cl_Timer opt) (cl_Timer eo),
        cl_TimerOwner := (if cl_Timer opt \<noteq> None then cl_TimerOwner opt else cl_TimerOwner eo),
        cl_PacketFactory := overwrite (cl_PacketFactory opt) (cl_PacketFactory eo),
        cl_Log := overwrite (cl_Log opt) (cl_Log eo),
        cl_Delegate := overwrite (cl_Delegate opt) (cl_Delegate eo),
        cl_Meta := overwrite (cl_Meta opt) (cl_Meta eo),
        cl_ClientID := overwrite (cl_ClientID opt) (cl_ClientID eo),
        cl_RemoteMethods := overwrite (cl_RemoteMethods opt) (cl_RemoteMethods eo),
        cl_LocalMethods := overwrite (cl_LocalMethods opt) (cl_LocalMethods eo),
        cl_ReadBufferSize := (if cl_ReadBufferSize opt > 0 then cl_ReadBufferSize opt else cl_ReadBufferSize eo),
        cl_WriteBufferSize := (if cl_WriteBufferSize opt > 0 then cl_WriteBufferSize opt else cl_WriteBufferSize eo)\<rparr>"

definition client_MergeEndOptions :: "client_EndOptions option list \<Rightarrow> client_EndOptions" where
  "client_MergeEndOptions = merge_with client_merge client_NewEndOptions"

text \<open>The logger \<open>0\<close> is the default one; \<open>src\<close> seeds the counter of ids.\<close>

definition client_initEndOptions :: "(byte \<times> byte \<times> byte \<times> byte) option \<Rightarrow> client_EndOptions \<Rightarrow> client_EndOptions" where
  "client_initEndOptions src eo =
     eo\<lparr>cl_Log := overwrite (cl_Log eo) (Some 0),
        cl_PacketFactory := overwrite (cl_PacketFactory eo) (Some (NewPacketFactory (NewIDCounter Odd src)))\<rparr>"

section \<open>Options of a server\<close>

record server_EndOptions =
  sv_Timer :: "nat option"
  sv_TimerOwner :: "nat option"
  sv_PacketFactory :: "packetFactory option"
  sv_Log :: "nat option"
  sv_Delegate :: "nat option"
  sv_ClientID :: "u64 option"
  sv_RemoteMethods :: "bytes list option"
  sv_RemoteMethodCheck :: bool
  sv_LocalMethods :: "(bytes \<times> rpc) list option"
  sv_AcceptStreamFunc :: "nat option"
  sv_ClosedStreamFunc :: "nat option"
  sv_ReadBufferSize :: int
  sv_WriteBufferSize :: int

definition server_NewEndOptions :: server_EndOptions where
  "server_NewEndOptions = \<lparr>sv_Timer = None, sv_TimerOwner = None, sv_PacketFactory = None, sv_Log = None, sv_Delegate = None,
     sv_ClientID = None, sv_RemoteMethods = None, sv_RemoteMethodCheck = False, sv_LocalMethods = None, sv_AcceptStreamFunc = None,
     sv_ClosedStreamFunc = None, sv_ReadBufferSize = -1, sv_WriteBufferSize = -1\<rparr>"

definition server_SetTimer :: "nat option \<Rightarrow> server_EndOptions \<Rightarrow> server_EndOptions" where
  "server_SetTimer timer eo = eo\<lparr>sv_Timer := timer, sv_TimerOwner := None\<rparr>"

definition server_SetPacketFactory :: "packetFactory option \<Rightarrow> server_EndOptions \<Rightarrow> server_EndOptions" where
  "server_SetPacketFactory pf eo = eo\<lparr>sv_PacketFactory := pf\<rparr>"

definition server_SetLog :: "nat option \<Rightarrow> server_EndOptions \<Rightarrow> server_EndOptions" where
  "server_SetLog log eo = eo\<lparr>sv_Log := log\<rparr>"

definition server_SetDelegate :: "nat option \<Rightarrow> server_EndOptions \<Rightarrow> server_EndOptions" where
  "server_SetDelegate delegate eo = eo\<lparr>sv_Delegate := delegate\<rparr>"

definition server_SetClientID :: "u64 \<Rightarrow> server_EndOptions \<Rightarrow> server_EndOptions" where
  "server_SetClientID clientID eo = eo\<lparr>sv_ClientID := Some clientID\<rparr>"

definition server_SetWaitRemoteRPCs :: "bytes list \<Rightarrow> server_EndOptions \<Rightarrow> server_EndOptions" where
  "server_SetWaitRemoteRPCs methods eo = eo\<lparr>sv_RemoteMethods := variadic methods\<rparr>"

definition server_SetRemoteRPCCheck :: "server_EndOptions \<Rightarrow> server_EndOptions" where
  "server_SetRemoteRPCCheck eo = eo\<lparr>sv_RemoteMethodCheck := True\<rparr>"

definition server_SetRegisterLocalRPCs :: "(bytes \<times> rpc) list \<Rightarrow> server_EndOptions \<Rightarrow> server_EndOptions" where
  "server_SetRegisterLocalRPCs methodRPCs eo = eo\<lparr>sv_LocalMethods := variadic methodRPCs\<rparr>"

definition server_SetAcceptStreamFunc :: "nat option \<Rightarrow> server_EndOptions \<Rightarrow> server_EndOptions" where
  "server_SetAcceptStreamFunc fn eo = eo\<lparr>sv_AcceptStreamFunc := fn\<rparr>"

definition server_SetClosedStreamFunc :: "nat option \<Rightarrow> server_EndOptions \<Rightarrow> server_EndOptions" where
  "server_SetClosedStreamFunc fn eo = eo\<lparr>sv_ClosedStreamFunc := fn\<rparr>"

definition server_SetBufferSize :: "int \<Rightarrow> int \<Rightarrow> server_EndOptions \<Rightarrow> server_EndOptions" where
  "server_SetBufferSize r w eo = eo\<lparr>sv_ReadBufferSize := r, sv_WriteBufferSize := w\<rparr>"

definition server_merge :: "server_EndOptions \<Rightarrow> server_EndOptions \<Rightarrow> server_EndOptions" where
  "server_merge eo opt =
     eo\<lparr>sv_RemoteMethodCheck := sv_RemoteMethodCheck opt,
        sv_Timer := overwrite (sv_Timer opt) (sv_Timer eo),
        sv_TimerOwner := (if sv_Timer opt \<noteq> None then sv_TimerOwner opt else sv_TimerOwner eo),
        sv_PacketFactory := overwrite (sv_PacketFactory opt) (sv_PacketFactory eo),
        sv_Log := overwrite (sv_Log opt) (sv_Log eo),
        sv_Delegate := overwrite (sv_Delegate opt) (sv_Delegate eo),
        sv_ClientID := overwrite (sv_ClientID opt) (sv_ClientID eo),
        sv_RemoteMethods := overwrite (sv_RemoteMethods opt) (sv_RemoteMethods eo),
        sv_LocalMethods := overwrite (sv_LocalMethods opt) (sv_LocalMethods eo),
        sv_AcceptStreamFunc := overwrite (sv_AcceptStreamFunc opt) (sv_AcceptStreamFunc eo),
        sv_ClosedStreamFunc := overwrite (sv_ClosedStreamFunc opt) (sv_ClosedStreamFunc eo),
        sv_ReadBufferSize := (if sv_ReadBufferSize opt > 0 then sv_ReadBufferSize opt else sv_ReadBufferSize eo),
        sv_WriteBufferSize := (if sv_WriteBufferSize opt > 0 then sv_WriteBufferSize opt else sv_WriteBufferSize eo)\<rparr>"

definition server_MergeEndOptions :: "server_EndOptions option list \<Rightarrow> server_EndOptions" where
  "server_MergeEndOptions = merge_with server_merge server_NewEndOptions"

definition server_initEndOptions :: "(byte \<times> byte \<times> byte \<times> byte) option \<Rightarrow> server_EndOptions \<Rightarrow> server_EndOptions" where
  "server_initEndOptions src eo =
     eo\<lparr>sv_Log := overwrite (sv_Log eo) (Some 0),
        sv_PacketFactory := overwrite (sv_PacketFactory eo) (Some (NewPacketFactory (NewIDCounter Even src)))\<rparr>"

section \<open>Options of a connection\<close>

record conn_setup =
  cs_pf :: "packetFactory option"
  cs_tmr :: "nat option"
  cs_tmrOutside :: bool
  cs_dlgt :: "nat option"
  cs_log :: "nat option"
  cs_meta :: bytes
  cs_clientID :: u64
  cs_failed :: "Packet list option"
  cs_readOutSize :: int
  cs_writeInSize :: int

definition default_setup :: conn_setup where
  "default_setup = \<lparr>cs_pf = None, cs_tmr = None, cs_tmrOutside = False, cs_dlgt = None, cs_log = None, cs_meta = [], cs_clientID = 0,
     cs_failed = None, cs_readOutSize = 256, cs_writeInSize = 256\<rparr>"

datatype ClientConnOption = OptionClientConnPacketFactory "packetFactory option" | OptionClientConnTimer "nat option"
  | OptionClientConnDelegate "nat option" | OptionClientConnLogger "nat option" | OptionClientConnMeta bytes
  | OptionClientConnClientID u64 | OptionClientConnBufferSize int int

fun apply_client_conn :: "ClientConnOption \<Rightarrow> conn_setup \<Rightarrow> conn_setup" where
  "apply_client_conn (OptionClientConnPacketFactory pf) c = c\<lparr>cs_pf := pf\<rparr>"
| "apply_client_conn (OptionClientConnTimer tmr) c = c\<lparr>cs_tmr := tmr, cs_tmrOutside := True\<rparr>"
| "apply_client_conn (OptionClientConnDelegate dlgt) c = c\<lparr>cs_dlgt := dlgt\<rparr>"
| "apply_client_conn (OptionClientConnLogger log) c = c\<lparr>cs_log := log\<rparr>"
| "apply_client_conn (OptionClientConnMeta meta) c = c\<lparr>cs_meta := meta\<rparr>"
| "apply_client_conn (OptionClientConnClientID clientID) c = c\<lparr>cs_clientID := clientID\<rparr>"
| "apply_client_conn (OptionClientConnBufferSize r w) c =
     c\<lparr>cs_readOutSize := (if r > 0 then r else cs_readOutSize c), cs_writeInSize := (if w > 0 then w else cs_writeInSize c)\<rparr>"

datatype ServerConnOption = OptionServerConnPacketFactory "packetFactory option" | OptionServerConnTimer "nat option"
  | OptionServerConnDelegate "nat option" | OptionServerConnLogger "nat option" | OptionServerConnBufferSize int int
  | OptionServerConnClientID u64 | OptionServerConnFailedPacket "Packet list option"

fun apply_server_conn :: "ServerConnOption \<Rightarrow> conn_setup \<Rightarrow> conn_setup" where
  "apply_server_conn (OptionServerConnPacketFactory pf) c = c\<lparr>cs_pf := pf\<rparr>"
| "apply_server_conn (OptionServerConnTimer tmr) c = c\<lparr>cs_tmr := tmr, cs_tmrOutside := True\<rparr>"
| "apply_server_conn (OptionServerConnDelegate dlgt) c = c\<lparr>cs_dlgt := dlgt\<rparr>"
| "apply_server_conn (OptionServerConnLogger log) c = c\<lparr>cs_log := log\<rparr>"
| "apply_server_conn (OptionServerConnBufferSize r w) c =
     c\<lparr>cs_readOutSize := (if r > 0 then r else cs_readOutSize c), cs_writeInSize := (if w > 0 then w else cs_writeInSize c)\<rparr>"
| "apply_server_conn (OptionServerConnClientID clientID) c = c\<lparr>cs_clientID := clientID\<rparr>"
| "apply_server_conn (OptionServerConnFailedPacket ch) c = c\<lparr>cs_failed := ch\<rparr>"

section \<open>The options of the layers\<close>

definition client_cnOpts :: "client_EndOptions \<Rightarrow> ClientConnOption list" where
  "client_cnOpts eo =
     [OptionClientConnPacketFactory (cl_PacketFactory eo), OptionClientConnDelegate (cl_Delegate eo), OptionClientConnLogger (cl_Log eo),
      OptionClientConnTimer (cl_Timer eo), OptionClientConnMeta (case cl_Meta eo of None \<Rightarrow> [] | Some meta \<Rightarrow> meta),
      OptionClientConnBufferSize (cl_ReadBufferSize eo) (cl_WriteBufferSize eo)]
     @ (case cl_ClientID eo of None \<Rightarrow> [] | Some clientID \<Rightarrow> [OptionClientConnClientID clientID])"

definition server_cnOpts :: "server_EndOptions \<Rightarrow> ServerConnOption list" where
  "server_cnOpts eo =
     [OptionServerConnPacketFactory (sv_PacketFactory eo), OptionServerConnDelegate (sv_Delegate eo), OptionServerConnLogger (sv_Log eo),
      OptionServerConnTimer (sv_Timer eo), OptionServerConnBufferSize (sv_ReadBufferSize eo) (sv_WriteBufferSize eo)]
     @ (case sv_ClientID eo of None \<Rightarrow> [] | Some clientID \<Rightarrow> [OptionServerConnClientID clientID])"

text \<open>Passing a nil delegate or factory on leaves the option as it is.\<close>

definition mp_shared :: "packetFactory option \<Rightarrow> nat option \<Rightarrow> MultiplexerOption list" where
  "mp_shared pf dlgt =
     (case pf of None \<Rightarrow> [] | Some p \<Rightarrow> [MultiplexerOption.OptionPacketFactory p])
     @ (if dlgt = None then [] else [MultiplexerOption.OptionDelegate]) @ [OptionLogger, MultiplexerOption.OptionTimer]"

definition client_mpOpts :: "client_EndOptions \<Rightarrow> MultiplexerOption list" where
  "client_mpOpts eo = mp_shared (cl_PacketFactory eo) (cl_Delegate eo)
     @ [OptionMultiplexerAcceptDialogue, MultiplexerOption.OptionBufferSize (cl_ReadBufferSize eo) (cl_WriteBufferSize eo)]"

definition server_mpOpts :: "server_EndOptions \<Rightarrow> MultiplexerOption list" where
  "server_mpOpts eo = mp_shared (sv_PacketFactory eo) (sv_Delegate eo)
     @ [MultiplexerOption.OptionBufferSize (sv_ReadBufferSize eo) (sv_WriteBufferSize eo)]
     @ (if sv_AcceptStreamFunc eo \<noteq> None then [OptionMultiplexerAcceptFunc] else [OptionMultiplexerAcceptDialogue])
     @ (if sv_ClosedStreamFunc eo \<noteq> None then [OptionMultiplexerClosedFunc] else [])"

definition of_nil :: "'a list option \<Rightarrow> 'a list" where
  "of_nil xs = (case xs of None \<Rightarrow> [] | Some ys \<Rightarrow> ys)"

definition client_epOpts :: "client_EndOptions \<Rightarrow> EndOption list" where
  "client_epOpts eo =
     [EndOption.OptionPacketFactory (cl_PacketFactory eo), EndOption.OptionDelegate (cl_Delegate eo \<noteq> None),
      EndOption.OptionTimer (cl_Timer eo \<noteq> None), OptionWaitRemoteRPCs (of_nil (cl_RemoteMethods eo)),
      OptionRegisterLocalRPCs (of_nil (cl_LocalMethods eo)), EndOption.OptionBufferSize (cl_ReadBufferSize eo) (cl_WriteBufferSize eo)]
     @ (if cl_RemoteMethodCheck eo then [OptionWithRemoteRPCCheck] else [])"

definition server_epOpts :: "server_EndOptions \<Rightarrow> EndOption list" where
  "server_epOpts eo =
     [EndOption.OptionPacketFactory (sv_PacketFactory eo), EndOption.OptionDelegate (sv_Delegate eo \<noteq> None),
      EndOption.OptionTimer (sv_Timer eo \<noteq> None), OptionWaitRemoteRPCs (of_nil (sv_RemoteMethods eo)),
      OptionRegisterLocalRPCs (of_nil (sv_LocalMethods eo)), EndOption.OptionBufferSize (sv_ReadBufferSize eo) (sv_WriteBufferSize eo)]
     @ (if sv_AcceptStreamFunc eo \<noteq> None then [OptionAcceptStreamFunc True] else [])
     @ (if sv_ClosedStreamFunc eo \<noteq> None then [OptionClosedStreamFunc True] else [])
     @ (if sv_RemoteMethodCheck eo then [OptionWithRemoteRPCCheck] else [])"

section \<open>Assembling an end\<close>

text \<open>
  \<open>new\<close> of both packages: the connection, then the multiplexer, which from then on may call back, then
  the application end, whose construction takes turns with the streams' goroutines. The variable the
  callbacks capture is nil until \<open>application.NewEnd\<close> returns; when that fails it holds a nil pointer.
\<close>

datatype ep_var = EpNil | EpNilEnd | EpEnd

datatype new_error = ConnFailed bytes | MuxFailed go_error | AppFailed app_error

datatype new_ret = Assembling | Assembled | AssemblyFailed new_error

record assembly =
  as_side :: side
  as_pf :: packetFactory
  as_ownTimer :: bool
  as_mpOpts :: "MultiplexerOption list"
  as_epOpts :: "EndOption list"
  as_acceptFn :: bool
  as_closedFn :: bool
  as_conn :: "(u64 \<times> bytes) option"
  as_mux :: "dialogueMgr option"
  as_app :: "End option"
  as_ep :: ep_var
  as_ret :: new_ret
  as_timerCloses :: nat
  as_netClosed :: bool

type_synonym 'a ares = "('a, assembly) gres"

definition assemble :: "side \<Rightarrow> packetFactory option \<Rightarrow> bool \<Rightarrow> MultiplexerOption list \<Rightarrow> EndOption list \<Rightarrow> bool \<Rightarrow> bool \<Rightarrow> assembly" where
  "assemble sd pf own mp ep acc clo =
     \<lparr>as_side = sd, as_pf = (case pf of Some p \<Rightarrow> p | None \<Rightarrow> NewPacketFactory (NewIDCounter Odd None)), as_ownTimer = own, as_mpOpts = mp,
      as_epOpts = ep, as_acceptFn = acc, as_closedFn = clo, as_conn = None, as_mux = None, as_app = None, as_ep = EpNil,
      as_ret = Assembling, as_timerCloses = 0, as_netClosed = False\<rparr>"

text \<open>A timer of its own has the handle given as \<open>own\<close>.\<close>

definition client_new :: "(byte \<times> byte \<times> byte \<times> byte) option \<Rightarrow> nat \<Rightarrow> client_EndOptions option list \<Rightarrow> assembly" where
  "client_new src own opts =
     (let eo = client_initEndOptions src (client_MergeEndOptions opts);
          eo1 = (if cl_Timer eo = None then eo\<lparr>cl_Timer := Some own, cl_TimerOwner := Some own\<rparr> else eo)
      in assemble InitiatorSide (cl_PacketFactory eo1) (cl_Timer eo = None) (client_mpOpts eo1) (client_epOpts eo1) False False)"

definition server_new :: "(byte \<times> byte \<times> byte \<times> byte) option \<Rightarrow> nat \<Rightarrow> server_EndOptions option list \<Rightarrow> assembly" where
  "server_new src own opts =
     (let eo = server_initEndOptions src (server_MergeEndOptions opts);
          eo1 = (if sv_Timer eo = None then eo\<lparr>sv_Timer := Some own, sv_TimerOwner := Some own\<rparr> else eo)
      in assemble RecipientSide (sv_PacketFactory eo1) (sv_Timer eo = None) (server_mpOpts eo1) (server_epOpts eo1)
           (sv_AcceptStreamFunc eo \<noteq> None) (sv_ClosedStreamFunc eo \<noteq> None))"

text \<open>The label \<open>ERR\<close>: only an own timer is closed.\<close>

definition new_ERR :: "new_error \<Rightarrow> assembly \<Rightarrow> assembly" where
  "new_ERR err a = a\<lparr>as_ret := AssemblyFailed err, as_timerCloses := as_timerCloses a + (if as_ownTimer a then 1 else 0)\<rparr>"

text \<open>\<open>conn.NewClientConn\<close> or \<open>conn.NewServerConn\<close> returns: with the client id and the meta, or an error after closing the network.\<close>

definition new_conn_done :: "bytes + u64 \<times> bytes \<Rightarrow> assembly \<Rightarrow> unit ares" where
  "new_conn_done res a =
     (if as_ret a = Assembling \<and> as_conn a = None then
        (case res of
           Inl err \<Rightarrow> HRet () (new_ERR (ConnFailed err) (a\<lparr>as_netClosed := True\<rparr>))
         | Inr c \<Rightarrow> HRet () (a\<lparr>as_conn := Some c\<rparr>))
      else HBlock)"

definition new_mux_done :: "(byte \<times> byte \<times> byte \<times> byte) option \<Rightarrow> assembly \<Rightarrow> unit ares" where
  "new_mux_done src a =
     (case (as_ret a, as_conn a, as_mux a) of
        (Assembling, Some (c, meta), None) \<Rightarrow>
          (case obind (mgr_opts (as_mpOpts a)) (\<lambda>opts. NewDialogueMgr (as_side a) c meta (as_pf a) opts src) of
             Ret m \<Rightarrow> HRet () (a\<lparr>as_mux := Some m\<rparr>)
           | Fail err \<Rightarrow> HRet () (new_ERR (MuxFailed err) a)
           | Panic p \<Rightarrow> HPanic p)
      | _ \<Rightarrow> HBlock)"

definition new_app_start :: "dg_error + u64 \<Rightarrow> assembly \<Rightarrow> unit ares" where
  "new_app_start dg a =
     (case (as_ret a, as_conn a, as_mux a, as_app a) of
        (Assembling, Some (c, meta), Some m, None) \<Rightarrow> HRet () (a\<lparr>as_app := Some (App_End.NewEnd None c dg (as_epOpts a))\<rparr>)
      | _ \<Rightarrow> HBlock)"

definition new_app_turn :: "end_op' \<Rightarrow> assembly \<Rightarrow> unit ares" where
  "new_app_turn op a =
     (case as_app a of
        Some e \<Rightarrow>
          (case end_turn op e of
             HRet x e' \<Rightarrow> HRet () (a\<lparr>as_app := Some e'\<rparr>)
           | HBlock \<Rightarrow> HBlock | HPanic p \<Rightarrow> HPanic p | HSendOnClosed \<Rightarrow> HSendOnClosed)
      | None \<Rightarrow> HBlock)"

definition new_app_done :: "assembly \<Rightarrow> unit ares" where
  "new_app_done a =
     (case (as_ret a, as_app a) of
        (Assembling, Some e) \<Rightarrow>
          (case n_phase e of
             EndUp \<Rightarrow> HRet () (a\<lparr>as_ep := EpEnd, as_ret := Assembled\<rparr>)
           | EndFailed err \<Rightarrow> HRet () (new_ERR (AppFailed err) (a\<lparr>as_ep := EpNilEnd\<rparr>))
           | _ \<Rightarrow> HBlock)
      | _ \<Rightarrow> HBlock)"

section \<open>The callbacks of the server\<close>

definition captured :: "(End \<Rightarrow> End) \<Rightarrow> assembly \<Rightarrow> unit ares" where
  "captured f a =
     (case as_ep a of
        EpNil \<Rightarrow> HPanic TypeAssertion
      | EpNilEnd \<Rightarrow> HPanic NilDereference
      | EpEnd \<Rightarrow> (case as_app a of Some e \<Rightarrow> HRet () (a\<lparr>as_app := Some (f e)\<rparr>) | None \<Rightarrow> HPanic NilDereference))"

text \<open>The multiplexer calls them for a dialogue the peer has opened, or that has ended, once it exists.\<close>

definition acceptfn :: "u64 \<Rightarrow> assembly \<Rightarrow> unit ares" where
  "acceptfn i a = (if as_acceptFn a \<and> as_mux a \<noteq> None then captured (end_AcceptDialogue i) a else HBlock)"

definition closedfn :: "u64 \<Rightarrow> assembly \<Rightarrow> unit ares" where
  "closedfn i a = (if as_closedFn a \<and> as_mux a \<noteq> None then captured (end_ClosedDialogue i) a else HBlock)"

text \<open>\<open>Close\<close> of the returned end.\<close>

definition ce_Close :: "assembly \<Rightarrow> unit ares" where
  "ce_Close a =
     (case (as_ret a, as_app a) of
        (Assembled, Some e) \<Rightarrow>
          HRet () (a\<lparr>as_app := Some (end_Close e), as_netClosed := True, as_timerCloses := as_timerCloses a + (if as_ownTimer a then 1 else 0)\<rparr>)
      | _ \<Rightarrow> HBlock)"

datatype new_op = NewConnDone "bytes + u64 \<times> bytes" | NewMuxDone "(byte \<times> byte \<times> byte \<times> byte) option" | NewAppStart "dg_error + u64"
  | NewAppTurn end_op' | NewAppDone | DialogueAccepted u64 | DialogueClosed u64 | CloseEnd

fun new_turn :: "new_op \<Rightarrow> assembly \<Rightarrow> unit ares" where
  "new_turn (NewConnDone res) a = new_conn_done res a"
| "new_turn (NewMuxDone src) a = new_mux_done src a"
| "new_turn (NewAppStart dg) a = new_app_start dg a"
| "new_turn (NewAppTurn op) a = new_app_turn op a"
| "new_turn NewAppDone a = new_app_done a"
| "new_turn (DialogueAccepted i) a = acceptfn i a"
| "new_turn (DialogueClosed i) a = closedfn i a"
| "new_turn CloseEnd a = ce_Close a"

text \<open>The turn of the application end in a turn, and runs in which these satisfy a policy.\<close>

fun end_op_of :: "new_op \<Rightarrow> end_op' option" where
  "end_op_of (NewAppTurn op) = Some op"
| "end_op_of (DialogueAccepted i) = Some (NAcceptDialogue i)"
| "end_op_of (DialogueClosed i) = Some (NClosedDialogue i)"
| "end_op_of CloseEnd = Some NClose"
| "end_op_of _ = None"

definition allowed :: "(end_op' \<Rightarrow> End \<Rightarrow> bool) \<Rightarrow> new_op \<Rightarrow> assembly \<Rightarrow> bool" where
  "allowed P op a = (case (end_op_of op, as_app a) of (Some x, Some e) \<Rightarrow> P x e | _ \<Rightarrow> True)"

inductive new_run :: "(end_op' \<Rightarrow> End \<Rightarrow> bool) \<Rightarrow> assembly \<Rightarrow> assembly \<Rightarrow> bool" for P a0 where
  assembling: "new_run P a0 a0"
| assembled: "new_run P a0 a \<Longrightarrow> allowed P op a \<Longrightarrow> new_turn op a = HRet () a' \<Longrightarrow> new_run P a0 a'"

fun new_exec :: "(end_op' \<Rightarrow> End \<Rightarrow> bool) \<Rightarrow> new_op list \<Rightarrow> assembly \<Rightarrow> assembly option" where
  "new_exec P [] a = Some a"
| "new_exec P (op # ops) a = (if allowed P op a then (case new_turn op a of HRet _ a' \<Rightarrow> new_exec P ops a' | _ \<Rightarrow> None) else None)"

lemma new_exec_run: "new_exec P ops a = Some a' \<Longrightarrow> new_run P a0 a \<Longrightarrow> new_run P a0 a'"
proof (induction ops arbitrary: a)
  case (Cons op ops)
  then obtain a1 where "allowed P op a" "new_turn op a = HRet () a1" "new_exec P ops a1 = Some a'" by (auto split: gres.splits if_splits)
  then show ?case using Cons.IH new_run.assembled [OF Cons.prems(2)] by blast
qed simp

text \<open>The captured variable is set exactly when \<open>new\<close> has returned the end.\<close>

definition assembly_inv :: "assembly \<Rightarrow> bool" where
  "assembly_inv a \<longleftrightarrow> (as_ep a = EpEnd \<longleftrightarrow> as_ret a = Assembled) \<and> (as_ret a = Assembled \<longrightarrow> as_app a \<noteq> None)
     \<and> (as_app a \<noteq> None \<longrightarrow> as_mux a \<noteq> None) \<and> (as_mux a \<noteq> None \<longrightarrow> as_conn a \<noteq> None)"

lemmas new_step_defs = new_conn_done_def new_mux_done_def new_app_start_def new_app_turn_def new_app_done_def acceptfn_def closedfn_def
  captured_def ce_Close_def new_ERR_def

lemma assembly_turn: "assembly_inv a \<Longrightarrow> new_turn op a = HRet () a' \<Longrightarrow> assembly_inv a'"
  by (cases op)
    (auto simp: new_step_defs assembly_inv_def split: if_splits sum.splits option.splits new_ret.splits outcome.splits gres.splits ep_var.splits
      end_phase.splits)

lemma assembly_run: "new_run P a0 a \<Longrightarrow> assembly_inv a0 \<Longrightarrow> assembly_inv a"
  by (induction rule: new_run.induct) (auto intro: assembly_turn)

lemma inv_assemble: "assembly_inv (assemble sd pf own mp ep acc clo)"
  by (simp add: assembly_inv_def assemble_def)

lemma inv_server_new: "assembly_inv (server_new src own opts)"
  by (simp add: server_new_def Let_def inv_assemble)

text \<open>The options of the callbacks do not change, and the multiplexer was told the same.\<close>

lemma kept_turn: "new_turn op a = HRet () a' \<Longrightarrow> as_acceptFn a' = as_acceptFn a \<and> as_closedFn a' = as_closedFn a"
  by (cases op)
    (auto simp: new_step_defs split: if_splits sum.splits option.splits new_ret.splits outcome.splits gres.splits ep_var.splits
      end_phase.splits)

lemma kept_run: "new_run P a0 a \<Longrightarrow> as_acceptFn a = as_acceptFn a0 \<and> as_closedFn a = as_closedFn a0"
  by (induction rule: new_run.induct) (auto dest: kept_turn)

text \<open>The application end of an assembly is in a state its own turns reach.\<close>

lemma app_turn_of:
  assumes "new_turn op a = HRet () a'"
  shows "as_epOpts a' = as_epOpts a"
    "as_app a' = as_app a \<or> (\<exists>c dg. as_app a' = Some (App_End.NewEnd None c dg (as_epOpts a)))
     \<or> (\<exists>x e e'. end_op_of op = Some x \<and> as_app a = Some e \<and> end_turn x e = HRet () e' \<and> as_app a' = Some e')"
  using assms
  by (cases op; auto simp: new_step_defs split: if_splits sum.splits option.splits new_ret.splits outcome.splits gres.splits ep_var.splits
      end_phase.splits)+

lemma app_run_of:
  "new_run P a0 a \<Longrightarrow> as_app a0 = None \<Longrightarrow> as_epOpts a = as_epOpts a0
     \<and> (\<forall>e. as_app a = Some e \<longrightarrow> (\<exists>c dg. end_run P (App_End.NewEnd None c dg (as_epOpts a0)) e))"
proof (induction rule: new_run.induct)
  case (assembled a op a')
  then have IH: "as_epOpts a = as_epOpts a0" "\<And>e. as_app a = Some e \<Longrightarrow> \<exists>c dg. end_run P (App_End.NewEnd None c dg (as_epOpts a0)) e" by auto
  show ?case
  proof (intro conjI allI impI)
    show "as_epOpts a' = as_epOpts a0" using app_turn_of(1) [OF assembled.hyps(3)] IH(1) by simp
    fix e assume e: "as_app a' = Some e"
    from app_turn_of(2) [OF assembled.hyps(3)] show "\<exists>c dg. end_run P (App_End.NewEnd None c dg (as_epOpts a0)) e"
    proof (elim disjE exE conjE)
      fix x e1 e' assume x: "end_op_of op = Some x" "as_app a = Some e1" "end_turn x e1 = HRet () e'" "as_app a' = Some e'"
      then obtain c dg where "end_run P (App_End.NewEnd None c dg (as_epOpts a0)) e1" using IH(2) by blast
      moreover have "P x e1" using assembled.hyps(2) x by (simp add: allowed_def)
      ultimately show ?thesis using end_run.nturn x e by (metis option.inject)
    qed (use e IH end_run.nstart in \<open>auto, metis\<close>)
  qed
qed simp

lemma assemble_app [simp]: "as_app (assemble sd pf own mp ep acc clo) = None"
  by (simp add: assemble_def)

text \<open>
  C20. The callbacks a server installs in its multiplexer work exactly when \<open>new\<close> has returned the end. A dialogue that the
  peer opens, or that ends, while the server still registers its procedures or waits for the peer's, or
  after the construction of the end has failed, makes the process panic on the captured variable.
\<close>

theorem server_callbacks_panic_until_returned:
  assumes "new_run P (server_new src own opts) a" "as_mux a \<noteq> None"
  shows "(as_acceptFn a \<longrightarrow> (\<exists>a'. acceptfn i a = HRet () a') = (as_ret a = Assembled) \<and> (\<exists>p. acceptfn i a = HPanic p) = (as_ret a \<noteq> Assembled))
    \<and> (as_closedFn a \<longrightarrow> (\<exists>a'. closedfn i a = HRet () a') = (as_ret a = Assembled) \<and> (\<exists>p. closedfn i a = HPanic p) = (as_ret a \<noteq> Assembled))"
proof -
  have "assembly_inv a" using assembly_run [OF assms(1) inv_server_new] .
  then have "(as_ep a = EpEnd) = (as_ret a = Assembled)" "as_ret a = Assembled \<Longrightarrow> as_app a \<noteq> None" by (auto simp: assembly_inv_def)
  then show ?thesis using assms(2)
    by (cases "as_ep a"; cases "as_app a") (auto simp: acceptfn_def closedfn_def captured_def)
qed

definition waiting_server :: assembly where
  "waiting_server = server_new None 1 [Some (server_SetWaitRemoteRPCs [[102]] (server_SetAcceptStreamFunc (Some 1) server_NewEndOptions))]"

definition waiting_ops :: "new_op list" where
  "waiting_ops = [NewConnDone (Inr (7, [])), NewMuxDone None, NewAppStart (Inr 1), NewAppTurn NRemote]"

definition waits_remote :: "End \<Rightarrow> bool" where
  "waits_remote e = (case n_phase e of RemoteWait \<Rightarrow> True | _ \<Rightarrow> False)"

lemma waits_remote_iff: "waits_remote e \<longleftrightarrow> n_phase e = RemoteWait"
  by (cases "n_phase e") (simp_all add: waits_remote_def)

lemma example_waiting:
  "map_option (\<lambda>a. (as_mux a = None, as_acceptFn a, as_ret a = Assembled, map_option waits_remote (as_app a)))
     (new_exec timely waiting_ops waiting_server) = Some (False, True, False, Some True)"
  by code_simp

theorem server_callbacks_panic_until_returned_witness:
  "\<exists>a e. new_run timely waiting_server a \<and> as_app a = Some e \<and> n_phase e = RemoteWait \<and> (\<exists>p. acceptfn 2 a = HPanic p)"
proof -
  obtain a e where a: "new_exec timely waiting_ops waiting_server = Some a" "as_mux a \<noteq> None" "as_acceptFn a" "as_ret a \<noteq> Assembled"
    "as_app a = Some e" "n_phase e = RemoteWait"
    using example_waiting by (auto simp: waits_remote_iff)
  have r: "new_run timely waiting_server a" by (rule new_exec_run [OF a(1) new_run.assembling])
  then show ?thesis using a server_callbacks_panic_until_returned [OF r [unfolded waiting_server_def] a(2), of 2] by blast
qed

text \<open>
  The composition: for an end that a server assembled from any options, whatever the multiplexer's callbacks and the
  streams did, \<open>ListStreams\<close> lists exactly the stored streams that are up, each once, when every dialogue
  has an id of its own and every stream is stored before it ends.
\<close>

lemma server_end_lists_live:
  assumes "new_run timely (server_new src own opts) a" "as_app a = Some e"
  shows "distinct (map s_dialogueID (ListStreams e)) \<and> (\<forall>s \<in> set (ListStreams e). s_ok s)
    \<and> (\<forall>b < length (n_store e). s_ok (n_store e ! b) \<longrightarrow> b \<notin> fst ` set (n_storing e) \<longrightarrow> n_store e ! b \<in> set (ListStreams e))"
proof -
  have "as_app (server_new src own opts) = None" by (simp add: server_new_def Let_def)
  then obtain c dg where "end_run timely (App_End.NewEnd None c dg (as_epOpts (server_new src own opts))) e"
    using app_run_of [OF assms(1)] assms(2) by blast
  then show ?thesis using listed_live NewEnd_inv by fastforce
qed

section \<open>Merged options\<close>

interpretation cl_timer: merging client_merge client_NewEndOptions cl_Timer
  by unfold_locales (simp_all add: client_merge_def client_NewEndOptions_def)

interpretation cl_factory: merging client_merge client_NewEndOptions cl_PacketFactory
  by unfold_locales (simp_all add: client_merge_def client_NewEndOptions_def)

interpretation cl_log: merging client_merge client_NewEndOptions cl_Log
  by unfold_locales (simp_all add: client_merge_def client_NewEndOptions_def)

interpretation cl_dlgt: merging client_merge client_NewEndOptions cl_Delegate
  by unfold_locales (simp_all add: client_merge_def client_NewEndOptions_def)

interpretation cl_id: merging client_merge client_NewEndOptions cl_ClientID
  by unfold_locales (simp_all add: client_merge_def client_NewEndOptions_def)

interpretation cl_meta: merging client_merge client_NewEndOptions cl_Meta
  by unfold_locales (simp_all add: client_merge_def client_NewEndOptions_def)

interpretation cl_remote: merging client_merge client_NewEndOptions cl_RemoteMethods
  by unfold_locales (simp_all add: client_merge_def client_NewEndOptions_def)

interpretation cl_local: merging client_merge client_NewEndOptions cl_LocalMethods
  by unfold_locales (simp_all add: client_merge_def client_NewEndOptions_def)

definition positive :: "int \<Rightarrow> int option" where
  "positive n = (if n > 0 then Some n else None)"

interpretation cl_read: merging client_merge client_NewEndOptions "positive \<circ> cl_ReadBufferSize"
  by unfold_locales (simp_all add: client_merge_def client_NewEndOptions_def positive_def overwrite_def)

interpretation cl_write: merging client_merge client_NewEndOptions "positive \<circ> cl_WriteBufferSize"
  by unfold_locales (simp_all add: client_merge_def client_NewEndOptions_def positive_def overwrite_def)

lemma last_set_snoc: "last_set f (os @ [opt]) = overwrite (Option.bind opt f) (last_set f os)"
  by (induction os) (auto simp: last_set_def overwrite_def split: option.splits)

lemma merge_with_snoc: "merge_with merge z (os @ [opt]) = (case opt of None \<Rightarrow> merge_with merge z os | Some x \<Rightarrow> merge (merge_with merge z os) x)"
  by (cases opt) (simp_all add: merge_with_def)

text \<open>A field that every entry overwrites is that of the last entry that is not nil.\<close>

lemma merged_always:
  assumes "\<And>acc x. field (merge acc x) = field x"
  shows "field (merge_with merge z opts) = (case last_set Some opts of None \<Rightarrow> field z | Some o' \<Rightarrow> field o')"
proof (induction opts rule: rev_induct)
  case Nil
  then show ?case by (simp add: merge_with_def last_set_def)
next
  case (snoc opt opts)
  then show ?case by (cases opt) (simp_all add: merge_with_snoc last_set_snoc overwrite_def assms)
qed


section \<open>The listener\<close>

text \<open>
  \<open>AcceptEnd\<close>: a connection is taken from the network's listener, a goroutine assembles its end and sends
  the result to the channel all callers share, and the caller receives from it. Connections are numbered in the
  order in which they are accepted; a goroutine whose send finds the channel full waits.
\<close>

record listener =
  ln_next :: nat
  ln_closed :: bool
  ln_building :: "nat list"
  ln_sending :: "(nat \<times> bool) list"
  ln_ch :: "(nat \<times> bool) chan"
  ln_waiting :: nat
  ln_returned :: "(nat \<times> bool) list"

definition Listen :: listener where
  "Listen = \<lparr>ln_next = 0, ln_closed = False, ln_building = [], ln_sending = [], ln_ch = make_chan 32, ln_waiting = 0, ln_returned = []\<rparr>"

datatype listener_op = LnAccept bool | LnBuilt nat bool | LnSend nat | LnReturn | LnClose

text \<open>The flag of \<open>LnAccept\<close>: the network's \<open>Accept\<close> gives a connection; of \<open>LnBuilt\<close>: the end was assembled.\<close>

fun listener_turn :: "listener_op \<Rightarrow> listener \<Rightarrow> (unit, listener) gres" where
  "listener_turn (LnAccept good) l =
     (if good \<and> \<not> ln_closed l then
        HRet () (l\<lparr>ln_next := Suc (ln_next l), ln_building := ln_building l @ [ln_next l], ln_waiting := Suc (ln_waiting l)\<rparr>)
      else HRet () l)"
| "listener_turn (LnBuilt n good) l =
     (if n < length (ln_building l) then
        HRet () (l\<lparr>ln_building := remove_at n (ln_building l), ln_sending := ln_sending l @ [(ln_building l ! n, good)]\<rparr>)
      else HBlock)"
| "listener_turn (LnSend n) l =
     (if n < length (ln_sending l) then
        (case ch_send (ln_ch l) (ln_sending l ! n) of
           Sent ch \<Rightarrow> HRet () (l\<lparr>ln_sending := remove_at n (ln_sending l), ln_ch := ch\<rparr>)
         | Full \<Rightarrow> HBlock
         | OnClosed \<Rightarrow> HSendOnClosed)
      else HBlock)"
| "listener_turn LnReturn l =
     (case (ln_waiting l, buf (ln_ch l)) of
        (Suc w, r # rs) \<Rightarrow> HRet () (l\<lparr>ln_waiting := w, ln_ch := (ln_ch l)\<lparr>buf := rs\<rparr>, ln_returned := ln_returned l @ [r]\<rparr>)
      | _ \<Rightarrow> HBlock)"
| "listener_turn LnClose l = HRet () (l\<lparr>ln_closed := True\<rparr>)"

inductive listener_run :: "listener \<Rightarrow> listener \<Rightarrow> bool" for l0 where
  listening: "listener_run l0 l0"
| listened: "listener_run l0 l \<Longrightarrow> listener_turn op l = HRet () l' \<Longrightarrow> listener_run l0 l'"

definition outstanding :: "listener \<Rightarrow> nat" where
  "outstanding l = length (ln_building l) + length (ln_sending l) + length (buf (ln_ch l))"

definition listener_inv :: "listener \<Rightarrow> bool" where
  "listener_inv l \<longleftrightarrow> is_closed (ln_ch l) = False \<and> cap (ln_ch l) = 32 \<and> ln_waiting l = outstanding l
     \<and> mset (ln_building l) + mset (map fst (ln_sending l)) + mset (map fst (buf (ln_ch l))) + mset (map fst (ln_returned l)) = mset [0..<ln_next l]"

lemma listener_turn_inv:
  assumes inv: "listener_inv l" and turn: "listener_turn op l = HRet () l'"
  shows "listener_inv l'"
proof (cases op)
  case (LnBuilt n good)
  then have n: "n < length (ln_building l)" using turn by (auto split: if_splits)
  then show ?thesis using LnBuilt inv turn mset_remove_at [of n "ln_building l" id]
    by (auto simp: listener_inv_def outstanding_def remove_at_def)
next
  case (LnSend n)
  then obtain ch where n: "n < length (ln_sending l)" "ch_send (ln_ch l) (ln_sending l ! n) = Sent ch"
    "l' = l\<lparr>ln_sending := remove_at n (ln_sending l), ln_ch := ch\<rparr>"
    using turn by (auto split: if_splits send_result.splits)
  then show ?thesis using inv mset_remove_at [of n "ln_sending l" fst]
    by (auto simp: listener_inv_def outstanding_def remove_at_def ch_send_def split: if_splits)
qed (use inv turn in \<open>auto simp: listener_inv_def outstanding_def atLeast0_lessThan_Suc split: if_splits nat.splits list.splits\<close>)

lemma listener_run_inv: "listener_run l0 l \<Longrightarrow> listener_inv l0 \<Longrightarrow> listener_inv l"
  by (induction rule: listener_run.induct) (auto intro: listener_turn_inv)

lemma distinct_parts:
  assumes "M + mset xs = mset ys" "distinct ys"
  shows "distinct xs" "set xs \<subseteq> set ys"
proof -
  obtain zs where "M = mset zs" using ex_mset by metis
  then have z: "mset (zs @ xs) = mset ys" using assms(1) by simp
  then have "distinct (zs @ xs)" using assms(2) mset_eq_imp_distinct_iff by blast
  then show "distinct xs" by simp
  show "set xs \<subseteq> set ys" using mset_eq_setD [OF z] by auto
qed

text \<open>
  C29. However the calls of \<open>AcceptEnd\<close> and the goroutines interleave, the result of every accepted connection is returned to
  at most one caller, as many callers wait as results are outstanding, and while callers wait and no end
  is being assembled a result can be sent or received: the shared channel neither loses nor duplicates an end.
\<close>

theorem listener_hands_over_once:
  assumes "listener_run Listen l"
  shows "distinct (map fst (ln_returned l)) \<and> set (map fst (ln_returned l)) \<subseteq> {..<ln_next l}
    \<and> ln_waiting l + length (ln_returned l) = ln_next l
    \<and> (ln_waiting l > 0 \<longrightarrow> ln_building l = [] \<longrightarrow> (\<exists>l'. listener_turn (LnSend 0) l = HRet () l' \<or> listener_turn LnReturn l = HRet () l'))"
proof -
  have inv: "listener_inv l" by (rule listener_run_inv [OF assms]) (simp add: listener_inv_def Listen_def outstanding_def)
  let ?out = "mset (ln_building l) + mset (map fst (ln_sending l)) + mset (map fst (buf (ln_ch l)))"
  have m: "?out + mset (map fst (ln_returned l)) = mset [0..<ln_next l]" using inv by (simp add: listener_inv_def)
  then have d: "distinct (map fst (ln_returned l))" "set (map fst (ln_returned l)) \<subseteq> {..<ln_next l}"
    using distinct_parts [OF m] by (simp_all add: lessThan_atLeast0)
  have w: "ln_waiting l + length (ln_returned l) = ln_next l"
    using arg_cong [OF m, of size] inv by (simp add: listener_inv_def outstanding_def)
  have "\<exists>l'. listener_turn (LnSend 0) l = HRet () l' \<or> listener_turn LnReturn l = HRet () l'" if "ln_waiting l > 0" "ln_building l = []"
  proof (cases "buf (ln_ch l)")
    case Nil
    then show ?thesis using that inv by (auto simp: listener_inv_def outstanding_def ch_send_def)
  next
    case (Cons r rs)
    then show ?thesis using that by (cases "ln_waiting l") auto
  qed
  then show ?thesis using d w by blast
qed

fun listener_exec :: "listener_op list \<Rightarrow> listener \<Rightarrow> listener option" where
  "listener_exec [] l = Some l"
| "listener_exec (op # ops) l = (case listener_turn op l of HRet _ l' \<Rightarrow> listener_exec ops l' | _ \<Rightarrow> None)"

lemma listener_exec_run: "listener_exec ops l = Some l' \<Longrightarrow> listener_run l0 l \<Longrightarrow> listener_run l0 l'"
proof (induction ops arbitrary: l)
  case (Cons op ops)
  then obtain l1 where "listener_turn op l = HRet () l1" "listener_exec ops l1 = Some l'" by (auto split: gres.splits)
  then show ?case using Cons.IH listener_run.listened [OF Cons.prems(2)] by blast
qed simp

text \<open>The end of the second connection is ready first and goes to the first caller to receive.\<close>

lemma example_listener:
  "map_option (\<lambda>l. (ln_waiting l, ln_building l, ln_returned l)) (listener_exec [LnAccept True, LnAccept True, LnBuilt 1 True, LnSend 0, LnReturn, LnBuilt 0 False] Listen)
     = Some (1, [], [(1, True)])"
  by code_simp

theorem listener_hands_over_once_witness:
  "\<exists>l. listener_run Listen l \<and> ln_waiting l = 1 \<and> ln_returned l = [(1, True)] \<and> (\<exists>l'. listener_turn (LnSend 0) l = HRet () l' \<or> listener_turn LnReturn l = HRet () l')"
proof -
  obtain l where l: "listener_exec [LnAccept True, LnAccept True, LnBuilt 1 True, LnSend 0, LnReturn, LnBuilt 0 False] Listen = Some l"
    "ln_waiting l = 1" "ln_building l = []" "ln_returned l = [(1, True)]"
    using example_listener by auto
  have "listener_run Listen l" by (rule listener_exec_run [OF l(1) listener_run.listening])
  then show ?thesis using l(2-4) listener_hands_over_once [of l] by (intro exI [of _ l]) simp
qed

end
