(* ===== verification/Retry.thy ===== *)
theory Retry
  imports Ends
begin

text \<open>
  The retrying client (\<open>client/end_retry.go\<close>): every operation runs on the current end and, when that
  reports the end of its stream, makes a new one and starts again. A goroutine is a stack of
  frames, one per call that has not returned; the two mutexes have an owner. What the calls on an end, the
  dialer and the delegate return are inputs. An end is known by the order in which it was made.
\<close>

section \<open>State\<close>

datatype retry_error = REOF | ROther bytes

text \<open>An end, as far as the retrying client can tell: closed, with its procedures and its hijacker.\<close>

record uend =
  e_closed :: bool
  e_methods :: "(bytes \<times> nat) list"
  e_hijack :: "(nat \<times> HijackOptions) option"

definition fresh_end :: uend where
  "fresh_end = \<lparr>e_closed = False, e_methods = [], e_hijack = None\<rparr>"

text \<open>The calls that are tried again; the flag of a registration says whether it is memorized.\<close>

datatype ucall = UOpenStream | UAcceptStream | UCall bytes | UCallAsync bytes | URegister bytes nat bool
  | UHijack nat "HijackOptions option list" | UPublish | UPublishAsync | UReceive | URead nat | UWrite bytes

text \<open>
  Frames: an operation before its check, calling an end, waiting for \<open>reinit\<close>, memorizing; the stages of
  \<open>reinit\<close>; the loop of \<open>ConnOffline\<close>; the two steps of \<open>Close\<close>.
\<close>

datatype frame =
    FOp ucall
  | FCalled ucall nat
  | FAwait ucall nat
  | FMemo bytes nat
  | FLock nat
  | FClosing nat
  | FDial nat
  | FHijack nat
  | FRLock nat
  | FRegs nat "(bytes \<times> nat) list"
  | FRegsWait nat "(bytes \<times> nat) list"
  | FLoop
  | FLoopWait
  | FClose
  | FCloseEnd nat

datatype once = NotYet | Doing | Done

datatype retry_event = EvConnOnline nat | EvConnOffline | EvEndReOnline nat

record RetryEnd =
  re_opts :: client_EndOptions
  re_self :: nat
  re_end :: nat
  re_ok :: bool
  re_ends :: "uend list"
  re_retry :: "nat option"
  re_onceClose :: once
  re_rpcs :: "(bytes \<times> nat) list"
  re_rpcReader :: "nat option"
  re_hijack :: "(nat \<times> HijackOptions) option"
  re_threads :: "frame list list"
  re_results :: "(nat \<times> retry_error option) list"
  re_timerCloses :: nat
  re_events :: "retry_event list"

type_synonym 'a rres = "('a, RetryEnd) gres"

definition close_end :: "nat \<Rightarrow> RetryEnd \<Rightarrow> RetryEnd" where
  "close_end n re = re\<lparr>re_ends := (re_ends re)[n := (re_ends re ! n)\<lparr>e_closed := True\<rparr>]\<rparr>"

definition set_stack :: "nat \<Rightarrow> frame list \<Rightarrow> RetryEnd \<Rightarrow> RetryEnd" where
  "set_stack t fs re = re\<lparr>re_threads := (re_threads re)[t := fs]\<rparr>"

definition notify :: "retry_event \<Rightarrow> RetryEnd \<Rightarrow> RetryEnd" where
  "notify ev re = (if cl_userDelegate (re_opts re) = None then re else re\<lparr>re_events := re_events re @ [ev]\<rparr>)"

text \<open>\<open>NewRetryEndWithDialer\<close>: \<open>dial\<close> is the error of \<open>getEnd\<close>, \<open>self\<close> the handle of the client as delegate and owner.\<close>

definition NewRetryEndWithDialer ::
  "(byte \<times> byte \<times> byte \<times> byte) option \<Rightarrow> nat \<Rightarrow> client_EndOptions option list \<Rightarrow> retry_error option \<Rightarrow> retry_error \<times> RetryEnd + RetryEnd" where
  "NewRetryEndWithDialer src self opts dial =
     (let eo = client_initEndOptions src (client_MergeEndOptions opts);
          eo1 = (if cl_Timer eo = None then eo\<lparr>cl_Timer := Some self, cl_TimerOwner := Some self\<rparr> else eo);
          eo2 = eo1\<lparr>cl_userDelegate := cl_Delegate eo1, cl_Delegate := Some self\<rparr>;
          re = \<lparr>re_opts = eo2, re_self = self, re_end = 0, re_ok = True, re_ends = [], re_retry = None, re_onceClose = NotYet, re_rpcs = [],
                re_rpcReader = None, re_hijack = None, re_threads = [], re_results = [], re_timerCloses = 0, re_events = []\<rparr>
      in case dial of
           None \<Rightarrow> Inr (notify (EvConnOnline 0) (re\<lparr>re_ends := [fresh_end]\<rparr>))
         | Some err \<Rightarrow> Inl (err, re\<lparr>re_ok := False, re_timerCloses := (if cl_TimerOwner eo2 = Some self then 1 else 0)\<rparr>))"

section \<open>Returning\<close>

text \<open>A registration that is tried again is memorized.\<close>

fun again :: "ucall \<Rightarrow> ucall" where
  "again (URegister method f memorize) = URegister method f True"
| "again u = u"

text \<open>A call returns \<open>r\<close> to the frame below.\<close>

fun unwind :: "nat \<Rightarrow> retry_error option \<Rightarrow> frame list \<Rightarrow> RetryEnd \<Rightarrow> RetryEnd" where
  "unwind t r [] re = (set_stack t [] re)\<lparr>re_results := re_results re @ [(t, r)]\<rparr>"
| "unwind t r (f # fs) re =
     (case (f, r) of
        (FAwait u n, None) \<Rightarrow> set_stack t (FOp (again u) # fs) re
      | (FAwait u n, Some err) \<Rightarrow> unwind t (Some err) fs re
      | (FRegsWait new rest, None) \<Rightarrow> set_stack t (FRegs new rest # fs) re
      | (FRegsWait new rest, Some err) \<Rightarrow> unwind t (Some err) fs (re\<lparr>re_rpcReader := None, re_retry := None\<rparr>)
      | (FLoopWait, None) \<Rightarrow> unwind t None fs re
      | (FLoopWait, Some err) \<Rightarrow> set_stack t (FLoop # fs) re
      | _ \<Rightarrow> unwind t r fs re)"

section \<open>The operations\<close>

text \<open>The call on the end has returned.\<close>

definition add_method :: "nat \<Rightarrow> bytes \<Rightarrow> nat \<Rightarrow> RetryEnd \<Rightarrow> RetryEnd" where
  "add_method n method f re =
     re\<lparr>re_ends := (re_ends re)[n := (re_ends re ! n)\<lparr>e_methods := AList.update method f (e_methods (re_ends re ! n))\<rparr>]\<rparr>"

definition put_hijack :: "nat \<Rightarrow> nat \<times> HijackOptions \<Rightarrow> RetryEnd \<Rightarrow> RetryEnd" where
  "put_hijack n h re = re\<lparr>re_ends := (re_ends re)[n := (re_ends re ! n)\<lparr>e_hijack := Some h\<rparr>]\<rparr>"

fun call_succeeded :: "ucall \<Rightarrow> nat \<Rightarrow> nat \<Rightarrow> frame list \<Rightarrow> RetryEnd \<Rightarrow> RetryEnd" where
  "call_succeeded (URegister method f memorize) n t fs re =
     (let re1 = add_method n method f re in if memorize then set_stack t (FMemo method f # fs) re1 else unwind t None fs re1)"
| "call_succeeded (UHijack h opts) n t fs re =
     (let h' = (h, MergeHijackOptions opts) in unwind t None fs ((put_hijack n h' re)\<lparr>re_hijack := Some h'\<rparr>))"
| "call_succeeded u n t fs re = unwind t None fs re"

definition call_returned :: "retry_error option \<Rightarrow> ucall \<Rightarrow> nat \<Rightarrow> nat \<Rightarrow> frame list \<Rightarrow> RetryEnd \<Rightarrow> RetryEnd" where
  "call_returned r u n t fs re =
     (case r of
        None \<Rightarrow> call_succeeded u n t fs re
      | Some err \<Rightarrow> (if err = REOF \<and> re_ok re then set_stack t (FLock n # FAwait u n # fs) re else unwind t (Some err) fs re))"

definition op_check :: "ucall \<Rightarrow> nat \<Rightarrow> frame list \<Rightarrow> RetryEnd \<Rightarrow> RetryEnd" where
  "op_check u t fs re = (if re_ok re then set_stack t (FCalled u (re_end re) # fs) re else unwind t (Some REOF) fs re)"

definition memorize :: "bytes \<Rightarrow> nat \<Rightarrow> nat \<Rightarrow> frame list \<Rightarrow> RetryEnd \<Rightarrow> unit rres" where
  "memorize method f t fs re =
     (if re_rpcReader re = None then HRet () (unwind t None fs (re\<lparr>re_rpcs := AList.update method f (re_rpcs re)\<rparr>)) else HBlock)"

section \<open>Reconnecting\<close>

text \<open>\<open>reinit\<close>: the lock, the comparison with the current end, and the close of the old one.\<close>

definition reinit_lock :: "nat \<Rightarrow> nat \<Rightarrow> frame list \<Rightarrow> RetryEnd \<Rightarrow> unit rres" where
  "reinit_lock old t fs re =
     (if re_retry re \<noteq> None then HBlock
      else if re_end re \<noteq> old then HRet () (unwind t None fs re)
      else HRet () (set_stack t (FClosing old # fs) (close_end old (re\<lparr>re_retry := Some t\<rparr>))))"

text \<open>After the pause: nothing more when the client was closed.\<close>

definition reinit_check :: "nat \<Rightarrow> nat \<Rightarrow> frame list \<Rightarrow> RetryEnd \<Rightarrow> RetryEnd" where
  "reinit_check old t fs re =
     (if re_ok re then set_stack t (FDial old # fs) re else unwind t (Some REOF) fs (re\<lparr>re_retry := None\<rparr>))"

text \<open>\<open>getEnd\<close> returns; a new end is announced and stored.\<close>

definition getEnd_done :: "retry_error option \<Rightarrow> nat \<Rightarrow> frame list \<Rightarrow> RetryEnd \<Rightarrow> RetryEnd" where
  "getEnd_done r t fs re =
     (case r of
        Some err \<Rightarrow> unwind t (Some err) fs (re\<lparr>re_retry := None\<rparr>)
      | None \<Rightarrow>
          (let new = length (re_ends re);
               re1 = notify (EvConnOnline new) (re\<lparr>re_ends := re_ends re @ [fresh_end]\<rparr>)
           in set_stack t (FHijack new # fs) (re1\<lparr>re_end := new\<rparr>)))"

definition reinit_hijack :: "retry_error option \<Rightarrow> nat \<Rightarrow> nat \<Rightarrow> frame list \<Rightarrow> RetryEnd \<Rightarrow> RetryEnd" where
  "reinit_hijack r new t fs re =
     (case (re_hijack re, r) of
        (None, _) \<Rightarrow> set_stack t (FRLock new # fs) re
      | (Some h, None) \<Rightarrow> set_stack t (FRLock new # fs) (put_hijack new h re)
      | (Some h, Some err) \<Rightarrow> unwind t (Some err) fs (re\<lparr>re_retry := None\<rparr>))"

text \<open>The registrations in the order in which the map is walked, under the read lock.\<close>

definition reinit_rlock :: "nat \<Rightarrow> nat \<Rightarrow> frame list \<Rightarrow> RetryEnd \<Rightarrow> unit rres" where
  "reinit_rlock new t fs re =
     (if re_rpcReader re = None then HRet () (set_stack t (FRegs new (re_rpcs re) # fs) (re\<lparr>re_rpcReader := Some t\<rparr>)) else HBlock)"

definition reinit_regs :: "nat \<Rightarrow> nat \<Rightarrow> (bytes \<times> nat) list \<Rightarrow> nat \<Rightarrow> frame list \<Rightarrow> RetryEnd \<Rightarrow> unit rres" where
  "reinit_regs k new rest t fs re =
     (if rest = [] then HRet () (unwind t None fs (notify (EvEndReOnline new) (re\<lparr>re_rpcReader := None, re_retry := None\<rparr>)))
      else if k < length rest then
        HRet () (set_stack t (FOp (URegister (fst (rest ! k)) (snd (rest ! k)) False) # FRegsWait new (remove_at k rest) # fs) re)
      else HBlock)"

section \<open>Offline and close\<close>

text \<open>The goroutine of \<open>ConnOffline\<close>.\<close>

definition offline_loop :: "nat \<Rightarrow> frame list \<Rightarrow> RetryEnd \<Rightarrow> RetryEnd" where
  "offline_loop t fs re = (if re_ok re then set_stack t (FLock (re_end re) # FLoopWait # fs) re else unwind t None fs re)"

definition re_ConnOffline :: "retry_error option \<Rightarrow> RetryEnd \<Rightarrow> RetryEnd" where
  "re_ConnOffline r re =
     (let re1 = notify EvConnOffline re in
      if cl_userDelegate (re_opts re) \<noteq> None \<and> r \<noteq> None then re1 else re1\<lparr>re_threads := re_threads re1 @ [[FLoop]]\<rparr>)"

text \<open>The other notifications go to the caller's delegate, if there is one.\<close>

definition forwarded :: "retry_error option \<Rightarrow> RetryEnd \<Rightarrow> retry_error option" where
  "forwarded r re = (if cl_userDelegate (re_opts re) = None then None else r)"

definition re_ConnOnline :: "retry_error option \<Rightarrow> RetryEnd \<Rightarrow> retry_error option" where
  "re_ConnOnline = forwarded"

definition re_DialogueOnline :: "retry_error option \<Rightarrow> RetryEnd \<Rightarrow> retry_error option" where
  "re_DialogueOnline = forwarded"

definition re_DialogueOffline :: "retry_error option \<Rightarrow> RetryEnd \<Rightarrow> retry_error option" where
  "re_DialogueOffline = forwarded"

definition close_start :: "nat \<Rightarrow> frame list \<Rightarrow> RetryEnd \<Rightarrow> unit rres" where
  "close_start t fs re =
     (case re_onceClose re of
        NotYet \<Rightarrow> HRet () (set_stack t (FCloseEnd (re_end re) # fs) (re\<lparr>re_onceClose := Doing\<rparr>))
      | Doing \<Rightarrow> HBlock
      | Done \<Rightarrow> HRet () (unwind t None fs re))"

definition close_finish :: "nat \<Rightarrow> nat \<Rightarrow> frame list \<Rightarrow> RetryEnd \<Rightarrow> RetryEnd" where
  "close_finish cur t fs re =
     unwind t None fs ((close_end cur (re\<lparr>re_ok := False\<rparr>))
       \<lparr>re_onceClose := Done, re_timerCloses := re_timerCloses re + (if cl_TimerOwner (re_opts re) = Some (re_self re) then 1 else 0)\<rparr>)"

text \<open>Operations that are not tried again: they fail or answer at once after \<open>Close\<close>, or run on the current end.\<close>

definition re_ListStreams :: "(nat \<Rightarrow> 'a list) \<Rightarrow> RetryEnd \<Rightarrow> 'a list" where
  "re_ListStreams streams re = (if re_ok re then streams (re_end re) else [])"

definition re_SetDeadline :: "(nat \<Rightarrow> retry_error option) \<Rightarrow> RetryEnd \<Rightarrow> retry_error option" where
  "re_SetDeadline on_end re = (if re_ok re then on_end (re_end re) else Some REOF)"

definition on_current :: "(nat \<Rightarrow> 'a) \<Rightarrow> RetryEnd \<Rightarrow> 'a" where
  "on_current f re = f (re_end re)"

section \<open>Turns\<close>

datatype rinput = IGo | IResult "retry_error option" | IPick nat

fun frame_turn :: "rinput \<Rightarrow> nat \<Rightarrow> frame \<Rightarrow> frame list \<Rightarrow> RetryEnd \<Rightarrow> unit rres" where
  "frame_turn inp t (FOp u) fs re = HRet () (op_check u t fs re)"
| "frame_turn (IResult r) t (FCalled u n) fs re = HRet () (call_returned r u n t fs re)"
| "frame_turn inp t (FMemo method f) fs re = memorize method f t fs re"
| "frame_turn inp t (FLock old) fs re = reinit_lock old t fs re"
| "frame_turn inp t (FClosing old) fs re = HRet () (reinit_check old t fs re)"
| "frame_turn (IResult r) t (FDial old) fs re = HRet () (getEnd_done r t fs re)"
| "frame_turn (IResult r) t (FHijack new) fs re = HRet () (reinit_hijack r new t fs re)"
| "frame_turn inp t (FRLock new) fs re = reinit_rlock new t fs re"
| "frame_turn (IPick k) t (FRegs new rest) fs re = reinit_regs k new rest t fs re"
| "frame_turn inp t FLoop fs re = HRet () (offline_loop t fs re)"
| "frame_turn inp t FClose fs re = close_start t fs re"
| "frame_turn inp t (FCloseEnd cur) fs re = HRet () (close_finish cur t fs re)"
| "frame_turn inp t f fs re = HBlock"

text \<open>
  A new goroutine calls an operation. All operations below have the same body around the call on the
  current end, which \<open>op_check\<close> (up to the call), \<open>call_returned\<close> (the error, the reconnection and the
  recursion) and \<open>call_succeeded\<close> (what a registration and a hijacker memorize) translate.
\<close>

definition begin_op :: "frame \<Rightarrow> RetryEnd \<Rightarrow> RetryEnd" where
  "begin_op f re = re\<lparr>re_threads := re_threads re @ [[f]]\<rparr>"

definition re_OpenStream :: "RetryEnd \<Rightarrow> RetryEnd" where
  "re_OpenStream = begin_op (FOp UOpenStream)"

definition re_AcceptStream :: "RetryEnd \<Rightarrow> RetryEnd" where
  "re_AcceptStream = begin_op (FOp UAcceptStream)"

definition re_Call :: "bytes \<Rightarrow> RetryEnd \<Rightarrow> RetryEnd" where
  "re_Call method = begin_op (FOp (UCall method))"

definition re_CallAsync :: "bytes \<Rightarrow> RetryEnd \<Rightarrow> RetryEnd" where
  "re_CallAsync method = begin_op (FOp (UCallAsync method))"

definition re_Register :: "bytes \<Rightarrow> nat \<Rightarrow> RetryEnd \<Rightarrow> RetryEnd" where
  "re_Register method f = begin_op (FOp (URegister method f True))"

definition re_Hijack :: "nat \<Rightarrow> HijackOptions option list \<Rightarrow> RetryEnd \<Rightarrow> RetryEnd" where
  "re_Hijack h opts = begin_op (FOp (UHijack h opts))"

definition re_Publish :: "RetryEnd \<Rightarrow> RetryEnd" where
  "re_Publish = begin_op (FOp UPublish)"

definition re_PublishAsync :: "RetryEnd \<Rightarrow> RetryEnd" where
  "re_PublishAsync = begin_op (FOp UPublishAsync)"

definition re_Receive :: "RetryEnd \<Rightarrow> RetryEnd" where
  "re_Receive = begin_op (FOp UReceive)"

definition re_Read :: "nat \<Rightarrow> RetryEnd \<Rightarrow> RetryEnd" where
  "re_Read n = begin_op (FOp (URead n))"

definition re_Write :: "bytes \<Rightarrow> RetryEnd \<Rightarrow> RetryEnd" where
  "re_Write b = begin_op (FOp (UWrite b))"

definition re_Close :: "RetryEnd \<Rightarrow> RetryEnd" where
  "re_Close = begin_op FClose"

fun re_begin :: "ucall \<Rightarrow> RetryEnd \<Rightarrow> RetryEnd" where
  "re_begin UOpenStream = re_OpenStream"
| "re_begin UAcceptStream = re_AcceptStream"
| "re_begin (UCall method) = re_Call method"
| "re_begin (UCallAsync method) = re_CallAsync method"
| "re_begin (URegister method f m) = re_Register method f"
| "re_begin (UHijack h opts) = re_Hijack h opts"
| "re_begin UPublish = re_Publish"
| "re_begin UPublishAsync = re_PublishAsync"
| "re_begin UReceive = re_Receive"
| "re_begin (URead n) = re_Read n"
| "re_begin (UWrite b) = re_Write b"

datatype retry_op = RBegin ucall | ROffline "retry_error option" | RClose | RTurn nat rinput

fun retry_turn :: "retry_op \<Rightarrow> RetryEnd \<Rightarrow> unit rres" where
  "retry_turn (RBegin u) re = HRet () (re_begin u re)"
| "retry_turn (ROffline r) re = HRet () (re_ConnOffline r re)"
| "retry_turn RClose re = HRet () (re_Close re)"
| "retry_turn (RTurn t inp) re =
     (if t < length (re_threads re) then
        (case re_threads re ! t of f # fs \<Rightarrow> frame_turn inp t f fs re | [] \<Rightarrow> HBlock)
      else HBlock)"

inductive retry_run :: "RetryEnd \<Rightarrow> RetryEnd \<Rightarrow> bool" for re0 where
  rstart: "retry_run re0 re0"
| rturn: "retry_run re0 re \<Longrightarrow> retry_turn op re = HRet () re' \<Longrightarrow> retry_run re0 re'"

fun retry_exec :: "retry_op list \<Rightarrow> RetryEnd \<Rightarrow> RetryEnd option" where
  "retry_exec [] re = Some re"
| "retry_exec (op # ops) re = (case retry_turn op re of HRet _ re' \<Rightarrow> retry_exec ops re' | _ \<Rightarrow> None)"

lemma retry_exec_run: "retry_exec ops re = Some re' \<Longrightarrow> retry_run re0 re \<Longrightarrow> retry_run re0 re'"
proof (induction ops arbitrary: re)
  case (Cons op ops)
  then obtain re1 where "retry_turn op re = HRet () re1" "retry_exec ops re1 = Some re'" by (auto split: gres.splits)
  then show ?case using Cons.IH retry_run.rturn [OF Cons.prems(2)] by blast
qed simp

section \<open>The shape of a goroutine\<close>

text \<open>
  The frames under which the retry lock is held, and the read lock of the procedures. A registration
  inside \<open>reinit\<close> may wait for a \<open>reinit\<close> of its own.
\<close>

fun holding :: "frame \<Rightarrow> bool" where
  "holding (FClosing old) = True"
| "holding (FDial old) = True"
| "holding (FHijack new) = True"
| "holding (FRLock new) = True"
| "holding (FRegs new rest) = True"
| "holding (FRegsWait new rest) = True"
| "holding _ = False"

fun reading :: "frame \<Rightarrow> bool" where
  "reading (FRegs new rest) = True"
| "reading (FRegsWait new rest) = True"
| "reading _ = False"

fun single :: "frame \<Rightarrow> bool" where
  "single (FOp u) = True"
| "single (FCalled u n) = True"
| "single (FMemo method f) = True"
| "single FLoop = True"
| "single FClose = True"
| "single (FCloseEnd cur) = True"
| "single _ = False"

fun base :: "frame \<Rightarrow> bool" where
  "base (FAwait u n) = True"
| "base FLoopWait = True"
| "base _ = False"

definition reinit_frame :: "frame \<Rightarrow> bool" where
  "reinit_frame f = (case f of FLock old \<Rightarrow> True | FRegsWait new rest \<Rightarrow> False | _ \<Rightarrow> holding f)"

fun inner :: "frame \<Rightarrow> bool" where
  "inner (FOp (URegister method f False)) = True"
| "inner (FCalled (URegister method f False) n) = True"
| "inner _ = False"

definition regs_wait :: "frame \<Rightarrow> bool" where
  "regs_wait f = (case f of FRegsWait new rest \<Rightarrow> True | _ \<Rightarrow> False)"

definition inner_await :: "frame \<Rightarrow> bool" where
  "inner_await f = (case f of FAwait (URegister method f False) n \<Rightarrow> True | _ \<Rightarrow> False)"

definition is_lock :: "frame \<Rightarrow> bool" where
  "is_lock f = (case f of FLock old \<Rightarrow> True | _ \<Rightarrow> False)"

fun shape :: "frame list \<Rightarrow> bool" where
  "shape [] = True"
| "shape [f] = single f"
| "shape [f, b] = (reinit_frame f \<and> base b)"
| "shape [f, w, b] = (inner f \<and> regs_wait w \<and> base b)"
| "shape [l, a, w, b] = (is_lock l \<and> inner_await a \<and> regs_wait w \<and> base b)"
| "shape _ = False"

text \<open>What a frame knows of the current end, and which procedures the loop has still to register.\<close>

fun frame_ok :: "RetryEnd \<Rightarrow> frame \<Rightarrow> bool" where
  "frame_ok re (FClosing old) = (old = re_end re \<and> e_closed (re_ends re ! old))"
| "frame_ok re (FDial old) = (old = re_end re \<and> e_closed (re_ends re ! old))"
| "frame_ok re (FHijack new) = (new = re_end re)"
| "frame_ok re (FRLock new) = (new = re_end re)"
| "frame_ok re (FRegs new rest) = (new = re_end re)"
| "frame_ok re (FRegsWait new rest) = (new = re_end re)"
| "frame_ok re _ = True"

definition covered :: "RetryEnd \<Rightarrow> bytes set \<Rightarrow> bool" where
  "covered re left \<longleftrightarrow> fst ` set (re_rpcs re) \<subseteq> fst ` set (e_methods (re_ends re ! re_end re)) \<union> left"

fun regs_ok :: "RetryEnd \<Rightarrow> frame list \<Rightarrow> bool" where
  "regs_ok re (FRegs new rest # fs) = covered re (fst ` set rest)"
| "regs_ok re (FOp (URegister method f m) # FRegsWait new rest # fs) = covered re (insert method (fst ` set rest))"
| "regs_ok re (FCalled (URegister method f m) n # FRegsWait new rest # fs) =
     (n = re_end re \<and> covered re (insert method (fst ` set rest)))"
| "regs_ok re fs = True"

definition stack_ok :: "RetryEnd \<Rightarrow> nat \<Rightarrow> frame list \<Rightarrow> bool" where
  "stack_ok re t fs \<longleftrightarrow> shape fs \<and> (list_ex holding fs \<longleftrightarrow> re_retry re = Some t) \<and> (list_ex reading fs \<longleftrightarrow> re_rpcReader re = Some t)
     \<and> list_all (frame_ok re) fs \<and> regs_ok re fs"

definition ends_ok :: "RetryEnd \<Rightarrow> bool" where
  "ends_ok re \<longleftrightarrow> re_end re < length (re_ends re) \<and> (\<forall>n < length (re_ends re). n \<noteq> re_end re \<longrightarrow> e_closed (re_ends re ! n))
     \<and> (\<forall>t. re_retry re = Some t \<or> re_rpcReader re = Some t \<longrightarrow> t < length (re_threads re))"

definition retry_inv :: "RetryEnd \<Rightarrow> bool" where
  "retry_inv re \<longleftrightarrow> ends_ok re \<and> (\<forall>t < length (re_threads re). stack_ok re t (re_threads re ! t))"

text \<open>The stacks of the other goroutines when one of them takes a turn.\<close>

lemma not_holding:
  assumes "shape fs" "\<not> list_ex holding fs"
  shows "\<not> list_ex reading fs \<and> list_all (frame_ok re) fs \<and> regs_ok re fs"
proof -
  have r: "reading f \<Longrightarrow> holding f" for f by (cases f) simp_all
  have k: "\<not> holding f \<Longrightarrow> frame_ok re f" for f by (cases f) simp_all
  have "\<not> list_ex reading fs" "list_all (frame_ok re) fs"
    using assms(2) r k by (auto simp: list_ex_iff list_all_iff)
  moreover have "regs_ok re fs" using assms(2) by (cases "(re, fs)" rule: regs_ok.cases) auto
  ultimately show ?thesis by blast
qed

lemma others_free:
  assumes "stack_ok re t' fs" "t' \<noteq> t" "re_retry re = None \<or> re_retry re = Some t" "re_retry re' = None \<or> re_retry re' = Some t"
    "re_rpcReader re' = None \<or> re_rpcReader re' = Some t"
  shows "stack_ok re' t' fs"
proof -
  have "shape fs" "\<not> list_ex holding fs" using assms(1-3) by (auto simp: stack_ok_def)
  then show ?thesis using not_holding [of fs re'] assms(2,4,5) by (auto simp: stack_ok_def)
qed

definition grows :: "RetryEnd \<Rightarrow> RetryEnd \<Rightarrow> bool" where
  "grows re re' \<longleftrightarrow> re_end re' = re_end re \<and> length (re_ends re') = length (re_ends re)
     \<and> (\<forall>n < length (re_ends re). (e_closed (re_ends re ! n) \<longrightarrow> e_closed (re_ends re' ! n))
          \<and> fst ` set (e_methods (re_ends re ! n)) \<subseteq> fst ` set (e_methods (re_ends re' ! n)))"

lemma grows_refl [simp]: "grows re re"
  by (simp add: grows_def)

lemma covered_grows:
  assumes "covered re left" "grows re re'" "re_end re < length (re_ends re)" "re_rpcs re' = re_rpcs re"
  shows "covered re' left"
proof -
  have "fst ` set (e_methods (re_ends re ! re_end re)) \<subseteq> fst ` set (e_methods (re_ends re' ! re_end re'))"
    using assms(2,3) by (simp add: grows_def)
  from subset_trans [OF assms(1) [unfolded covered_def] Un_mono [OF this subset_refl]] show ?thesis
    unfolding covered_def assms(4) .
qed

lemma regs_ok_grows:
  assumes "regs_ok re fs" "grows re re'" "re_end re < length (re_ends re)" "re_rpcs re' = re_rpcs re"
  shows "regs_ok re' fs"
proof -
  have "re_end re' = re_end re" "\<And>left. covered re left \<Longrightarrow> covered re' left"
    using assms(2) covered_grows [OF _ assms(2-4)] by (simp_all add: grows_def)
  then show ?thesis using assms(1) by (cases "(re, fs)" rule: regs_ok.cases) simp_all
qed

lemma frame_ok_grows: "frame_ok re f \<Longrightarrow> grows re re' \<Longrightarrow> re_end re < length (re_ends re) \<Longrightarrow> frame_ok re' f"
  by (cases f) (auto simp: grows_def)

lemma others_grow:
  assumes "stack_ok re t' fs" "grows re re'" "re_end re < length (re_ends re)" "re_retry re' = re_retry re" "re_rpcReader re' = re_rpcReader re"
    "re_rpcs re' = re_rpcs re \<or> re_rpcReader re = None"
  shows "stack_ok re' t' fs"
proof -
  have "regs_ok re' fs"
  proof (cases "re_rpcs re' = re_rpcs re")
    case True
    then show ?thesis using regs_ok_grows [OF _ assms(2,3) True] assms(1) by (simp add: stack_ok_def)
  next
    case False
    then have "\<not> list_ex reading fs" using assms(1,6) by (simp add: stack_ok_def)
    then show ?thesis by (cases "(re', fs)" rule: regs_ok.cases) auto
  qed
  moreover have "list_all (frame_ok re') fs" using assms(1-3) frame_ok_grows by (auto simp: stack_ok_def list_all_iff)
  ultimately show ?thesis using assms(1,4,5) by (simp add: stack_ok_def)
qed

text \<open>The invariant looks at the locks, the ends and the memorized procedures only.\<close>

definition view :: "RetryEnd \<Rightarrow> nat option \<times> nat option \<times> nat \<times> uend list \<times> (bytes \<times> nat) list" where
  "view re = (re_retry re, re_rpcReader re, re_end re, re_ends re, re_rpcs re)"

lemma stack_ok_view:
  assumes "view re' = view re"
  shows "stack_ok re' t fs = stack_ok re t fs"
proof -
  have v: "re_retry re' = re_retry re" "re_rpcReader re' = re_rpcReader re" "re_end re' = re_end re" "re_ends re' = re_ends re" "re_rpcs re' = re_rpcs re"
    using assms by (simp_all add: view_def)
  have "frame_ok re' f = frame_ok re f" for f using v by (cases f) simp_all
  moreover have "regs_ok re' fs = regs_ok re fs"
    using v by (cases "(re, fs)" rule: regs_ok.cases) (simp_all add: covered_def)
  ultimately show ?thesis using v(1,2) by (simp add: stack_ok_def list_all_iff)
qed

lemma view_set [simp]: "view (set_stack t fs re) = view re" "view (re\<lparr>re_results := x\<rparr>) = view re" "view (re\<lparr>re_threads := ts\<rparr>) = view re"
  "view (notify ev re) = view re" "view (re\<lparr>re_hijack := h\<rparr>) = view re"
  by (simp_all add: view_def set_stack_def notify_def)

lemma inv_push:
  assumes "retry_inv re" "t < length (re_threads re)" "re_threads re1 = re_threads re" "stack_ok re1 t fs" "ends_ok re1"
    "\<And>t' gs. t' \<noteq> t \<Longrightarrow> stack_ok re t' gs \<Longrightarrow> stack_ok re1 t' gs"
  shows "retry_inv ((set_stack t fs re1)\<lparr>re_results := x\<rparr>)"
proof -
  let ?re = "(set_stack t fs re1)\<lparr>re_results := x\<rparr>"
  have "stack_ok ?re t' gs = stack_ok re1 t' gs" for t' gs by (rule stack_ok_view) simp
  moreover have "ends_ok ?re" using assms(5) by (simp add: ends_ok_def set_stack_def)
  moreover have "re_threads ?re = (re_threads re)[t := fs]" using assms(3) by (simp add: set_stack_def)
  ultimately show ?thesis using assms(1,2,4,6) by (auto simp: retry_inv_def nth_list_update)
qed

lemma inv_set_stack:
  assumes "retry_inv re" "t < length (re_threads re)" "re_threads re1 = re_threads re" "stack_ok re1 t fs" "ends_ok re1"
    "\<And>t' gs. t' \<noteq> t \<Longrightarrow> stack_ok re t' gs \<Longrightarrow> stack_ok re1 t' gs"
  shows "retry_inv (set_stack t fs re1)"
  using inv_push [OF assms, of "re_results re1"] by (simp add: set_stack_def)

text \<open>A call that returns to the bottom of its goroutine, with the locks released.\<close>

definition bottom :: "frame list \<Rightarrow> bool" where
  "bottom fs = (case fs of [] \<Rightarrow> True | [b] \<Rightarrow> base b | _ \<Rightarrow> False)"

lemma unwind_bottom:
  assumes "bottom fs"
  obtains gs x where "unwind t r fs re = (set_stack t gs re)\<lparr>re_results := x\<rparr>" "shape gs" "\<not> list_ex holding gs"
proof (cases fs)
  case Nil
  then show ?thesis using that [of "re_results re @ [(t, r)]" "[]"] by simp
next
  case (Cons b bs)
  then have b: "fs = [b]" "base b" using assms by (auto simp: bottom_def split: list.splits)
  show ?thesis
  proof (cases "r = None \<longleftrightarrow> b = FLoopWait")
    case True
    then show ?thesis using b that [of "re_results re @ [(t, r)]" "[]"] by (cases b; cases r) simp_all
  next
    case False
    let ?gs = "[case b of FAwait u n \<Rightarrow> FOp (again u) | _ \<Rightarrow> FLoop]"
    have "unwind t r fs re = set_stack t ?gs re" using b False by (cases b; cases r) simp_all
    then have u: "unwind t r fs re = (set_stack t ?gs re)\<lparr>re_results := re_results re\<rparr>" by (simp add: set_stack_def)
    have "shape ?gs" "\<not> list_ex holding ?gs" by (simp_all split: frame.splits)
    then show ?thesis using that [OF u] by blast
  qed
qed

lemma inv_unwind:
  assumes "retry_inv re" "t < length (re_threads re)" "bottom fs" "re_threads re1 = re_threads re" "re_retry re1 \<noteq> Some t"
    "re_rpcReader re1 \<noteq> Some t" "ends_ok re1" "\<And>t' gs. t' \<noteq> t \<Longrightarrow> stack_ok re t' gs \<Longrightarrow> stack_ok re1 t' gs"
  shows "retry_inv (unwind t r fs re1)"
proof -
  obtain gs x where g: "unwind t r fs re1 = (set_stack t gs re1)\<lparr>re_results := x\<rparr>" "shape gs" "\<not> list_ex holding gs"
    using unwind_bottom [OF assms(3)] .
  have "stack_ok re1 t gs" using not_holding [OF g(2,3)] g(2,3) assms(5,6) by (simp add: stack_ok_def)
  then show ?thesis unfolding g(1) using inv_push assms by blast
qed

text \<open>A call that fails inside the loop of registrations gives both locks back.\<close>

lemma inv_fail:
  assumes "retry_inv re" "t < length (re_threads re)" "base b" "re_retry re = Some t" "re_threads re1 = re_threads re" "re_retry re1 = None"
    "re_rpcReader re1 = None" "ends_ok re1"
  shows "retry_inv (unwind t r [b] re1)"
proof (rule inv_unwind [OF assms(1,2) _ assms(5)])
  show "stack_ok re1 t' gs" if "t' \<noteq> t" "stack_ok re t' gs" for t' gs
    by (rule others_free [OF that(2,1)]) (simp_all add: assms)
qed (use assms in \<open>simp_all add: bottom_def\<close>)

text \<open>The cases of a goroutine by its top frame.\<close>

lemma top_shape:
  assumes "shape (f # fs)"
  shows "single f \<and> fs = [] \<or> reinit_frame f \<and> (\<exists>b. fs = [b] \<and> base b) \<or> inner f \<and> (\<exists>new rest b. fs = [FRegsWait new rest, b] \<and> base b)
    \<or> (\<exists>old method p n new rest b. f = FLock old \<and> fs = [FAwait (URegister method p False) n, FRegsWait new rest, b] \<and> base b)"
  using assms
  by (cases "f # fs" rule: shape.cases)
    (auto simp: is_lock_def regs_wait_def inner_await_def split: frame.splits ucall.splits bool.splits)

section \<open>Every turn keeps the invariant\<close>

lemma grows_upd:
  assumes "e_closed (re_ends re ! n) \<Longrightarrow> e_closed e" "fst ` set (e_methods (re_ends re ! n)) \<subseteq> fst ` set (e_methods e)"
  shows "grows re (re\<lparr>re_ends := (re_ends re)[n := e]\<rparr>)"
proof -
  have "(e_closed (re_ends re ! k) \<longrightarrow> e_closed ((re_ends re)[n := e] ! k))
    \<and> fst ` set (e_methods (re_ends re ! k)) \<subseteq> fst ` set (e_methods ((re_ends re)[n := e] ! k))" if "k < length (re_ends re)" for k
    using assms that by (cases "k = n") simp_all
  then show ?thesis by (simp add: grows_def)
qed

lemma grows_steps [simp]: "grows re (add_method n method f re)" "grows re (put_hijack n h re)" "grows re (close_end n re)"
proof -
  have "fst ` set (AList.update method f xs) = insert method (fst ` set xs)" for xs by (induction xs) auto
  then show "grows re (add_method n method f re)" unfolding add_method_def by (intro grows_upd) auto
  show "grows re (put_hijack n h re)" "grows re (close_end n re)"
    unfolding put_hijack_def close_end_def by (intro grows_upd; simp)+
qed

lemma ends_ok_grows:
  assumes "ends_ok re" "grows re re'" "re_retry re' = re_retry re" "re_rpcReader re' = re_rpcReader re" "re_threads re' = re_threads re"
  shows "ends_ok re'"
  using assms by (auto simp: ends_ok_def grows_def)

text \<open>A turn that only makes an end grow, and leaves the locks and the memorized procedures alone.\<close>

lemma inv_grow_push:
  assumes "retry_inv re" "t < length (re_threads re)" "re_threads re1 = re_threads re" "grows re re1" "re_retry re1 = re_retry re"
    "re_rpcReader re1 = re_rpcReader re" "re_rpcs re1 = re_rpcs re" "stack_ok re1 t fs"
  shows "retry_inv (set_stack t fs re1)"
proof (rule inv_set_stack [OF assms(1-3,8)])
  have e: "ends_ok re" using assms(1) by (simp add: retry_inv_def)
  then show "ends_ok re1" using ends_ok_grows assms by blast
  show "stack_ok re1 t' gs" if "t' \<noteq> t" "stack_ok re t' gs" for t' gs
    by (rule others_grow [OF that(2) assms(4)]) (use e assms in \<open>auto simp: ends_ok_def\<close>)
qed

lemma inv_grow_unwind:
  assumes "retry_inv re" "t < length (re_threads re)" "bottom fs" "re_threads re1 = re_threads re" "grows re re1" "re_retry re1 = re_retry re"
    "re_rpcReader re1 = re_rpcReader re" "re_rpcs re1 = re_rpcs re \<or> re_rpcReader re = None" "re_retry re \<noteq> Some t" "re_rpcReader re \<noteq> Some t"
  shows "retry_inv (unwind t r fs re1)"
proof (rule inv_unwind [OF assms(1-4)])
  have e: "ends_ok re" using assms(1) by (simp add: retry_inv_def)
  then show "ends_ok re1" using ends_ok_grows assms by blast
  show "stack_ok re1 t' gs" if "t' \<noteq> t" "stack_ok re t' gs" for t' gs
    by (rule others_grow [OF that(2) assms(5)]) (use e assms in \<open>auto simp: ends_ok_def\<close>)
qed (use assms in simp_all)

lemma own_stack: "retry_inv re \<Longrightarrow> t < length (re_threads re) \<Longrightarrow> re_threads re ! t = fs \<Longrightarrow> stack_ok re t fs"
  by (auto simp: retry_inv_def)

lemma inv_ends: "retry_inv re \<Longrightarrow> ends_ok re"
  by (simp add: retry_inv_def)

text \<open>An error that is returned from a registration in the loop, or from an operation.\<close>

lemma inv_error:
  assumes inv: "retry_inv re" "t < length (re_threads re)" "re_threads re ! t = f # fs" and f: "single f \<or> inner f"
  shows "retry_inv (unwind t (Some err) fs re)"
proof -
  have s: "stack_ok re t (f # fs)" using own_stack [OF inv] .
  then consider "single f" "fs = []" | new rest b where "fs = [FRegsWait new rest, b]" "base b"
    using top_shape [of f fs] f by (auto simp: stack_ok_def reinit_frame_def elim!: inner.elims single.elims)
  then show ?thesis
  proof cases
    case 1
    then have "re_retry re \<noteq> Some t" "re_rpcReader re \<noteq> Some t" using s by (auto simp: stack_ok_def elim: single.elims)
    then show ?thesis using inv_grow_unwind [OF inv(1,2), of fs re] 1(2) by (simp add: bottom_def)
  next
    case 2
    have h: "re_retry re = Some t" using s 2 by (simp add: stack_ok_def)
    have "ends_ok (re\<lparr>re_rpcReader := None, re_retry := None\<rparr>)" using inv_ends [OF inv(1)] by (simp add: ends_ok_def)
    then show ?thesis using inv_fail [OF inv(1,2) 2(2) h, of "re\<lparr>re_rpcReader := None, re_retry := None\<rparr>" "Some err"] 2 by simp
  qed
qed

lemma inv_op_check:
  assumes "retry_inv re" "t < length (re_threads re)" "re_threads re ! t = FOp u # fs"
  shows "retry_inv (op_check u t fs re)"
proof -
  have s: "stack_ok re t (FOp u # fs)" using own_stack [OF assms] .
  have "shape (FOp u # fs)" using s by (simp add: stack_ok_def)
  then have k: "fs = [] \<or> inner (FOp u) \<and> (\<exists>new rest b. fs = [FRegsWait new rest, b] \<and> base b)"
    using top_shape [of "FOp u" fs] by (auto simp: reinit_frame_def)
  have "stack_ok re t (FCalled u (re_end re) # fs)"
    using s k by (cases u) (auto simp: stack_ok_def regs_wait_def elim!: inner.elims)
  then have "retry_inv (set_stack t (FCalled u (re_end re) # fs) re)" using inv_grow_push [OF assms(1,2), of re] by simp
  then show ?thesis using inv_error [OF assms] k by (auto simp: op_check_def)
qed

lemma called_shape:
  assumes "retry_inv re" "t < length (re_threads re)" "re_threads re ! t = FCalled u n # fs"
  obtains "fs = []" "re_retry re \<noteq> Some t" "re_rpcReader re \<noteq> Some t"
  | name f new rest b where "u = URegister name f False" "fs = [FRegsWait new rest, b]" "base b" "n = re_end re" "new = re_end re"
    "covered re (insert name (fst ` set rest))" "re_retry re = Some t" "re_rpcReader re = Some t"
proof -
  have s: "stack_ok re t (FCalled u n # fs)" using own_stack [OF assms] .
  then have "shape (FCalled u n # fs)" by (simp add: stack_ok_def)
  then have "fs = [] \<or> inner (FCalled u n) \<and> (\<exists>new rest b. fs = [FRegsWait new rest, b] \<and> base b)"
    using top_shape [of "FCalled u n" fs] by (auto simp: reinit_frame_def)
  then show ?thesis using s that by (cases u) (auto simp: stack_ok_def elim!: inner.elims)
qed

lemma add_method_fields [simp]:
  "re_threads (add_method n name f re) = re_threads re" "re_retry (add_method n name f re) = re_retry re"
  "re_rpcReader (add_method n name f re) = re_rpcReader re" "re_rpcs (add_method n name f re) = re_rpcs re"
  "re_end (add_method n name f re) = re_end re"
  by (simp_all add: add_method_def)

lemma put_hijack_fields [simp]:
  "re_threads (put_hijack n h re) = re_threads re" "re_retry (put_hijack n h re) = re_retry re"
  "re_rpcReader (put_hijack n h re) = re_rpcReader re" "re_rpcs (put_hijack n h re) = re_rpcs re" "re_end (put_hijack n h re) = re_end re"
  by (simp_all add: put_hijack_def)

lemma grows_hijack [simp]: "grows re (re'\<lparr>re_hijack := h\<rparr>) = grows re re'"
  by (simp add: grows_def)

lemma covered_add:
  assumes "covered re (insert name left)" "re_end re < length (re_ends re)"
  shows "covered (add_method (re_end re) name f re) left"
proof -
  have k: "fst ` set (AList.update name f xs) = insert name (fst ` set xs)" for xs by (induction xs) auto
  show ?thesis using assms unfolding covered_def add_method_def by (simp add: k)
qed

lemma inv_call_succeeded:
  assumes inv: "retry_inv re" "t < length (re_threads re)" "re_threads re ! t = FCalled u n # fs"
  shows "retry_inv (call_succeeded u n t fs re)"
  using inv
proof (cases rule: called_shape)
  case 1
  note un = inv_grow_unwind [OF inv(1,2), of "[]"]
  show ?thesis
  proof (cases u)
    case (URegister name f m)
    have "stack_ok (add_method n name f re) t [FMemo name f]" using 1 by (simp add: stack_ok_def)
    then show ?thesis using URegister 1 un [of "add_method n name f re"] inv_grow_push [OF inv(1,2), of "add_method n name f re"]
      by (simp add: Let_def bottom_def del: unwind.simps)
  qed (use 1 un in \<open>simp_all add: Let_def bottom_def del: unwind.simps\<close>)
next
  case (2 name f new rest b)
  let ?re = "add_method n name f re"
  have "re_end re < length (re_ends re)" using inv_ends [OF inv(1)] by (simp add: ends_ok_def)
  then have "covered ?re (fst ` set rest)" using covered_add [OF 2(6)] 2(4) by simp
  then have "stack_ok ?re t [FRegs new rest, b]" using 2 by (cases b) (simp_all add: stack_ok_def reinit_frame_def)
  then show ?thesis using 2 inv_grow_push [OF inv(1,2), of ?re] by simp
qed

lemma inv_call_returned:
  assumes inv: "retry_inv re" "t < length (re_threads re)" "re_threads re ! t = FCalled u n # fs"
  shows "retry_inv (call_returned r u n t fs re)"
proof -
  have "stack_ok re t (FLock n # FAwait u n # fs)"
    using inv
  proof (cases rule: called_shape)
    case 1
    then show ?thesis by (simp add: stack_ok_def reinit_frame_def)
  next
    case (2 name f new rest b)
    then show ?thesis by (cases b) (simp_all add: stack_ok_def is_lock_def inner_await_def regs_wait_def)
  qed
  then have "retry_inv (set_stack t (FLock n # FAwait u n # fs) re)" using inv_grow_push [OF inv(1,2), of re] by simp
  then show ?thesis using inv_call_succeeded [OF inv] inv_error [OF inv] by (simp add: call_returned_def split: option.splits)
qed

lemma inv_memorize:
  assumes inv: "retry_inv re" "t < length (re_threads re)" "re_threads re ! t = FMemo name f # fs" and "memorize name f t fs re = HRet () re'"
  shows "retry_inv re'"
proof -
  have s: "stack_ok re t (FMemo name f # fs)" using own_stack [OF inv] .
  then have "fs = []" using top_shape [of "FMemo name f" fs] by (auto simp: stack_ok_def reinit_frame_def)
  moreover have "re_rpcReader re = None" using assms(4) by (simp add: memorize_def split: if_splits)
  moreover have "grows re (re\<lparr>re_rpcs := AList.update name f (re_rpcs re)\<rparr>)" by (simp add: grows_def)
  ultimately show ?thesis
    using s assms(4) inv_grow_unwind [OF inv(1,2), of "[]" "re\<lparr>re_rpcs := AList.update name f (re_rpcs re)\<rparr>" None]
    by (auto simp: memorize_def bottom_def stack_ok_def simp del: unwind.simps)
qed

text \<open>The stages of \<open>reinit\<close>: the goroutine that holds the lock stands on one frame.\<close>

lemma reinit_shape:
  assumes "retry_inv re" "t < length (re_threads re)" "re_threads re ! t = f # fs" "reinit_frame f" "\<not> is_lock f"
  obtains b where "fs = [b]" "base b" "re_retry re = Some t" "frame_ok re f" "reading f = (re_rpcReader re = Some t)" "regs_ok re (f # fs)"
proof -
  have s: "stack_ok re t (f # fs)" using own_stack [OF assms(1-3)] .
  then obtain b where b: "fs = [b]" "base b"
    using top_shape [of f fs] assms(4,5) by (cases f) (auto simp: stack_ok_def reinit_frame_def is_lock_def)
  moreover have "holding f" using assms(4,5) by (cases f) (simp_all add: reinit_frame_def is_lock_def)
  moreover have "\<not> reading b" using b by (cases b) simp_all
  ultimately show ?thesis using s that by (simp add: stack_ok_def)
qed

lemma base_frames: "base b \<Longrightarrow> \<not> holding b \<and> \<not> reading b \<and> frame_ok re b"
  by (cases b) simp_all

text \<open>Only the holder of the retry lock can hold the read lock.\<close>

lemma locked_reader:
  assumes "retry_inv re"
  shows "re_rpcReader re = None \<or> re_rpcReader re = re_retry re"
proof (cases "re_rpcReader re")
  case (Some t)
  then have "t < length (re_threads re)" using inv_ends [OF assms] by (simp add: ends_ok_def)
  then have k: "stack_ok re t (re_threads re ! t)" using assms by (simp add: retry_inv_def)
  then have "list_ex reading (re_threads re ! t)" using Some by (simp add: stack_ok_def)
  moreover have "reading f \<Longrightarrow> holding f" for f by (cases f) simp_all
  ultimately have "list_ex holding (re_threads re ! t)" by (auto simp: list_ex_iff)
  then show ?thesis using k Some by (simp add: stack_ok_def)
qed simp

text \<open>The lock is taken, or the end was made anew by another goroutine.\<close>

lemma inv_reinit_lock:
  assumes inv: "retry_inv re" "t < length (re_threads re)" "re_threads re ! t = FLock old # fs" and "reinit_lock old t fs re = HRet () re'"
  shows "retry_inv re'"
proof -
  have s: "stack_ok re t (FLock old # fs)" using own_stack [OF inv] .
  have free: "re_retry re = None" using assms(4) by (simp add: reinit_lock_def split: if_splits)
  then obtain b where b: "fs = [b]" "base b"
    using s top_shape [of "FLock old" fs] by (auto simp: stack_ok_def)
  have nr: "re_rpcReader re \<noteq> Some t" using s b base_frames by (auto simp: stack_ok_def)
  show ?thesis
  proof (cases "re_end re = old")
    case False
    then show ?thesis using assms(4) free b nr inv_grow_unwind [OF inv(1,2), of fs re None]
      by (simp add: reinit_lock_def bottom_def del: unwind.simps split: if_splits)
  next
    case True
    let ?re1 = "close_end old (re\<lparr>re_retry := Some t\<rparr>)"
    have e: "ends_ok re" using inv_ends [OF inv(1)] .
    have rd: "re_rpcReader re = None" using locked_reader [OF inv(1)] free by auto
    have "retry_inv (set_stack t (FClosing old # fs) ?re1)"
    proof (rule inv_set_stack [OF inv(1,2)])
      show "stack_ok ?re1 t (FClosing old # fs)" using True b rd e base_frames [OF b(2)]
        by (simp add: stack_ok_def close_end_def reinit_frame_def ends_ok_def)
      show "ends_ok ?re1" using e rd inv(2) True by (auto simp: ends_ok_def close_end_def)
      show "stack_ok ?re1 t' gs" if "t' \<noteq> t" "stack_ok re t' gs" for t' gs
        by (rule others_free [OF that(2,1)]) (use free rd in \<open>simp_all add: close_end_def\<close>)
    qed (simp add: close_end_def)
    then show ?thesis using True assms(4) free by (simp add: reinit_lock_def split: if_splits)
  qed
qed

text \<open>The holder of the lock moves on, or gives the locks back and returns.\<close>

lemma inv_holder_push:
  assumes "retry_inv re" "t < length (re_threads re)" "re_retry re = Some t" "re_threads re1 = re_threads re" "re_retry re1 = Some t"
    "re_rpcReader re1 = None \<or> re_rpcReader re1 = Some t" "ends_ok re1" "stack_ok re1 t fs"
  shows "retry_inv (set_stack t fs re1)"
proof (rule inv_set_stack [OF assms(1,2,4,8,7)])
  show "stack_ok re1 t' gs" if "t' \<noteq> t" "stack_ok re t' gs" for t' gs
    by (rule others_free [OF that(2,1)]) (simp_all add: assms)
qed

lemma inv_reinit_check:
  assumes inv: "retry_inv re" "t < length (re_threads re)" "re_threads re ! t = FClosing old # fs"
  shows "retry_inv (reinit_check old t fs re)"
proof -
  obtain b where b: "fs = [b]" "base b" "re_retry re = Some t" "frame_ok re (FClosing old)" "re_rpcReader re \<noteq> Some t"
    using reinit_shape [OF inv] by (auto simp: reinit_frame_def is_lock_def)
  then have rd: "re_rpcReader re = None" using locked_reader [OF inv(1)] by auto
  have e: "ends_ok re" using inv_ends [OF inv(1)] .
  have "retry_inv (set_stack t (FDial old # fs) re)"
    by (rule inv_holder_push [OF inv(1,2) b(3)]) (use b rd e base_frames [OF b(2)] in \<open>auto simp: stack_ok_def reinit_frame_def\<close>)
  moreover have "retry_inv (unwind t (Some REOF) [b] (re\<lparr>re_retry := None\<rparr>))"
    by (rule inv_fail [OF inv(1,2) b(2,3)]) (use rd e in \<open>simp_all add: ends_ok_def\<close>)
  ultimately show ?thesis using b(1) by (simp add: reinit_check_def del: unwind.simps)
qed

lemma ends_ok_notify [simp]: "ends_ok (notify ev re) = ends_ok re"
  by (simp add: notify_def ends_ok_def)

lemma notify_fields [simp]:
  "re_threads (notify ev re) = re_threads re" "re_retry (notify ev re) = re_retry re" "re_rpcReader (notify ev re) = re_rpcReader re"
  "re_end (notify ev re) = re_end re" "re_ends (notify ev re) = re_ends re" "re_rpcs (notify ev re) = re_rpcs re" "re_ok (notify ev re) = re_ok re"
  by (simp_all add: notify_def)

lemma inv_getEnd_done:
  assumes inv: "retry_inv re" "t < length (re_threads re)" "re_threads re ! t = FDial old # fs"
  shows "retry_inv (getEnd_done r t fs re)"
proof -
  obtain b where b: "fs = [b]" "base b" "re_retry re = Some t" "frame_ok re (FDial old)" "re_rpcReader re \<noteq> Some t"
    using reinit_shape [OF inv] by (auto simp: reinit_frame_def is_lock_def)
  then have rd: "re_rpcReader re = None" using locked_reader [OF inv(1)] by auto
  have e: "ends_ok re" using inv_ends [OF inv(1)] .
  let ?re1 = "(notify (EvConnOnline (length (re_ends re))) (re\<lparr>re_ends := re_ends re @ [fresh_end]\<rparr>))\<lparr>re_end := length (re_ends re)\<rparr>"
  have "retry_inv (set_stack t (FHijack (length (re_ends re)) # fs) ?re1)"
  proof (rule inv_holder_push [OF inv(1,2) b(3)])
    show "ends_ok ?re1" using e b(4) by (auto simp: ends_ok_def nth_append less_Suc_eq)
    show "stack_ok ?re1 t (FHijack (length (re_ends re)) # fs)"
      using b rd base_frames [OF b(2)] by (simp add: stack_ok_def reinit_frame_def)
  qed (use b rd in simp_all)
  moreover have "retry_inv (unwind t (Some err) [b] (re\<lparr>re_retry := None\<rparr>))" for err
    by (rule inv_fail [OF inv(1,2) b(2,3)]) (use rd e in \<open>simp_all add: ends_ok_def\<close>)
  ultimately show ?thesis using b(1) by (simp add: getEnd_done_def Let_def del: unwind.simps split: option.splits)
qed

lemma inv_reinit_hijack:
  assumes inv: "retry_inv re" "t < length (re_threads re)" "re_threads re ! t = FHijack new # fs"
  shows "retry_inv (reinit_hijack r new t fs re)"
proof -
  obtain b where b: "fs = [b]" "base b" "re_retry re = Some t" "frame_ok re (FHijack new)" "re_rpcReader re \<noteq> Some t"
    using reinit_shape [OF inv] by (auto simp: reinit_frame_def is_lock_def)
  then have rd: "re_rpcReader re = None" using locked_reader [OF inv(1)] by auto
  have e: "ends_ok re" using inv_ends [OF inv(1)] .
  have "retry_inv (set_stack t (FRLock new # fs) (put_hijack new h re))" "retry_inv (set_stack t (FRLock new # fs) re)" for h
    by (rule inv_grow_push [OF inv(1,2)]; use b rd base_frames [OF b(2)] in \<open>simp add: stack_ok_def reinit_frame_def\<close>)+
  moreover have "retry_inv (unwind t (Some err) [b] (re\<lparr>re_retry := None\<rparr>))" for err
    by (rule inv_fail [OF inv(1,2) b(2,3)]) (use rd e in \<open>simp_all add: ends_ok_def\<close>)
  ultimately show ?thesis using b(1) by (cases "re_hijack re"; cases r) (simp_all add: reinit_hijack_def del: unwind.simps)
qed

lemma inv_reinit_rlock:
  assumes inv: "retry_inv re" "t < length (re_threads re)" "re_threads re ! t = FRLock new # fs" and "reinit_rlock new t fs re = HRet () re'"
  shows "retry_inv re'"
proof -
  obtain b where b: "fs = [b]" "base b" "re_retry re = Some t" "frame_ok re (FRLock new)"
    using reinit_shape [OF inv(1-3)] by (auto simp: reinit_frame_def is_lock_def)
  have e: "ends_ok re" using inv_ends [OF inv(1)] .
  have "retry_inv (set_stack t (FRegs new (re_rpcs re) # fs) (re\<lparr>re_rpcReader := Some t\<rparr>))"
    by (rule inv_holder_push [OF inv(1,2) b(3)])
      (use b e inv(2) base_frames [OF b(2)] in \<open>auto simp: stack_ok_def reinit_frame_def ends_ok_def covered_def\<close>)
  then show ?thesis using assms(4) by (simp add: reinit_rlock_def split: if_splits)
qed

lemma set_remove_at: "k < length xs \<Longrightarrow> set xs = insert (xs ! k) (set (remove_at k xs))"
  by (subst id_take_nth_drop [of k xs]) (auto simp: remove_at_def)

lemma inv_reinit_regs:
  assumes inv: "retry_inv re" "t < length (re_threads re)" "re_threads re ! t = FRegs new rest # fs" and "reinit_regs k new rest t fs re = HRet () re'"
  shows "retry_inv re'"
proof -
  obtain b where b: "fs = [b]" "base b" "re_retry re = Some t" "frame_ok re (FRegs new rest)" "re_rpcReader re = Some t" "covered re (fst ` set rest)"
    using reinit_shape [OF inv(1-3)] by (auto simp: reinit_frame_def is_lock_def)
  have e: "ends_ok re" using inv_ends [OF inv(1)] .
  show ?thesis
  proof (cases "rest = []")
    case True
    have "retry_inv (unwind t None [b] (notify (EvEndReOnline new) (re\<lparr>re_rpcReader := None, re_retry := None\<rparr>)))"
      by (rule inv_fail [OF inv(1,2) b(2,3)]) (use e in \<open>simp_all add: ends_ok_def\<close>)
    then show ?thesis using True assms(4) b(1) by (simp add: reinit_regs_def del: unwind.simps)
  next
    case False
    then have k: "k < length rest" "re' = set_stack t (FOp (URegister (fst (rest ! k)) (snd (rest ! k)) False) # FRegsWait new (remove_at k rest) # fs) re"
      using assms(4) by (auto simp: reinit_regs_def split: if_splits)
    show ?thesis unfolding k(2)
      by (rule inv_grow_push [OF inv(1,2)])
        (use b k(1) set_remove_at [OF k(1)] base_frames [OF b(2)] in \<open>auto simp: stack_ok_def regs_wait_def\<close>)
  qed
qed

lemma single_free:
  assumes "retry_inv re" "t < length (re_threads re)" "re_threads re ! t = f # fs" "single f" "\<not> inner f"
  shows "fs = []" "re_retry re \<noteq> Some t" "re_rpcReader re \<noteq> Some t"
proof -
  have s: "stack_ok re t (f # fs)" using own_stack [OF assms(1-3)] .
  then show "fs = []" using top_shape [of f fs] assms(4,5) by (cases f) (auto simp: stack_ok_def reinit_frame_def)
  then show "re_retry re \<noteq> Some t" "re_rpcReader re \<noteq> Some t" using s assms(4) by (cases f; auto simp: stack_ok_def)+
qed

lemma inv_offline_loop:
  assumes inv: "retry_inv re" "t < length (re_threads re)" "re_threads re ! t = FLoop # fs"
  shows "retry_inv (offline_loop t fs re)"
proof -
  have f: "fs = []" "re_retry re \<noteq> Some t" "re_rpcReader re \<noteq> Some t" using single_free [OF inv] by simp_all
  have "retry_inv (set_stack t [FLock (re_end re), FLoopWait] re)"
    by (rule inv_grow_push [OF inv(1,2)]) (use f in \<open>simp_all add: stack_ok_def reinit_frame_def\<close>)
  moreover have "retry_inv (unwind t None [] re)"
    by (rule inv_grow_unwind [OF inv(1,2)]) (use f in \<open>simp_all add: bottom_def\<close>)
  ultimately show ?thesis using f(1) by (simp add: offline_loop_def del: unwind.simps)
qed

lemma inv_close_start:
  assumes inv: "retry_inv re" "t < length (re_threads re)" "re_threads re ! t = FClose # fs" and "close_start t fs re = HRet () re'"
  shows "retry_inv re'"
proof -
  have f: "fs = []" "re_retry re \<noteq> Some t" "re_rpcReader re \<noteq> Some t" using single_free [OF inv(1-3)] by simp_all
  have "retry_inv (set_stack t [FCloseEnd (re_end re)] (re\<lparr>re_onceClose := Doing\<rparr>))"
    by (rule inv_grow_push [OF inv(1,2)]) (use f in \<open>simp_all add: stack_ok_def grows_def\<close>)
  moreover have "retry_inv (unwind t None [] re)"
    by (rule inv_grow_unwind [OF inv(1,2)]) (use f in \<open>simp_all add: bottom_def\<close>)
  ultimately show ?thesis using f(1) assms(4) by (auto simp: close_start_def simp del: unwind.simps split: once.splits)
qed

lemma inv_close_finish:
  assumes inv: "retry_inv re" "t < length (re_threads re)" "re_threads re ! t = FCloseEnd cur # fs"
  shows "retry_inv (close_finish cur t fs re)"
proof -
  have f: "fs = []" "re_retry re \<noteq> Some t" "re_rpcReader re \<noteq> Some t" using single_free [OF inv] by simp_all
  let ?re1 = "(close_end cur (re\<lparr>re_ok := False\<rparr>))
       \<lparr>re_onceClose := Done, re_timerCloses := re_timerCloses re + (if cl_TimerOwner (re_opts re) = Some (re_self re) then 1 else 0)\<rparr>"
  have "grows (re\<lparr>re_ok := False\<rparr>) (close_end cur (re\<lparr>re_ok := False\<rparr>))" by simp
  then have "grows re ?re1" by (simp add: grows_def)
  then have "retry_inv (unwind t None [] ?re1)"
    by (intro inv_grow_unwind [OF inv(1,2)]) (use f in \<open>simp_all add: bottom_def close_end_def\<close>)
  then show ?thesis using f(1) by (simp add: close_finish_def del: unwind.simps)
qed

lemma inv_begin:
  assumes inv: "retry_inv re" and f: "single f"
  shows "retry_inv (begin_op f re)"
proof -
  let ?re = "begin_op f re"
  have v: "stack_ok ?re t gs = stack_ok re t gs" for t gs by (rule stack_ok_view) (simp add: begin_op_def)
  have e: "ends_ok re" using inv_ends [OF inv] .
  have nl: "re_retry re \<noteq> Some (length (re_threads re))" "re_rpcReader re \<noteq> Some (length (re_threads re))" using e by (auto simp: ends_ok_def)
  have "\<not> holding f" using f by (cases f) simp_all
  then have "stack_ok re (length (re_threads re)) [f]" using not_holding [of "[f]" re] f nl by (simp add: stack_ok_def)
  moreover have "ends_ok ?re" using e by (auto simp: ends_ok_def begin_op_def less_Suc_eq)
  ultimately show ?thesis using inv v by (auto simp: retry_inv_def begin_op_def nth_append less_Suc_eq)
qed

lemma inv_notify [simp]: "retry_inv (notify ev re) = retry_inv re"
proof -
  have "stack_ok (notify ev re) t fs = stack_ok re t fs" for t fs by (rule stack_ok_view) simp
  then show ?thesis by (simp add: retry_inv_def)
qed

lemma re_begin_op: "re_begin u re = begin_op (FOp (again u)) re"
  by (cases u) (simp_all add: re_OpenStream_def re_AcceptStream_def re_Call_def re_CallAsync_def re_Register_def re_Hijack_def re_Publish_def
      re_PublishAsync_def re_Receive_def re_Read_def re_Write_def)

lemma offline_begin:
  "re_ConnOffline r re = notify EvConnOffline re \<or> re_ConnOffline r re = begin_op FLoop (notify EvConnOffline re)"
  by (auto simp: re_ConnOffline_def begin_op_def Let_def)

lemma retry_turn_inv:
  assumes "retry_inv re" "retry_turn op re = HRet () re'"
  shows "retry_inv re'"
proof (cases op)
  case (RBegin u)
  then show ?thesis using assms inv_begin [OF assms(1), of "FOp (again u)"] by (auto simp: re_begin_op)
next
  case (ROffline r)
  then show ?thesis using assms offline_begin [of r re] inv_begin [of "notify EvConnOffline re" FLoop] by auto
next
  case RClose
  then show ?thesis using assms inv_begin [of re FClose] by (auto simp: re_Close_def)
next
  case (RTurn t inp)
  then obtain f fs where t: "t < length (re_threads re)" "re_threads re ! t = f # fs" "frame_turn inp t f fs re = HRet () re'"
    using assms(2) by (auto split: if_splits list.splits)
  then show ?thesis using assms(1)
    by (cases f; cases inp)
      (auto intro: inv_op_check inv_call_returned inv_memorize inv_reinit_lock inv_reinit_check inv_getEnd_done inv_reinit_hijack
        inv_reinit_rlock inv_reinit_regs inv_offline_loop inv_close_start inv_close_finish)
qed

lemma retry_run_inv: "retry_run re0 re \<Longrightarrow> retry_inv re0 \<Longrightarrow> retry_inv re"
  by (induction rule: retry_run.induct) (auto intro: retry_turn_inv)

lemma retry_run_trans: "retry_run re1 re2 \<Longrightarrow> retry_run re0 re1 \<Longrightarrow> retry_run re0 re2"
  by (induction rule: retry_run.induct) (auto intro: retry_run.rturn)

lemma NewRetryEnd_inv: "NewRetryEndWithDialer src self opts dial = Inr re \<Longrightarrow> retry_inv re"
  by (auto simp: NewRetryEndWithDialer_def Let_def retry_inv_def ends_ok_def split: option.splits)

end
