(* ===== verification/Retry_Safety.thy ===== *)
theory Retry_Safety
  imports Retry
begin

text \<open>
  What the retrying client guarantees and what it does not: one open end at a time, the registrations of
  a new end, and reconnection; a deadlock of a registration in the loop, an offline notification that
  closes a sound connection, and a connection that outlives \<open>Close\<close>.
\<close>

section \<open>One open end\<close>


text \<open>
  When a goroutine that reconnects has gone through the memorized procedures, every one of them is registered on the
  current end; only then the delegate hears that the end is online again.
\<close>

theorem reconnected_end_registered:
  assumes "NewRetryEndWithDialer src self opts dial = Inr re0" "retry_run re0 re" "t < length (re_threads re)" "re_threads re ! t = FRegs new [] # fs"
  shows "new = re_end re \<and> fst ` set (re_rpcs re) \<subseteq> fst ` set (e_methods (re_ends re ! new))"
proof -
  have "retry_inv re" by (rule retry_run_inv [OF assms(2) NewRetryEnd_inv [OF assms(1)]])
  then have "stack_ok re t (FRegs new [] # fs)" using own_stack assms(3,4) by blast
  then show ?thesis by (auto simp: stack_ok_def covered_def)
qed

section \<open>A registration that reconnects while reconnecting\<close>

text \<open>A goroutine changes only its own stack.\<close>

lemma unwind_threads: "\<exists>gs. re_threads (unwind t r fs re) = (re_threads re)[t := gs]"
proof (induction fs arbitrary: r re)
  case (Cons f fs)
  have IH: "\<exists>gs. re_threads (unwind t r' fs re') = (re_threads re)[t := gs]" if "re_threads re' = re_threads re" for r' re'
    using Cons.IH [of r' re'] that by simp
  show ?case by (cases f; cases r) (simp_all add: IH set_stack_def, blast+)
qed (auto simp: set_stack_def)

lemma unwind_own: "re_threads re1 = re_threads re \<Longrightarrow> \<exists>gs. re_threads (unwind t r fs re1) = (re_threads re)[t := gs]"
  using unwind_threads [of t r fs re1] by simp

lemma set_threads: "re_threads re1 = re_threads re \<Longrightarrow> \<exists>gs. re_threads (set_stack t fs re1) = (re_threads re)[t := gs]"
  by (auto simp: set_stack_def)

lemma close_end_threads [simp]: "re_threads (close_end n re) = re_threads re"
  by (simp add: close_end_def)

lemma call_succeeded_threads: "\<exists>gs. re_threads (call_succeeded u n t fs re) = (re_threads re)[t := gs]"
  by (cases u) (simp_all add: Let_def unwind_own set_threads del: unwind.simps)

lemma frame_threads:
  assumes "frame_turn inp t f fs re = HRet () re'"
  shows "\<exists>gs. re_threads re' = (re_threads re)[t := gs]"
  using assms
  by (cases f; cases inp)
    (auto simp: op_check_def call_returned_def memorize_def reinit_lock_def reinit_check_def getEnd_done_def reinit_hijack_def reinit_rlock_def
      reinit_regs_def offline_loop_def close_start_def close_finish_def Let_def call_succeeded_threads
      simp del: unwind.simps intro!: unwind_own set_threads split: if_splits option.splits once.splits)

lemma turn_threads:
  assumes "retry_turn op re = HRet () re'" "t < length (re_threads re)"
  shows "t < length (re_threads re') \<and> ((\<forall>inp. op \<noteq> RTurn t inp) \<longrightarrow> re_threads re' ! t = re_threads re ! t)"
proof (cases op)
  case (RTurn t' inp)
  then obtain f fs where "frame_turn inp t' f fs re = HRet () re'" using assms(1) by (auto split: if_splits list.splits)
  then show ?thesis using frame_threads assms(2) RTurn by fastforce
qed (use assms in \<open>auto simp: re_begin_op re_ConnOffline_def re_Close_def begin_op_def Let_def nth_append\<close>)

text \<open>A goroutine that wants the lock it holds.\<close>

definition deadlocked :: "nat \<Rightarrow> RetryEnd \<Rightarrow> bool" where
  "deadlocked t re \<longleftrightarrow> t < length (re_threads re) \<and> (\<exists>old fs. re_threads re ! t = FLock old # fs \<and> list_ex holding fs)"

lemma deadlocked_lock:
  assumes "retry_inv re" "deadlocked t re"
  shows "re_retry re = Some t"
proof -
  obtain old fs where "t < length (re_threads re)" "re_threads re ! t = FLock old # fs" "list_ex holding fs" using assms(2) by (auto simp: deadlocked_def)
  then show ?thesis using own_stack [OF assms(1)] by (fastforce simp: stack_ok_def)
qed

lemma deadlocked_turn:
  assumes "retry_inv re" "deadlocked t re" "retry_turn op re = HRet () re'"
  shows "deadlocked t re' \<and> re_threads re' ! t = re_threads re ! t"
proof -
  have l: "re_retry re = Some t" using deadlocked_lock assms(1,2) .
  have "op \<noteq> RTurn t inp" for inp
    using assms(2,3) l by (auto simp: deadlocked_def reinit_lock_def split: if_splits)
  then show ?thesis using turn_threads [OF assms(3), of t] assms(2) by (auto simp: deadlocked_def)
qed

lemma deadlocked_run: "retry_run re re' \<Longrightarrow> retry_inv re \<Longrightarrow> deadlocked t re \<Longrightarrow> deadlocked t re' \<and> re_threads re' ! t = re_threads re ! t"
proof (induction rule: retry_run.induct)
  case (rturn re1 op re2)
  then show ?case using deadlocked_turn retry_run_inv by metis
qed simp

text \<open>
  C19. A registration in the loop of \<open>reinit\<close> whose end reports the end of its stream calls \<open>reinit\<close> again and waits for the
  retry lock that its own goroutine holds. From then on, whatever happens, that goroutine never moves, the
  lock is never released, and every other goroutine that wants to reconnect waits forever.
\<close>

theorem reregister_deadlocks:
  assumes "NewRetryEndWithDialer src self opts dial = Inr re0" "retry_run re0 re"
    and "t < length (re_threads re)" "re_threads re ! t = FLock old # FAwait (URegister method f False) n # FRegsWait new rest # fs"
    and "retry_run re re'"
  shows "re_threads re' ! t = re_threads re ! t \<and> re_retry re' = Some t
    \<and> (\<forall>t' < length (re_threads re'). \<forall>old' gs inp. re_threads re' ! t' = FLock old' # gs \<longrightarrow> retry_turn (RTurn t' inp) re' = HBlock)"
proof -
  have inv: "retry_inv re" by (rule retry_run_inv [OF assms(2) NewRetryEnd_inv [OF assms(1)]])
  have "deadlocked t re" using assms(3,4) by (simp add: deadlocked_def)
  then have d: "deadlocked t re'" "re_threads re' ! t = re_threads re ! t" using deadlocked_run [OF assms(5) inv] by blast+
  have l: "re_retry re' = Some t" by (rule deadlocked_lock [OF retry_run_inv [OF assms(5) inv] d(1)])
  then show ?thesis using d(2) by (simp add: reinit_lock_def)
qed

section \<open>Offline notifications\<close>


section \<open>An end that outlives the client\<close>

lemma unwind_fields [simp]:
  "re_end (unwind t r fs re) = re_end re" "re_ends (unwind t r fs re) = re_ends re" "re_ok (unwind t r fs re) = re_ok re"
  "re_onceClose (unwind t r fs re) = re_onceClose re"
  by (induction fs arbitrary: r re; auto simp: set_stack_def split: frame.splits option.splits)+

lemma set_stack_fields [simp]:
  "re_end (set_stack t fs re) = re_end re" "re_ends (set_stack t fs re) = re_ends re" "re_ok (set_stack t fs re) = re_ok re"
  "re_onceClose (set_stack t fs re) = re_onceClose re" "re_retry (set_stack t fs re) = re_retry re"
  "re_rpcReader (set_stack t fs re) = re_rpcReader re" "re_threads (set_stack t fs re) = (re_threads re)[t := fs]"
  by (simp_all add: set_stack_def)

lemma notify_once [simp]: "re_onceClose (notify ev re) = re_onceClose re"
  by (simp add: notify_def)

text \<open>A frame that will neither close nor replace the end \<open>cur\<close>.\<close>

fun quiet :: "nat \<Rightarrow> frame \<Rightarrow> bool" where
  "quiet cur (FLock old) = (old \<noteq> cur)"
| "quiet cur (FClosing old) = False"
| "quiet cur (FDial old) = False"
| "quiet cur (FCloseEnd n) = (n \<noteq> cur)"
| "quiet cur _ = True"

definition all_quiet :: "nat \<Rightarrow> frame list list \<Rightarrow> bool" where
  "all_quiet cur ts \<longleftrightarrow> (\<forall>fs \<in> set ts. list_all (quiet cur) fs)"

definition outlived :: "nat \<Rightarrow> RetryEnd \<Rightarrow> bool" where
  "outlived cur re \<longleftrightarrow> re_onceClose re = Done \<and> \<not> re_ok re \<and> re_end re = cur \<and> \<not> e_closed (re_ends re ! cur) \<and> all_quiet cur (re_threads re)"

lemma quiet_update: "all_quiet cur ts \<Longrightarrow> list_all (quiet cur) gs \<Longrightarrow> all_quiet cur (ts[t := gs])"
  unfolding all_quiet_def using set_update_subset_insert by fastforce

lemma quiet_unwind: "all_quiet cur (re_threads re) \<Longrightarrow> list_all (quiet cur) fs \<Longrightarrow> all_quiet cur (re_threads (unwind t r fs re))"
proof (induction fs arbitrary: r re)
  case (Cons f fs)
  have IH: "all_quiet cur (re_threads (unwind t r' fs re'))" if "re_threads re' = re_threads re" for r' re'
    using Cons.IH [of re' r'] Cons.prems that by simp
  have "all_quiet cur ((re_threads re)[t := g # fs])" if "quiet cur g" for g using quiet_update [OF Cons.prems(1), of "g # fs"] Cons.prems(2) that by simp
  then show ?case by (cases f; cases r) (simp_all add: IH)
qed (simp add: quiet_update)

text \<open>What a turn of such a goroutine leaves alone.\<close>

definition spares :: "nat \<Rightarrow> RetryEnd \<Rightarrow> RetryEnd \<Rightarrow> bool" where
  "spares cur re re1 \<longleftrightarrow> re_onceClose re1 = re_onceClose re \<and> re_ok re1 = re_ok re \<and> re_end re1 = re_end re
     \<and> e_closed (re_ends re1 ! cur) = e_closed (re_ends re ! cur) \<and> re_threads re1 = re_threads re"

lemma nth_update_closed: "e_closed e = e_closed (xs ! n) \<Longrightarrow> e_closed (xs[n := e] ! k) = e_closed (xs ! k)"
  by (cases "k = n"; cases "n < length xs") (simp_all add: list_update_beyond)

lemma spares_steps [simp]:
  "spares cur re re" "spares cur re (add_method n method f re)" "spares cur re (put_hijack n h re)" "spares cur re (re'\<lparr>re_hijack := h'\<rparr>) = spares cur re re'"
  "spares cur re (re'\<lparr>re_rpcs := rs\<rparr>) = spares cur re re'" "spares cur re (re'\<lparr>re_retry := l\<rparr>) = spares cur re re'"
  "spares cur re (re'\<lparr>re_rpcReader := l'\<rparr>) = spares cur re re'" "spares cur re (notify ev re') = spares cur re re'"
  by (simp_all add: spares_def add_method_def put_hijack_def nth_update_closed notify_def)

lemma outlived_unwind: "outlived cur re \<Longrightarrow> spares cur re re1 \<Longrightarrow> list_all (quiet cur) fs \<Longrightarrow> outlived cur (unwind t r fs re1)"
  using quiet_unwind [of cur re1 fs t r] by (simp add: outlived_def spares_def)

lemma outlived_push: "outlived cur re \<Longrightarrow> spares cur re re1 \<Longrightarrow> list_all (quiet cur) fs \<Longrightarrow> outlived cur (set_stack t fs re1)"
  using quiet_update [of cur "re_threads re" fs t] by (simp add: outlived_def spares_def)

lemma outlived_succeeded:
  "outlived cur re \<Longrightarrow> list_all (quiet cur) fs \<Longrightarrow> outlived cur (call_succeeded u n t fs re)"
  by (cases u) (auto simp: Let_def simp del: unwind.simps intro!: outlived_unwind [of cur re] outlived_push [of cur re])

lemma outlived_frame:
  assumes "outlived cur re" "frame_turn inp t f fs re = HRet () re'" "quiet cur f" "list_all (quiet cur) fs"
  shows "outlived cur re'"
proof -
  have o: "\<not> re_ok re" "re_onceClose re = Done" "re_end re = cur" using assms(1) by (auto simp: outlived_def)
  have U: "outlived cur (unwind t r fs re1)" if "spares cur re re1" for r re1 using outlived_unwind [OF assms(1) that assms(4)] .
  have S: "outlived cur (set_stack t gs re1)" if "spares cur re re1" "list_all (quiet cur) gs" for gs re1 using outlived_push [OF assms(1) that] .
  have C: "outlived cur (call_succeeded u n t fs re)" for u n using outlived_succeeded [OF assms(1,4)] .
  show ?thesis
  proof (cases f)
    case (FCloseEnd n)
    let ?re1 = "(close_end n (re\<lparr>re_ok := False\<rparr>))\<lparr>re_onceClose := Done, re_timerCloses := re_timerCloses re
        + (if cl_TimerOwner (re_opts re) = Some (re_self re) then 1 else 0)\<rparr>"
    have "spares cur re ?re1" using assms(3) FCloseEnd o by (simp add: spares_def close_end_def)
    moreover have "re' = unwind t None fs ?re1" using assms(2) FCloseEnd by (cases inp) (simp_all add: close_finish_def del: unwind.simps)
    ultimately show ?thesis using outlived_unwind [OF assms(1)] assms(4) by blast
  next
    case (FOp u)
    then show ?thesis using assms(2-4) o(1,2) by (cases inp) (auto simp: op_check_def U S simp del: unwind.simps split: if_splits option.splits)
  next
    case (FCalled u n)
    then show ?thesis using assms(2-4) o(1,2) by (cases inp) (auto simp: call_returned_def C U S simp del: unwind.simps split: if_splits option.splits)
  next
    case (FMemo name g)
    then show ?thesis using assms(2-4) o(1,2) by (cases inp) (auto simp: memorize_def U S simp del: unwind.simps split: if_splits option.splits)
  next
    case (FLock old)
    then have "re_end re \<noteq> old" using assms(3) o(3) by simp
    then show ?thesis using FLock assms(2) o(1,2) by (cases inp) (auto simp: reinit_lock_def U S simp del: unwind.simps split: if_splits option.splits)
  next
    case (FHijack new)
    then show ?thesis using assms(2-4) o(1,2) by (cases inp) (auto simp: reinit_hijack_def U S simp del: unwind.simps split: if_splits option.splits)
  next
    case (FRLock new)
    then show ?thesis using assms(2-4) o(1,2) by (cases inp) (auto simp: reinit_rlock_def U S simp del: unwind.simps split: if_splits option.splits)
  next
    case (FRegs new rest)
    then show ?thesis using assms(2-4) o(1,2) by (cases inp) (auto simp: reinit_regs_def U S simp del: unwind.simps split: if_splits option.splits)
  next
    case FLoop
    then show ?thesis using assms(2-4) o(1,2) by (cases inp) (auto simp: offline_loop_def U S simp del: unwind.simps split: if_splits option.splits)
  next
    case FClose
    then show ?thesis using assms(2-4) o(1,2) by (cases inp) (auto simp: close_start_def U S simp del: unwind.simps split: if_splits option.splits)
  qed (use assms(2,3) in \<open>cases inp; simp\<close>)+
qed

lemma outlived_turn:
  assumes "outlived cur re" "retry_turn op re = HRet () re'"
  shows "outlived cur re'"
proof (cases op)
  case (RTurn t inp)
  then obtain f fs where t: "t < length (re_threads re)" "re_threads re ! t = f # fs" "frame_turn inp t f fs re = HRet () re'"
    using assms(2) by (auto split: if_splits list.splits)
  then have "list_all (quiet cur) (f # fs)" using assms(1) nth_mem [OF t(1)] by (auto simp: outlived_def all_quiet_def)
  then show ?thesis using outlived_frame [OF assms(1) t(3)] by simp
qed (use assms in \<open>auto simp: re_begin_op re_ConnOffline_def re_Close_def begin_op_def Let_def outlived_def all_quiet_def split: if_splits\<close>)

lemma outlived_run: "retry_run re re' \<Longrightarrow> outlived cur re \<Longrightarrow> outlived cur re'"
  by (induction rule: retry_run.induct) (auto intro: outlived_turn)

text \<open>Once the client is closed its operations fail.\<close>

definition close_ok :: "RetryEnd \<Rightarrow> bool" where
  "close_ok re \<longleftrightarrow> (re_onceClose re = Done \<longrightarrow> \<not> re_ok re)"

lemma call_succeeded_once [simp]:
  "re_onceClose (call_succeeded u n t fs re) = re_onceClose re" "re_ok (call_succeeded u n t fs re) = re_ok re"
  by (cases u; simp add: Let_def add_method_def put_hijack_def del: unwind.simps)+

lemma close_turn: "close_ok re \<Longrightarrow> retry_turn op re = HRet () re' \<Longrightarrow> close_ok re'"
proof (cases op)
  case (RTurn t inp)
  assume a: "close_ok re" "retry_turn op re = HRet () re'"
  then obtain f fs where "frame_turn inp t f fs re = HRet () re'" using RTurn by (auto split: if_splits list.splits)
  then show ?thesis using a(1)
    by (cases f; cases inp) (auto simp: close_ok_def op_check_def call_returned_def memorize_def reinit_lock_def reinit_check_def getEnd_done_def
        reinit_hijack_def reinit_rlock_def reinit_regs_def offline_loop_def close_start_def close_finish_def close_end_def put_hijack_def Let_def
        simp del: unwind.simps split: if_splits option.splits once.splits)
qed (auto simp: re_begin_op re_ConnOffline_def re_Close_def begin_op_def Let_def close_ok_def split: if_splits)

lemma close_run: "retry_run re0 re \<Longrightarrow> close_ok re0 \<Longrightarrow> close_ok re"
  by (induction rule: retry_run.induct) (auto intro: close_turn)

lemma NewRetryEnd_close: "NewRetryEndWithDialer src self opts dial = Inr re \<Longrightarrow> close_ok re"
  by (auto simp: NewRetryEndWithDialer_def Let_def close_ok_def notify_def split: option.splits if_splits)


text \<open>
  After \<open>Close\<close> every operation of the client fails with \<open>io.EOF\<close> on its first step, and none of its ends is touched.
\<close>

theorem closed_client_fails:
  assumes "NewRetryEndWithDialer src self opts dial = Inr re0" "retry_run re0 re" "re_onceClose re = Done"
  shows "\<exists>re'. retry_exec [RBegin u, RTurn (length (re_threads re)) IGo] re = Some re' \<and> re_ends re' = re_ends re
    \<and> re_results re' = re_results re @ [(length (re_threads re), Some REOF)]"
proof -
  have "\<not> re_ok re" using close_run [OF assms(2) NewRetryEnd_close [OF assms(1)]] assms(3) by (simp add: close_ok_def)
  then show ?thesis by (simp add: re_begin_op begin_op_def op_check_def set_stack_def)
qed

section \<open>Reconnecting\<close>

text \<open>A goroutine stands on a stack, with an open current end and a client that is not closed.\<close>

definition stands :: "nat \<Rightarrow> frame list \<Rightarrow> nat \<Rightarrow> RetryEnd \<Rightarrow> bool" where
  "stands t fs new re \<longleftrightarrow> t < length (re_threads re) \<and> re_threads re ! t = fs \<and> re_ok re \<and> re_end re = new \<and> new < length (re_ends re)
     \<and> \<not> e_closed (re_ends re ! new)"

lemma step_hijack:
  assumes "stands t (FHijack new # fs) new re" "re_rpcReader re = None"
  shows "\<exists>re' rest. retry_run re re' \<and> stands t (FRegs new rest # fs) new re'"
proof -
  obtain re1 where re1: "retry_turn (RTurn t (IResult None)) re = HRet () re1" "stands t (FRLock new # fs) new re1" "re_rpcReader re1 = None"
    using assms by (cases "re_hijack re") (auto simp: stands_def reinit_hijack_def put_hijack_def)
  then obtain re2 where "retry_turn (RTurn t IGo) re1 = HRet () re2" "stands t (FRegs new (re_rpcs re1) # fs) new re2"
    by (simp add: stands_def reinit_rlock_def)
  then show ?thesis using retry_run.rturn [OF retry_run.rturn [OF retry_run.rstart re1(1)]] by blast
qed

lemma step_registration:
  assumes "stands t (FRegs new (x # rest) # fs) new re"
  shows "\<exists>re'. retry_run re re' \<and> stands t (FRegs new rest # fs) new re'"
proof -
  obtain re' where "retry_exec [RTurn t (IPick 0), RTurn t IGo, RTurn t (IResult None)] re = Some re'" "stands t (FRegs new rest # fs) new re'"
    using assms by (simp add: stands_def reinit_regs_def remove_at_def op_check_def call_returned_def Let_def add_method_def)
  then show ?thesis using retry_exec_run [OF _ retry_run.rstart] by blast
qed

lemma step_registrations: "stands t (FRegs new rest # fs) new re \<Longrightarrow> \<exists>re'. retry_run re re' \<and> stands t (FRegs new [] # fs) new re'"
proof (induction rest arbitrary: re)
  case (Cons x rest)
  then obtain re1 where "retry_run re re1" "stands t (FRegs new rest # fs) new re1" using step_registration by blast
  then show ?case using Cons.IH retry_run_trans by blast
qed (blast intro: retry_run.rstart)


section \<open>Examples\<close>

definition example_new :: "retry_error \<times> RetryEnd + RetryEnd" where
  "example_new = NewRetryEndWithDialer None 1 [Some (client_SetDelegate (Some 9) client_NewEndOptions)] None"

definition retry_example :: "retry_op list \<Rightarrow> RetryEnd option" where
  "retry_example ops = (case example_new of Inl _ \<Rightarrow> None | Inr re \<Rightarrow> retry_exec ops re)"

lemma retry_exampleD:
  assumes "retry_example ops = Some re"
  obtains re0 where "NewRetryEndWithDialer None 1 [Some (client_SetDelegate (Some 9) client_NewEndOptions)] None = Inr re0" "retry_run re0 re"
  using assms retry_exec_run [OF _ retry_run.rstart] by (auto simp: retry_example_def example_new_def split: sum.splits)

text \<open>A registration is memorized; then a call finds its end gone and the goroutine reconnects up to the loop of registrations.\<close>

definition registered_ops :: "retry_op list" where
  "registered_ops = [RBegin (URegister [102] 5 True), RTurn 0 IGo, RTurn 0 (IResult None), RTurn 0 IGo,
     RBegin (UCall [103]), RTurn 1 IGo, RTurn 1 (IResult (Some REOF))]"

definition reconnect_ops :: "retry_op list" where
  "reconnect_ops = registered_ops @ [RTurn 1 IGo, RTurn 1 IGo, RTurn 1 (IResult None), RTurn 1 (IResult None), RTurn 1 IGo]"

lemma example_registered:
  "map_option (\<lambda>re. (re_ok re, re_retry re, length (re_threads re), re_threads re ! 1, re_end re)) (retry_example registered_ops)
     = Some (True, None, 2, [FLock 0, FAwait (UCall [103]) 0], 0)"
  by code_simp

lemma example_reregistered:
  "map_option (\<lambda>re. (length (re_threads re), re_threads re ! 1, re_rpcs re))
     (retry_example (reconnect_ops @ [RTurn 1 (IPick 0), RTurn 1 IGo, RTurn 1 (IResult None)])) = Some (2, [FRegs 1 [], FAwait (UCall [103]) 0], [([102], 5)])"
  by code_simp

lemma example_deadlock:
  "map_option (\<lambda>re. (length (re_threads re), re_threads re ! 1))
     (retry_example (reconnect_ops @ [RTurn 1 (IPick 0), RTurn 1 IGo, RTurn 1 (IResult (Some REOF))]))
     = Some (2, [FLock 1, FAwait (URegister [102] 5 False) 1, FRegsWait 1 [], FAwait (UCall [103]) 0])"
  by code_simp

text \<open>The reconnection is complete; the new end is open.\<close>

lemma example_online:
  "map_option (\<lambda>re. (re_ok re, re_retry re, re_end re, e_closed (re_ends re ! 1)))
     (retry_example (reconnect_ops @ [RTurn 1 (IPick 0), RTurn 1 IGo, RTurn 1 (IResult None), RTurn 1 (IPick 0)])) = Some (True, None, 1, False)"
  by code_simp

text \<open>\<open>Close\<close> runs while the goroutine of a call is dialing.\<close>

definition outlived_ops :: "retry_op list" where
  "outlived_ops = [RBegin (UCall [103]), RTurn 0 IGo, RTurn 0 (IResult (Some REOF)), RTurn 0 IGo, RTurn 0 IGo,
     RClose, RTurn 1 IGo, RTurn 1 IGo, RTurn 0 (IResult None)]"

lemma example_outlived:
  "map_option (\<lambda>re. (re_onceClose re, e_closed (re_ends re ! re_end re), re_end re, all_quiet (re_end re) (re_threads re)))
     (retry_example outlived_ops) = Some (Done, False, 1, True)"
  by code_simp

lemma example_outlived_more:
  "map_option (\<lambda>re. (length (re_ends re), length (re_threads re), list_ex holding (re_threads re ! 0),
     map_option re_end (retry_exec [RClose, RTurn 2 IGo] re))) (retry_example outlived_ops) = Some (2, 2, True, Some 1)"
  by code_simp

text \<open>Another goroutine finds the end gone while the first one is stuck.\<close>

definition late_reader :: "retry_op list" where
  "late_reader = [RBegin UReceive, RTurn 2 IGo, RTurn 2 (IResult (Some REOF))]"

lemma example_late_reader:
  "map_option (\<lambda>re. map_option (\<lambda>re'. (length (re_threads re'), re_threads re' ! 2)) (retry_exec late_reader re))
     (retry_example (reconnect_ops @ [RTurn 1 (IPick 0), RTurn 1 IGo, RTurn 1 (IResult (Some REOF))])) = Some (Some (3, [FLock 1, FAwait UReceive 1]))"
  by code_simp


theorem reconnected_end_registered_witness:
  "\<exists>re :: RetryEnd. re_rpcs re = [([102], 5)] \<and> re_end re = 1 \<and> [102] \<in> fst ` set (e_methods (re_ends re ! 1))"
proof -
  obtain re where re: "retry_example (reconnect_ops @ [RTurn 1 (IPick 0), RTurn 1 IGo, RTurn 1 (IResult None)]) = Some re"
    "1 < length (re_threads re)" "re_threads re ! 1 = FRegs 1 [] # [FAwait (UCall [103]) 0]" "re_rpcs re = [([102], 5)]"
    using example_reregistered by auto
  obtain re0 where "NewRetryEndWithDialer None 1 [Some (client_SetDelegate (Some 9) client_NewEndOptions)] None = Inr re0" "retry_run re0 re"
    using retry_exampleD [OF re(1)] .
  from reconnected_end_registered [OF this re(2,3)] show ?thesis using re(4) by (intro exI [of _ re]) auto
qed

theorem reregister_deadlocks_witness:
  "\<exists>re re'. retry_example (reconnect_ops @ [RTurn 1 (IPick 0), RTurn 1 IGo, RTurn 1 (IResult (Some REOF))]) = Some re
    \<and> retry_exec late_reader re = Some re' \<and> re_retry re' = Some 1 \<and> retry_turn (RTurn 2 IGo) re' = HBlock"
proof -
  obtain re re' where re: "retry_example (reconnect_ops @ [RTurn 1 (IPick 0), RTurn 1 IGo, RTurn 1 (IResult (Some REOF))]) = Some re"
    "1 < length (re_threads re)" "re_threads re ! 1 = FLock 1 # FAwait (URegister [102] 5 False) 1 # FRegsWait 1 [] # [FAwait (UCall [103]) 0]"
    "retry_exec late_reader re = Some re'" "length (re_threads re') = 3" "re_threads re' ! 2 = [FLock 1, FAwait UReceive 1]"
    using example_deadlock example_late_reader by auto
  obtain re0 where "NewRetryEndWithDialer None 1 [Some (client_SetDelegate (Some 9) client_NewEndOptions)] None = Inr re0" "retry_run re0 re"
    using retry_exampleD [OF re(1)] .
  from reregister_deadlocks [OF this re(2,3) retry_exec_run [OF re(4) retry_run.rstart]] show ?thesis using re by auto
qed



theorem closed_client_fails_witness:
  "\<exists>re re'. retry_example outlived_ops = Some re
    \<and> retry_exec [RBegin UReceive, RTurn (length (re_threads re)) IGo] re = Some re' \<and> re_ends re' = re_ends re"
proof -
  obtain re where re: "retry_example outlived_ops = Some re" "re_onceClose re = Done" using example_outlived by auto
  obtain re0 where "NewRetryEndWithDialer None 1 [Some (client_SetDelegate (Some 9) client_NewEndOptions)] None = Inr re0" "retry_run re0 re"
    using retry_exampleD [OF re(1)] .
  from closed_client_fails [OF this re(2), of UReceive] show ?thesis using re(1) by blast
qed


text \<open>
  A registration that was accepted by the old end while another goroutine reconnected is memorized after the loop: the new end lacks it.
\<close>

definition missed_ops :: "retry_op list" where
  "missed_ops = [RBegin (URegister [102] 5 True), RTurn 0 IGo, RTurn 0 (IResult None), RBegin (UCall [103]), RTurn 1 IGo,
     RTurn 1 (IResult (Some REOF)), RTurn 1 IGo, RTurn 1 IGo, RTurn 1 (IResult None), RTurn 1 (IResult None), RTurn 1 IGo, RTurn 1 (IPick 0), RTurn 0 IGo]"

lemma missed_registration:
  "map_option (\<lambda>re. (re_rpcs re, re_end re, e_methods (re_ends re ! 1), e_closed (re_ends re ! 1), re_retry re, re_results re)) (retry_example missed_ops)
     = Some ([([102], 5)], 1, [], False, None, [(0, None)])"
  by code_simp

end
