(* ===== verification/Go_Once.thy ===== *)
theory Go_Once
  imports Go_Runtime
begin

text \<open>
  The once of \<open>pkg/sync/once.go\<close>: like the standard library's, but a call that finds the mutex taken
  returns at once. Every goroutine in \<open>Do\<close> stands at a point; the function may return or panic.
\<close>

datatype once_pc = OnceLoad | OnceTry | OnceCheck | OnceRun | OnceStore | OnceUnlock | OnceDone

record once_state =
  on_done :: bool
  on_m :: "nat option"
  on_calls :: "once_pc list"
  on_begun :: nat
  on_ended :: nat

definition new_Once :: once_state where
  "new_Once = \<lparr>on_done = False, on_m = None, on_calls = [], on_begun = 0, on_ended = 0\<rparr>"

text \<open>\<open>Do\<close>: the load, \<open>TryLock\<close>, the check under the mutex, the call of \<open>f\<close>, and the two deferred statements.\<close>

fun Do_step :: "nat \<Rightarrow> once_pc \<Rightarrow> once_state \<Rightarrow> once_pc \<times> once_state" where
  "Do_step t OnceLoad o' = (if on_done o' then OnceDone else OnceTry, o')"
| "Do_step t OnceTry o' = (if on_m o' = None then (OnceCheck, o'\<lparr>on_m := Some t\<rparr>) else (OnceDone, o'))"
| "Do_step t OnceCheck o' = (if on_done o' then (OnceUnlock, o') else (OnceRun, o'\<lparr>on_begun := Suc (on_begun o')\<rparr>))"
| "Do_step t OnceRun o' = (OnceStore, o'\<lparr>on_ended := Suc (on_ended o')\<rparr>)"
| "Do_step t OnceStore o' = (OnceUnlock, o'\<lparr>on_done := True\<rparr>)"
| "Do_step t OnceUnlock o' = (OnceDone, o'\<lparr>on_m := None\<rparr>)"
| "Do_step t OnceDone o' = (OnceDone, o')"

datatype once_op = CallDo | StepDo nat

fun once_turn :: "once_op \<Rightarrow> once_state \<Rightarrow> (unit, once_state) gres" where
  "once_turn CallDo o' = HRet () (o'\<lparr>on_calls := on_calls o' @ [OnceLoad]\<rparr>)"
| "once_turn (StepDo t) o' =
     (if t < length (on_calls o') then
        (let (p, o1) = Do_step t (on_calls o' ! t) o' in HRet () (o1\<lparr>on_calls := (on_calls o')[t := p]\<rparr>))
      else HBlock)"

inductive once_run :: "once_state \<Rightarrow> bool" where
  "once_run new_Once"
| "once_run o' \<Longrightarrow> once_turn op o' = HRet () o1 \<Longrightarrow> once_run o1"

text \<open>The mutex has its owner inside, and the function runs for the first owner only.\<close>

definition in_lock :: "once_pc \<Rightarrow> bool" where
  "in_lock p \<longleftrightarrow> p \<in> {OnceCheck, OnceRun, OnceStore, OnceUnlock}"

fun counts_ok :: "once_pc option \<Rightarrow> bool \<Rightarrow> nat \<Rightarrow> nat \<Rightarrow> bool" where
  "counts_ok (Some OnceRun) d b e = (\<not> d \<and> b = 1 \<and> e = 0)"
| "counts_ok (Some OnceStore) d b e = (\<not> d \<and> b = 1 \<and> e = 1)"
| "counts_ok (Some OnceUnlock) d b e = (d \<and> b = 1 \<and> e = 1)"
| "counts_ok p d b e = (if d then b = 1 \<and> e = 1 else b = 0 \<and> e = 0)"

definition owner_pc :: "once_state \<Rightarrow> once_pc option" where
  "owner_pc o' = map_option (\<lambda>t. on_calls o' ! t) (on_m o')"

definition once_inv :: "once_state \<Rightarrow> bool" where
  "once_inv o' \<longleftrightarrow> (\<forall>t < length (on_calls o'). in_lock (on_calls o' ! t) \<longleftrightarrow> on_m o' = Some t)
     \<and> (\<forall>t. on_m o' = Some t \<longrightarrow> t < length (on_calls o')) \<and> counts_ok (owner_pc o') (on_done o') (on_begun o') (on_ended o')"

lemma once_turn_inv:
  assumes inv: "once_inv o'" and turn: "once_turn op o' = HRet () o1"
  shows "once_inv o1"
proof (cases op)
  case CallDo
  then have "o1 = o'\<lparr>on_calls := on_calls o' @ [OnceLoad]\<rparr>" using turn by simp
  moreover have "owner_pc (o'\<lparr>on_calls := on_calls o' @ [OnceLoad]\<rparr>) = owner_pc o'"
    using inv by (cases "on_m o'") (auto simp: owner_pc_def once_inv_def nth_append)
  ultimately show ?thesis using inv by (auto simp: once_inv_def nth_append less_Suc_eq in_lock_def)
next
  case (StepDo t)
  define p where "p = on_calls o' ! t"
  from StepDo have t: "t < length (on_calls o')" and o1: "o1 = (snd (Do_step t p o'))\<lparr>on_calls := (on_calls o')[t := fst (Do_step t p o')]\<rparr>"
    using turn by (auto simp: case_prod_beta Let_def p_def split: if_splits)
  have own: "in_lock (on_calls o' ! t') \<longleftrightarrow> on_m o' = Some t'" if "t' < length (on_calls o')" for t'
    using inv that by (simp add: once_inv_def)
  have c: "counts_ok (owner_pc o') (on_done o') (on_begun o') (on_ended o')" using inv by (simp add: once_inv_def)
  have free: "on_m o' \<noteq> Some t" if "\<not> in_lock p" using own [OF t] that by (simp add: p_def)
  have held: "on_m o' = Some t" if "in_lock p" using own [OF t] that by (simp add: p_def)
  have same: "owner_pc (o'\<lparr>on_calls := (on_calls o')[t := q]\<rparr>) = owner_pc o'" if "\<not> in_lock p" for q
    using free [OF that] by (cases "on_m o'") (auto simp: owner_pc_def)
  have "counts_ok (owner_pc o1) (on_done o1) (on_begun o1) (on_ended o1)"
    using c held free same t p_def unfolding o1
    by (cases p) (auto simp: in_lock_def owner_pc_def split: if_splits)
  moreover have "(in_lock (on_calls o1 ! t') \<longleftrightarrow> on_m o1 = Some t')" if "t' < length (on_calls o1)" for t'
    using own [of t'] that held free t unfolding o1 by (cases p; cases "t' = t") (auto simp: in_lock_def)
  moreover have "t' < length (on_calls o1)" if "on_m o1 = Some t'" for t'
    using inv that t unfolding o1 by (cases p) (auto simp: once_inv_def split: if_splits)
  ultimately show ?thesis by (simp add: once_inv_def)
qed

lemma once_run_inv: "once_run o' \<Longrightarrow> once_inv o'"
proof (induction rule: once_run.induct)
  case 1
  then show ?case by (simp add: once_inv_def new_Once_def owner_pc_def)
qed (blast intro: once_turn_inv)

text \<open>The function begins at most once, whatever calls interleave.\<close>

theorem once_begins_once:
  assumes "once_run o'"
  shows "on_begun o' \<le> 1 \<and> on_ended o' \<le> on_begun o'"
proof -
  have "counts_ok (owner_pc o') (on_done o') (on_begun o') (on_ended o')" using once_run_inv [OF assms] by (simp add: once_inv_def)
  then show ?thesis
    by (cases "(owner_pc o', on_done o', on_begun o', on_ended o')" rule: counts_ok.cases) (auto split: if_splits)
qed

text \<open>A second call returns while the function of the first still runs.\<close>

fun once_exec :: "once_op list \<Rightarrow> once_state \<Rightarrow> once_state option" where
  "once_exec [] o' = Some o'"
| "once_exec (op # ops) o' = (case once_turn op o' of HRet _ o1 \<Rightarrow> once_exec ops o1 | _ \<Rightarrow> None)"

lemma once_returns_early:
  "map_option (\<lambda>o'. (on_calls o', on_begun o', on_ended o')) (once_exec [CallDo, StepDo 0, StepDo 0, StepDo 0, CallDo, StepDo 1, StepDo 1] new_Once)
     = Some ([OnceRun, OnceDone], 1, 0)"
  by code_simp

end
