(* ===== verification/Io_Errors.thy ===== *)
theory Io_Errors
  imports Go_Runtime "HOL-Library.Sublist"
begin

text \<open>
  The error classifiers of \<open>pkg/iodefine\<close>, by which connections and dialogues choose the level at
  which they log a failed write. An error is the variable it is the value of (if one of those
  the classifiers compare with), the targets its own method \<open>Is\<close> accepts, its text and what it wraps.
\<close>

section \<open>Errors and texts\<close>

datatype io_sentinel = Io_EOF | Io_ErrClosedPipe | Net_ErrClosed

datatype go_error = GoError (ge_is: "io_sentinel option") (ge_accepts: "io_sentinel list") (ge_text: string) (ge_wraps: "go_error list")

text \<open>\<open>errors.Is\<close>: the error itself, its method \<open>Is\<close>, then whatever it wraps, in depth.\<close>

fun errors_Is :: "io_sentinel \<Rightarrow> go_error \<Rightarrow> bool" where
  "errors_Is x (GoError v acc _ ws) \<longleftrightarrow> v = Some x \<or> x \<in> set acc \<or> (\<exists>e \<in> set ws. errors_Is x e)"

text \<open>\<open>strings.Contains\<close>, from the first position on.\<close>

fun strings_Contains :: "string \<Rightarrow> string \<Rightarrow> bool" where
  "strings_Contains [] sub \<longleftrightarrow> sub = []"
| "strings_Contains (c # s) sub \<longleftrightarrow> prefix sub (c # s) \<or> strings_Contains s sub"

lemma strings_Contains_sublist: "strings_Contains s sub \<longleftrightarrow> sublist sub s"
  by (induction s) (auto simp: sublist_Cons_right)

section \<open>The classifiers\<close>

definition closed_text :: string where
  "closed_text = ''use of closed network connection''"

definition pipe_text :: string where
  "pipe_text = ''io: read/write on closed pipe''"

text \<open>The first one panics on \<open>nil\<close>; the second one returns.\<close>

definition ErrUseOfClosedNetwork :: "go_error option \<Rightarrow> bool outcome" where
  "ErrUseOfClosedNetwork err =
     (case err of None \<Rightarrow> Panic NilDereference | Some e \<Rightarrow> Ret (strings_Contains (ge_text e) closed_text))"

definition IsConnGone :: "go_error option \<Rightarrow> bool" where
  "IsConnGone err =
     (case err of
        None \<Rightarrow> False
      | Some e \<Rightarrow>
          if errors_Is Io_EOF e \<or> errors_Is Io_ErrClosedPipe e \<or> errors_Is Net_ErrClosed e then True
          else strings_Contains (ge_text e) closed_text \<or> strings_Contains (ge_text e) pipe_text)"

theorem closed_network_is_gone: "ErrUseOfClosedNetwork err = Ret True \<Longrightarrow> IsConnGone err"
  by (auto simp: ErrUseOfClosedNetwork_def IsConnGone_def split: option.splits)

text \<open>
  An error that wraps one of a connection that is gone is classified alike, provided that its text
  keeps the text of what it wraps, as \<open>net.OpError\<close> and \<open>%w\<close> do.
\<close>

theorem wrapped_conn_gone:
  assumes "IsConnGone (Some e)" "e \<in> set (ge_wraps w)" "strings_Contains (ge_text w) (ge_text e)"
  shows "IsConnGone (Some w)"
proof -
  have "errors_Is x w" if "errors_Is x e" for x
    using that assms(2) by (cases w) auto
  moreover have "strings_Contains (ge_text w) t" if "strings_Contains (ge_text e) t" for t
    using that assms(3) sublist_order.order.trans by (auto simp: strings_Contains_sublist)
  ultimately show ?thesis
    using assms(1) by (auto simp: IsConnGone_def split: if_splits)
qed

text \<open>
  A broken pipe is not recognised: the error of the system call is none of the three variables, and
  its text is neither of the two. The comment of \<open>IsConnGone\<close> names it.
\<close>

definition EPIPE :: go_error where
  "EPIPE = GoError None [] ''broken pipe'' []"

definition write_OpError :: "go_error \<Rightarrow> go_error" where
  "write_OpError e = GoError None [] (''write tcp 127.0.0.1:1->127.0.0.1:2: write: '' @ ge_text e) [e]"

theorem broken_pipe_not_gone: "\<not> IsConnGone (Some (write_OpError EPIPE))"
  by code_simp

theorem wrapped_eof_gone: "IsConnGone (Some (write_OpError (GoError (Some Io_EOF) [] ''EOF'' [])))"
  by code_simp

end
