(* ===== verification/Spec2Isabelle.thy ===== *)
theory Spec2Isabelle
  imports Conn_Safety Conn_Handshake Dialogue_Hub App_Calls App_Values Retry_Safety Go_Once Io_Errors
begin

text \<open>
  A verification development for geminio (\<open>src/\<close>), a Go library that runs RPC, acknowledged
  messages and multiplexed byte streams over one network connection.

  \<^bold>\<open>The program.\<close> Its layers, from the network up: packets and their codec (\<open>packet/\<close>), with ids
  from counters (\<open>pkg/id\<close>); the connection (\<open>conn/\<close>), whose client and server sides open, beat,
  carry packets and close by a four-way handshake; the multiplexer (\<open>multiplexer/\<close>), which runs
  dialogues with numbered sessions over a connection, routed by a manager; the application streams
  (\<open>application/\<close>), which offer calls, messages and raw bytes over a dialogue; the client and server
  ends (\<open>client/\<close>, \<open>server/\<close>), which build the layers. A layer hands packets down by the \<open>Write\<close> of the
  layer below and gets them up through its channel; each has a handler goroutine that owns its
  state machine (library \<open>yafsm\<close>), a reader and a writer.

  \<^bold>\<open>The theories.\<close>
  \<^item> \<open>Geminio_Prelude\<close>: machine types, the outcome of a Go call (value, error, panic), slices with
    capacity, readers, big-endian integers.
  \<^item> \<open>Go_Text\<close>, \<open>Go_Json\<close>: what the packets use of \<open>unicode/utf8\<close>, \<open>encoding/base64\<close>, \<open>strconv\<close>, \<open>time\<close> and
    \<open>encoding/json\<close>, with the round trips of each.
  \<^item> \<open>Packet_Types\<close>, \<open>Packet_Payload\<close>, \<open>Packet_Conn\<close>, \<open>Packet_Sess\<close>, \<open>Packet_Data\<close>: one record per
    packet of \<open>packet/packet*.go\<close>, with \<open>Encode\<close>, \<open>Decode\<close> and \<open>DecodeFromReader\<close> of each; the codec of a
    packet is an instance of a locale whose laws give the round trip. \<open>Packet_Decode\<close>: the
    dispatchers of \<open>packet/decode.go\<close>. \<open>Packet_Factory\<close>: every constructor of \<open>packet/factory.go\<close>, and
    \<open>over_wire\<close>, what a peer reads of a packet.
  \<^item> \<open>Id_Counter\<close>: \<open>pkg/id/id.go\<close> at 32 and 64 bits, the clock and the random source as arguments;
    the locale \<open>id_pool\<close> is the contract of ids in use.
  \<^item> \<open>Go_Runtime\<close>: tables of state machines, bounded channels, \<open>select\<close>, the outcome of a goroutine's
    step, and the locale \<open>close_handshake\<close> of the four-way close, interpreted on the tables of both
    sides of a connection and of a dialogue.
  \<^item> \<open>Conn_Base\<close>, \<open>Conn_Sides\<close>: \<open>conn_base.go\<close>, \<open>conn_client.go\<close>, \<open>conn_server.go\<close>; the record \<open>conn\<close> is
    the struct with its channels, one definition per handler, \<open>fini\<close> and constructor.
    \<open>Conn_System\<close>, \<open>Conn_Safety\<close>: every turn of every goroutine and caller as a step, the invariant
    of all interleavings, and what follows for order, loss and closed channels. \<open>Conn_Handshake\<close>:
    closing in every order, and the opening exchange over the wire.
  \<^item> \<open>Dialogue\<close>, \<open>Dialogue_System\<close>, \<open>Dialogue_Handshake\<close>, \<open>Dialogue_Phases\<close>: the same for
    \<open>multiplexer/dialogue.go\<close>.
  \<^item> \<open>Dialogue_Mgr\<close>: \<open>multiplexer/dialogue_mgr.go\<close>, with its dialogues in a store, its two tables and
    every goroutine that works for it. \<open>Dialogue_Registry\<close>: the invariant of the tables and the
    routing over all runs, and the state after \<open>fini\<close>. \<open>Dialogue_Exchange\<close>: opening a dialogue between
    two managers over the wire. \<open>Dialogue_Hub\<close>: the options, \<open>multiplexer/dialogue_hub.go\<close>, the locale
    \<open>dialogue_registry\<close> of tables by key, interpreted for manager and hub, and what is not guaranteed.
  \<^item> \<open>App_Options\<close>: \<open>options/*.go\<close>, with the locale \<open>merging\<close> of options where the last setting counts.
    \<open>App_Types\<close>, \<open>App_Stream\<close>, \<open>App_Api\<close>: an application stream; the record \<open>stream\<close> is the struct
    of \<open>application/stream.go\<close>, with one definition per handler and per phase of a goroutine
    (\<open>stream.go\<close>) and of a caller's operation (\<open>rpc.go\<close>, \<open>message.go\<close>, \<open>raw.go\<close>). \<open>App_System\<close>: every
    turn as an operation, what each touches, the well-formedness of a stream, and runs with their
    history. \<open>App_Pipe\<close>: the specification of the reading side, a pipe of bytes, and the refinement
    (locale \<open>pipe_refinement\<close>). \<open>App_Output\<close>: chunks and responses that go down. \<open>App_Locks\<close>: the end of
    a stream under its lock. \<open>App_Calls\<close>: a call and a message between two streams over the wire.
    \<open>App_Values\<close>: the setters of \<open>types.go\<close>, and a request or message handed to another stream.
  \<^item> \<open>App_End\<close>: \<open>application/end.go\<close>; the record \<open>End\<close> has the streams in a store and the table of ids,
    and every turn of a stream is a turn of its end. \<open>Ends\<close>: options, assembly and callbacks of
    \<open>client/end.go\<close> and \<open>server/end.go\<close>, their options files, and the listener of \<open>server/server.go\<close>;
    merged options are instances of the locale \<open>merging\<close>.
  \<^item> \<open>Retry\<close>: \<open>client/end_retry.go\<close>; a goroutine is a stack of frames, so that the recursion of
    operations and \<open>reinit\<close> is kept, and the mutexes have owners; the invariant of all interleavings.
    \<open>Retry_Safety\<close>: what the client guarantees, and its deadlock, its lost registration and its leak.
  \<^item> \<open>Go_Once\<close>: \<open>pkg/sync/once.go\<close>, whose \<open>Do\<close> ends streams and dialogues once. \<open>Io_Errors\<close>: the error classifiers
    of \<open>pkg/iodefine\<close>.

  \<^bold>\<open>What the theorems show.\<close> The codec: a stream of packets is read back as sent; allocation is bounded
  and oversized packets are refused; the reader panics on exactly the truncated payloads listed.
  Ids: no repetition within a period, in any mode, and none among ids in use. Connection and
  dialogue: packets go down in the order they were accepted and none is lost while the goroutines
  run, in every interleaving; what is not written by the end is reported; which sends on closed
  channels are possible; handshakes complete in every order and both sides agree on ids. Manager: a
  packet reaches the dialogue that has its id and no other; a dialogue is opened under one id on
  both sides; nothing opens after the end. Streams: raw bytes are read as delivered and written as
  accepted; a call ends with what the callee's handler answered and every request is answered once;
  a published message is acknowledged; which callers can and cannot hold up the end of a stream. Ends:
  the list of streams is that of the live ones; merged options are those last set; each accepted
  connection is handed over once; when the server's callbacks panic. Retrying client: one open end at
  a time, reconnection with the memorized procedures, and what can go wrong around it.
  Where the code falls short of this, the theorem states
  what happens instead.

  \<^bold>\<open>Choices.\<close> A packet handler, \<open>fini\<close>, the check and the send of \<open>Write\<close>, \<open>DialogueOnline\<close> with its
  notification, each of the three phases of \<open>OpenDialogue\<close> and each of the phases of a stream's
  callers (up to a wait, the entry into a list of waiters, the wait), and each stage of \<open>reinit\<close>
  between two pauses or calls are one step; all other interleavings
  of goroutines, callers and peer are covered, with the choice between two ready cases of a \<open>select\<close>
  an argument. A step that would block is not taken. \<open>failedCh\<close> is unbounded, since its consumer is
  outside. The write loop of \<open>EncodeToWriter\<close> is a \<open>partial_function\<close> with a theorem that it returns;
  the other loops are structural or have a measure, so no fuel occurs.

  \<^bold>\<open>Parameters.\<close> \<open>emit\<close> is \<open>EmitEvent\<close> of \<open>yafsm\<close>; theorems that need it assume \<open>documented_fsm\<close>, that it
  follows the registered transition and errs without one; \<open>table_next\<close> satisfies it. The network
  writer, the delegates, the clock and random bytes are arguments. The hub of pending calls
  (\<open>synchub\<close>) is seen through what is asked of it, and its answers are inputs.

  \<^bold>\<open>Not modelled.\<close> Logging and channel monitors are output only; interface declarations and
  accessors of single fields have no behaviour of their own; the routing of
  the dialogue hub repeats the manager's, has no caller and cannot run, since its constructor panics; a
  \<open>net.Conn\<close> whose operations all fail, mocks, tools, tests and examples are left out: nothing above
  depends on them.
\<close>

end
